(* ===== verification/Bochs_Prelude.thy ===== *)
theory Bochs_Prelude
  imports Main "HOL-Library.Word"
begin

unbundle bit_operations_syntax

text \<open>
  Shared vocabulary of the development: the integer types of \<^verbatim>\<open>config.h\<close>
  (\<open>Bit8u\<close> \<dots> \<open>Bit64u\<close>, the 64-bit \<open>bx_address\<close>), the C conversions between a
  \<open>bool\<close> and an integer, the \<open>named_theorems\<close> collections the component theories
  fill, and the facts about carry chains, borrows and single-bit masks that several
  components need.
\<close>

section \<open>Machine types\<close>

type_synonym Bit8u = "8 word"
type_synonym Bit16u = "16 word"
type_synonym Bit32u = "32 word"
type_synonym Bit64u = "64 word"
type_synonym bx_address = "64 word"

named_theorems lf_defs \<open>the lazy flag accessors and macros\<close>
named_theorems reg_defs \<open>general register accesses\<close>
named_theorems alu_defs \<open>arithmetic instruction handlers\<close>
named_theorems logic_defs \<open>logical instruction handlers\<close>
named_theorems shift_defs \<open>shift and rotate instruction handlers\<close>
named_theorems mult_defs \<open>multiplication and division instruction handlers\<close>
named_theorems bcd_defs \<open>decimal adjust instruction handlers\<close>

section \<open>Bits and single-bit masks\<close>

lemma and_1_bit: "w AND 1 = of_bool (bit w 0)" for w :: "'a::len word"
  by (simp add: and_one_eq bit_0 mod2_eq_if)

lemma drop_bit_and_1: "drop_bit n w AND 1 = of_bool (bit w n)" for w :: "'a::len word"
  by (simp add: and_1_bit bit_drop_bit_eq)

lemma byte_mask: "255 AND w = take_bit 8 w" for w :: "'a::len word"
  by (simp add: take_bit_eq_mask mask_numeral and.commute)

lemma and_mask_eq_0_iff: "w AND push_bit n 1 = 0 \<longleftrightarrow> \<not> bit w n" for w :: "'a::len word"
proof
  assume "w AND push_bit n 1 = 0"
  then have "\<not> bit (w AND push_bit n 1) n" by simp
  then show "\<not> bit w n"
    by (auto simp: bit_simps simp flip: push_bit_eq_mult dest: bit_imp_le_length)
next
  assume "\<not> bit w n"
  then show "w AND push_bit n 1 = 0"
    by (auto intro!: bit_word_eqI simp: bit_simps)
qed

section \<open>Carry and borrow chains\<close>

text \<open>
  \<open>carry c n a b\<close> is the carry into bit \<open>n\<close> of \<open>a + b + c\<close>, and \<open>borrow c n a b\<close> the
  borrow out of the \<open>n\<close> low bits of \<open>a - b - c\<close>; both are stated arithmetically.
\<close>

definition carry :: "bool \<Rightarrow> nat \<Rightarrow> 'a::len word \<Rightarrow> 'a word \<Rightarrow> bool" where
  "carry c n a b \<longleftrightarrow> 2 ^ n \<le> take_bit n (uint a) + take_bit n (uint b) + of_bool c"

definition borrow :: "bool \<Rightarrow> nat \<Rightarrow> 'a::len word \<Rightarrow> 'a word \<Rightarrow> bool" where
  "borrow c n a b \<longleftrightarrow> take_bit n (uint a) < take_bit n (uint b) + of_bool c"

lemma carry_0 [simp]: "carry c 0 a b = c"
  by (simp add: carry_def)

lemma borrow_0 [simp]: "borrow c 0 a b = c"
  by (simp add: borrow_def)

lemma take_bit_Suc_bit: "take_bit (Suc n) k = take_bit n k + 2 ^ n * of_bool (bit k n)" for k :: int
  by (simp add: take_bit_Suc_from_most)

lemma bit_uint_bit: "bit (uint w) n \<longleftrightarrow> bit w n" for w :: "'a::len word"
  by (auto simp: bit_uint_iff dest: bit_imp_le_length)

lemma chain_step_add:
  fixes x y p :: int
  assumes "0 \<le> x" "x < p" "0 \<le> y" "y < p"
  shows "2 * p \<le> x + p * of_bool A + (y + p * of_bool B) + of_bool c \<longleftrightarrow>
    (A \<and> B) \<or> ((A \<or> B) \<and> p \<le> x + y + of_bool c)"
  using assms by (cases A; cases B; cases c) auto

lemma chain_step_sub:
  fixes x y p :: int
  assumes "0 \<le> x" "x < p" "0 \<le> y" "y < p"
  shows "x + p * of_bool A < y + p * of_bool B + of_bool c \<longleftrightarrow>
    (\<not> A \<and> B) \<or> ((A \<longleftrightarrow> B) \<and> x < y + of_bool c)"
  using assms by (cases A; cases B; cases c) auto

lemma carry_Suc:
  "carry c (Suc n) a b \<longleftrightarrow>
     (bit a n \<and> bit b n) \<or> ((bit a n \<or> bit b n) \<and> carry c n a b)"
  using chain_step_add [of "take_bit n (uint a)" "2 ^ n" "take_bit n (uint b)" "bit a n" "bit b n" c]
  by (simp add: carry_def take_bit_Suc_bit bit_uint_bit)

lemma borrow_Suc:
  "borrow c (Suc n) a b \<longleftrightarrow>
     (\<not> bit a n \<and> bit b n) \<or> ((bit a n \<longleftrightarrow> bit b n) \<and> borrow c n a b)"
  using chain_step_sub [of "take_bit n (uint a)" "2 ^ n" "take_bit n (uint b)" "bit a n" "bit b n" c]
  by (simp add: borrow_def take_bit_Suc_bit bit_uint_bit)

lemma bit_int_add_carry:
  fixes A B :: int
  shows "bit (A + B + of_bool c) n \<longleftrightarrow>
    (bit A n \<noteq> (bit B n \<noteq> (2 ^ n \<le> take_bit n A + take_bit n B + of_bool c)))"
proof -
  let ?t = "take_bit n A + take_bit n B + of_bool c"
  have bounds: "0 \<le> ?t" "?t < 2 * 2 ^ n"
    using take_bit_int_less_exp [of n A] take_bit_int_less_exp [of n B]
    by (cases c; simp; linarith)+
  have "A + B + of_bool c = ?t + (A div 2 ^ n + B div 2 ^ n) * 2 ^ n"
    by (simp add: take_bit_eq_mod algebra_simps flip: minus_mod_eq_mult_div)
  then have "(A + B + of_bool c) div 2 ^ n = (A div 2 ^ n + B div 2 ^ n) + ?t div 2 ^ n"
    by (simp only: div_mult_self1 power_not_zero zero_neq_numeral not_False_eq_True not_sym)
  moreover have "?t div 2 ^ n = of_bool (2 ^ n \<le> ?t)"
  proof (cases "2 ^ n \<le> ?t")
    case True
    then have "?t div 2 ^ n = 1"
      using bounds by (intro div_pos_geq [THEN trans]) (auto simp: div_pos_pos_trivial)
    with True show ?thesis by simp
  qed (use bounds in \<open>simp add: div_pos_pos_trivial\<close>)
  ultimately show ?thesis
    by (auto simp: bit_iff_odd)
qed

lemma bit_add_carry:
  fixes a b :: "'a::len word"
  assumes "n < LENGTH('a)"
  shows "bit (a + b + of_bool c) n \<longleftrightarrow> (bit a n \<noteq> (bit b n \<noteq> carry c n a b))"
proof -
  have "a + b + of_bool c = word_of_int (uint a + uint b + of_bool c)"
    by simp
  with assms have "bit (a + b + of_bool c) n \<longleftrightarrow> bit (uint a + uint b + of_bool c) n"
    by (metis bit_word_of_int_iff)
  with assms show ?thesis
    unfolding carry_def bit_int_add_carry by (simp add: bit_uint_iff)
qed

lemma borrow_carry:
  fixes a b :: "'a::len word"
  assumes "n \<le> LENGTH('a)"
  shows "borrow c n a b \<longleftrightarrow> \<not> carry (\<not> c) n a (NOT b)"
  using assms
proof (induction n)
  case (Suc n)
  then have "bit (NOT b) n \<longleftrightarrow> \<not> bit b n"
    by (simp add: bit_not_iff)
  with Suc show ?case
    by (auto simp: borrow_Suc carry_Suc)
qed simp

lemma bit_diff_borrow:
  fixes a b :: "'a::len word"
  assumes "n < LENGTH('a)"
  shows "bit (a - (b + of_bool c)) n \<longleftrightarrow> (bit a n \<noteq> (bit b n \<noteq> borrow c n a b))"
proof -
  have "a - (b + of_bool c) = a + NOT b + of_bool (\<not> c)"
    by (simp add: not_eq_complement of_bool_def)
  moreover have "bit (NOT b) n \<longleftrightarrow> \<not> bit b n"
    using assms by (simp add: bit_not_iff)
  ultimately show ?thesis
    using assms by (simp only: bit_add_carry borrow_carry less_imp_le) blast
qed

lemma bit_add_single:
  fixes w :: "'a::len word"
  assumes "Suc k < LENGTH('a)"
  shows "bit (w + 2 ^ k) (Suc k) \<longleftrightarrow> (bit w (Suc k) \<noteq> bit w k)"
proof -
  let ?p = "2 ^ k :: 'a word"
  have p: "bit ?p n \<longleftrightarrow> n = k" if "n < LENGTH('a)" for n
    using assms that by (auto simp: bit_simps)
  have "\<not> carry False n w ?p" if "n \<le> k" for n
    using that assms by (induction n) (auto simp: carry_Suc p)
  then have "carry False (Suc k) w ?p \<longleftrightarrow> bit w k"
    using assms p [of k] by (auto simp: carry_Suc)
  then show ?thesis
    using bit_add_carry [of "Suc k" w ?p False] assms p [of "Suc k"] by simp
qed

lemma sint_split:
  "sint w = take_bit (LENGTH('a) - 1) (uint w) - 2 ^ (LENGTH('a) - 1) * of_bool (bit w (LENGTH('a) - 1))"
  for w :: "'a::len word"
proof -
  have "signed_take_bit n k = take_bit n k - 2 ^ n * of_bool (bit k n)" for n and k :: int
    by (simp add: signed_take_bit_eq_take_bit_minus take_bit_Suc_bit)
  then show ?thesis
    by (simp add: sint_uint bit_uint_bit)
qed

lemma sign_split_arith:
  "u = t + p * of_bool b \<Longrightarrow> s = t - p * of_bool b \<Longrightarrow> 0 \<le> t \<Longrightarrow> t < p \<Longrightarrow> s = (if p \<le> u then u - 2 * p else u)" for s t u p :: int
  by (cases b) auto

lemma sint_cases:
  "sint w = (if 2 * uint w < 2 ^ LENGTH('a) then uint w else uint w - 2 ^ LENGTH('a))" for w :: "'a::len word"
proof -
  obtain n where n: "LENGTH('a) = Suc n" by (cases "LENGTH('a)") auto
  have "uint w = take_bit n (uint w) + 2 ^ n * of_bool (bit w n)"
    using take_bit_Suc_bit [of n "uint w"] take_bit_int_eq_self [of "uint w" "LENGTH('a)"]
    by (simp add: bit_uint_bit flip: n)
  moreover have "take_bit n (uint w) < 2 ^ n" "0 \<le> take_bit n (uint w)" by simp_all
  ultimately have "sint w = (if 2 ^ n \<le> uint w then uint w - 2 * 2 ^ n else uint w)"
    using sint_split [of w] by (intro sign_split_arith [of _ "take_bit n (uint w)" _ "bit w n"]) (simp_all add: n)
  then show ?thesis by (auto simp: n)
qed

lemma mod_below_double: "0 \<le> t \<Longrightarrow> t < 2 * p \<Longrightarrow> t mod p = t - p * of_bool (p \<le> t)" for t p :: int
  using mod_pos_pos_trivial [of "t - p" p] by (auto simp: mod_pos_pos_trivial)

text \<open>Signed overflow is the disagreement of the carries into and out of the sign bit.\<close>

lemma overflow_arith:
  fixes x y p t :: int
  assumes "0 \<le> x" "x < p" "0 \<le> y" "y < p" "t = x + y + of_bool c - p * of_bool k"
    and "k \<longleftrightarrow> p \<le> x + y + of_bool c" "R \<longleftrightarrow> (A \<noteq> (B \<noteq> k))"
  shows "t - p * of_bool R = (x - p * of_bool A) + (y - p * of_bool B) + of_bool c \<longleftrightarrow>
    (((A \<and> B) \<or> ((A \<or> B) \<and> k)) \<longleftrightarrow> k)"
  using assms by (cases A; cases B; cases k; cases c) auto

lemma uint_sum: "uint (a + b + of_bool c) = take_bit LENGTH('a) (uint a + uint b + of_bool c)"
  for a b :: "'a::len word"
proof -
  have "a + b + of_bool c = word_of_int (uint a + uint b + of_bool c)"
    by simp
  then show ?thesis by (simp only: uint_word_of_int_eq)
qed

lemma take_bit_add_carry:
  fixes a b :: "'a::len word"
  assumes "n \<le> LENGTH('a)"
  shows "take_bit n (uint (a + b + of_bool c)) =
    take_bit n (uint a) + take_bit n (uint b) + of_bool c - 2 ^ n * of_bool (carry c n a b)"
proof -
  let ?t = "take_bit n (uint a) + take_bit n (uint b) + of_bool c"
  have "take_bit n (uint (a + b + of_bool c)) = take_bit n (uint a + uint b + of_bool c)"
    using assms by (simp add: uint_sum min_def)
  also have "\<dots> = ?t mod 2 ^ n"
    by (simp add: take_bit_eq_mod) (metis mod_add_eq mod_add_left_eq)
  finally have "take_bit n (uint (a + b + of_bool c)) = ?t mod 2 ^ n" .
  moreover have "0 \<le> ?t" "?t < 2 * 2 ^ n"
    using take_bit_int_less_exp [of n "uint a"] take_bit_int_less_exp [of n "uint b"]
    by (cases c; simp; linarith)+
  then have "?t mod 2 ^ n = ?t - 2 ^ n * of_bool (2 ^ n \<le> ?t)"
    by (rule mod_below_double)
  ultimately show ?thesis by (simp add: carry_def)
qed

lemma add_overflow_carry:
  fixes a b :: "'a::len word"
  shows "sint (a + b + of_bool c) \<noteq> sint a + sint b + of_bool c \<longleftrightarrow>
    (carry c LENGTH('a) a b \<noteq> carry c (LENGTH('a) - 1) a b)"
proof -
  let ?m = "LENGTH('a) - 1" and ?r = "a + b + of_bool c"
  have L: "LENGTH('a) = Suc ?m" by simp
  have "sint ?r = sint a + sint b + of_bool c \<longleftrightarrow> (carry c (Suc ?m) a b \<longleftrightarrow> carry c ?m a b)"
    unfolding sint_split carry_Suc
  proof (rule overflow_arith)
    show "take_bit ?m (uint ?r) =
        take_bit ?m (uint a) + take_bit ?m (uint b) + of_bool c - 2 ^ ?m * of_bool (carry c ?m a b)"
      by (rule take_bit_add_carry) simp
    show "bit ?r ?m \<longleftrightarrow> (bit a ?m \<noteq> (bit b ?m \<noteq> carry c ?m a b))"
      by (rule bit_add_carry) simp
  qed (simp_all add: carry_def)
  then show ?thesis using L by simp
qed

lemma diff_eq_add_not: "a - (b + of_bool c) = a + NOT b + of_bool (\<not> c)" for a b :: "'a::len word"
  by (simp add: not_eq_complement of_bool_def)

lemma sub_overflow_borrow:
  fixes a b :: "'a::len word"
  shows "sint (a - (b + of_bool c)) \<noteq> sint a - sint b - of_bool c \<longleftrightarrow>
    (borrow c LENGTH('a) a b \<noteq> borrow c (LENGTH('a) - 1) a b)"
proof -
  have "sint (NOT b) = NOT (sint b)"
    by (rule bit_eqI) (auto simp: bit_sint_iff bit_not_iff dest: bit_imp_le_length)
  then have *: "sint a - sint b - of_bool c = sint a + sint (NOT b) + of_bool (\<not> c)"
    by (simp add: not_eq_complement of_bool_def)
  show ?thesis
    unfolding diff_eq_add_not * add_overflow_carry by (simp add: borrow_carry)
qed

lemma ucast_sum:
  fixes a b :: "'c::len word"
  assumes "LENGTH('n) \<le> LENGTH('c)"
  shows "(ucast (a + b + of_bool c) :: 'n::len word) = ucast a + ucast b + of_bool c"
proof -
  have "(ucast (a + b + of_bool c) :: 'n word) = word_of_int (uint a + uint b + of_bool c)"
    unfolding ucast_eq word_of_int_eq_iff uint_sum using assms by (simp add: min_def)
  then show ?thesis by (simp only: of_int_add of_int_of_bool flip: ucast_eq)
qed

lemma ucast_not: "LENGTH('n) \<le> LENGTH('c) \<Longrightarrow> (ucast (NOT b) :: 'n::len word) = NOT (ucast b)"
  for b :: "'c::len word"
  by (rule bit_word_eqI) (auto simp: bit_simps)

lemma ucast_diff:
  fixes a b :: "'c::len word"
  assumes "LENGTH('n) \<le> LENGTH('c)"
  shows "(ucast (a - (b + of_bool c)) :: 'n::len word) = ucast a - (ucast b + of_bool c)"
  unfolding diff_eq_add_not by (simp only: ucast_sum [OF assms] ucast_not [OF assms])

lemma take_bit_LENGTH_uint [simp]: "take_bit LENGTH('a) (uint w) = uint w" for w :: "'a::len word"
  by (simp add: take_bit_int_eq_self)

lemma carry_LENGTH: "carry c LENGTH('a) a b \<longleftrightarrow> 2 ^ LENGTH('a) \<le> uint a + uint b + of_bool c"
  for a b :: "'a::len word"
  by (simp add: carry_def)

lemma borrow_LENGTH: "borrow c LENGTH('a) a b \<longleftrightarrow> uint a < uint b + of_bool c"
  for a b :: "'a::len word"
  by (simp add: borrow_def)

lemma carry_4: "carry c 4 a b \<longleftrightarrow> 16 \<le> uint a mod 16 + uint b mod 16 + of_bool c"
  by (simp add: carry_def take_bit_eq_mod)

lemma borrow_4: "borrow c 4 a b \<longleftrightarrow> uint a mod 16 < uint b mod 16 + of_bool c"
  by (simp add: borrow_def take_bit_eq_mod)

lemma carry_ucast:
  fixes a b :: "'c::len word"
  assumes "n \<le> LENGTH('n::len)"
  shows "carry c n (ucast a :: 'n word) (ucast b) = carry c n a b"
  using assms by (simp add: carry_def unsigned_ucast_eq min_def)

lemma borrow_ucast:
  fixes a b :: "'c::len word"
  assumes "n \<le> LENGTH('n::len)"
  shows "borrow c n (ucast a :: 'n word) (ucast b) = borrow c n a b"
  using assms by (simp add: borrow_def unsigned_ucast_eq min_def)

lemma upt_8: "[0..<8] = [0, 1, 2, 3, 4, 5, 6, 7 :: nat]"
  by code_simp

lemma even_length_filter_Cons:
  "even (length (filter P (x # xs))) \<longleftrightarrow> (P x \<noteq> even (length (filter P xs)))"
  by simp

end
