(* ===== verification/Lazy_Flags.thy ===== *)
theory Lazy_Flags
  imports Bochs_Prelude
begin

text \<open>
  The lazy arithmetic flags of \<^verbatim>\<open>cpu/lazy_flags.h\<close>. The emulator does not compute
  OF, SF, ZF, AF, PF and CF when an instruction executes: it stores the sign-extended
  \<open>result\<close> and a word \<open>auxbits\<close> of carries, and each flag is recovered when it is read.
  The definitions below are the macros and the inline members of
  \<open>bx_lazyflags_entry\<close>; the lemmas show that the encoding implements six independent
  boolean flags (record \<open>flags6\<close>) and that the \<open>SET_FLAGS\<close> macros leave exactly the
  architectural flags of an addition, a subtraction or a logical operation at every
  operand size.
\<close>

unbundle bit_operations_syntax

section \<open>The encoding\<close>

abbreviation (input) LF_BIT_SD :: nat where "LF_BIT_SD \<equiv> 0"
abbreviation (input) LF_BIT_AF :: nat where "LF_BIT_AF \<equiv> 3"
abbreviation (input) LF_BIT_PDB :: nat where "LF_BIT_PDB \<equiv> 8"
abbreviation (input) LF_BIT_CF :: nat where "LF_BIT_CF \<equiv> 31"
abbreviation (input) LF_BIT_PO :: nat where "LF_BIT_PO \<equiv> 30"
abbreviation (input) BX_LF_SIGN_BIT :: nat where "BX_LF_SIGN_BIT \<equiv> 63"

definition LF_MASK_SD :: Bit32u where [lf_defs]: "LF_MASK_SD = push_bit LF_BIT_SD 1"
definition LF_MASK_AF :: Bit32u where [lf_defs]: "LF_MASK_AF = push_bit LF_BIT_AF 1"
definition LF_MASK_PDB :: Bit32u where [lf_defs]: "LF_MASK_PDB = push_bit LF_BIT_PDB 0xFF"
definition LF_MASK_CF :: Bit32u where [lf_defs]: "LF_MASK_CF = push_bit LF_BIT_CF 1"
definition LF_MASK_PO :: Bit32u where [lf_defs]: "LF_MASK_PO = push_bit LF_BIT_PO 1"

definition ADD_COUT_VEC :: "'a::len word \<Rightarrow> 'a word \<Rightarrow> 'a word \<Rightarrow> 'a word" where
  "ADD_COUT_VEC op1 op2 result = (op1 AND op2) OR ((op1 OR op2) AND NOT result)"

definition SUB_COUT_VEC :: "'a::len word \<Rightarrow> 'a word \<Rightarrow> 'a word \<Rightarrow> 'a word" where
  "SUB_COUT_VEC op1 op2 result = (NOT op1 AND op2) OR ((NOT op1 XOR op2) AND result)"

definition GET_ADD_OVERFLOW :: "'a::len word \<Rightarrow> 'a word \<Rightarrow> 'a word \<Rightarrow> 'a word \<Rightarrow> 'a word" where
  "GET_ADD_OVERFLOW op1 op2 result msk = ((op1 XOR result) AND (op2 XOR result)) AND msk"

record bx_lazyflags_entry =
  result :: bx_address
  auxbits :: bx_address

text \<open>
  The two macros that write the entry. The carries are computed in \<open>Bit32u\<close> for the
  sizes 8, 16 and 32 and in \<open>Bit64u\<close> for the size 64, so their type is a parameter;
  \<open>(Bit##size##s)\<close> followed by the widening to \<open>bx_address\<close> is the sign extension of
  the low \<open>size\<close> bits.
\<close>

definition lf_temp :: "nat \<Rightarrow> 'c::len word \<Rightarrow> bx_address" where
  "lf_temp sz lf_carries =
     (let temp = ucast ((lf_carries AND ucast LF_MASK_AF) OR
                        push_bit LF_BIT_PO (drop_bit (sz - 2) lf_carries));
          temp = (if sz = 32 then ucast (lf_carries AND ucast (NOT (LF_MASK_PDB OR LF_MASK_SD)))
                  else temp);
          temp = (if sz = 16 then ucast ((lf_carries AND ucast LF_MASK_AF) OR push_bit 16 lf_carries)
                  else temp)
      in if sz = 8 then ucast ((lf_carries AND ucast LF_MASK_AF) OR push_bit 24 lf_carries)
         else temp)"

definition SET_FLAGS_OSZAPC_SIZE ::
    "nat \<Rightarrow> 'c::len word \<Rightarrow> 'c word \<Rightarrow> bx_lazyflags_entry \<Rightarrow> bx_lazyflags_entry" where
  "SET_FLAGS_OSZAPC_SIZE sz lf_carries lf_result e =
     e\<lparr>result := signed_take_bit (sz - 1) (ucast lf_result),
       auxbits := ucast (ucast (lf_temp sz lf_carries) :: Bit32u)\<rparr>"

definition SET_FLAGS_OSZAP_SIZE ::
    "nat \<Rightarrow> 'c::len word \<Rightarrow> 'c word \<Rightarrow> bx_lazyflags_entry \<Rightarrow> bx_lazyflags_entry" where
  "SET_FLAGS_OSZAP_SIZE sz lf_carries lf_result e =
     (let temp = lf_temp sz lf_carries;
          delta_c = (auxbits e XOR temp) AND ucast LF_MASK_CF;
          delta_c = delta_c XOR drop_bit 1 delta_c
      in e\<lparr>result := signed_take_bit (sz - 1) (ucast lf_result),
           auxbits := ucast (ucast (temp XOR delta_c) :: Bit32u)\<rparr>)"

subsection \<open>The sized macros\<close>

definition SET_FLAGS_OSZAPC_8 :: "Bit32u \<Rightarrow> Bit32u \<Rightarrow> bx_lazyflags_entry \<Rightarrow> bx_lazyflags_entry" where
  "SET_FLAGS_OSZAPC_8 = SET_FLAGS_OSZAPC_SIZE 8"
definition SET_FLAGS_OSZAPC_16 :: "Bit32u \<Rightarrow> Bit32u \<Rightarrow> bx_lazyflags_entry \<Rightarrow> bx_lazyflags_entry" where
  "SET_FLAGS_OSZAPC_16 = SET_FLAGS_OSZAPC_SIZE 16"
definition SET_FLAGS_OSZAPC_32 :: "Bit32u \<Rightarrow> Bit32u \<Rightarrow> bx_lazyflags_entry \<Rightarrow> bx_lazyflags_entry" where
  "SET_FLAGS_OSZAPC_32 = SET_FLAGS_OSZAPC_SIZE 32"
definition SET_FLAGS_OSZAPC_64 :: "Bit64u \<Rightarrow> Bit64u \<Rightarrow> bx_lazyflags_entry \<Rightarrow> bx_lazyflags_entry" where
  "SET_FLAGS_OSZAPC_64 = SET_FLAGS_OSZAPC_SIZE 64"

definition SET_FLAGS_OSZAPC_LOGIC_8 :: "Bit32u \<Rightarrow> bx_lazyflags_entry \<Rightarrow> bx_lazyflags_entry" where
  "SET_FLAGS_OSZAPC_LOGIC_8 result_8 = SET_FLAGS_OSZAPC_8 0 result_8"
definition SET_FLAGS_OSZAPC_LOGIC_16 :: "Bit32u \<Rightarrow> bx_lazyflags_entry \<Rightarrow> bx_lazyflags_entry" where
  "SET_FLAGS_OSZAPC_LOGIC_16 result_16 = SET_FLAGS_OSZAPC_16 0 result_16"
definition SET_FLAGS_OSZAPC_LOGIC_32 :: "Bit32u \<Rightarrow> bx_lazyflags_entry \<Rightarrow> bx_lazyflags_entry" where
  "SET_FLAGS_OSZAPC_LOGIC_32 result_32 = SET_FLAGS_OSZAPC_32 0 result_32"
definition SET_FLAGS_OSZAPC_LOGIC_64 :: "Bit64u \<Rightarrow> bx_lazyflags_entry \<Rightarrow> bx_lazyflags_entry" where
  "SET_FLAGS_OSZAPC_LOGIC_64 result_64 = SET_FLAGS_OSZAPC_64 0 result_64"

definition SET_FLAGS_OSZAPC_ADD_8 :: "Bit32u \<Rightarrow> Bit32u \<Rightarrow> Bit32u \<Rightarrow> bx_lazyflags_entry \<Rightarrow> bx_lazyflags_entry" where
  "SET_FLAGS_OSZAPC_ADD_8 op1 op2 s = SET_FLAGS_OSZAPC_8 (ADD_COUT_VEC op1 op2 s) s"
definition SET_FLAGS_OSZAPC_ADD_16 :: "Bit32u \<Rightarrow> Bit32u \<Rightarrow> Bit32u \<Rightarrow> bx_lazyflags_entry \<Rightarrow> bx_lazyflags_entry" where
  "SET_FLAGS_OSZAPC_ADD_16 op1 op2 s = SET_FLAGS_OSZAPC_16 (ADD_COUT_VEC op1 op2 s) s"
definition SET_FLAGS_OSZAPC_ADD_32 :: "Bit32u \<Rightarrow> Bit32u \<Rightarrow> Bit32u \<Rightarrow> bx_lazyflags_entry \<Rightarrow> bx_lazyflags_entry" where
  "SET_FLAGS_OSZAPC_ADD_32 op1 op2 s = SET_FLAGS_OSZAPC_32 (ADD_COUT_VEC op1 op2 s) s"
definition SET_FLAGS_OSZAPC_ADD_64 :: "Bit64u \<Rightarrow> Bit64u \<Rightarrow> Bit64u \<Rightarrow> bx_lazyflags_entry \<Rightarrow> bx_lazyflags_entry" where
  "SET_FLAGS_OSZAPC_ADD_64 op1 op2 s = SET_FLAGS_OSZAPC_64 (ADD_COUT_VEC op1 op2 s) s"

definition SET_FLAGS_OSZAPC_SUB_8 :: "Bit32u \<Rightarrow> Bit32u \<Rightarrow> Bit32u \<Rightarrow> bx_lazyflags_entry \<Rightarrow> bx_lazyflags_entry" where
  "SET_FLAGS_OSZAPC_SUB_8 op1 op2 d = SET_FLAGS_OSZAPC_8 (SUB_COUT_VEC op1 op2 d) d"
definition SET_FLAGS_OSZAPC_SUB_16 :: "Bit32u \<Rightarrow> Bit32u \<Rightarrow> Bit32u \<Rightarrow> bx_lazyflags_entry \<Rightarrow> bx_lazyflags_entry" where
  "SET_FLAGS_OSZAPC_SUB_16 op1 op2 d = SET_FLAGS_OSZAPC_16 (SUB_COUT_VEC op1 op2 d) d"
definition SET_FLAGS_OSZAPC_SUB_32 :: "Bit32u \<Rightarrow> Bit32u \<Rightarrow> Bit32u \<Rightarrow> bx_lazyflags_entry \<Rightarrow> bx_lazyflags_entry" where
  "SET_FLAGS_OSZAPC_SUB_32 op1 op2 d = SET_FLAGS_OSZAPC_32 (SUB_COUT_VEC op1 op2 d) d"
definition SET_FLAGS_OSZAPC_SUB_64 :: "Bit64u \<Rightarrow> Bit64u \<Rightarrow> Bit64u \<Rightarrow> bx_lazyflags_entry \<Rightarrow> bx_lazyflags_entry" where
  "SET_FLAGS_OSZAPC_SUB_64 op1 op2 d = SET_FLAGS_OSZAPC_64 (SUB_COUT_VEC op1 op2 d) d"

definition SET_FLAGS_OSZAP_8 :: "Bit32u \<Rightarrow> Bit32u \<Rightarrow> bx_lazyflags_entry \<Rightarrow> bx_lazyflags_entry" where
  "SET_FLAGS_OSZAP_8 = SET_FLAGS_OSZAP_SIZE 8"
definition SET_FLAGS_OSZAP_16 :: "Bit32u \<Rightarrow> Bit32u \<Rightarrow> bx_lazyflags_entry \<Rightarrow> bx_lazyflags_entry" where
  "SET_FLAGS_OSZAP_16 = SET_FLAGS_OSZAP_SIZE 16"
definition SET_FLAGS_OSZAP_32 :: "Bit32u \<Rightarrow> Bit32u \<Rightarrow> bx_lazyflags_entry \<Rightarrow> bx_lazyflags_entry" where
  "SET_FLAGS_OSZAP_32 = SET_FLAGS_OSZAP_SIZE 32"
definition SET_FLAGS_OSZAP_64 :: "Bit64u \<Rightarrow> Bit64u \<Rightarrow> bx_lazyflags_entry \<Rightarrow> bx_lazyflags_entry" where
  "SET_FLAGS_OSZAP_64 = SET_FLAGS_OSZAP_SIZE 64"

definition SET_FLAGS_OSZAP_ADD_8 :: "Bit32u \<Rightarrow> Bit32u \<Rightarrow> Bit32u \<Rightarrow> bx_lazyflags_entry \<Rightarrow> bx_lazyflags_entry" where
  "SET_FLAGS_OSZAP_ADD_8 op1 op2 s = SET_FLAGS_OSZAP_8 (ADD_COUT_VEC op1 op2 s) s"
definition SET_FLAGS_OSZAP_ADD_16 :: "Bit32u \<Rightarrow> Bit32u \<Rightarrow> Bit32u \<Rightarrow> bx_lazyflags_entry \<Rightarrow> bx_lazyflags_entry" where
  "SET_FLAGS_OSZAP_ADD_16 op1 op2 s = SET_FLAGS_OSZAP_16 (ADD_COUT_VEC op1 op2 s) s"
definition SET_FLAGS_OSZAP_ADD_32 :: "Bit32u \<Rightarrow> Bit32u \<Rightarrow> Bit32u \<Rightarrow> bx_lazyflags_entry \<Rightarrow> bx_lazyflags_entry" where
  "SET_FLAGS_OSZAP_ADD_32 op1 op2 s = SET_FLAGS_OSZAP_32 (ADD_COUT_VEC op1 op2 s) s"
definition SET_FLAGS_OSZAP_ADD_64 :: "Bit64u \<Rightarrow> Bit64u \<Rightarrow> Bit64u \<Rightarrow> bx_lazyflags_entry \<Rightarrow> bx_lazyflags_entry" where
  "SET_FLAGS_OSZAP_ADD_64 op1 op2 s = SET_FLAGS_OSZAP_64 (ADD_COUT_VEC op1 op2 s) s"

definition SET_FLAGS_OSZAP_SUB_8 :: "Bit32u \<Rightarrow> Bit32u \<Rightarrow> Bit32u \<Rightarrow> bx_lazyflags_entry \<Rightarrow> bx_lazyflags_entry" where
  "SET_FLAGS_OSZAP_SUB_8 op1 op2 d = SET_FLAGS_OSZAP_8 (SUB_COUT_VEC op1 op2 d) d"
definition SET_FLAGS_OSZAP_SUB_16 :: "Bit32u \<Rightarrow> Bit32u \<Rightarrow> Bit32u \<Rightarrow> bx_lazyflags_entry \<Rightarrow> bx_lazyflags_entry" where
  "SET_FLAGS_OSZAP_SUB_16 op1 op2 d = SET_FLAGS_OSZAP_16 (SUB_COUT_VEC op1 op2 d) d"
definition SET_FLAGS_OSZAP_SUB_32 :: "Bit32u \<Rightarrow> Bit32u \<Rightarrow> Bit32u \<Rightarrow> bx_lazyflags_entry \<Rightarrow> bx_lazyflags_entry" where
  "SET_FLAGS_OSZAP_SUB_32 op1 op2 d = SET_FLAGS_OSZAP_32 (SUB_COUT_VEC op1 op2 d) d"
definition SET_FLAGS_OSZAP_SUB_64 :: "Bit64u \<Rightarrow> Bit64u \<Rightarrow> Bit64u \<Rightarrow> bx_lazyflags_entry \<Rightarrow> bx_lazyflags_entry" where
  "SET_FLAGS_OSZAP_SUB_64 op1 op2 d = SET_FLAGS_OSZAP_64 (SUB_COUT_VEC op1 op2 d) d"

lemmas set_flags_defs =
  SET_FLAGS_OSZAPC_8_def SET_FLAGS_OSZAPC_16_def SET_FLAGS_OSZAPC_32_def SET_FLAGS_OSZAPC_64_def
  SET_FLAGS_OSZAPC_LOGIC_8_def SET_FLAGS_OSZAPC_LOGIC_16_def
  SET_FLAGS_OSZAPC_LOGIC_32_def SET_FLAGS_OSZAPC_LOGIC_64_def
  SET_FLAGS_OSZAPC_ADD_8_def SET_FLAGS_OSZAPC_ADD_16_def
  SET_FLAGS_OSZAPC_ADD_32_def SET_FLAGS_OSZAPC_ADD_64_def
  SET_FLAGS_OSZAPC_SUB_8_def SET_FLAGS_OSZAPC_SUB_16_def
  SET_FLAGS_OSZAPC_SUB_32_def SET_FLAGS_OSZAPC_SUB_64_def
  SET_FLAGS_OSZAP_8_def SET_FLAGS_OSZAP_16_def SET_FLAGS_OSZAP_32_def SET_FLAGS_OSZAP_64_def
  SET_FLAGS_OSZAP_ADD_8_def SET_FLAGS_OSZAP_ADD_16_def
  SET_FLAGS_OSZAP_ADD_32_def SET_FLAGS_OSZAP_ADD_64_def
  SET_FLAGS_OSZAP_SUB_8_def SET_FLAGS_OSZAP_SUB_16_def
  SET_FLAGS_OSZAP_SUB_32_def SET_FLAGS_OSZAP_SUB_64_def

section \<open>The members of \<open>bx_lazyflags_entry\<close>\<close>

definition set_flags_OxxxxC :: "Bit32u \<Rightarrow> Bit32u \<Rightarrow> bx_lazyflags_entry \<Rightarrow> bx_lazyflags_entry" where
  "set_flags_OxxxxC new_of new_cf e =
     (let temp_po = new_of XOR new_cf;
          aux = auxbits e AND ucast (NOT (LF_MASK_PO OR LF_MASK_CF))
      in e\<lparr>auxbits := aux OR ucast (push_bit LF_BIT_PO temp_po OR push_bit LF_BIT_CF new_cf)\<rparr>)"

definition assert_flags_OxxxxC :: "bx_lazyflags_entry \<Rightarrow> bx_lazyflags_entry" where
  "assert_flags_OxxxxC e = set_flags_OxxxxC 1 1 e"

definition getB_CF :: "bx_lazyflags_entry \<Rightarrow> Bit32u" where
  "getB_CF e = ucast (drop_bit LF_BIT_CF (auxbits e) AND 1)"
definition get_CF :: "bx_lazyflags_entry \<Rightarrow> Bit32u" where
  "get_CF e = ucast (auxbits e AND ucast LF_MASK_CF)"

definition getB_OF :: "bx_lazyflags_entry \<Rightarrow> Bit32u" where
  "getB_OF e = ucast (drop_bit LF_BIT_CF (auxbits e + push_bit LF_BIT_PO 1) AND 1)"
definition get_OF :: "bx_lazyflags_entry \<Rightarrow> Bit32u" where
  "get_OF e = ucast ((auxbits e + push_bit LF_BIT_PO 1) AND push_bit LF_BIT_CF 1)"
definition set_OF :: "bool \<Rightarrow> bx_lazyflags_entry \<Rightarrow> bx_lazyflags_entry" where
  "set_OF val e = (let temp_cf = getB_CF e \<noteq> 0 in set_flags_OxxxxC (of_bool val) (of_bool temp_cf) e)"
definition clear_OF :: "bx_lazyflags_entry \<Rightarrow> bx_lazyflags_entry" where
  "clear_OF e = (let temp_cf = getB_CF e \<noteq> 0 in set_flags_OxxxxC 0 (of_bool temp_cf) e)"
definition assert_OF :: "bx_lazyflags_entry \<Rightarrow> bx_lazyflags_entry" where
  "assert_OF e = (let temp_cf = getB_CF e in set_flags_OxxxxC 1 temp_cf e)"

definition getB_SF :: "bx_lazyflags_entry \<Rightarrow> Bit32u" where
  "getB_SF e = ucast ((drop_bit BX_LF_SIGN_BIT (result e) XOR drop_bit LF_BIT_SD (auxbits e)) AND 1)"
definition get_SF :: "bx_lazyflags_entry \<Rightarrow> Bit32u" where
  "get_SF e = getB_SF e"
definition set_SF :: "bool \<Rightarrow> bx_lazyflags_entry \<Rightarrow> bx_lazyflags_entry" where
  "set_SF val e = (let temp_sf = getB_SF e \<noteq> 0
     in e\<lparr>auxbits := auxbits e XOR push_bit LF_BIT_SD (of_bool temp_sf XOR of_bool val)\<rparr>)"
definition clear_SF :: "bx_lazyflags_entry \<Rightarrow> bx_lazyflags_entry" where
  "clear_SF e = set_SF False e"
definition assert_SF :: "bx_lazyflags_entry \<Rightarrow> bx_lazyflags_entry" where
  "assert_SF e = set_SF True e"

definition getB_ZF :: "bx_lazyflags_entry \<Rightarrow> Bit32u" where
  "getB_ZF e = of_bool (0 = result e)"
definition get_ZF :: "bx_lazyflags_entry \<Rightarrow> Bit32u" where
  "get_ZF e = getB_ZF e"
definition clear_ZF :: "bx_lazyflags_entry \<Rightarrow> bx_lazyflags_entry" where
  "clear_ZF e = e\<lparr>result := result e OR push_bit 8 1\<rparr>"
definition assert_ZF :: "bx_lazyflags_entry \<Rightarrow> bx_lazyflags_entry" where
  "assert_ZF e =
     (let aux = auxbits e XOR push_bit LF_BIT_SD (drop_bit BX_LF_SIGN_BIT (result e) AND 1);
          temp_pdb = ucast (255 AND result e) :: Bit32u;
          aux = aux XOR ucast (push_bit LF_BIT_PDB temp_pdb)
      in e\<lparr>auxbits := aux, result := 0\<rparr>)"
definition set_ZF :: "bool \<Rightarrow> bx_lazyflags_entry \<Rightarrow> bx_lazyflags_entry" where
  "set_ZF val e = (if val then assert_ZF e else clear_ZF e)"

definition getB_AF :: "bx_lazyflags_entry \<Rightarrow> Bit32u" where
  "getB_AF e = ucast (drop_bit LF_BIT_AF (auxbits e) AND 1)"
definition get_AF :: "bx_lazyflags_entry \<Rightarrow> Bit32u" where
  "get_AF e = ucast (auxbits e AND ucast LF_MASK_AF)"
definition set_AF :: "bool \<Rightarrow> bx_lazyflags_entry \<Rightarrow> bx_lazyflags_entry" where
  "set_AF val e = e\<lparr>auxbits := (auxbits e AND ucast (NOT LF_MASK_AF)) OR push_bit LF_BIT_AF (of_bool val)\<rparr>"
definition clear_AF :: "bx_lazyflags_entry \<Rightarrow> bx_lazyflags_entry" where
  "clear_AF e = e\<lparr>auxbits := auxbits e AND ucast (NOT LF_MASK_AF)\<rparr>"
definition assert_AF :: "bx_lazyflags_entry \<Rightarrow> bx_lazyflags_entry" where
  "assert_AF e = e\<lparr>auxbits := auxbits e OR ucast LF_MASK_AF\<rparr>"

definition getB_PF :: "bx_lazyflags_entry \<Rightarrow> Bit32u" where
  "getB_PF e =
     (let temp = ucast (255 AND result e) :: Bit32u;
          temp = temp XOR ucast (255 AND drop_bit LF_BIT_PDB (auxbits e));
          temp = (temp XOR drop_bit 4 temp) AND 0x0F
      in drop_bit (unat temp) 0x9669 AND 1)"
definition get_PF :: "bx_lazyflags_entry \<Rightarrow> Bit32u" where
  "get_PF e = getB_PF e"
definition set_PF :: "bool \<Rightarrow> bx_lazyflags_entry \<Rightarrow> bx_lazyflags_entry" where
  "set_PF val e =
     (let temp_pdb = ucast (255 AND result e) XOR of_bool (\<not> val) :: Bit32u
      in e\<lparr>auxbits := (auxbits e AND ucast (NOT LF_MASK_PDB)) OR ucast (push_bit LF_BIT_PDB temp_pdb)\<rparr>)"
definition clear_PF :: "bx_lazyflags_entry \<Rightarrow> bx_lazyflags_entry" where
  "clear_PF e = set_PF False e"
definition assert_PF :: "bx_lazyflags_entry \<Rightarrow> bx_lazyflags_entry" where
  "assert_PF e = set_PF True e"

definition set_CF :: "bool \<Rightarrow> bx_lazyflags_entry \<Rightarrow> bx_lazyflags_entry" where
  "set_CF val e = (let temp_of = getB_OF e \<noteq> 0 in set_flags_OxxxxC (of_bool temp_of) (of_bool val) e)"
definition clear_CF :: "bx_lazyflags_entry \<Rightarrow> bx_lazyflags_entry" where
  "clear_CF e = (let temp_of = getB_OF e \<noteq> 0 in set_flags_OxxxxC (of_bool temp_of) 0 e)"
definition assert_CF :: "bx_lazyflags_entry \<Rightarrow> bx_lazyflags_entry" where
  "assert_CF e = (let temp_of = getB_OF e \<noteq> 0 in set_flags_OxxxxC (of_bool temp_of) 1 e)"

definition SET_FLAGS_OSZAxC_LOGIC_32 :: "Bit32u \<Rightarrow> bx_lazyflags_entry \<Rightarrow> bx_lazyflags_entry" where
  "SET_FLAGS_OSZAxC_LOGIC_32 result_32 e =
     (let saved_PF = getB_PF e \<noteq> 0 in set_PF saved_PF (SET_FLAGS_OSZAPC_SIZE 32 0 result_32 e))"
definition SET_FLAGS_OSZAxC_LOGIC_64 :: "Bit64u \<Rightarrow> bx_lazyflags_entry \<Rightarrow> bx_lazyflags_entry" where
  "SET_FLAGS_OSZAxC_LOGIC_64 result_64 e =
     (let saved_PF = getB_PF e \<noteq> 0 in set_PF saved_PF (SET_FLAGS_OSZAPC_SIZE 64 0 result_64 e))"

section \<open>The flags an entry stands for\<close>

text \<open>The abstract view: six booleans, read with the code's own accessors.\<close>

record flags6 =
  f_OF :: bool
  f_SF :: bool
  f_ZF :: bool
  f_AF :: bool
  f_PF :: bool
  f_CF :: bool

definition lf_flags :: "bx_lazyflags_entry \<Rightarrow> flags6" where
  "lf_flags e = \<lparr>f_OF = getB_OF e \<noteq> 0, f_SF = getB_SF e \<noteq> 0, f_ZF = getB_ZF e \<noteq> 0,
                 f_AF = getB_AF e \<noteq> 0, f_PF = getB_PF e \<noteq> 0, f_CF = getB_CF e \<noteq> 0\<rparr>"

definition even_parity :: "'a::len word \<Rightarrow> bool" where
  "even_parity w \<longleftrightarrow> even (length (filter (bit w) [0..<8]))"

subsection \<open>Each accessor as a bit test\<close>

lemma even_parity_unfold:
  "even_parity w \<longleftrightarrow>
     (bit w 0 = (bit w 1 = (bit w 2 = (bit w 3 = (bit w 4 = (bit w 5 = (bit w 6 = bit w 7)))))))"
  unfolding even_parity_def upt_8 even_length_filter_Cons by simp

lemma getB_CF_bit: "getB_CF e = of_bool (bit (auxbits e) 31)"
  by (simp add: getB_CF_def drop_bit_and_1)

lemma getB_AF_bit: "getB_AF e = of_bool (bit (auxbits e) 3)"
  by (simp add: getB_AF_def drop_bit_and_1)

lemma getB_OF_bit: "getB_OF e = of_bool (bit (auxbits e) 31 \<noteq> bit (auxbits e) 30)"
  using bit_add_single [of 30 "auxbits e"] by (simp add: getB_OF_def drop_bit_and_1)

lemma getB_SF_bit: "getB_SF e = of_bool (bit (result e) 63 \<noteq> bit (auxbits e) 0)"
  by (simp add: getB_SF_def and_1_bit bit_simps)

text \<open>
  The parity lookup: folding the byte onto its low nibble keeps its parity, and bit \<open>n\<close>
  of the constant \<open>0x9669\<close> is the parity of the nibble \<open>n\<close>.
\<close>

lemma parity_table:
  "list_all (\<lambda>n. drop_bit n (0x9669 :: Bit32u) AND 1 = of_bool (even_parity (of_nat n :: Bit32u))) [0..<16]"
  by code_simp

lemma parity_nibble:
  fixes x :: Bit32u
  assumes "take_bit 4 x = x"
  shows "drop_bit (unat x) (0x9669 :: Bit32u) AND 1 = of_bool (even_parity x)"
proof -
  have "unat x = take_bit 4 (unat x)"
    using assms by (metis unsigned_take_bit_eq)
  then have "unat x < 16"
    using take_bit_nat_less_exp [of 4 "unat x"] by simp
  then show ?thesis
    using parity_table by (simp add: list_all_iff)
qed

lemma getB_PF_parity:
  "getB_PF e = of_bool (even_parity (ucast (result e) XOR ucast (drop_bit 8 (auxbits e)) :: Bit8u))"
proof -
  define t :: Bit32u where "t = ucast (255 AND result e) XOR ucast (255 AND drop_bit 8 (auxbits e))"
  define x where "x = (t XOR drop_bit 4 t) AND 0x0F"
  have "x = take_bit 4 (t XOR drop_bit 4 t)"
    by (simp add: x_def take_bit_eq_mask mask_numeral)
  then have x: "take_bit 4 x = x" and "even_parity x = even_parity t"
    by (auto simp: even_parity_unfold bit_simps)
  moreover have "even_parity t = even_parity (ucast (result e) XOR ucast (drop_bit 8 (auxbits e)) :: Bit8u)"
    by (simp add: even_parity_unfold t_def bit_simps)
  ultimately show ?thesis
    using parity_nibble [OF x] by (simp add: getB_PF_def Let_def x_def t_def)
qed

lemma getB_ZF_zero: "getB_ZF e = of_bool (result e = 0)"
  by (auto simp: getB_ZF_def)

lemmas getB_bits = getB_OF_bit getB_SF_bit getB_ZF_zero getB_AF_bit getB_PF_parity getB_CF_bit

lemma lf_flags_bits:
  "lf_flags e =
     \<lparr>f_OF = (bit (auxbits e) 31 \<noteq> bit (auxbits e) 30), f_SF = (bit (result e) 63 \<noteq> bit (auxbits e) 0),
      f_ZF = (result e = 0), f_AF = bit (auxbits e) 3,
      f_PF = even_parity (ucast (result e) XOR ucast (drop_bit 8 (auxbits e)) :: Bit8u),
      f_CF = bit (auxbits e) 31\<rparr>"
  by (simp add: lf_flags_def getB_bits)

lemma getB_of_flags:
  "getB_OF e = of_bool (f_OF (lf_flags e))" "getB_SF e = of_bool (f_SF (lf_flags e))"
  "getB_ZF e = of_bool (f_ZF (lf_flags e))" "getB_AF e = of_bool (f_AF (lf_flags e))"
  "getB_PF e = of_bool (f_PF (lf_flags e))" "getB_CF e = of_bool (f_CF (lf_flags e))"
  by (simp_all add: lf_flags_def getB_bits)

subsection \<open>Every setter changes exactly its flag\<close>

lemma lf_flags_set_flags_OxxxxC:
  "lf_flags (set_flags_OxxxxC (of_bool o') (of_bool c') e) = (lf_flags e)\<lparr>f_OF := o', f_CF := c'\<rparr>"
  by (auto simp: lf_flags_bits set_flags_OxxxxC_def Let_def lf_defs bit_simps even_parity_unfold)

lemma lf_flags_set_OF: "lf_flags (set_OF v e) = (lf_flags e)\<lparr>f_OF := v\<rparr>"
  by (simp add: set_OF_def Let_def lf_flags_set_flags_OxxxxC getB_of_flags)

lemma lf_flags_set_CF: "lf_flags (set_CF v e) = (lf_flags e)\<lparr>f_CF := v\<rparr>"
  by (simp add: set_CF_def Let_def lf_flags_set_flags_OxxxxC getB_of_flags)

lemma lf_flags_set_SF: "lf_flags (set_SF v e) = (lf_flags e)\<lparr>f_SF := v\<rparr>"
  by (auto simp: set_SF_def Let_def lf_flags_bits getB_bits bit_simps even_parity_unfold)

lemma lf_flags_set_AF: "lf_flags (set_AF v e) = (lf_flags e)\<lparr>f_AF := v\<rparr>"
  by (simp add: set_AF_def lf_flags_bits lf_defs bit_simps even_parity_unfold)

lemma lf_flags_set_PF: "lf_flags (set_PF v e) = (lf_flags e)\<lparr>f_PF := v\<rparr>"
  by (auto simp: set_PF_def lf_flags_bits lf_defs bit_simps even_parity_unfold)

lemma lf_flags_assert_ZF: "lf_flags (assert_ZF e) = (lf_flags e)\<lparr>f_ZF := True\<rparr>"
proof -
  have "ucast (result (assert_ZF e)) XOR ucast (drop_bit 8 (auxbits (assert_ZF e))) =
      (ucast (result e) XOR ucast (drop_bit 8 (auxbits e)) :: Bit8u)"
    by (intro bit_word_eqI) (auto simp: assert_ZF_def byte_mask bit_simps)
  then show ?thesis
    by (auto simp: lf_flags_bits) (auto simp: assert_ZF_def bit_simps)
qed

lemma lf_flags_clear_ZF: "lf_flags (clear_ZF e) = (lf_flags e)\<lparr>f_ZF := False\<rparr>"
proof -
  have "bit (result (clear_ZF e)) 8"
    by (simp add: clear_ZF_def bit_simps)
  then have "result (clear_ZF e) \<noteq> 0" by auto
  then show ?thesis
    by (simp add: lf_flags_bits even_parity_unfold) (simp add: clear_ZF_def bit_simps)
qed

lemma lf_flags_set_ZF: "lf_flags (set_ZF v e) = (lf_flags e)\<lparr>f_ZF := v\<rparr>"
  by (simp add: set_ZF_def lf_flags_assert_ZF lf_flags_clear_ZF)

section \<open>What the \<open>SET_FLAGS\<close> macros mean\<close>

text \<open>
  The architectural flags of \<open>a + b + c\<close>, of \<open>a - b - c\<close> and of a logical operation with
  result \<open>r\<close>, stated on the unsigned and signed values of the operands.
\<close>

definition add_oszapc :: "'n::len word \<Rightarrow> 'n word \<Rightarrow> bool \<Rightarrow> flags6" where
  "add_oszapc a b c = (let r = a + b + of_bool c in
     \<lparr>f_OF = (sint r \<noteq> sint a + sint b + of_bool c), f_SF = (sint r < 0), f_ZF = (r = 0),
      f_AF = (16 \<le> uint a mod 16 + uint b mod 16 + of_bool c), f_PF = even_parity r,
      f_CF = (2 ^ LENGTH('n) \<le> uint a + uint b + of_bool c)\<rparr>)"

definition sub_oszapc :: "'n::len word \<Rightarrow> 'n word \<Rightarrow> bool \<Rightarrow> flags6" where
  "sub_oszapc a b c = (let r = a - (b + of_bool c) in
     \<lparr>f_OF = (sint r \<noteq> sint a - sint b - of_bool c), f_SF = (sint r < 0), f_ZF = (r = 0),
      f_AF = (uint a mod 16 < uint b mod 16 + of_bool c), f_PF = even_parity r,
      f_CF = (uint a < uint b + of_bool c)\<rparr>)"

definition logic_oszapc :: "'n::len word \<Rightarrow> flags6" where
  "logic_oszapc r = \<lparr>f_OF = False, f_SF = (sint r < 0), f_ZF = (r = 0), f_AF = False,
                     f_PF = even_parity r, f_CF = False\<rparr>"

lemma sint_less_0_bit: "sint w < 0 \<longleftrightarrow> bit w (LENGTH('a) - 1)" for w :: "'a::len word"
  by (simp add: bit_last_iff)

lemma even_parity_ucast:
  "8 \<le> LENGTH('n) \<Longrightarrow> even_parity (ucast (w :: 'c::len word) :: 'n::len word) = even_parity w"
  by (simp add: even_parity_unfold bit_ucast_iff)

lemma bit_ADD_COUT_VEC:
  fixes a b :: "'c::len word"
  assumes "n < LENGTH('c)"
  shows "bit (ADD_COUT_VEC a b (a + b + of_bool c)) n \<longleftrightarrow> carry c (Suc n) a b"
  using assms
  by (auto simp: ADD_COUT_VEC_def bit_and_iff bit_or_iff bit_not_iff bit_add_carry carry_Suc
      simp del: of_bool_eq)

lemma bit_SUB_COUT_VEC:
  fixes a b :: "'c::len word"
  assumes "n < LENGTH('c)"
  shows "bit (SUB_COUT_VEC a b (a - (b + of_bool c))) n \<longleftrightarrow> borrow c (Suc n) a b"
  using assms
  by (auto simp: SUB_COUT_VEC_def bit_and_iff bit_or_iff bit_xor_iff bit_not_iff bit_diff_borrow borrow_Suc
      simp del: of_bool_eq)

text \<open>
  The contract between the macros and the instruction handlers. \<open>SETC\<close> writes all six flags
  from a carry vector and a result, \<open>SETX\<close> all but CF; \<open>'n\<close> is the operand size and \<open>'c\<close>
  the type the handlers compute in.
\<close>

locale sized_flags =
  fixes SETC SETX :: "'c::len word \<Rightarrow> 'c word \<Rightarrow> bx_lazyflags_entry \<Rightarrow> bx_lazyflags_entry"
    and N :: "'n::len itself"
  assumes byte_or_more: "8 \<le> LENGTH('n)"
    and fits: "LENGTH('n) \<le> LENGTH('c)"
    and SETC_flags: "lf_flags (SETC v r e) =
      \<lparr>f_OF = (bit v (LENGTH('n) - 1) \<noteq> bit v (LENGTH('n) - 2)), f_SF = bit r (LENGTH('n) - 1),
       f_ZF = ((ucast r :: 'n word) = 0), f_AF = bit v 3, f_PF = even_parity r,
       f_CF = bit v (LENGTH('n) - 1)\<rparr>"
    and SETX_flags: "lf_flags (SETX v r e) = (lf_flags (SETC v r e))\<lparr>f_CF := f_CF (lf_flags e)\<rparr>"
begin

lemma indices:
  "Suc (LENGTH('n) - 1) = LENGTH('n)" "Suc (LENGTH('n) - 2) = LENGTH('n) - 1"
  "LENGTH('n) - 1 < LENGTH('c)" "LENGTH('n) - 2 < LENGTH('c)" "3 < LENGTH('c)" "3 < LENGTH('n)"
  using byte_or_more fits by auto

lemma add_flags:
  fixes a b :: "'c word"
  shows "lf_flags (SETC (ADD_COUT_VEC a b (a + b + of_bool c)) (a + b + of_bool c) e) =
    add_oszapc (ucast a :: 'n word) (ucast b) c"
proof -
  have carries: "carry c k (ucast a :: 'n word) (ucast b) = carry c k a b" if "k \<le> LENGTH('n)" for k
    using that by (rule carry_ucast)
  have "bit (a + b + of_bool c) (LENGTH('n) - 1) \<longleftrightarrow> sint (ucast a + ucast b + of_bool c :: 'n word) < 0"
    unfolding sint_less_0_bit ucast_sum [OF fits, symmetric] by (simp add: bit_ucast_iff)
  moreover have "even_parity (a + b + of_bool c) = even_parity (ucast a + ucast b + of_bool c :: 'n word)"
    unfolding ucast_sum [OF fits, symmetric] even_parity_ucast [OF byte_or_more] ..
  ultimately show ?thesis
    unfolding SETC_flags add_oszapc_def Let_def add_overflow_carry
    using indices
    by (simp add: bit_ADD_COUT_VEC ucast_sum [OF fits] carries
        flip: carry_4 carry_LENGTH)
qed

lemma sub_flags:
  fixes a b :: "'c word"
  shows "lf_flags (SETC (SUB_COUT_VEC a b (a - (b + of_bool c))) (a - (b + of_bool c)) e) =
    sub_oszapc (ucast a :: 'n word) (ucast b) c"
proof -
  have borrows: "borrow c k (ucast a :: 'n word) (ucast b) = borrow c k a b" if "k \<le> LENGTH('n)" for k
    using that by (rule borrow_ucast)
  have "bit (a - (b + of_bool c)) (LENGTH('n) - 1) \<longleftrightarrow> sint (ucast a - (ucast b + of_bool c) :: 'n word) < 0"
    unfolding sint_less_0_bit ucast_diff [OF fits, symmetric] by (simp add: bit_ucast_iff)
  moreover have "even_parity (a - (b + of_bool c)) = even_parity (ucast a - (ucast b + of_bool c) :: 'n word)"
    unfolding ucast_diff [OF fits, symmetric] even_parity_ucast [OF byte_or_more] ..
  ultimately show ?thesis
    unfolding SETC_flags sub_oszapc_def Let_def sub_overflow_borrow
    using indices
    by (simp add: bit_SUB_COUT_VEC ucast_diff [OF fits] borrows
        flip: borrow_4 borrow_LENGTH)
qed

text \<open>The instances the handlers need: no carry in, and the \<open>OSZAP\<close> forms of INC and DEC.\<close>

lemma add_flags_0: "lf_flags (SETC (ADD_COUT_VEC a b (a + b)) (a + b) e) = add_oszapc (ucast a :: 'n word) (ucast b) False"
  using add_flags [of a b False e] by simp

lemma sub_flags_0: "lf_flags (SETC (SUB_COUT_VEC a b (a - b)) (a - b) e) = sub_oszapc (ucast a :: 'n word) (ucast b) False"
  using sub_flags [of a b False e] by simp

lemma neg_flags: "lf_flags (SETC (SUB_COUT_VEC 0 d (- d)) (- d) e) = sub_oszapc (0 :: 'n word) (ucast d) False"
  using sub_flags [of 0 d False e] by simp

lemma sub_flags_self: "lf_flags (SETC (SUB_COUT_VEC a a 0) 0 e) = sub_oszapc (ucast a :: 'n word) (ucast a) False"
  using sub_flags_0 [of a a e] by simp

lemma SETC_cong:
  assumes "\<And>k. k < LENGTH('n) \<Longrightarrow> bit v k = bit v' k" "\<And>k. k < LENGTH('n) \<Longrightarrow> bit r k = bit r' k"
  shows "lf_flags (SETC v r e) = lf_flags (SETC v' r' e)"
proof -
  have "(ucast r :: 'n word) = ucast r'"
    using assms(2) by (intro bit_word_eqI) (simp add: bit_ucast_iff)
  moreover have "even_parity r = even_parity r'"
    using assms(2) byte_or_more by (simp add: even_parity_unfold)
  ultimately show ?thesis
    using assms byte_or_more by (simp add: SETC_flags)
qed

lemma sub_flags_narrow:
  fixes x y :: "'n word"
  shows "lf_flags (SETC (SUB_COUT_VEC (ucast x) (ucast y) (ucast (x - y))) (ucast (x - y)) e) = sub_oszapc x y False"
proof -
  let ?a = "ucast x :: 'c word" and ?b = "ucast y :: 'c word"
  have same: "(ucast ?a :: 'n word) = x" "(ucast ?b :: 'n word) = y"
    using fits by (simp_all add: ucast_up_ucast_id is_up)
  have "(ucast (?a - ?b) :: 'n word) = x - y"
    using ucast_diff [OF fits, of ?a ?b False] same by simp
  then have "bit (?a - ?b) k = bit (ucast (x - y) :: 'c word) k" if "k < LENGTH('n)" for k
    using that fits by (metis bit_ucast_iff order.strict_trans2)
  then have "lf_flags (SETC (SUB_COUT_VEC ?a ?b (ucast (x - y))) (ucast (x - y)) e) =
      lf_flags (SETC (SUB_COUT_VEC ?a ?b (?a - ?b)) (?a - ?b) e)"
    by (intro SETC_cong) (simp_all add: SUB_COUT_VEC_def bit_and_iff bit_or_iff)
  then show ?thesis by (simp add: sub_flags_0 same)
qed

lemma inc_flags:
  "lf_flags (SETX (ADD_COUT_VEC a 0 (a + 1)) (a + 1) e) =
     (add_oszapc (ucast a :: 'n word) 0 True)\<lparr>f_CF := f_CF (lf_flags e)\<rparr>"
  using add_flags [of a 0 True e] by (simp add: SETX_flags)

lemma dec_flags:
  "lf_flags (SETX (SUB_COUT_VEC a 0 (a - 1)) (a - 1) e) =
     (sub_oszapc (ucast a :: 'n word) 0 True)\<lparr>f_CF := f_CF (lf_flags e)\<rparr>"
  using sub_flags [of a 0 True e] by (simp add: SETX_flags)

lemma inc_flags_from_result:
  "lf_flags (SETX (ADD_COUT_VEC (d - 1) 0 d) d e) =
     (add_oszapc (ucast (d - 1) :: 'n word) 0 True)\<lparr>f_CF := f_CF (lf_flags e)\<rparr>"
  using inc_flags [of "d - 1" e] by simp

lemma dec_flags_from_result:
  "lf_flags (SETX (SUB_COUT_VEC (d + 1) 0 d) d e) =
     (sub_oszapc (ucast (d + 1) :: 'n word) 0 True)\<lparr>f_CF := f_CF (lf_flags e)\<rparr>"
  using dec_flags [of "d + 1" e] by simp

lemma logic_flags:
  fixes r :: "'c word"
  shows "lf_flags (SETC 0 r e) = logic_oszapc (ucast r :: 'n word)"
  using indices
  by (simp add: SETC_flags logic_oszapc_def sint_less_0_bit bit_ucast_iff even_parity_ucast byte_or_more)

end

text \<open>
  The macros satisfy the contract at the four operand sizes: 8, 16 and 32 bits computed in
  \<open>Bit32u\<close>, 64 bits in \<open>Bit64u\<close>.
\<close>

lemma signed_take_bit_eq_0:
  fixes r :: "'c::len word"
  assumes "LENGTH('n::len) \<le> LENGTH('c)" "LENGTH('c) \<le> 64"
  shows "signed_take_bit (LENGTH('n) - 1) (ucast r :: bx_address) = 0 \<longleftrightarrow> (ucast r :: 'n word) = 0"
proof -
  have *: "bit (signed_take_bit (LENGTH('n) - 1) (ucast r :: bx_address)) k \<longleftrightarrow>
      bit (ucast r :: 'n word) (min k (LENGTH('n) - 1))" if "k < 64" for k
  proof -
    consider "k < LENGTH('n) - 1" | "k = LENGTH('n) - 1" | "LENGTH('n) \<le> k"
      by linarith
    then show ?thesis
      using assms that by cases (auto simp: bit_simps min_def)
  qed
  show ?thesis
  proof
    assume "signed_take_bit (LENGTH('n) - 1) (ucast r :: bx_address) = 0"
    then have "\<not> bit (ucast r :: 'n word) k" if "k < LENGTH('n)" for k
      using * [of k] that assms by (simp add: min_def)
    then show "(ucast r :: 'n word) = 0"
      by (auto intro: bit_word_eqI)
  next
    assume "(ucast r :: 'n word) = 0"
    then show "signed_take_bit (LENGTH('n) - 1) (ucast r :: bx_address) = 0"
      using * by (auto intro!: bit_word_eqI)
  qed
qed

text \<open>
  What the two macros need of the intermediate \<open>temp\<close>: the two top carries in the bits
  \<open>LF_BIT_CF\<close> and \<open>LF_BIT_PO\<close>, the nibble carry in \<open>LF_BIT_AF\<close>, no sign delta and no parity delta.
\<close>

definition temp_ok :: "nat \<Rightarrow> 'c::len word \<Rightarrow> bool" where
  "temp_ok n v \<longleftrightarrow>
     bit (lf_temp n v) 31 = bit v (n - 1) \<and> bit (lf_temp n v) 30 = bit v (n - 2) \<and>
     bit (lf_temp n v) 3 = bit v 3 \<and> \<not> bit (lf_temp n v) 0 \<and>
     (\<forall>k\<in>{8, 9, 10, 11, 12, 13, 14, 15}. \<not> bit (lf_temp n v) k)"

lemma temp_ok_sizes:
  "temp_ok LENGTH(8) (v :: Bit32u)" "temp_ok LENGTH(16) (v :: Bit32u)"
  "temp_ok LENGTH(32) (v :: Bit32u)" "temp_ok LENGTH(64) (w :: Bit64u)"
  by (simp_all add: temp_ok_def lf_temp_def lf_defs bit_simps)

lemma SETC_of_temp:
  fixes v r :: "'c::len word"
  assumes "temp_ok LENGTH('n::len) v" "8 \<le> LENGTH('n)" "LENGTH('n) \<le> LENGTH('c)" "LENGTH('c) \<le> 64"
  shows "lf_flags (SET_FLAGS_OSZAPC_SIZE LENGTH('n) v r e) =
    \<lparr>f_OF = (bit v (LENGTH('n) - 1) \<noteq> bit v (LENGTH('n) - 2)), f_SF = bit r (LENGTH('n) - 1),
     f_ZF = ((ucast r :: 'n word) = 0), f_AF = bit v 3, f_PF = even_parity r,
     f_CF = bit v (LENGTH('n) - 1)\<rparr>"
proof -
  have "7 \<le> LENGTH('n) - Suc 0" "8 \<le> LENGTH('c)"
    using assms by auto
  then show ?thesis
    using assms signed_take_bit_eq_0 [where 'n = 'n, OF assms(3,4), of r]
    by (simp add: SET_FLAGS_OSZAPC_SIZE_def lf_flags_bits temp_ok_def even_parity_unfold bit_simps min_absorb1)
qed

lemma SETX_of_temp:
  fixes v r :: "'c::len word"
  assumes "temp_ok LENGTH('n::len) v" "8 \<le> LENGTH('n)" "LENGTH('n) \<le> LENGTH('c)" "LENGTH('c) \<le> 64"
  shows "lf_flags (SET_FLAGS_OSZAP_SIZE LENGTH('n) v r e) =
    (lf_flags (SET_FLAGS_OSZAPC_SIZE LENGTH('n) v r e))\<lparr>f_CF := f_CF (lf_flags e)\<rparr>"
  using assms
  by (auto simp: SET_FLAGS_OSZAP_SIZE_def SET_FLAGS_OSZAPC_SIZE_def lf_flags_bits temp_ok_def
      even_parity_unfold bit_simps lf_defs Let_def)

interpretation flags8: sized_flags SET_FLAGS_OSZAPC_8 SET_FLAGS_OSZAP_8 "TYPE(8)"
  using SETC_of_temp [where 'n = 8, OF temp_ok_sizes(1)] SETX_of_temp [where 'n = 8, OF temp_ok_sizes(1)]
  by unfold_locales (simp_all add: set_flags_defs)

interpretation flags16: sized_flags SET_FLAGS_OSZAPC_16 SET_FLAGS_OSZAP_16 "TYPE(16)"
  using SETC_of_temp [where 'n = 16, OF temp_ok_sizes(2)] SETX_of_temp [where 'n = 16, OF temp_ok_sizes(2)]
  by unfold_locales (simp_all add: set_flags_defs)

interpretation flags32: sized_flags SET_FLAGS_OSZAPC_32 SET_FLAGS_OSZAP_32 "TYPE(32)"
  using SETC_of_temp [where 'n = 32, OF temp_ok_sizes(3)] SETX_of_temp [where 'n = 32, OF temp_ok_sizes(3)]
  by unfold_locales (simp_all add: set_flags_defs)

interpretation flags64: sized_flags SET_FLAGS_OSZAPC_64 SET_FLAGS_OSZAP_64 "TYPE(64)"
  using SETC_of_temp [where 'n = 64, OF temp_ok_sizes(4)] SETX_of_temp [where 'n = 64, OF temp_ok_sizes(4)]
  by unfold_locales (simp_all add: set_flags_defs)

section \<open>Properties\<close>

text \<open>
  C23: The lazy encoding implements six independent flags: each setter changes exactly the
  flag it names, and \<open>assert_flags_OxxxxC\<close> exactly OF and CF, whatever the
  state of the encoding.
\<close>

theorem flag_setters_independent:
  "lf_flags (set_OF v e) = (lf_flags e)\<lparr>f_OF := v\<rparr> \<and> lf_flags (set_SF v e) = (lf_flags e)\<lparr>f_SF := v\<rparr>
    \<and> lf_flags (set_ZF v e) = (lf_flags e)\<lparr>f_ZF := v\<rparr> \<and> lf_flags (set_AF v e) = (lf_flags e)\<lparr>f_AF := v\<rparr>
    \<and> lf_flags (set_PF v e) = (lf_flags e)\<lparr>f_PF := v\<rparr> \<and> lf_flags (set_CF v e) = (lf_flags e)\<lparr>f_CF := v\<rparr>
    \<and> lf_flags (assert_flags_OxxxxC e) = (lf_flags e)\<lparr>f_OF := True, f_CF := True\<rparr>"
  using lf_flags_set_flags_OxxxxC [of True True e]
  by (simp add: lf_flags_set_OF lf_flags_set_SF lf_flags_set_ZF lf_flags_set_AF lf_flags_set_PF lf_flags_set_CF
      assert_flags_OxxxxC_def)

text \<open>
  After a logical operation the macros of every size leave OF, AF and CF clear and SF,
  ZF and PF of the result; the \<open>OSZAxC\<close> forms keep PF.
\<close>

lemma logic_macros_flags:
  "lf_flags (SET_FLAGS_OSZAPC_LOGIC_8 r e) = logic_oszapc (ucast r :: Bit8u)
    \<and> lf_flags (SET_FLAGS_OSZAPC_LOGIC_16 r e) = logic_oszapc (ucast r :: Bit16u)
    \<and> lf_flags (SET_FLAGS_OSZAPC_LOGIC_32 r e) = logic_oszapc r
    \<and> lf_flags (SET_FLAGS_OSZAPC_LOGIC_64 q e) = logic_oszapc q
    \<and> lf_flags (SET_FLAGS_OSZAxC_LOGIC_32 r e) = (logic_oszapc r)\<lparr>f_PF := f_PF (lf_flags e)\<rparr>
    \<and> lf_flags (SET_FLAGS_OSZAxC_LOGIC_64 q e) = (logic_oszapc q)\<lparr>f_PF := f_PF (lf_flags e)\<rparr>"
  using flags8.logic_flags [of r e] flags16.logic_flags [of r e] flags32.logic_flags [of r e] flags64.logic_flags [of q e]
  by (simp add: set_flags_defs SET_FLAGS_OSZAxC_LOGIC_32_def SET_FLAGS_OSZAxC_LOGIC_64_def Let_def
      lf_flags_set_PF getB_of_flags)

end
