(* ===== verification/Cpu_State.thy ===== *)
theory Cpu_State
  imports Lazy_Flags
begin

text \<open>
  The part of \<open>BX_CPU_C\<close> the integer instructions work on (\<^verbatim>\<open>cpu/cpu.h\<close>): the general
  registers with their 8, 16, 32 and 64-bit views, the lazy flags and EFLAGS, the decoded
  instruction \<open>bxInstruction_c\<close> (\<^verbatim>\<open>cpu/decoder/instr.h\<close>), and the reading and writing of
  the arithmetic flags of EFLAGS (\<open>force_flags\<close>, \<open>setEFlagsOSZAPC\<close>). The configuration is
  the one of the repository's \<^verbatim>\<open>config.h\<close>: \<open>BX_SUPPORT_X86_64 = 1\<close>, little-endian host,
  no handler chaining, so that a handler ends by returning.
\<close>

unbundle bit_operations_syntax

section \<open>General registers\<close>

text \<open>\<open>bx_gen_reg_t\<close> is a union; its members are fields of the 64-bit \<open>rrx\<close>.\<close>

type_synonym bx_gen_reg_t = Bit64u

definition reg_rl :: "bx_gen_reg_t \<Rightarrow> Bit8u" where [reg_defs]: "reg_rl r = ucast r"
definition reg_rh :: "bx_gen_reg_t \<Rightarrow> Bit8u" where [reg_defs]: "reg_rh r = ucast (drop_bit 8 r)"
definition reg_rx :: "bx_gen_reg_t \<Rightarrow> Bit16u" where [reg_defs]: "reg_rx r = ucast r"
definition reg_erx :: "bx_gen_reg_t \<Rightarrow> Bit32u" where [reg_defs]: "reg_erx r = ucast r"
definition reg_hrx :: "bx_gen_reg_t \<Rightarrow> Bit32u" where [reg_defs]: "reg_hrx r = ucast (drop_bit 32 r)"

definition set_rl :: "Bit8u \<Rightarrow> bx_gen_reg_t \<Rightarrow> bx_gen_reg_t" where [reg_defs]:
  "set_rl v r = (r AND NOT 0xFF) OR ucast v"
definition set_rh :: "Bit8u \<Rightarrow> bx_gen_reg_t \<Rightarrow> bx_gen_reg_t" where [reg_defs]:
  "set_rh v r = (r AND NOT 0xFF00) OR push_bit 8 (ucast v)"
definition set_rx :: "Bit16u \<Rightarrow> bx_gen_reg_t \<Rightarrow> bx_gen_reg_t" where [reg_defs]:
  "set_rx v r = (r AND NOT 0xFFFF) OR ucast v"
definition set_erx :: "Bit32u \<Rightarrow> bx_gen_reg_t \<Rightarrow> bx_gen_reg_t" where [reg_defs]:
  "set_erx v r = (r AND NOT 0xFFFFFFFF) OR ucast v"
definition set_hrx :: "Bit32u \<Rightarrow> bx_gen_reg_t \<Rightarrow> bx_gen_reg_t" where [reg_defs]:
  "set_hrx v r = (r AND 0xFFFFFFFF) OR push_bit 32 (ucast v)"

record bx_cpu =
  gen_reg :: "nat \<Rightarrow> bx_gen_reg_t"
  oszapc :: bx_lazyflags_entry
  eflags :: Bit32u

definition BX_READ_8BIT_REGx :: "nat \<Rightarrow> bool \<Rightarrow> bx_cpu \<Rightarrow> Bit8u" where
  "BX_READ_8BIT_REGx index extended s =
     (if \<not> bit index 2 \<or> extended then reg_rl (gen_reg s index) else reg_rh (gen_reg s (index - 4)))"
definition BX_READ_16BIT_REG :: "nat \<Rightarrow> bx_cpu \<Rightarrow> Bit16u" where
  "BX_READ_16BIT_REG index s = reg_rx (gen_reg s index)"
definition BX_READ_32BIT_REG :: "nat \<Rightarrow> bx_cpu \<Rightarrow> Bit32u" where
  "BX_READ_32BIT_REG index s = reg_erx (gen_reg s index)"
definition BX_READ_64BIT_REG :: "nat \<Rightarrow> bx_cpu \<Rightarrow> Bit64u" where
  "BX_READ_64BIT_REG index s = gen_reg s index"

definition BX_WRITE_8BIT_REGx :: "nat \<Rightarrow> bool \<Rightarrow> Bit8u \<Rightarrow> bx_cpu \<Rightarrow> bx_cpu" where
  "BX_WRITE_8BIT_REGx index extended val s =
     (if \<not> bit index 2 \<or> extended
      then s\<lparr>gen_reg := (gen_reg s)(index := set_rl val (gen_reg s index))\<rparr>
      else s\<lparr>gen_reg := (gen_reg s)(index - 4 := set_rh val (gen_reg s (index - 4)))\<rparr>)"
definition BX_WRITE_16BIT_REG :: "nat \<Rightarrow> Bit16u \<Rightarrow> bx_cpu \<Rightarrow> bx_cpu" where
  "BX_WRITE_16BIT_REG index val s = s\<lparr>gen_reg := (gen_reg s)(index := set_rx val (gen_reg s index))\<rparr>"
definition BX_WRITE_32BIT_REGZ :: "nat \<Rightarrow> Bit32u \<Rightarrow> bx_cpu \<Rightarrow> bx_cpu" where
  "BX_WRITE_32BIT_REGZ index val s = s\<lparr>gen_reg := (gen_reg s)(index := ucast val)\<rparr>"
definition BX_WRITE_64BIT_REG :: "nat \<Rightarrow> Bit64u \<Rightarrow> bx_cpu \<Rightarrow> bx_cpu" where
  "BX_WRITE_64BIT_REG index val s = s\<lparr>gen_reg := (gen_reg s)(index := val)\<rparr>"
definition BX_CLEAR_64BIT_HIGH :: "nat \<Rightarrow> bx_cpu \<Rightarrow> bx_cpu" where
  "BX_CLEAR_64BIT_HIGH index s = s\<lparr>gen_reg := (gen_reg s)(index := set_hrx 0 (gen_reg s index))\<rparr>"

text \<open>The named registers: \<open>AL\<close>, \<open>AX\<close>, \<open>EAX\<close>, \<open>RAX\<close> are views of \<open>gen_reg[0]\<close>, and so on.\<close>

abbreviation (input) BX_64BIT_REG_RAX :: nat where "BX_64BIT_REG_RAX \<equiv> 0"
abbreviation (input) BX_64BIT_REG_RDX :: nat where "BX_64BIT_REG_RDX \<equiv> 2"

definition AL :: "bx_cpu \<Rightarrow> Bit8u" where "AL s = reg_rl (gen_reg s BX_64BIT_REG_RAX)"
definition CL :: "bx_cpu \<Rightarrow> Bit8u" where "CL s = reg_rl (gen_reg s 1)"
definition AH :: "bx_cpu \<Rightarrow> Bit8u" where "AH s = reg_rh (gen_reg s BX_64BIT_REG_RAX)"
definition AX :: "bx_cpu \<Rightarrow> Bit16u" where "AX s = reg_rx (gen_reg s BX_64BIT_REG_RAX)"
definition EAX :: "bx_cpu \<Rightarrow> Bit32u" where "EAX s = reg_erx (gen_reg s BX_64BIT_REG_RAX)"
definition RAX :: "bx_cpu \<Rightarrow> Bit64u" where "RAX s = gen_reg s BX_64BIT_REG_RAX"

definition set_AL :: "Bit8u \<Rightarrow> bx_cpu \<Rightarrow> bx_cpu" where
  "set_AL v s = s\<lparr>gen_reg := (gen_reg s)(BX_64BIT_REG_RAX := set_rl v (gen_reg s BX_64BIT_REG_RAX))\<rparr>"
definition set_AH :: "Bit8u \<Rightarrow> bx_cpu \<Rightarrow> bx_cpu" where
  "set_AH v s = s\<lparr>gen_reg := (gen_reg s)(BX_64BIT_REG_RAX := set_rh v (gen_reg s BX_64BIT_REG_RAX))\<rparr>"
definition set_AX :: "Bit16u \<Rightarrow> bx_cpu \<Rightarrow> bx_cpu" where
  "set_AX v s = s\<lparr>gen_reg := (gen_reg s)(BX_64BIT_REG_RAX := set_rx v (gen_reg s BX_64BIT_REG_RAX))\<rparr>"
definition set_DX :: "Bit16u \<Rightarrow> bx_cpu \<Rightarrow> bx_cpu" where
  "set_DX v s = s\<lparr>gen_reg := (gen_reg s)(BX_64BIT_REG_RDX := set_rx v (gen_reg s BX_64BIT_REG_RDX))\<rparr>"
definition set_RAX :: "Bit64u \<Rightarrow> bx_cpu \<Rightarrow> bx_cpu" where
  "set_RAX v s = s\<lparr>gen_reg := (gen_reg s)(BX_64BIT_REG_RAX := v)\<rparr>"
definition set_RDX :: "Bit64u \<Rightarrow> bx_cpu \<Rightarrow> bx_cpu" where
  "set_RDX v s = s\<lparr>gen_reg := (gen_reg s)(BX_64BIT_REG_RDX := v)\<rparr>"

lemmas cpu_reg_defs =
  BX_READ_8BIT_REGx_def BX_READ_16BIT_REG_def BX_READ_32BIT_REG_def BX_READ_64BIT_REG_def
  BX_WRITE_8BIT_REGx_def BX_WRITE_16BIT_REG_def BX_WRITE_32BIT_REGZ_def BX_WRITE_64BIT_REG_def
  BX_CLEAR_64BIT_HIGH_def AL_def AH_def AX_def EAX_def RAX_def
  set_AL_def set_AH_def set_AX_def set_DX_def set_RAX_def set_RDX_def

section \<open>The decoded instruction\<close>

text \<open>
  The operands a register form uses: the register numbers of \<open>metaData\<close>, the
  \<open>extend8bit\<close> bit of \<open>metaInfo1\<close>, and the immediate. \<open>Ib\<close>, \<open>Iw\<close> and \<open>Id\<close> are members of one
  union, so the narrow ones are the low bits of \<open>Id\<close>. \<open>getIaOpcode\<close> gives the opcode \<open>BX_IA_...\<close> by
  its name.
\<close>

record bxInstruction_c =
  dst :: nat
  src1 :: nat
  src2 :: nat
  extend8bitL :: bool
  Id :: Bit32u
  getIaOpcode :: string

definition src :: "bxInstruction_c \<Rightarrow> nat" where "src i = src1 i"
definition Iw :: "bxInstruction_c \<Rightarrow> Bit16u" where "Iw i = ucast (Id i)"
definition Ib :: "bxInstruction_c \<Rightarrow> Bit8u" where "Ib i = ucast (Id i)"

type_synonym handler = "bxInstruction_c \<Rightarrow> bx_cpu \<Rightarrow> bx_cpu"

text \<open>
  \<open>exception()\<close> delivers the fault through \<open>longjmp\<close> and does not return: a handler that can
  fault ends with the exception (\<open>Inl\<close>) and none of its later effects.
\<close>

datatype BX_Exception =
    BX_DE_EXCEPTION | BX_DB_EXCEPTION | BX_BP_EXCEPTION | BX_OF_EXCEPTION | BX_BR_EXCEPTION | BX_UD_EXCEPTION
  | BX_NM_EXCEPTION | BX_DF_EXCEPTION | BX_TS_EXCEPTION | BX_NP_EXCEPTION | BX_SS_EXCEPTION | BX_GP_EXCEPTION
  | BX_PF_EXCEPTION | BX_MF_EXCEPTION | BX_AC_EXCEPTION | BX_MC_EXCEPTION | BX_XM_EXCEPTION | BX_VE_EXCEPTION
  | BX_CP_EXCEPTION

type_synonym fault_handler = "bxInstruction_c \<Rightarrow> bx_cpu \<Rightarrow> BX_Exception + bx_cpu"

section \<open>Register views\<close>

lemma take_bit_mask_simps:
  "0xFF = (mask 8 :: Bit64u)" "0xFFFF = (mask 16 :: Bit64u)" "0xFFFFFFFF = (mask 32 :: Bit64u)"
  "0xFF00 = (push_bit 8 (mask 8) :: Bit64u)"
  by (simp_all add: mask_numeral)

lemma reg_views_set [simp]:
  "reg_rl (set_rl v r) = v" "reg_rh (set_rh v r) = v" "reg_rx (set_rx w r) = w" "reg_erx (set_erx x r) = x"
  unfolding reg_defs take_bit_mask_simps
  by (rule bit_word_eqI; auto simp: bit_simps)+

lemma reg_rh_set_rl [simp]: "reg_rh (set_rl v r) = reg_rh r"
  unfolding reg_defs take_bit_mask_simps
  by (rule bit_word_eqI) (auto simp: bit_simps dest: bit_imp_le_length)

lemma reg_rl_set_rh [simp]: "reg_rl (set_rh v r) = reg_rl r"
  unfolding reg_defs take_bit_mask_simps by (rule bit_word_eqI) (auto simp: bit_simps)

lemma set_hrx_0: "set_hrx 0 r = ucast (reg_erx r)"
  unfolding reg_defs take_bit_mask_simps by (rule bit_word_eqI) (auto simp: bit_simps)

lemma reg_erx_ucast [simp]: "reg_erx (ucast v) = v"
  unfolding reg_defs by (rule bit_word_eqI) (auto simp: bit_simps)

lemma read_write_8 [simp]: "BX_READ_8BIT_REGx n x (BX_WRITE_8BIT_REGx n x v s) = v"
  by (simp add: BX_READ_8BIT_REGx_def BX_WRITE_8BIT_REGx_def)
lemma read_write_16 [simp]: "BX_READ_16BIT_REG n (BX_WRITE_16BIT_REG n v s) = v"
  by (simp add: BX_READ_16BIT_REG_def BX_WRITE_16BIT_REG_def)
lemma read_write_32 [simp]: "BX_READ_32BIT_REG n (BX_WRITE_32BIT_REGZ n v s) = v"
  by (simp add: BX_READ_32BIT_REG_def BX_WRITE_32BIT_REGZ_def)
lemma read_write_64 [simp]: "BX_READ_64BIT_REG n (BX_WRITE_64BIT_REG n v s) = v"
  by (simp add: BX_READ_64BIT_REG_def BX_WRITE_64BIT_REG_def)

lemma oszapc_write [simp]:
  "oszapc (BX_WRITE_8BIT_REGx n x v s) = oszapc s" "oszapc (BX_WRITE_16BIT_REG n w s) = oszapc s"
  "oszapc (BX_WRITE_32BIT_REGZ n y s) = oszapc s" "oszapc (BX_WRITE_64BIT_REG n z s) = oszapc s"
  "oszapc (BX_CLEAR_64BIT_HIGH n s) = oszapc s"
  by (simp_all add: cpu_reg_defs)

lemma read_oszapc_update [simp]:
  "BX_READ_8BIT_REGx n x (oszapc_update f s) = BX_READ_8BIT_REGx n x s"
  "BX_READ_16BIT_REG n (oszapc_update f s) = BX_READ_16BIT_REG n s"
  "BX_READ_32BIT_REG n (oszapc_update f s) = BX_READ_32BIT_REG n s"
  "BX_READ_64BIT_REG n (oszapc_update f s) = BX_READ_64BIT_REG n s"
  by (simp_all add: cpu_reg_defs)

section \<open>The arithmetic flags of EFLAGS\<close>

abbreviation (input) EFlagsOSZAPCMask :: Bit32u where "EFlagsOSZAPCMask \<equiv> 0x8D5"

definition force_flags :: "bx_cpu \<Rightarrow> Bit32u \<times> bx_cpu" where
  "force_flags s =
     (let e = oszapc s;
          newflags = getB_CF e;
          newflags = newflags OR push_bit 2 (getB_PF e);
          newflags = newflags OR push_bit 4 (getB_AF e);
          newflags = newflags OR push_bit 6 (getB_ZF e);
          newflags = newflags OR push_bit 7 (getB_SF e);
          newflags = newflags OR push_bit 11 (getB_OF e);
          s' = s\<lparr>eflags := (eflags s AND NOT EFlagsOSZAPCMask) OR (newflags AND EFlagsOSZAPCMask)\<rparr>
      in (eflags s', s'))"

definition setEFlagsOSZAPC :: "Bit32u \<Rightarrow> bx_cpu \<Rightarrow> bx_cpu" where
  "setEFlagsOSZAPC flags32 s =
     (let e = oszapc s;
          e = set_OF (1 AND drop_bit 11 flags32 \<noteq> 0) e;
          e = set_SF (1 AND drop_bit 7 flags32 \<noteq> 0) e;
          e = set_ZF (1 AND drop_bit 6 flags32 \<noteq> 0) e;
          e = set_AF (1 AND drop_bit 4 flags32 \<noteq> 0) e;
          e = set_PF (1 AND drop_bit 2 flags32 \<noteq> 0) e;
          e = set_CF (1 AND drop_bit 0 flags32 \<noteq> 0) e
      in s\<lparr>oszapc := e\<rparr>)"

definition clearEFlagsOSZAPC :: "bx_cpu \<Rightarrow> bx_cpu" where
  "clearEFlagsOSZAPC s = s\<lparr>oszapc := SET_FLAGS_OSZAPC_LOGIC_32 1 (oszapc s)\<rparr>"

text \<open>The architectural position of each flag in a 32-bit EFLAGS image.\<close>

definition eflags6 :: "Bit32u \<Rightarrow> flags6" where
  "eflags6 w = \<lparr>f_OF = bit w 11, f_SF = bit w 7, f_ZF = bit w 6, f_AF = bit w 4, f_PF = bit w 2, f_CF = bit w 0\<rparr>"

lemma lf_flags_setEFlagsOSZAPC: "lf_flags (oszapc (setEFlagsOSZAPC w s)) = eflags6 w"
  by (cases "lf_flags (oszapc s)")
    (simp add: setEFlagsOSZAPC_def Let_def lf_flags_set_OF lf_flags_set_SF lf_flags_set_ZF
      lf_flags_set_AF lf_flags_set_PF lf_flags_set_CF eflags6_def drop_bit_and_1 and_1_bit bit_drop_bit_eq and.commute [of 1])

lemma eflags6_force_flags: "eflags6 (fst (force_flags s)) = lf_flags (oszapc s)"
  by (simp add: force_flags_def Let_def eflags6_def getB_of_flags bit_simps)

lemma force_flags_other:
  "bit (fst (force_flags s)) n = bit (eflags s) n" if "n \<notin> {0, 2, 4, 6, 7, 11}" "n < 32"
  using that
  by (auto simp: force_flags_def Let_def bit_simps less_Suc_eq numeral_eq_Suc)

section \<open>Properties\<close>

lemma masked_update: "((a AND NOT m) OR (b AND m)) AND NOT m = a AND NOT m" for a b m :: "'a::len word"
  by (rule bit_word_eqI) (auto simp: bit_and_iff bit_or_iff bit_not_iff)

text \<open>
  Writing the arithmetic flags from an EFLAGS image and materializing them again gives
  the same six flags, materializing and writing back keeps the lazy flags, and
  \<open>force_flags\<close> changes no other bit of EFLAGS.
\<close>

lemma eflags_roundtrip:
  "eflags6 (fst (force_flags (setEFlagsOSZAPC w s))) = eflags6 w
    \<and> lf_flags (oszapc (setEFlagsOSZAPC (fst (force_flags s)) t)) = lf_flags (oszapc s)
    \<and> fst (force_flags s) AND NOT 0x8D5 = eflags s AND NOT 0x8D5"
proof -
  have "fst (force_flags s) AND NOT 0x8D5 = eflags s AND NOT 0x8D5"
    using masked_update [of "eflags s" "0x8D5"] by (simp add: force_flags_def Let_def)
  then show ?thesis
    by (simp add: eflags6_force_flags lf_flags_setEFlagsOSZAPC)
qed

end
