(* ===== verification/Arith.thy ===== *)
theory Arith
  imports Cpu_State
begin

text \<open>
  The register forms of the arithmetic instructions: \<^verbatim>\<open>cpu/arith8.cc\<close>,
  \<^verbatim>\<open>arith16.cc\<close>, \<^verbatim>\<open>arith32.cc\<close> and \<^verbatim>\<open>arith64.cc\<close>. Each definition is one handler:
  the operands are read in the C type the handler declares (\<open>Bit32u\<close> for the 8 and 16-bit
  forms), the result is written back, and the lazy flags are set by the macro of the
  operand size. The lemmas show that every handler computes the architectural result and
  the architectural flags, and writes nothing else.
\<close>

unbundle bit_operations_syntax

section \<open>Handlers\<close>

subsection \<open>\<^verbatim>\<open>arith8.cc\<close>\<close>

definition ADD_GbEbR :: handler where [alu_defs]:
  "ADD_GbEbR i s =
     (let op1 = ucast (BX_READ_8BIT_REGx (dst i) (extend8bitL i) s) :: Bit32u;
          op2 = ucast (BX_READ_8BIT_REGx (src i) (extend8bitL i) s) :: Bit32u;
          sum = op1 + op2;
          s = BX_WRITE_8BIT_REGx (dst i) (extend8bitL i) (ucast sum) s
      in s\<lparr>oszapc := SET_FLAGS_OSZAPC_ADD_8 op1 op2 sum (oszapc s)\<rparr>)"

definition ADC_GbEbR :: handler where [alu_defs]:
  "ADC_GbEbR i s =
     (let op1 = ucast (BX_READ_8BIT_REGx (dst i) (extend8bitL i) s) :: Bit32u;
          op2 = ucast (BX_READ_8BIT_REGx (src i) (extend8bitL i) s) :: Bit32u;
          sum = op1 + op2 + getB_CF (oszapc s);
          s = BX_WRITE_8BIT_REGx (dst i) (extend8bitL i) (ucast sum) s
      in s\<lparr>oszapc := SET_FLAGS_OSZAPC_ADD_8 op1 op2 sum (oszapc s)\<rparr>)"

definition SBB_GbEbR :: handler where [alu_defs]:
  "SBB_GbEbR i s =
     (let op1 = ucast (BX_READ_8BIT_REGx (dst i) (extend8bitL i) s) :: Bit32u;
          op2 = ucast (BX_READ_8BIT_REGx (src i) (extend8bitL i) s) :: Bit32u;
          diff = op1 - (op2 + getB_CF (oszapc s));
          s = BX_WRITE_8BIT_REGx (dst i) (extend8bitL i) (ucast diff) s
      in s\<lparr>oszapc := SET_FLAGS_OSZAPC_SUB_8 op1 op2 diff (oszapc s)\<rparr>)"

definition SUB_GbEbR :: handler where [alu_defs]:
  "SUB_GbEbR i s =
     (let op1 = ucast (BX_READ_8BIT_REGx (dst i) (extend8bitL i) s) :: Bit32u;
          op2 = ucast (BX_READ_8BIT_REGx (src i) (extend8bitL i) s) :: Bit32u;
          diff = op1 - op2;
          s = BX_WRITE_8BIT_REGx (dst i) (extend8bitL i) (ucast diff) s
      in s\<lparr>oszapc := SET_FLAGS_OSZAPC_SUB_8 op1 op2 diff (oszapc s)\<rparr>)"

definition CMP_GbEbR :: handler where [alu_defs]:
  "CMP_GbEbR i s =
     (let op1 = ucast (BX_READ_8BIT_REGx (dst i) (extend8bitL i) s) :: Bit32u;
          op2 = ucast (BX_READ_8BIT_REGx (src i) (extend8bitL i) s) :: Bit32u;
          diff = op1 - op2
      in s\<lparr>oszapc := SET_FLAGS_OSZAPC_SUB_8 op1 op2 diff (oszapc s)\<rparr>)"

definition ADD_EbIbR :: handler where [alu_defs]:
  "ADD_EbIbR i s =
     (let op1 = ucast (BX_READ_8BIT_REGx (dst i) (extend8bitL i) s) :: Bit32u;
          op2 = ucast (Ib i) :: Bit32u;
          sum = op1 + op2;
          s = BX_WRITE_8BIT_REGx (dst i) (extend8bitL i) (ucast sum) s
      in s\<lparr>oszapc := SET_FLAGS_OSZAPC_ADD_8 op1 op2 sum (oszapc s)\<rparr>)"

definition ADC_EbIbR :: handler where [alu_defs]:
  "ADC_EbIbR i s =
     (let op1 = ucast (BX_READ_8BIT_REGx (dst i) (extend8bitL i) s) :: Bit32u;
          op2 = ucast (Ib i) :: Bit32u;
          sum = op1 + op2 + getB_CF (oszapc s);
          s = BX_WRITE_8BIT_REGx (dst i) (extend8bitL i) (ucast sum) s
      in s\<lparr>oszapc := SET_FLAGS_OSZAPC_ADD_8 op1 op2 sum (oszapc s)\<rparr>)"

definition SBB_EbIbR :: handler where [alu_defs]:
  "SBB_EbIbR i s =
     (let op1 = ucast (BX_READ_8BIT_REGx (dst i) (extend8bitL i) s) :: Bit32u;
          op2 = ucast (Ib i) :: Bit32u;
          diff = op1 - (op2 + getB_CF (oszapc s));
          s = BX_WRITE_8BIT_REGx (dst i) (extend8bitL i) (ucast diff) s
      in s\<lparr>oszapc := SET_FLAGS_OSZAPC_SUB_8 op1 op2 diff (oszapc s)\<rparr>)"

definition SUB_EbIbR :: handler where [alu_defs]:
  "SUB_EbIbR i s =
     (let op1 = ucast (BX_READ_8BIT_REGx (dst i) (extend8bitL i) s) :: Bit32u;
          op2 = ucast (Ib i) :: Bit32u;
          diff = op1 - op2;
          s = BX_WRITE_8BIT_REGx (dst i) (extend8bitL i) (ucast diff) s
      in s\<lparr>oszapc := SET_FLAGS_OSZAPC_SUB_8 op1 op2 diff (oszapc s)\<rparr>)"

definition CMP_EbIbR :: handler where [alu_defs]:
  "CMP_EbIbR i s =
     (let op1 = ucast (BX_READ_8BIT_REGx (dst i) (extend8bitL i) s) :: Bit32u;
          op2 = ucast (Ib i) :: Bit32u;
          diff = op1 - op2
      in s\<lparr>oszapc := SET_FLAGS_OSZAPC_SUB_8 op1 op2 diff (oszapc s)\<rparr>)"

definition XADD_EbGbR :: handler where [alu_defs]:
  "XADD_EbGbR i s =
     (let op1 = ucast (BX_READ_8BIT_REGx (dst i) (extend8bitL i) s) :: Bit32u;
          op2 = ucast (BX_READ_8BIT_REGx (src i) (extend8bitL i) s) :: Bit32u;
          sum = op1 + op2;
          s = BX_WRITE_8BIT_REGx (src i) (extend8bitL i) (ucast op1) s;
          s = BX_WRITE_8BIT_REGx (dst i) (extend8bitL i) (ucast sum) s
      in s\<lparr>oszapc := SET_FLAGS_OSZAPC_ADD_8 op1 op2 sum (oszapc s)\<rparr>)"

definition NEG_EbR :: handler where [alu_defs]:
  "NEG_EbR i s =
     (let op1 = ucast (BX_READ_8BIT_REGx (dst i) (extend8bitL i) s) :: Bit32u;
          op1 = - scast (ucast op1 :: Bit8u);
          s = BX_WRITE_8BIT_REGx (dst i) (extend8bitL i) (ucast op1) s
      in s\<lparr>oszapc := SET_FLAGS_OSZAPC_SUB_8 0 (0 - op1) op1 (oszapc s)\<rparr>)"

definition INC_EbR :: handler where [alu_defs]:
  "INC_EbR i s =
     (let op1 = ucast (BX_READ_8BIT_REGx (dst i) (extend8bitL i) s) :: Bit32u;
          op1 = op1 + 1;
          s = BX_WRITE_8BIT_REGx (dst i) (extend8bitL i) (ucast op1) s
      in s\<lparr>oszapc := SET_FLAGS_OSZAP_ADD_8 (op1 - 1) 0 op1 (oszapc s)\<rparr>)"

definition DEC_EbR :: handler where [alu_defs]:
  "DEC_EbR i s =
     (let op1 = ucast (BX_READ_8BIT_REGx (dst i) (extend8bitL i) s) :: Bit32u;
          op1 = op1 - 1;
          s = BX_WRITE_8BIT_REGx (dst i) (extend8bitL i) (ucast op1) s
      in s\<lparr>oszapc := SET_FLAGS_OSZAP_SUB_8 (op1 + 1) 0 op1 (oszapc s)\<rparr>)"

definition CMPXCHG_EbGbR :: handler where [alu_defs]:
  "CMPXCHG_EbGbR i s =
     (let op1 = ucast (BX_READ_8BIT_REGx (dst i) (extend8bitL i) s) :: Bit32u;
          diff = ucast (AL s) - op1;
          s = s\<lparr>oszapc := SET_FLAGS_OSZAPC_SUB_8 (ucast (AL s)) op1 diff (oszapc s)\<rparr>
      in if diff = 0
         then let op2 = ucast (BX_READ_8BIT_REGx (src i) (extend8bitL i) s) :: Bit32u in BX_WRITE_8BIT_REGx (dst i) (extend8bitL i) (ucast op2) s
         else set_AL (ucast op1) s)"

subsection \<open>\<^verbatim>\<open>arith16.cc\<close>\<close>

definition ADD_GwEwR :: handler where [alu_defs]:
  "ADD_GwEwR i s =
     (let op1 = ucast (BX_READ_16BIT_REG (dst i) s) :: Bit32u;
          op2 = ucast (BX_READ_16BIT_REG (src i) s) :: Bit32u;
          sum = op1 + op2;
          s = BX_WRITE_16BIT_REG (dst i) (ucast sum) s
      in s\<lparr>oszapc := SET_FLAGS_OSZAPC_ADD_16 op1 op2 sum (oszapc s)\<rparr>)"

definition ADC_GwEwR :: handler where [alu_defs]:
  "ADC_GwEwR i s =
     (let op1 = ucast (BX_READ_16BIT_REG (dst i) s) :: Bit32u;
          op2 = ucast (BX_READ_16BIT_REG (src i) s) :: Bit32u;
          sum = op1 + op2 + getB_CF (oszapc s);
          s = BX_WRITE_16BIT_REG (dst i) (ucast sum) s
      in s\<lparr>oszapc := SET_FLAGS_OSZAPC_ADD_16 op1 op2 sum (oszapc s)\<rparr>)"

definition SBB_GwEwR :: handler where [alu_defs]:
  "SBB_GwEwR i s =
     (let op1 = ucast (BX_READ_16BIT_REG (dst i) s) :: Bit32u;
          op2 = ucast (BX_READ_16BIT_REG (src i) s) :: Bit32u;
          diff = op1 - (op2 + getB_CF (oszapc s));
          s = BX_WRITE_16BIT_REG (dst i) (ucast diff) s
      in s\<lparr>oszapc := SET_FLAGS_OSZAPC_SUB_16 op1 op2 diff (oszapc s)\<rparr>)"

definition SUB_GwEwR :: handler where [alu_defs]:
  "SUB_GwEwR i s =
     (let op1 = ucast (BX_READ_16BIT_REG (dst i) s) :: Bit32u;
          op2 = ucast (BX_READ_16BIT_REG (src i) s) :: Bit32u;
          diff = op1 - op2;
          s = BX_WRITE_16BIT_REG (dst i) (ucast diff) s
      in s\<lparr>oszapc := SET_FLAGS_OSZAPC_SUB_16 op1 op2 diff (oszapc s)\<rparr>)"

definition CMP_GwEwR :: handler where [alu_defs]:
  "CMP_GwEwR i s =
     (let op1 = ucast (BX_READ_16BIT_REG (dst i) s) :: Bit32u;
          op2 = ucast (BX_READ_16BIT_REG (src i) s) :: Bit32u;
          diff = op1 - op2
      in s\<lparr>oszapc := SET_FLAGS_OSZAPC_SUB_16 op1 op2 diff (oszapc s)\<rparr>)"

definition ADD_EwIwR :: handler where [alu_defs]:
  "ADD_EwIwR i s =
     (let op1 = ucast (BX_READ_16BIT_REG (dst i) s) :: Bit32u;
          op2 = ucast (Iw i) :: Bit32u;
          sum = op1 + op2;
          s = BX_WRITE_16BIT_REG (dst i) (ucast sum) s
      in s\<lparr>oszapc := SET_FLAGS_OSZAPC_ADD_16 op1 op2 sum (oszapc s)\<rparr>)"

definition ADC_EwIwR :: handler where [alu_defs]:
  "ADC_EwIwR i s =
     (let op1 = ucast (BX_READ_16BIT_REG (dst i) s) :: Bit32u;
          op2 = ucast (Iw i) :: Bit32u;
          sum = op1 + op2 + getB_CF (oszapc s);
          s = BX_WRITE_16BIT_REG (dst i) (ucast sum) s
      in s\<lparr>oszapc := SET_FLAGS_OSZAPC_ADD_16 op1 op2 sum (oszapc s)\<rparr>)"

definition SBB_EwIwR :: handler where [alu_defs]:
  "SBB_EwIwR i s =
     (let op1 = ucast (BX_READ_16BIT_REG (dst i) s) :: Bit32u;
          op2 = ucast (Iw i) :: Bit32u;
          diff = op1 - (op2 + getB_CF (oszapc s));
          s = BX_WRITE_16BIT_REG (dst i) (ucast diff) s
      in s\<lparr>oszapc := SET_FLAGS_OSZAPC_SUB_16 op1 op2 diff (oszapc s)\<rparr>)"

definition SUB_EwIwR :: handler where [alu_defs]:
  "SUB_EwIwR i s =
     (let op1 = ucast (BX_READ_16BIT_REG (dst i) s) :: Bit32u;
          op2 = ucast (Iw i) :: Bit32u;
          diff = op1 - op2;
          s = BX_WRITE_16BIT_REG (dst i) (ucast diff) s
      in s\<lparr>oszapc := SET_FLAGS_OSZAPC_SUB_16 op1 op2 diff (oszapc s)\<rparr>)"

definition CMP_EwIwR :: handler where [alu_defs]:
  "CMP_EwIwR i s =
     (let op1 = ucast (BX_READ_16BIT_REG (dst i) s) :: Bit32u;
          op2 = ucast (Iw i) :: Bit32u;
          diff = op1 - op2
      in s\<lparr>oszapc := SET_FLAGS_OSZAPC_SUB_16 op1 op2 diff (oszapc s)\<rparr>)"

definition XADD_EwGwR :: handler where [alu_defs]:
  "XADD_EwGwR i s =
     (let op1 = ucast (BX_READ_16BIT_REG (dst i) s) :: Bit32u;
          op2 = ucast (BX_READ_16BIT_REG (src i) s) :: Bit32u;
          sum = op1 + op2;
          s = BX_WRITE_16BIT_REG (src i) (ucast op1) s;
          s = BX_WRITE_16BIT_REG (dst i) (ucast sum) s
      in s\<lparr>oszapc := SET_FLAGS_OSZAPC_ADD_16 op1 op2 sum (oszapc s)\<rparr>)"

definition NEG_EwR :: handler where [alu_defs]:
  "NEG_EwR i s =
     (let op1 = ucast (BX_READ_16BIT_REG (dst i) s) :: Bit32u;
          op1 = 0 - scast (ucast op1 :: Bit16u);
          s = BX_WRITE_16BIT_REG (dst i) (ucast op1) s
      in s\<lparr>oszapc := SET_FLAGS_OSZAPC_SUB_16 0 (0 - op1) op1 (oszapc s)\<rparr>)"

definition INC_EwR :: handler where [alu_defs]:
  "INC_EwR i s =
     (let s = BX_WRITE_16BIT_REG (dst i) (BX_READ_16BIT_REG (dst i) s + 1) s;
          rx = ucast (BX_READ_16BIT_REG (dst i) s) :: Bit32u
      in s\<lparr>oszapc := SET_FLAGS_OSZAP_ADD_16 (rx - 1) 0 rx (oszapc s)\<rparr>)"

definition DEC_EwR :: handler where [alu_defs]:
  "DEC_EwR i s =
     (let s = BX_WRITE_16BIT_REG (dst i) (BX_READ_16BIT_REG (dst i) s - 1) s;
          rx = ucast (BX_READ_16BIT_REG (dst i) s) :: Bit32u
      in s\<lparr>oszapc := SET_FLAGS_OSZAP_SUB_16 (rx + 1) 0 rx (oszapc s)\<rparr>)"

definition CMPXCHG_EwGwR :: handler where [alu_defs]:
  "CMPXCHG_EwGwR i s =
     (let op1 = BX_READ_16BIT_REG (dst i) s;
          diff = AX s - op1;
          s = s\<lparr>oszapc := SET_FLAGS_OSZAPC_SUB_16 (ucast (AX s)) (ucast op1) (ucast diff) (oszapc s)\<rparr>
      in if diff = 0
         then BX_WRITE_16BIT_REG (dst i) (BX_READ_16BIT_REG (src i) s) s
         else set_AX op1 s)"

definition CBW :: handler where [alu_defs]:
  "CBW i s = set_AX (scast (AL s)) s"

definition CWD :: handler where [alu_defs]:
  "CWD i s = (if AX s AND 0x8000 \<noteq> 0 then set_DX 0xFFFF s else set_DX 0x0000 s)"

subsection \<open>\<^verbatim>\<open>arith32.cc\<close>\<close>

definition ADD_GdEdR :: handler where [alu_defs]:
  "ADD_GdEdR i s =
     (let op1 = BX_READ_32BIT_REG (dst i) s :: Bit32u;
          op2 = BX_READ_32BIT_REG (src i) s :: Bit32u;
          sum = op1 + op2;
          s = BX_WRITE_32BIT_REGZ (dst i) sum s
      in s\<lparr>oszapc := SET_FLAGS_OSZAPC_ADD_32 op1 op2 sum (oszapc s)\<rparr>)"

definition ADC_GdEdR :: handler where [alu_defs]:
  "ADC_GdEdR i s =
     (let op1 = BX_READ_32BIT_REG (dst i) s :: Bit32u;
          op2 = BX_READ_32BIT_REG (src i) s :: Bit32u;
          sum = op1 + op2 + getB_CF (oszapc s);
          s = BX_WRITE_32BIT_REGZ (dst i) sum s
      in s\<lparr>oszapc := SET_FLAGS_OSZAPC_ADD_32 op1 op2 sum (oszapc s)\<rparr>)"

definition SBB_GdEdR :: handler where [alu_defs]:
  "SBB_GdEdR i s =
     (let op1 = BX_READ_32BIT_REG (dst i) s :: Bit32u;
          op2 = BX_READ_32BIT_REG (src i) s :: Bit32u;
          diff = op1 - (op2 + getB_CF (oszapc s));
          s = BX_WRITE_32BIT_REGZ (dst i) diff s
      in s\<lparr>oszapc := SET_FLAGS_OSZAPC_SUB_32 op1 op2 diff (oszapc s)\<rparr>)"

definition SUB_GdEdR :: handler where [alu_defs]:
  "SUB_GdEdR i s =
     (let op1 = BX_READ_32BIT_REG (dst i) s :: Bit32u;
          op2 = BX_READ_32BIT_REG (src i) s :: Bit32u;
          diff = op1 - op2;
          s = BX_WRITE_32BIT_REGZ (dst i) diff s
      in s\<lparr>oszapc := SET_FLAGS_OSZAPC_SUB_32 op1 op2 diff (oszapc s)\<rparr>)"

definition CMP_GdEdR :: handler where [alu_defs]:
  "CMP_GdEdR i s =
     (let op1 = BX_READ_32BIT_REG (dst i) s :: Bit32u;
          op2 = BX_READ_32BIT_REG (src i) s :: Bit32u;
          diff = op1 - op2
      in s\<lparr>oszapc := SET_FLAGS_OSZAPC_SUB_32 op1 op2 diff (oszapc s)\<rparr>)"

definition ADD_EdIdR :: handler where [alu_defs]:
  "ADD_EdIdR i s =
     (let op1 = BX_READ_32BIT_REG (dst i) s :: Bit32u;
          op2 = Id i :: Bit32u;
          sum = op1 + op2;
          s = BX_WRITE_32BIT_REGZ (dst i) sum s
      in s\<lparr>oszapc := SET_FLAGS_OSZAPC_ADD_32 op1 op2 sum (oszapc s)\<rparr>)"

definition ADC_EdIdR :: handler where [alu_defs]:
  "ADC_EdIdR i s =
     (let op1 = BX_READ_32BIT_REG (dst i) s :: Bit32u;
          op2 = Id i :: Bit32u;
          sum = op1 + op2 + getB_CF (oszapc s);
          s = BX_WRITE_32BIT_REGZ (dst i) sum s
      in s\<lparr>oszapc := SET_FLAGS_OSZAPC_ADD_32 op1 op2 sum (oszapc s)\<rparr>)"

definition SBB_EdIdR :: handler where [alu_defs]:
  "SBB_EdIdR i s =
     (let op1 = BX_READ_32BIT_REG (dst i) s :: Bit32u;
          op2 = Id i :: Bit32u;
          diff = op1 - (op2 + getB_CF (oszapc s));
          s = BX_WRITE_32BIT_REGZ (dst i) diff s
      in s\<lparr>oszapc := SET_FLAGS_OSZAPC_SUB_32 op1 op2 diff (oszapc s)\<rparr>)"

definition SUB_EdIdR :: handler where [alu_defs]:
  "SUB_EdIdR i s =
     (let op1 = BX_READ_32BIT_REG (dst i) s :: Bit32u;
          op2 = Id i :: Bit32u;
          diff = op1 - op2;
          s = BX_WRITE_32BIT_REGZ (dst i) diff s
      in s\<lparr>oszapc := SET_FLAGS_OSZAPC_SUB_32 op1 op2 diff (oszapc s)\<rparr>)"

definition CMP_EdIdR :: handler where [alu_defs]:
  "CMP_EdIdR i s =
     (let op1 = BX_READ_32BIT_REG (dst i) s :: Bit32u;
          op2 = Id i :: Bit32u;
          diff = op1 - op2
      in s\<lparr>oszapc := SET_FLAGS_OSZAPC_SUB_32 op1 op2 diff (oszapc s)\<rparr>)"

definition XADD_EdGdR :: handler where [alu_defs]:
  "XADD_EdGdR i s =
     (let op1 = BX_READ_32BIT_REG (dst i) s :: Bit32u;
          op2 = BX_READ_32BIT_REG (src i) s :: Bit32u;
          sum = op1 + op2;
          s = BX_WRITE_32BIT_REGZ (src i) op1 s;
          s = BX_WRITE_32BIT_REGZ (dst i) sum s
      in s\<lparr>oszapc := SET_FLAGS_OSZAPC_ADD_32 op1 op2 sum (oszapc s)\<rparr>)"

definition NEG_EdR :: handler where [alu_defs]:
  "NEG_EdR i s =
     (let op1 = BX_READ_32BIT_REG (dst i) s :: Bit32u;
          op1 = - op1;
          s = BX_WRITE_32BIT_REGZ (dst i) op1 s
      in s\<lparr>oszapc := SET_FLAGS_OSZAPC_SUB_32 0 (0 - op1) op1 (oszapc s)\<rparr>)"

definition INC_EdR :: handler where [alu_defs]:
  "INC_EdR i s =
     (let s = s\<lparr>gen_reg := (gen_reg s)(dst i := set_erx (BX_READ_32BIT_REG (dst i) s + 1) (gen_reg s (dst i)))\<rparr>;
          erx = BX_READ_32BIT_REG (dst i) s;
          s = s\<lparr>oszapc := SET_FLAGS_OSZAP_ADD_32 (erx - 1) 0 erx (oszapc s)\<rparr>
      in BX_CLEAR_64BIT_HIGH (dst i) s)"

definition DEC_EdR :: handler where [alu_defs]:
  "DEC_EdR i s =
     (let s = s\<lparr>gen_reg := (gen_reg s)(dst i := set_erx (BX_READ_32BIT_REG (dst i) s - 1) (gen_reg s (dst i)))\<rparr>;
          erx = BX_READ_32BIT_REG (dst i) s;
          s = s\<lparr>oszapc := SET_FLAGS_OSZAP_SUB_32 (erx + 1) 0 erx (oszapc s)\<rparr>
      in BX_CLEAR_64BIT_HIGH (dst i) s)"

definition CMPXCHG_EdGdR :: handler where [alu_defs]:
  "CMPXCHG_EdGdR i s =
     (let op1 = BX_READ_32BIT_REG (dst i) s;
          diff = EAX s - op1;
          s = s\<lparr>oszapc := SET_FLAGS_OSZAPC_SUB_32 (EAX s) op1 diff (oszapc s)\<rparr>
      in if diff = 0
         then BX_WRITE_32BIT_REGZ (dst i) (BX_READ_32BIT_REG (src i) s) s
         else set_RAX (ucast op1) s)"

definition CWDE :: handler where [alu_defs]:
  "CWDE i s = (let tmp = scast (AX s) :: Bit32u in set_RAX (ucast tmp) s)"

definition CDQ :: handler where [alu_defs]:
  "CDQ i s = (if EAX s AND 0x80000000 \<noteq> 0 then set_RDX 0xFFFFFFFF s else set_RDX 0x00000000 s)"

subsection \<open>\<^verbatim>\<open>arith64.cc\<close>\<close>

definition ADD_GqEqR :: handler where [alu_defs]:
  "ADD_GqEqR i s =
     (let op1 = BX_READ_64BIT_REG (dst i) s :: Bit64u;
          op2 = BX_READ_64BIT_REG (src i) s :: Bit64u;
          sum = op1 + op2;
          s = BX_WRITE_64BIT_REG (dst i) sum s
      in s\<lparr>oszapc := SET_FLAGS_OSZAPC_ADD_64 op1 op2 sum (oszapc s)\<rparr>)"

definition ADC_GqEqR :: handler where [alu_defs]:
  "ADC_GqEqR i s =
     (let op1 = BX_READ_64BIT_REG (dst i) s :: Bit64u;
          op2 = BX_READ_64BIT_REG (src i) s :: Bit64u;
          sum = op1 + op2 + ucast (getB_CF (oszapc s));
          s = BX_WRITE_64BIT_REG (dst i) sum s
      in s\<lparr>oszapc := SET_FLAGS_OSZAPC_ADD_64 op1 op2 sum (oszapc s)\<rparr>)"

definition SBB_GqEqR :: handler where [alu_defs]:
  "SBB_GqEqR i s =
     (let op1 = BX_READ_64BIT_REG (dst i) s :: Bit64u;
          op2 = BX_READ_64BIT_REG (src i) s :: Bit64u;
          diff = op1 - (op2 + ucast (getB_CF (oszapc s)));
          s = BX_WRITE_64BIT_REG (dst i) diff s
      in s\<lparr>oszapc := SET_FLAGS_OSZAPC_SUB_64 op1 op2 diff (oszapc s)\<rparr>)"

definition SUB_GqEqR :: handler where [alu_defs]:
  "SUB_GqEqR i s =
     (let op1 = BX_READ_64BIT_REG (dst i) s :: Bit64u;
          op2 = BX_READ_64BIT_REG (src i) s :: Bit64u;
          diff = op1 - op2;
          s = BX_WRITE_64BIT_REG (dst i) diff s
      in s\<lparr>oszapc := SET_FLAGS_OSZAPC_SUB_64 op1 op2 diff (oszapc s)\<rparr>)"

definition CMP_GqEqR :: handler where [alu_defs]:
  "CMP_GqEqR i s =
     (let op1 = BX_READ_64BIT_REG (dst i) s :: Bit64u;
          op2 = BX_READ_64BIT_REG (src i) s :: Bit64u;
          diff = op1 - op2
      in s\<lparr>oszapc := SET_FLAGS_OSZAPC_SUB_64 op1 op2 diff (oszapc s)\<rparr>)"

definition ADD_EqIdR :: handler where [alu_defs]:
  "ADD_EqIdR i s =
     (let op1 = BX_READ_64BIT_REG (dst i) s :: Bit64u;
          op2 = scast (Id i) :: Bit64u;
          sum = op1 + op2;
          s = BX_WRITE_64BIT_REG (dst i) sum s
      in s\<lparr>oszapc := SET_FLAGS_OSZAPC_ADD_64 op1 op2 sum (oszapc s)\<rparr>)"

definition ADC_EqIdR :: handler where [alu_defs]:
  "ADC_EqIdR i s =
     (let op1 = BX_READ_64BIT_REG (dst i) s :: Bit64u;
          op2 = scast (Id i) :: Bit64u;
          sum = op1 + op2 + ucast (getB_CF (oszapc s));
          s = BX_WRITE_64BIT_REG (dst i) sum s
      in s\<lparr>oszapc := SET_FLAGS_OSZAPC_ADD_64 op1 op2 sum (oszapc s)\<rparr>)"

definition SBB_EqIdR :: handler where [alu_defs]:
  "SBB_EqIdR i s =
     (let op1 = BX_READ_64BIT_REG (dst i) s :: Bit64u;
          op2 = scast (Id i) :: Bit64u;
          diff = op1 - (op2 + ucast (getB_CF (oszapc s)));
          s = BX_WRITE_64BIT_REG (dst i) diff s
      in s\<lparr>oszapc := SET_FLAGS_OSZAPC_SUB_64 op1 op2 diff (oszapc s)\<rparr>)"

definition SUB_EqIdR :: handler where [alu_defs]:
  "SUB_EqIdR i s =
     (let op1 = BX_READ_64BIT_REG (dst i) s :: Bit64u;
          op2 = scast (Id i) :: Bit64u;
          diff = op1 - op2;
          s = BX_WRITE_64BIT_REG (dst i) diff s
      in s\<lparr>oszapc := SET_FLAGS_OSZAPC_SUB_64 op1 op2 diff (oszapc s)\<rparr>)"

definition CMP_EqIdR :: handler where [alu_defs]:
  "CMP_EqIdR i s =
     (let op1 = BX_READ_64BIT_REG (dst i) s :: Bit64u;
          op2 = scast (Id i) :: Bit64u;
          diff = op1 - op2
      in s\<lparr>oszapc := SET_FLAGS_OSZAPC_SUB_64 op1 op2 diff (oszapc s)\<rparr>)"

definition XADD_EqGqR :: handler where [alu_defs]:
  "XADD_EqGqR i s =
     (let op1 = BX_READ_64BIT_REG (dst i) s :: Bit64u;
          op2 = BX_READ_64BIT_REG (src i) s :: Bit64u;
          sum = op1 + op2;
          s = BX_WRITE_64BIT_REG (src i) op1 s;
          s = BX_WRITE_64BIT_REG (dst i) sum s
      in s\<lparr>oszapc := SET_FLAGS_OSZAPC_ADD_64 op1 op2 sum (oszapc s)\<rparr>)"

definition NEG_EqR :: handler where [alu_defs]:
  "NEG_EqR i s =
     (let op1 = BX_READ_64BIT_REG (dst i) s :: Bit64u;
          op1 = - op1;
          s = BX_WRITE_64BIT_REG (dst i) op1 s
      in s\<lparr>oszapc := SET_FLAGS_OSZAPC_SUB_64 0 (0 - op1) op1 (oszapc s)\<rparr>)"

definition INC_EqR :: handler where [alu_defs]:
  "INC_EqR i s =
     (let s = BX_WRITE_64BIT_REG (dst i) (BX_READ_64BIT_REG (dst i) s + 1) s;
          rrx = BX_READ_64BIT_REG (dst i) s
      in s\<lparr>oszapc := SET_FLAGS_OSZAP_ADD_64 (rrx - 1) 0 rrx (oszapc s)\<rparr>)"

definition DEC_EqR :: handler where [alu_defs]:
  "DEC_EqR i s =
     (let s = BX_WRITE_64BIT_REG (dst i) (BX_READ_64BIT_REG (dst i) s - 1) s;
          rrx = BX_READ_64BIT_REG (dst i) s
      in s\<lparr>oszapc := SET_FLAGS_OSZAP_SUB_64 (rrx + 1) 0 rrx (oszapc s)\<rparr>)"

definition CMPXCHG_EqGqR :: handler where [alu_defs]:
  "CMPXCHG_EqGqR i s =
     (let op1 = BX_READ_64BIT_REG (dst i) s;
          diff = RAX s - op1;
          s = s\<lparr>oszapc := SET_FLAGS_OSZAPC_SUB_64 (RAX s) op1 diff (oszapc s)\<rparr>
      in if diff = 0
         then BX_WRITE_64BIT_REG (dst i) (BX_READ_64BIT_REG (src i) s) s
         else set_RAX op1 s)"

definition CDQE :: handler where [alu_defs]:
  "CDQE i s = set_RAX (scast (EAX s)) s"

definition CQO :: handler where [alu_defs]:
  "CQO i s = (if RAX s AND 0x8000000000000000 \<noteq> 0 then set_RDX 0xFFFFFFFFFFFFFFFF s else set_RDX 0 s)"


section \<open>The abstract machine\<close>

text \<open>
  What a program sees of the same state: the registers, EFLAGS and six flags. An operand is
  a pair of a read and a write function on it, at the operand's own width \<open>'n\<close>; the
  specifications below are generic in that width.
\<close>

record acpu =
  areg :: "nat \<Rightarrow> bx_gen_reg_t"
  aflags :: flags6
  aeflags :: Bit32u

definition acpu_of :: "bx_cpu \<Rightarrow> acpu" where
  "acpu_of s = \<lparr>areg = gen_reg s, aflags = lf_flags (oszapc s), aeflags = eflags s\<rparr>"

definition r8 :: "nat \<Rightarrow> bool \<Rightarrow> acpu \<Rightarrow> 8 word" where
  "r8 n x a = (if \<not> bit n 2 \<or> x then reg_rl (areg a n) else reg_rh (areg a (n - 4)))"
definition w8 :: "nat \<Rightarrow> bool \<Rightarrow> 8 word \<Rightarrow> acpu \<Rightarrow> acpu" where
  "w8 n x v a = (if \<not> bit n 2 \<or> x then a\<lparr>areg := (areg a)(n := set_rl v (areg a n))\<rparr>
                 else a\<lparr>areg := (areg a)(n - 4 := set_rh v (areg a (n - 4)))\<rparr>)"
definition r16 :: "nat \<Rightarrow> acpu \<Rightarrow> 16 word" where "r16 n a = reg_rx (areg a n)"
definition w16 :: "nat \<Rightarrow> 16 word \<Rightarrow> acpu \<Rightarrow> acpu" where
  "w16 n v a = a\<lparr>areg := (areg a)(n := set_rx v (areg a n))\<rparr>"
definition r32 :: "nat \<Rightarrow> acpu \<Rightarrow> 32 word" where "r32 n a = reg_erx (areg a n)"
definition w32 :: "nat \<Rightarrow> 32 word \<Rightarrow> acpu \<Rightarrow> acpu" where
  "w32 n v a = a\<lparr>areg := (areg a)(n := ucast v)\<rparr>"
definition r64 :: "nat \<Rightarrow> acpu \<Rightarrow> 64 word" where "r64 n a = areg a n"
definition w64 :: "nat \<Rightarrow> 64 word \<Rightarrow> acpu \<Rightarrow> acpu" where
  "w64 n v a = a\<lparr>areg := (areg a)(n := v)\<rparr>"

lemmas operand_defs = r8_def w8_def r16_def w16_def r32_def w32_def r64_def w64_def

definition spec_add :: "(acpu \<Rightarrow> 'n::len word) \<Rightarrow> ('n word \<Rightarrow> acpu \<Rightarrow> acpu) \<Rightarrow> (acpu \<Rightarrow> 'n word) \<Rightarrow> acpu \<Rightarrow> acpu" where
  "spec_add rd wr rs a = (wr (rd a + rs a) a)\<lparr>aflags := add_oszapc (rd a) (rs a) False\<rparr>"
definition spec_adc :: "(acpu \<Rightarrow> 'n::len word) \<Rightarrow> ('n word \<Rightarrow> acpu \<Rightarrow> acpu) \<Rightarrow> (acpu \<Rightarrow> 'n word) \<Rightarrow> acpu \<Rightarrow> acpu" where
  "spec_adc rd wr rs a = (let c = f_CF (aflags a) in
     (wr (rd a + rs a + of_bool c) a)\<lparr>aflags := add_oszapc (rd a) (rs a) c\<rparr>)"
definition spec_sub :: "(acpu \<Rightarrow> 'n::len word) \<Rightarrow> ('n word \<Rightarrow> acpu \<Rightarrow> acpu) \<Rightarrow> (acpu \<Rightarrow> 'n word) \<Rightarrow> acpu \<Rightarrow> acpu" where
  "spec_sub rd wr rs a = (wr (rd a - rs a) a)\<lparr>aflags := sub_oszapc (rd a) (rs a) False\<rparr>"
definition spec_sbb :: "(acpu \<Rightarrow> 'n::len word) \<Rightarrow> ('n word \<Rightarrow> acpu \<Rightarrow> acpu) \<Rightarrow> (acpu \<Rightarrow> 'n word) \<Rightarrow> acpu \<Rightarrow> acpu" where
  "spec_sbb rd wr rs a = (let c = f_CF (aflags a) in
     (wr (rd a - (rs a + of_bool c)) a)\<lparr>aflags := sub_oszapc (rd a) (rs a) c\<rparr>)"
definition spec_cmp :: "(acpu \<Rightarrow> 'n::len word) \<Rightarrow> (acpu \<Rightarrow> 'n word) \<Rightarrow> acpu \<Rightarrow> acpu" where
  "spec_cmp rd rs a = a\<lparr>aflags := sub_oszapc (rd a) (rs a) False\<rparr>"
definition spec_neg :: "(acpu \<Rightarrow> 'n::len word) \<Rightarrow> ('n word \<Rightarrow> acpu \<Rightarrow> acpu) \<Rightarrow> acpu \<Rightarrow> acpu" where
  "spec_neg rd wr a = (wr (- rd a) a)\<lparr>aflags := sub_oszapc 0 (rd a) False\<rparr>"
definition spec_inc :: "(acpu \<Rightarrow> 'n::len word) \<Rightarrow> ('n word \<Rightarrow> acpu \<Rightarrow> acpu) \<Rightarrow> acpu \<Rightarrow> acpu" where
  "spec_inc rd wr a = (wr (rd a + 1) a)\<lparr>aflags := (add_oszapc (rd a) 0 True)\<lparr>f_CF := f_CF (aflags a)\<rparr>\<rparr>"
definition spec_dec :: "(acpu \<Rightarrow> 'n::len word) \<Rightarrow> ('n word \<Rightarrow> acpu \<Rightarrow> acpu) \<Rightarrow> acpu \<Rightarrow> acpu" where
  "spec_dec rd wr a = (wr (rd a - 1) a)\<lparr>aflags := (sub_oszapc (rd a) 0 True)\<lparr>f_CF := f_CF (aflags a)\<rparr>\<rparr>"
definition spec_xadd ::
    "(acpu \<Rightarrow> 'n::len word) \<Rightarrow> ('n word \<Rightarrow> acpu \<Rightarrow> acpu) \<Rightarrow> (acpu \<Rightarrow> 'n word) \<Rightarrow> ('n word \<Rightarrow> acpu \<Rightarrow> acpu) \<Rightarrow> acpu \<Rightarrow> acpu" where
  "spec_xadd rd wr rs ws a =
     (wr (rd a + rs a) (ws (rd a) a))\<lparr>aflags := add_oszapc (rd a) (rs a) False\<rparr>"
definition spec_cmpxchg ::
    "(acpu \<Rightarrow> 'n::len word) \<Rightarrow> (acpu \<Rightarrow> 'n word) \<Rightarrow> ('n word \<Rightarrow> acpu \<Rightarrow> acpu) \<Rightarrow> (acpu \<Rightarrow> 'n word) \<Rightarrow>
     ('n word \<Rightarrow> acpu \<Rightarrow> acpu) \<Rightarrow> acpu \<Rightarrow> acpu" where
  "spec_cmpxchg rd rs wr acc wacc a =
     (let a' = a\<lparr>aflags := sub_oszapc (acc a) (rd a) False\<rparr>
      in if acc a = rd a then wr (rs a) a' else wacc (rd a) a')"

lemmas spec_alu_defs = spec_add_def spec_adc_def spec_sub_def spec_sbb_def spec_cmp_def spec_neg_def
  spec_inc_def spec_dec_def spec_xadd_def spec_cmpxchg_def

section \<open>Refinement\<close>

lemma narrow_widen [simp]:
  "(ucast (ucast (x :: Bit8u) :: Bit32u) :: Bit8u) = x"
  "(ucast (ucast (y :: Bit16u) :: Bit32u) :: Bit16u) = y"
  by (simp_all add: ucast_up_ucast_id is_up)

lemma narrow_sign_extend [simp]:
  "(ucast (scast (x :: Bit8u) :: Bit32u) :: Bit8u) = x"
  "(ucast (scast (y :: Bit16u) :: Bit32u) :: Bit16u) = y"
  by (simp_all add: scast_up_scast_id down_cast_same is_up is_down)

lemma narrow_arith [simp]:
  fixes a b :: Bit32u
  shows "(ucast (a + b) :: Bit8u) = ucast a + ucast b" "(ucast (a + b) :: Bit16u) = ucast a + ucast b"
    "(ucast (a - b) :: Bit8u) = ucast a - ucast b" "(ucast (a - b) :: Bit16u) = ucast a - ucast b"
    "(ucast (- b) :: Bit8u) = - ucast b" "(ucast (- b) :: Bit16u) = - ucast b"
    "(ucast (of_bool c :: Bit32u) :: Bit8u) = of_bool c" "(ucast (of_bool c :: Bit32u) :: Bit16u) = of_bool c"
    "(ucast (of_bool c :: Bit32u) :: Bit64u) = of_bool c"
  using ucast_sum [where 'n = 8, of a b False] ucast_sum [where 'n = 16, of a b False]
    ucast_diff [where 'n = 8, of a b False] ucast_diff [where 'n = 16, of a b False]
    ucast_diff [where 'n = 8, of 0 b False] ucast_diff [where 'n = 16, of 0 b False]
  by simp_all

lemma acpu_reads [simp]:
  "BX_READ_8BIT_REGx n x s = r8 n x (acpu_of s)" "BX_READ_16BIT_REG n s = r16 n (acpu_of s)"
  "BX_READ_32BIT_REG n s = r32 n (acpu_of s)" "BX_READ_64BIT_REG n s = r64 n (acpu_of s)"
  "AL s = r8 0 False (acpu_of s)" "AX s = r16 0 (acpu_of s)" "EAX s = r32 0 (acpu_of s)" "RAX s = r64 0 (acpu_of s)"
  by (simp_all add: acpu_of_def operand_defs cpu_reg_defs)

lemma acpu_writes [simp]:
  "acpu_of (BX_WRITE_8BIT_REGx n x v s) = w8 n x v (acpu_of s)"
  "acpu_of (BX_WRITE_16BIT_REG n u s) = w16 n u (acpu_of s)"
  "acpu_of (BX_WRITE_32BIT_REGZ n y s) = w32 n y (acpu_of s)"
  "acpu_of (BX_WRITE_64BIT_REG n z s) = w64 n z (acpu_of s)"
  "acpu_of (set_AL v s) = w8 0 False v (acpu_of s)" "acpu_of (set_AX u s) = w16 0 u (acpu_of s)"
  "acpu_of (set_RAX z s) = w64 0 z (acpu_of s)"
  "acpu_of (oszapc_update f s) = (acpu_of s)\<lparr>aflags := lf_flags (f (oszapc s))\<rparr>"
  by (simp_all add: acpu_of_def operand_defs cpu_reg_defs)

lemma operand_frame [simp]:
  "r8 n x (aflags_update f a) = r8 n x a" "r16 n (aflags_update f a) = r16 n a"
  "r32 n (aflags_update f a) = r32 n a" "r64 n (aflags_update f a) = r64 n a"
  "r8 n x (w8 n x v a) = v" "r16 n (w16 n u a) = u" "r32 n (w32 n y a) = y" "r64 n (w64 n z a) = z"
  "aflags (w8 n x v a) = aflags a" "aflags (w16 n u a) = aflags a"
  "aflags (w32 n y a) = aflags a" "aflags (w64 n z a) = aflags a"
  by (simp_all add: operand_defs)

text \<open>An increment of \<open>erx\<close> in place followed by clearing \<open>hrx\<close> is a zero-extending write.\<close>

lemma inc_in_place [simp]:
  "r32 n (acpu_of (s\<lparr>gen_reg := (gen_reg s)(n := set_erx v (gen_reg s n))\<rparr>)) = v"
  "acpu_of (BX_CLEAR_64BIT_HIGH n (s\<lparr>gen_reg := (gen_reg s)(n := set_erx v (gen_reg s n)), oszapc := e\<rparr>)) =
     (w32 n v (acpu_of s))\<lparr>aflags := lf_flags e\<rparr>"
  by (simp_all add: acpu_of_def operand_defs cpu_reg_defs set_hrx_0)

lemma getB_CF_acpu [simp]: "getB_CF (oszapc s) = of_bool (f_CF (aflags (acpu_of s)))"
  by (simp add: acpu_of_def getB_of_flags)

lemma lf_flags_acpu [simp]: "lf_flags (oszapc s) = aflags (acpu_of s)"
  by (simp add: acpu_of_def)

lemma w64_ucast [simp]: "w64 n (ucast (v :: Bit32u)) a = w32 n v a"
  by (simp add: operand_defs)

lemma widen_8_inj [simp]: "(ucast x :: Bit32u) = ucast y \<longleftrightarrow> x = y" for x y :: Bit8u
  using narrow_widen(1) by metis

lemmas sized_flag_simps =
  flags8.sub_flags_self flags16.sub_flags_self flags32.sub_flags_self flags64.sub_flags_self
  flags16.sub_flags_narrow
  flags8.add_flags flags8.sub_flags flags8.add_flags_0 flags8.sub_flags_0 flags8.neg_flags flags8.inc_flags flags8.dec_flags
  flags8.inc_flags_from_result flags8.dec_flags_from_result flags16.inc_flags_from_result flags16.dec_flags_from_result
  flags32.inc_flags_from_result flags32.dec_flags_from_result flags64.inc_flags_from_result flags64.dec_flags_from_result
  flags16.add_flags flags16.sub_flags flags16.add_flags_0 flags16.sub_flags_0 flags16.neg_flags flags16.inc_flags flags16.dec_flags
  flags32.add_flags flags32.sub_flags flags32.add_flags_0 flags32.sub_flags_0 flags32.neg_flags flags32.inc_flags flags32.dec_flags
  flags64.add_flags flags64.sub_flags flags64.add_flags_0 flags64.sub_flags_0 flags64.neg_flags flags64.inc_flags flags64.dec_flags

lemmas set_flags_macros =
  SET_FLAGS_OSZAPC_ADD_8_def SET_FLAGS_OSZAPC_ADD_16_def SET_FLAGS_OSZAPC_ADD_32_def SET_FLAGS_OSZAPC_ADD_64_def
  SET_FLAGS_OSZAPC_SUB_8_def SET_FLAGS_OSZAPC_SUB_16_def SET_FLAGS_OSZAPC_SUB_32_def SET_FLAGS_OSZAPC_SUB_64_def
  SET_FLAGS_OSZAP_ADD_8_def SET_FLAGS_OSZAP_ADD_16_def SET_FLAGS_OSZAP_ADD_32_def SET_FLAGS_OSZAP_ADD_64_def
  SET_FLAGS_OSZAP_SUB_8_def SET_FLAGS_OSZAP_SUB_16_def SET_FLAGS_OSZAP_SUB_32_def SET_FLAGS_OSZAP_SUB_64_def

text \<open>
  C9: Every register and immediate form of ADD and ADC, at 8, 16, 32 and 64 bits, writes the
  sum (with the carry in) to the destination operand, sets the six flags to the
  architectural flags of the addition - OF and CF from the exact signed and unsigned sums -
  and changes nothing else.
\<close>

theorem ADD_ADC_refine:
  "acpu_of (ADD_GbEbR i s) = spec_add (r8 (dst i) (extend8bitL i)) (w8 (dst i) (extend8bitL i)) (r8 (src i) (extend8bitL i)) (acpu_of s)
    \<and> acpu_of (ADD_EbIbR i s) = spec_add (r8 (dst i) (extend8bitL i)) (w8 (dst i) (extend8bitL i)) (\<lambda>_. Ib i) (acpu_of s)
    \<and> acpu_of (ADD_GwEwR i s) = spec_add (r16 (dst i)) (w16 (dst i)) (r16 (src i)) (acpu_of s)
    \<and> acpu_of (ADD_EwIwR i s) = spec_add (r16 (dst i)) (w16 (dst i)) (\<lambda>_. Iw i) (acpu_of s)
    \<and> acpu_of (ADD_GdEdR i s) = spec_add (r32 (dst i)) (w32 (dst i)) (r32 (src i)) (acpu_of s)
    \<and> acpu_of (ADD_EdIdR i s) = spec_add (r32 (dst i)) (w32 (dst i)) (\<lambda>_. Id i) (acpu_of s)
    \<and> acpu_of (ADD_GqEqR i s) = spec_add (r64 (dst i)) (w64 (dst i)) (r64 (src i)) (acpu_of s)
    \<and> acpu_of (ADD_EqIdR i s) = spec_add (r64 (dst i)) (w64 (dst i)) (\<lambda>_. scast (Id i)) (acpu_of s)
    \<and> acpu_of (ADC_GbEbR i s) = spec_adc (r8 (dst i) (extend8bitL i)) (w8 (dst i) (extend8bitL i)) (r8 (src i) (extend8bitL i)) (acpu_of s)
    \<and> acpu_of (ADC_EbIbR i s) = spec_adc (r8 (dst i) (extend8bitL i)) (w8 (dst i) (extend8bitL i)) (\<lambda>_. Ib i) (acpu_of s)
    \<and> acpu_of (ADC_GwEwR i s) = spec_adc (r16 (dst i)) (w16 (dst i)) (r16 (src i)) (acpu_of s)
    \<and> acpu_of (ADC_EwIwR i s) = spec_adc (r16 (dst i)) (w16 (dst i)) (\<lambda>_. Iw i) (acpu_of s)
    \<and> acpu_of (ADC_GdEdR i s) = spec_adc (r32 (dst i)) (w32 (dst i)) (r32 (src i)) (acpu_of s)
    \<and> acpu_of (ADC_EdIdR i s) = spec_adc (r32 (dst i)) (w32 (dst i)) (\<lambda>_. Id i) (acpu_of s)
    \<and> acpu_of (ADC_GqEqR i s) = spec_adc (r64 (dst i)) (w64 (dst i)) (r64 (src i)) (acpu_of s)
    \<and> acpu_of (ADC_EqIdR i s) = spec_adc (r64 (dst i)) (w64 (dst i)) (\<lambda>_. scast (Id i)) (acpu_of s)"
  by (intro conjI) (simp_all add: alu_defs spec_alu_defs Let_def set_flags_macros sized_flag_simps)

text \<open>
  C26: Every register and immediate form of SUB, SBB and CMP writes the difference (CMP
  nothing), sets the six architectural flags of the subtraction with its borrow, and changes
  nothing else.
\<close>

theorem SUB_SBB_CMP_refine:
  "acpu_of (SUB_GbEbR i s) = spec_sub (r8 (dst i) (extend8bitL i)) (w8 (dst i) (extend8bitL i)) (r8 (src i) (extend8bitL i)) (acpu_of s)
    \<and> acpu_of (SUB_EbIbR i s) = spec_sub (r8 (dst i) (extend8bitL i)) (w8 (dst i) (extend8bitL i)) (\<lambda>_. Ib i) (acpu_of s)
    \<and> acpu_of (SUB_GwEwR i s) = spec_sub (r16 (dst i)) (w16 (dst i)) (r16 (src i)) (acpu_of s)
    \<and> acpu_of (SUB_EwIwR i s) = spec_sub (r16 (dst i)) (w16 (dst i)) (\<lambda>_. Iw i) (acpu_of s)
    \<and> acpu_of (SUB_GdEdR i s) = spec_sub (r32 (dst i)) (w32 (dst i)) (r32 (src i)) (acpu_of s)
    \<and> acpu_of (SUB_EdIdR i s) = spec_sub (r32 (dst i)) (w32 (dst i)) (\<lambda>_. Id i) (acpu_of s)
    \<and> acpu_of (SUB_GqEqR i s) = spec_sub (r64 (dst i)) (w64 (dst i)) (r64 (src i)) (acpu_of s)
    \<and> acpu_of (SUB_EqIdR i s) = spec_sub (r64 (dst i)) (w64 (dst i)) (\<lambda>_. scast (Id i)) (acpu_of s)
    \<and> acpu_of (SBB_GbEbR i s) = spec_sbb (r8 (dst i) (extend8bitL i)) (w8 (dst i) (extend8bitL i)) (r8 (src i) (extend8bitL i)) (acpu_of s)
    \<and> acpu_of (SBB_EbIbR i s) = spec_sbb (r8 (dst i) (extend8bitL i)) (w8 (dst i) (extend8bitL i)) (\<lambda>_. Ib i) (acpu_of s)
    \<and> acpu_of (SBB_GwEwR i s) = spec_sbb (r16 (dst i)) (w16 (dst i)) (r16 (src i)) (acpu_of s)
    \<and> acpu_of (SBB_EwIwR i s) = spec_sbb (r16 (dst i)) (w16 (dst i)) (\<lambda>_. Iw i) (acpu_of s)
    \<and> acpu_of (SBB_GdEdR i s) = spec_sbb (r32 (dst i)) (w32 (dst i)) (r32 (src i)) (acpu_of s)
    \<and> acpu_of (SBB_EdIdR i s) = spec_sbb (r32 (dst i)) (w32 (dst i)) (\<lambda>_. Id i) (acpu_of s)
    \<and> acpu_of (SBB_GqEqR i s) = spec_sbb (r64 (dst i)) (w64 (dst i)) (r64 (src i)) (acpu_of s)
    \<and> acpu_of (SBB_EqIdR i s) = spec_sbb (r64 (dst i)) (w64 (dst i)) (\<lambda>_. scast (Id i)) (acpu_of s)
    \<and> acpu_of (CMP_GbEbR i s) = spec_cmp (r8 (dst i) (extend8bitL i)) (r8 (src i) (extend8bitL i)) (acpu_of s)
    \<and> acpu_of (CMP_EbIbR i s) = spec_cmp (r8 (dst i) (extend8bitL i)) (\<lambda>_. Ib i) (acpu_of s)
    \<and> acpu_of (CMP_GwEwR i s) = spec_cmp (r16 (dst i)) (r16 (src i)) (acpu_of s)
    \<and> acpu_of (CMP_EwIwR i s) = spec_cmp (r16 (dst i)) (\<lambda>_. Iw i) (acpu_of s)
    \<and> acpu_of (CMP_GdEdR i s) = spec_cmp (r32 (dst i)) (r32 (src i)) (acpu_of s)
    \<and> acpu_of (CMP_EdIdR i s) = spec_cmp (r32 (dst i)) (\<lambda>_. Id i) (acpu_of s)
    \<and> acpu_of (CMP_GqEqR i s) = spec_cmp (r64 (dst i)) (r64 (src i)) (acpu_of s)
    \<and> acpu_of (CMP_EqIdR i s) = spec_cmp (r64 (dst i)) (\<lambda>_. scast (Id i)) (acpu_of s)"
  by (intro conjI) (simp_all add: alu_defs spec_alu_defs Let_def set_flags_macros sized_flag_simps)

text \<open>
  C28: NEG, INC and DEC at every size write the result and set the architectural flags; INC
  and DEC keep CF.
\<close>

theorem NEG_INC_DEC_refine:
  "acpu_of (NEG_EbR i s) = spec_neg (r8 (dst i) (extend8bitL i)) (w8 (dst i) (extend8bitL i)) (acpu_of s)
    \<and> acpu_of (NEG_EwR i s) = spec_neg (r16 (dst i)) (w16 (dst i)) (acpu_of s)
    \<and> acpu_of (NEG_EdR i s) = spec_neg (r32 (dst i)) (w32 (dst i)) (acpu_of s)
    \<and> acpu_of (NEG_EqR i s) = spec_neg (r64 (dst i)) (w64 (dst i)) (acpu_of s)
    \<and> acpu_of (INC_EbR i s) = spec_inc (r8 (dst i) (extend8bitL i)) (w8 (dst i) (extend8bitL i)) (acpu_of s)
    \<and> acpu_of (INC_EwR i s) = spec_inc (r16 (dst i)) (w16 (dst i)) (acpu_of s)
    \<and> acpu_of (INC_EdR i s) = spec_inc (r32 (dst i)) (w32 (dst i)) (acpu_of s)
    \<and> acpu_of (INC_EqR i s) = spec_inc (r64 (dst i)) (w64 (dst i)) (acpu_of s)
    \<and> acpu_of (DEC_EbR i s) = spec_dec (r8 (dst i) (extend8bitL i)) (w8 (dst i) (extend8bitL i)) (acpu_of s)
    \<and> acpu_of (DEC_EwR i s) = spec_dec (r16 (dst i)) (w16 (dst i)) (acpu_of s)
    \<and> acpu_of (DEC_EdR i s) = spec_dec (r32 (dst i)) (w32 (dst i)) (acpu_of s)
    \<and> acpu_of (DEC_EqR i s) = spec_dec (r64 (dst i)) (w64 (dst i)) (acpu_of s)"
  by (intro conjI) (simp_all add: alu_defs spec_alu_defs Let_def set_flags_macros sized_flag_simps)

text \<open>
  XADD adds like ADD and moves the old destination to the source register. CMPXCHG compares
  the accumulator with the destination, sets the flags of that subtraction, and then writes the
  source to the destination when they are equal and the destination to the accumulator when they
  are not.
\<close>

lemma XADD_CMPXCHG_refine:
  "acpu_of (XADD_EbGbR i s) = spec_xadd (r8 (dst i) (extend8bitL i)) (w8 (dst i) (extend8bitL i)) (r8 (src i) (extend8bitL i)) (w8 (src i) (extend8bitL i)) (acpu_of s)
    \<and> acpu_of (XADD_EwGwR i s) = spec_xadd (r16 (dst i)) (w16 (dst i)) (r16 (src i)) (w16 (src i)) (acpu_of s)
    \<and> acpu_of (XADD_EdGdR i s) = spec_xadd (r32 (dst i)) (w32 (dst i)) (r32 (src i)) (w32 (src i)) (acpu_of s)
    \<and> acpu_of (XADD_EqGqR i s) = spec_xadd (r64 (dst i)) (w64 (dst i)) (r64 (src i)) (w64 (src i)) (acpu_of s)
    \<and> acpu_of (CMPXCHG_EbGbR i s) = spec_cmpxchg (r8 (dst i) (extend8bitL i)) (r8 (src i) (extend8bitL i)) (w8 (dst i) (extend8bitL i)) (r8 0 False) (w8 0 False) (acpu_of s)
    \<and> acpu_of (CMPXCHG_EwGwR i s) = spec_cmpxchg (r16 (dst i)) (r16 (src i)) (w16 (dst i)) (r16 0) (w16 0) (acpu_of s)
    \<and> acpu_of (CMPXCHG_EdGdR i s) = spec_cmpxchg (r32 (dst i)) (r32 (src i)) (w32 (dst i)) (r32 0) (w32 0) (acpu_of s)
    \<and> acpu_of (CMPXCHG_EqGqR i s) = spec_cmpxchg (r64 (dst i)) (r64 (src i)) (w64 (dst i)) (r64 0) (w64 0) (acpu_of s)"
  by (intro conjI) (simp_all add: alu_defs spec_alu_defs Let_def set_flags_macros sized_flag_simps)


section \<open>Sign extension\<close>

definition DX :: "bx_cpu \<Rightarrow> Bit16u" where "DX s = reg_rx (gen_reg s BX_64BIT_REG_RDX)"
definition EDX :: "bx_cpu \<Rightarrow> Bit32u" where "EDX s = reg_erx (gen_reg s BX_64BIT_REG_RDX)"
definition RDX :: "bx_cpu \<Rightarrow> Bit64u" where "RDX s = gen_reg s BX_64BIT_REG_RDX"

lemma sign_words:
  "(0xFFFF :: Bit16u) = - 1" "(0xFFFFFFFF :: Bit32u) = - 1" "(0xFFFFFFFFFFFFFFFF :: Bit64u) = - 1"
  by simp_all

lemma sint_concat_sign:
  fixes w :: "'n::len word"
  assumes "LENGTH('d::len) = 2 * LENGTH('n)"
  shows "sint (word_cat (if sint w < 0 then - 1 else 0 :: 'n word) w :: 'd word) = sint w"
proof -
  have "(word_cat (if sint w < 0 then - 1 else 0 :: 'n word) w :: 'd word) = scast w"
  proof (rule bit_word_eqI)
    fix k assume k: "k < LENGTH('d)"
    consider "k < LENGTH('n) - 1" | "k = LENGTH('n) - 1" | "LENGTH('n) \<le> k"
      by linarith
    then show "bit (word_cat (if sint w < 0 then - 1 else 0 :: 'n word) w :: 'd word) k = bit (scast w :: 'd word) k"
      using assms k by cases (auto simp: bit_word_cat_iff bit_signed_iff sint_less_0_bit min_absorb1 min_absorb2)
  qed
  then show ?thesis using assms by (simp add: sint_up_scast is_up)
qed

lemma sign_test:
  "AX s AND 0x8000 \<noteq> 0 \<longleftrightarrow> sint (AX s) < 0" "EAX s AND 0x80000000 \<noteq> 0 \<longleftrightarrow> sint (EAX s) < 0"
  "RAX s AND 0x8000000000000000 \<noteq> 0 \<longleftrightarrow> sint (RAX s) < 0"
  using and_mask_eq_0_iff [of "AX s" 15] and_mask_eq_0_iff [of "EAX s" 31] and_mask_eq_0_iff [of "RAX s" 63]
  by (simp_all add: sint_less_0_bit)

text \<open>
  CBW, CWDE and CDQE keep the signed value of the accumulator in its double width, and
  CWD, CDQ and CQO in the register pair rDX:rAX.
\<close>

lemma sign_extension:
  "sint (AX (CBW i s)) = sint (AL s) \<and> sint (EAX (CWDE i s)) = sint (AX s) \<and> sint (RAX (CDQE i s)) = sint (EAX s)
    \<and> sint (word_cat (DX (CWD i s)) (AX (CWD i s)) :: 32 word) = sint (AX s)
    \<and> sint (word_cat (EDX (CDQ i s)) (EAX (CDQ i s)) :: 64 word) = sint (EAX s)
    \<and> sint (word_cat (RDX (CQO i s)) (RAX (CQO i s)) :: 128 word) = sint (RAX s)"
proof (intro conjI)
  show "sint (AX (CBW i s)) = sint (AL s)" 
    by (simp add: CBW_def cpu_reg_defs sint_up_scast is_up del: acpu_reads)
  show "sint (EAX (CWDE i s)) = sint (AX s)"
    by (simp add: CWDE_def cpu_reg_defs sint_up_scast is_up del: acpu_reads)
  show "sint (RAX (CDQE i s)) = sint (EAX s)"
    by (simp add: CDQE_def cpu_reg_defs sint_up_scast is_up del: acpu_reads)
  have "AX (CWD i s) = AX s" "DX (CWD i s) = (if sint (AX s) < 0 then - 1 else 0)"
    unfolding CWD_def sign_test sign_words by (simp_all add: DX_def cpu_reg_defs del: acpu_reads)
  then show "sint (word_cat (DX (CWD i s)) (AX (CWD i s)) :: 32 word) = sint (AX s)"
    by (simp add: sint_concat_sign)
  have "EAX (CDQ i s) = EAX s" "EDX (CDQ i s) = (if sint (EAX s) < 0 then - 1 else 0)"
    unfolding CDQ_def sign_test by (simp_all add: EDX_def cpu_reg_defs reg_erx_def del: acpu_reads)
  then show "sint (word_cat (EDX (CDQ i s)) (EAX (CDQ i s)) :: 64 word) = sint (EAX s)"
    by (simp add: sint_concat_sign)
  have "RAX (CQO i s) = RAX s" "RDX (CQO i s) = (if sint (RAX s) < 0 then - 1 else 0)"
    unfolding CQO_def sign_test by (simp_all add: RDX_def cpu_reg_defs del: acpu_reads)
  then show "sint (word_cat (RDX (CQO i s)) (RAX (CQO i s)) :: 128 word) = sint (RAX s)"
    by (simp add: sint_concat_sign)
qed
end
