(* ===== verification/Logical.thy ===== *)
theory Logical
  imports Arith
begin

text \<open>
  The register forms of the logical instructions: \<^verbatim>\<open>cpu/logical8.cc\<close>, \<^verbatim>\<open>logical16.cc\<close>,
  \<^verbatim>\<open>logical32.cc\<close> and \<^verbatim>\<open>logical64.cc\<close>, and their refinement of the abstract machine
  of \<open>Arith\<close>: the bitwise result, the flags of a logical operation, nothing else.
\<close>

unbundle bit_operations_syntax

section \<open>Handlers\<close>

subsection \<open>\<^verbatim>\<open>logical8.cc\<close>\<close>

definition XOR_GbEbR :: handler where [logic_defs]:
  "XOR_GbEbR i s =
     (let op1 = BX_READ_8BIT_REGx (dst i) (extend8bitL i) s;
          op2 = BX_READ_8BIT_REGx (src i) (extend8bitL i) s;
          op1 = op1 XOR op2;
          s = BX_WRITE_8BIT_REGx (dst i) (extend8bitL i) op1 s
      in s\<lparr>oszapc := SET_FLAGS_OSZAPC_LOGIC_8 (ucast op1) (oszapc s)\<rparr>)"

definition XOR_EbIbR :: handler where [logic_defs]:
  "XOR_EbIbR i s =
     (let op1 = BX_READ_8BIT_REGx (dst i) (extend8bitL i) s;
          op2 = Ib i;
          op1 = op1 XOR op2;
          s = BX_WRITE_8BIT_REGx (dst i) (extend8bitL i) op1 s
      in s\<lparr>oszapc := SET_FLAGS_OSZAPC_LOGIC_8 (ucast op1) (oszapc s)\<rparr>)"

definition OR_GbEbR :: handler where [logic_defs]:
  "OR_GbEbR i s =
     (let op1 = BX_READ_8BIT_REGx (dst i) (extend8bitL i) s;
          op2 = BX_READ_8BIT_REGx (src i) (extend8bitL i) s;
          op1 = op1 OR op2;
          s = BX_WRITE_8BIT_REGx (dst i) (extend8bitL i) op1 s
      in s\<lparr>oszapc := SET_FLAGS_OSZAPC_LOGIC_8 (ucast op1) (oszapc s)\<rparr>)"

definition OR_EbIbR :: handler where [logic_defs]:
  "OR_EbIbR i s =
     (let op1 = BX_READ_8BIT_REGx (dst i) (extend8bitL i) s;
          op2 = Ib i;
          op1 = op1 OR op2;
          s = BX_WRITE_8BIT_REGx (dst i) (extend8bitL i) op1 s
      in s\<lparr>oszapc := SET_FLAGS_OSZAPC_LOGIC_8 (ucast op1) (oszapc s)\<rparr>)"

definition AND_GbEbR :: handler where [logic_defs]:
  "AND_GbEbR i s =
     (let op1 = BX_READ_8BIT_REGx (dst i) (extend8bitL i) s;
          op2 = BX_READ_8BIT_REGx (src i) (extend8bitL i) s;
          op1 = op1 AND op2;
          s = BX_WRITE_8BIT_REGx (dst i) (extend8bitL i) op1 s
      in s\<lparr>oszapc := SET_FLAGS_OSZAPC_LOGIC_8 (ucast op1) (oszapc s)\<rparr>)"

definition AND_EbIbR :: handler where [logic_defs]:
  "AND_EbIbR i s =
     (let op1 = BX_READ_8BIT_REGx (dst i) (extend8bitL i) s;
          op2 = Ib i;
          op1 = op1 AND op2;
          s = BX_WRITE_8BIT_REGx (dst i) (extend8bitL i) op1 s
      in s\<lparr>oszapc := SET_FLAGS_OSZAPC_LOGIC_8 (ucast op1) (oszapc s)\<rparr>)"

definition TEST_EbGbR :: handler where [logic_defs]:
  "TEST_EbGbR i s =
     (let op1 = BX_READ_8BIT_REGx (dst i) (extend8bitL i) s;
          op2 = BX_READ_8BIT_REGx (src i) (extend8bitL i) s;
          op1 = op1 AND op2
      in s\<lparr>oszapc := SET_FLAGS_OSZAPC_LOGIC_8 (ucast op1) (oszapc s)\<rparr>)"

definition TEST_EbIbR :: handler where [logic_defs]:
  "TEST_EbIbR i s =
     (let op1 = BX_READ_8BIT_REGx (dst i) (extend8bitL i) s;
          op2 = Ib i;
          op1 = op1 AND op2
      in s\<lparr>oszapc := SET_FLAGS_OSZAPC_LOGIC_8 (ucast op1) (oszapc s)\<rparr>)"

definition NOT_EbR :: handler where [logic_defs]:
  "NOT_EbR i s =
     (let op1 = BX_READ_8BIT_REGx (dst i) (extend8bitL i) s;
          op1 = NOT op1
      in BX_WRITE_8BIT_REGx (dst i) (extend8bitL i) op1 s)"

subsection \<open>\<^verbatim>\<open>logical16.cc\<close>\<close>

definition XOR_GwEwR :: handler where [logic_defs]:
  "XOR_GwEwR i s =
     (let op1 = BX_READ_16BIT_REG (dst i) s;
          op2 = BX_READ_16BIT_REG (src i) s;
          op1 = op1 XOR op2;
          s = BX_WRITE_16BIT_REG (dst i) op1 s
      in s\<lparr>oszapc := SET_FLAGS_OSZAPC_LOGIC_16 (ucast op1) (oszapc s)\<rparr>)"

definition XOR_EwIwR :: handler where [logic_defs]:
  "XOR_EwIwR i s =
     (let op1 = BX_READ_16BIT_REG (dst i) s;
          op2 = Iw i;
          op1 = op1 XOR op2;
          s = BX_WRITE_16BIT_REG (dst i) op1 s
      in s\<lparr>oszapc := SET_FLAGS_OSZAPC_LOGIC_16 (ucast op1) (oszapc s)\<rparr>)"

definition OR_GwEwR :: handler where [logic_defs]:
  "OR_GwEwR i s =
     (let op1 = BX_READ_16BIT_REG (dst i) s;
          op2 = BX_READ_16BIT_REG (src i) s;
          op1 = op1 OR op2;
          s = BX_WRITE_16BIT_REG (dst i) op1 s
      in s\<lparr>oszapc := SET_FLAGS_OSZAPC_LOGIC_16 (ucast op1) (oszapc s)\<rparr>)"

definition OR_EwIwR :: handler where [logic_defs]:
  "OR_EwIwR i s =
     (let op1 = BX_READ_16BIT_REG (dst i) s;
          op2 = Iw i;
          op1 = op1 OR op2;
          s = BX_WRITE_16BIT_REG (dst i) op1 s
      in s\<lparr>oszapc := SET_FLAGS_OSZAPC_LOGIC_16 (ucast op1) (oszapc s)\<rparr>)"

definition AND_GwEwR :: handler where [logic_defs]:
  "AND_GwEwR i s =
     (let op1 = BX_READ_16BIT_REG (dst i) s;
          op2 = BX_READ_16BIT_REG (src i) s;
          op1 = op1 AND op2;
          s = BX_WRITE_16BIT_REG (dst i) op1 s
      in s\<lparr>oszapc := SET_FLAGS_OSZAPC_LOGIC_16 (ucast op1) (oszapc s)\<rparr>)"

definition AND_EwIwR :: handler where [logic_defs]:
  "AND_EwIwR i s =
     (let op1 = BX_READ_16BIT_REG (dst i) s;
          op2 = Iw i;
          op1 = op1 AND op2;
          s = BX_WRITE_16BIT_REG (dst i) op1 s
      in s\<lparr>oszapc := SET_FLAGS_OSZAPC_LOGIC_16 (ucast op1) (oszapc s)\<rparr>)"

definition TEST_EwGwR :: handler where [logic_defs]:
  "TEST_EwGwR i s =
     (let op1 = BX_READ_16BIT_REG (dst i) s;
          op2 = BX_READ_16BIT_REG (src i) s;
          op1 = op1 AND op2
      in s\<lparr>oszapc := SET_FLAGS_OSZAPC_LOGIC_16 (ucast op1) (oszapc s)\<rparr>)"

definition TEST_EwIwR :: handler where [logic_defs]:
  "TEST_EwIwR i s =
     (let op1 = BX_READ_16BIT_REG (dst i) s;
          op2 = Iw i;
          op1 = op1 AND op2
      in s\<lparr>oszapc := SET_FLAGS_OSZAPC_LOGIC_16 (ucast op1) (oszapc s)\<rparr>)"

definition NOT_EwR :: handler where [logic_defs]:
  "NOT_EwR i s =
     (let op1 = BX_READ_16BIT_REG (dst i) s;
          op1 = NOT op1
      in BX_WRITE_16BIT_REG (dst i) op1 s)"

definition ZERO_IDIOM_GwR :: handler where [logic_defs]:
  "ZERO_IDIOM_GwR i s =
     (let s = BX_WRITE_16BIT_REG (dst i) 0 s
      in s\<lparr>oszapc := SET_FLAGS_OSZAPC_LOGIC_16 0 (oszapc s)\<rparr>)"

subsection \<open>\<^verbatim>\<open>logical32.cc\<close>\<close>

definition XOR_GdEdR :: handler where [logic_defs]:
  "XOR_GdEdR i s =
     (let op1 = BX_READ_32BIT_REG (dst i) s;
          op2 = BX_READ_32BIT_REG (src i) s;
          op1 = op1 XOR op2;
          s = BX_WRITE_32BIT_REGZ (dst i) op1 s
      in s\<lparr>oszapc := SET_FLAGS_OSZAPC_LOGIC_32 op1 (oszapc s)\<rparr>)"

definition XOR_EdIdR :: handler where [logic_defs]:
  "XOR_EdIdR i s =
     (let op1 = BX_READ_32BIT_REG (dst i) s;
          op2 = Id i;
          op1 = op1 XOR op2;
          s = BX_WRITE_32BIT_REGZ (dst i) op1 s
      in s\<lparr>oszapc := SET_FLAGS_OSZAPC_LOGIC_32 op1 (oszapc s)\<rparr>)"

definition OR_GdEdR :: handler where [logic_defs]:
  "OR_GdEdR i s =
     (let op1 = BX_READ_32BIT_REG (dst i) s;
          op2 = BX_READ_32BIT_REG (src i) s;
          op1 = op1 OR op2;
          s = BX_WRITE_32BIT_REGZ (dst i) op1 s
      in s\<lparr>oszapc := SET_FLAGS_OSZAPC_LOGIC_32 op1 (oszapc s)\<rparr>)"

definition OR_EdIdR :: handler where [logic_defs]:
  "OR_EdIdR i s =
     (let op1 = BX_READ_32BIT_REG (dst i) s;
          op2 = Id i;
          op1 = op1 OR op2;
          s = BX_WRITE_32BIT_REGZ (dst i) op1 s
      in s\<lparr>oszapc := SET_FLAGS_OSZAPC_LOGIC_32 op1 (oszapc s)\<rparr>)"

definition AND_GdEdR :: handler where [logic_defs]:
  "AND_GdEdR i s =
     (let op1 = BX_READ_32BIT_REG (dst i) s;
          op2 = BX_READ_32BIT_REG (src i) s;
          op1 = op1 AND op2;
          s = BX_WRITE_32BIT_REGZ (dst i) op1 s
      in s\<lparr>oszapc := SET_FLAGS_OSZAPC_LOGIC_32 op1 (oszapc s)\<rparr>)"

definition AND_EdIdR :: handler where [logic_defs]:
  "AND_EdIdR i s =
     (let op1 = BX_READ_32BIT_REG (dst i) s;
          op2 = Id i;
          op1 = op1 AND op2;
          s = BX_WRITE_32BIT_REGZ (dst i) op1 s
      in s\<lparr>oszapc := SET_FLAGS_OSZAPC_LOGIC_32 op1 (oszapc s)\<rparr>)"

definition TEST_EdGdR :: handler where [logic_defs]:
  "TEST_EdGdR i s =
     (let op1 = BX_READ_32BIT_REG (dst i) s;
          op2 = BX_READ_32BIT_REG (src i) s;
          op1 = op1 AND op2
      in s\<lparr>oszapc := SET_FLAGS_OSZAPC_LOGIC_32 op1 (oszapc s)\<rparr>)"

definition TEST_EdIdR :: handler where [logic_defs]:
  "TEST_EdIdR i s =
     (let op1 = BX_READ_32BIT_REG (dst i) s;
          op2 = Id i;
          op1 = op1 AND op2
      in s\<lparr>oszapc := SET_FLAGS_OSZAPC_LOGIC_32 op1 (oszapc s)\<rparr>)"

definition NOT_EdR :: handler where [logic_defs]:
  "NOT_EdR i s =
     (let op1 = BX_READ_32BIT_REG (dst i) s;
          op1 = NOT op1
      in BX_WRITE_32BIT_REGZ (dst i) op1 s)"

definition ZERO_IDIOM_GdR :: handler where [logic_defs]:
  "ZERO_IDIOM_GdR i s =
     (let s = BX_WRITE_32BIT_REGZ (dst i) 0 s
      in s\<lparr>oszapc := SET_FLAGS_OSZAPC_LOGIC_32 0 (oszapc s)\<rparr>)"

subsection \<open>\<^verbatim>\<open>logical64.cc\<close>\<close>

definition XOR_GqEqR :: handler where [logic_defs]:
  "XOR_GqEqR i s =
     (let op1 = BX_READ_64BIT_REG (dst i) s;
          op2 = BX_READ_64BIT_REG (src i) s;
          op1 = op1 XOR op2;
          s = BX_WRITE_64BIT_REG (dst i) op1 s
      in s\<lparr>oszapc := SET_FLAGS_OSZAPC_LOGIC_64 op1 (oszapc s)\<rparr>)"

definition XOR_EqIdR :: handler where [logic_defs]:
  "XOR_EqIdR i s =
     (let op1 = BX_READ_64BIT_REG (dst i) s;
          op2 = scast (Id i);
          op1 = op1 XOR op2;
          s = BX_WRITE_64BIT_REG (dst i) op1 s
      in s\<lparr>oszapc := SET_FLAGS_OSZAPC_LOGIC_64 op1 (oszapc s)\<rparr>)"

definition OR_GqEqR :: handler where [logic_defs]:
  "OR_GqEqR i s =
     (let op1 = BX_READ_64BIT_REG (dst i) s;
          op2 = BX_READ_64BIT_REG (src i) s;
          op1 = op1 OR op2;
          s = BX_WRITE_64BIT_REG (dst i) op1 s
      in s\<lparr>oszapc := SET_FLAGS_OSZAPC_LOGIC_64 op1 (oszapc s)\<rparr>)"

definition OR_EqIdR :: handler where [logic_defs]:
  "OR_EqIdR i s =
     (let op1 = BX_READ_64BIT_REG (dst i) s;
          op2 = scast (Id i);
          op1 = op1 OR op2;
          s = BX_WRITE_64BIT_REG (dst i) op1 s
      in s\<lparr>oszapc := SET_FLAGS_OSZAPC_LOGIC_64 op1 (oszapc s)\<rparr>)"

definition AND_GqEqR :: handler where [logic_defs]:
  "AND_GqEqR i s =
     (let op1 = BX_READ_64BIT_REG (dst i) s;
          op2 = BX_READ_64BIT_REG (src i) s;
          op1 = op1 AND op2;
          s = BX_WRITE_64BIT_REG (dst i) op1 s
      in s\<lparr>oszapc := SET_FLAGS_OSZAPC_LOGIC_64 op1 (oszapc s)\<rparr>)"

definition AND_EqIdR :: handler where [logic_defs]:
  "AND_EqIdR i s =
     (let op1 = BX_READ_64BIT_REG (dst i) s;
          op2 = scast (Id i);
          op1 = op1 AND op2;
          s = BX_WRITE_64BIT_REG (dst i) op1 s
      in s\<lparr>oszapc := SET_FLAGS_OSZAPC_LOGIC_64 op1 (oszapc s)\<rparr>)"

definition TEST_EqGqR :: handler where [logic_defs]:
  "TEST_EqGqR i s =
     (let op1 = BX_READ_64BIT_REG (dst i) s;
          op2 = BX_READ_64BIT_REG (src i) s;
          op1 = op1 AND op2
      in s\<lparr>oszapc := SET_FLAGS_OSZAPC_LOGIC_64 op1 (oszapc s)\<rparr>)"

definition TEST_EqIdR :: handler where [logic_defs]:
  "TEST_EqIdR i s =
     (let op1 = BX_READ_64BIT_REG (dst i) s;
          op2 = scast (Id i);
          op1 = op1 AND op2
      in s\<lparr>oszapc := SET_FLAGS_OSZAPC_LOGIC_64 op1 (oszapc s)\<rparr>)"

definition NOT_EqR :: handler where [logic_defs]:
  "NOT_EqR i s =
     (let op1 = BX_READ_64BIT_REG (dst i) s;
          op1 = NOT op1
      in BX_WRITE_64BIT_REG (dst i) op1 s)"

section \<open>Refinement\<close>

definition spec_logic ::
    "('n::len word \<Rightarrow> 'n word \<Rightarrow> 'n word) \<Rightarrow> (acpu \<Rightarrow> 'n word) \<Rightarrow> ('n word \<Rightarrow> acpu \<Rightarrow> acpu) \<Rightarrow> (acpu \<Rightarrow> 'n word) \<Rightarrow> acpu \<Rightarrow> acpu" where
  "spec_logic f rd wr rs a = (let r = f (rd a) (rs a) in (wr r a)\<lparr>aflags := logic_oszapc r\<rparr>)"
definition spec_test :: "(acpu \<Rightarrow> 'n::len word) \<Rightarrow> (acpu \<Rightarrow> 'n word) \<Rightarrow> acpu \<Rightarrow> acpu" where
  "spec_test rd rs a = a\<lparr>aflags := logic_oszapc (rd a AND rs a)\<rparr>"

lemma logic_flags_sized:
  "lf_flags (SET_FLAGS_OSZAPC_LOGIC_8 (ucast b) e) = logic_oszapc (b :: Bit8u)"
  "lf_flags (SET_FLAGS_OSZAPC_LOGIC_16 (ucast w) e) = logic_oszapc (w :: Bit16u)"
  "lf_flags (SET_FLAGS_OSZAPC_LOGIC_32 d e) = logic_oszapc d"
  "lf_flags (SET_FLAGS_OSZAPC_LOGIC_64 q e) = logic_oszapc q"
  "lf_flags (SET_FLAGS_OSZAPC_LOGIC_16 0 e) = logic_oszapc (0 :: Bit16u)"
  using flags8.logic_flags [of "ucast b" e] flags16.logic_flags [of "ucast w" e] flags16.logic_flags [of 0 e]
    flags32.logic_flags [of d e] flags64.logic_flags [of q e]
  by (simp_all add: set_flags_defs)

text \<open>
  C32: AND, OR, XOR, TEST, NOT and the zeroing idiom in their register and immediate forms at
  every size write the bitwise result (TEST nothing), set the flags of a logical operation
  (NOT none), and change nothing else.
\<close>

theorem logical_refine:
  "acpu_of (AND_GbEbR i s) = spec_logic (AND) (r8 (dst i) (extend8bitL i)) (w8 (dst i) (extend8bitL i)) (r8 (src i) (extend8bitL i)) (acpu_of s)
    \<and> acpu_of (AND_EbIbR i s) = spec_logic (AND) (r8 (dst i) (extend8bitL i)) (w8 (dst i) (extend8bitL i)) (\<lambda>_. Ib i) (acpu_of s)
    \<and> acpu_of (AND_GwEwR i s) = spec_logic (AND) (r16 (dst i)) (w16 (dst i)) (r16 (src i)) (acpu_of s)
    \<and> acpu_of (AND_EwIwR i s) = spec_logic (AND) (r16 (dst i)) (w16 (dst i)) (\<lambda>_. Iw i) (acpu_of s)
    \<and> acpu_of (AND_GdEdR i s) = spec_logic (AND) (r32 (dst i)) (w32 (dst i)) (r32 (src i)) (acpu_of s)
    \<and> acpu_of (AND_EdIdR i s) = spec_logic (AND) (r32 (dst i)) (w32 (dst i)) (\<lambda>_. Id i) (acpu_of s)
    \<and> acpu_of (AND_GqEqR i s) = spec_logic (AND) (r64 (dst i)) (w64 (dst i)) (r64 (src i)) (acpu_of s)
    \<and> acpu_of (AND_EqIdR i s) = spec_logic (AND) (r64 (dst i)) (w64 (dst i)) (\<lambda>_. scast (Id i)) (acpu_of s)
    \<and> acpu_of (OR_GbEbR i s) = spec_logic (OR) (r8 (dst i) (extend8bitL i)) (w8 (dst i) (extend8bitL i)) (r8 (src i) (extend8bitL i)) (acpu_of s)
    \<and> acpu_of (OR_EbIbR i s) = spec_logic (OR) (r8 (dst i) (extend8bitL i)) (w8 (dst i) (extend8bitL i)) (\<lambda>_. Ib i) (acpu_of s)
    \<and> acpu_of (OR_GwEwR i s) = spec_logic (OR) (r16 (dst i)) (w16 (dst i)) (r16 (src i)) (acpu_of s)
    \<and> acpu_of (OR_EwIwR i s) = spec_logic (OR) (r16 (dst i)) (w16 (dst i)) (\<lambda>_. Iw i) (acpu_of s)
    \<and> acpu_of (OR_GdEdR i s) = spec_logic (OR) (r32 (dst i)) (w32 (dst i)) (r32 (src i)) (acpu_of s)
    \<and> acpu_of (OR_EdIdR i s) = spec_logic (OR) (r32 (dst i)) (w32 (dst i)) (\<lambda>_. Id i) (acpu_of s)
    \<and> acpu_of (OR_GqEqR i s) = spec_logic (OR) (r64 (dst i)) (w64 (dst i)) (r64 (src i)) (acpu_of s)
    \<and> acpu_of (OR_EqIdR i s) = spec_logic (OR) (r64 (dst i)) (w64 (dst i)) (\<lambda>_. scast (Id i)) (acpu_of s)
    \<and> acpu_of (XOR_GbEbR i s) = spec_logic (XOR) (r8 (dst i) (extend8bitL i)) (w8 (dst i) (extend8bitL i)) (r8 (src i) (extend8bitL i)) (acpu_of s)
    \<and> acpu_of (XOR_EbIbR i s) = spec_logic (XOR) (r8 (dst i) (extend8bitL i)) (w8 (dst i) (extend8bitL i)) (\<lambda>_. Ib i) (acpu_of s)
    \<and> acpu_of (XOR_GwEwR i s) = spec_logic (XOR) (r16 (dst i)) (w16 (dst i)) (r16 (src i)) (acpu_of s)
    \<and> acpu_of (XOR_EwIwR i s) = spec_logic (XOR) (r16 (dst i)) (w16 (dst i)) (\<lambda>_. Iw i) (acpu_of s)
    \<and> acpu_of (XOR_GdEdR i s) = spec_logic (XOR) (r32 (dst i)) (w32 (dst i)) (r32 (src i)) (acpu_of s)
    \<and> acpu_of (XOR_EdIdR i s) = spec_logic (XOR) (r32 (dst i)) (w32 (dst i)) (\<lambda>_. Id i) (acpu_of s)
    \<and> acpu_of (XOR_GqEqR i s) = spec_logic (XOR) (r64 (dst i)) (w64 (dst i)) (r64 (src i)) (acpu_of s)
    \<and> acpu_of (XOR_EqIdR i s) = spec_logic (XOR) (r64 (dst i)) (w64 (dst i)) (\<lambda>_. scast (Id i)) (acpu_of s)
    \<and> acpu_of (TEST_EbGbR i s) = spec_test (r8 (dst i) (extend8bitL i)) (r8 (src i) (extend8bitL i)) (acpu_of s)
    \<and> acpu_of (TEST_EbIbR i s) = spec_test (r8 (dst i) (extend8bitL i)) (\<lambda>_. Ib i) (acpu_of s)
    \<and> acpu_of (TEST_EwGwR i s) = spec_test (r16 (dst i)) (r16 (src i)) (acpu_of s)
    \<and> acpu_of (TEST_EwIwR i s) = spec_test (r16 (dst i)) (\<lambda>_. Iw i) (acpu_of s)
    \<and> acpu_of (TEST_EdGdR i s) = spec_test (r32 (dst i)) (r32 (src i)) (acpu_of s)
    \<and> acpu_of (TEST_EdIdR i s) = spec_test (r32 (dst i)) (\<lambda>_. Id i) (acpu_of s)
    \<and> acpu_of (TEST_EqGqR i s) = spec_test (r64 (dst i)) (r64 (src i)) (acpu_of s)
    \<and> acpu_of (TEST_EqIdR i s) = spec_test (r64 (dst i)) (\<lambda>_. scast (Id i)) (acpu_of s)
    \<and> acpu_of (NOT_EbR i s) = (w8 (dst i) (extend8bitL i)) (NOT (r8 (dst i) (extend8bitL i) (acpu_of s))) (acpu_of s)
    \<and> acpu_of (NOT_EwR i s) = (w16 (dst i)) (NOT (r16 (dst i) (acpu_of s))) (acpu_of s)
    \<and> acpu_of (NOT_EdR i s) = (w32 (dst i)) (NOT (r32 (dst i) (acpu_of s))) (acpu_of s)
    \<and> acpu_of (NOT_EqR i s) = (w64 (dst i)) (NOT (r64 (dst i) (acpu_of s))) (acpu_of s)
    \<and> acpu_of (ZERO_IDIOM_GwR i s) = (w16 (dst i) 0 (acpu_of s))\<lparr>aflags := logic_oszapc (0 :: 16 word)\<rparr>
    \<and> acpu_of (ZERO_IDIOM_GdR i s) = (w32 (dst i) 0 (acpu_of s))\<lparr>aflags := logic_oszapc (0 :: 32 word)\<rparr>"
  by (intro conjI) (simp_all add: logic_defs spec_logic_def spec_test_def Let_def logic_flags_sized)

end
