(* ===== verification/Shift.thy ===== *)
theory Shift
  imports Logical
begin

text \<open>
  The register forms of the shift and rotate instructions: \<^verbatim>\<open>cpu/shift8.cc\<close>, \<^verbatim>\<open>shift16.cc\<close>,
  \<^verbatim>\<open>shift32.cc\<close> and \<^verbatim>\<open>shift64.cc\<close>. The masked shift counts are natural numbers: every difference the
  code takes of them is nonnegative where it is used. The reference is the architecture's own
  description, which moves the operand by one bit at a time and keeps the last bit moved out in
  CF; the lemmas show that the handlers' single shift expressions compute the same operand and flags
  for every count.
\<close>

unbundle bit_operations_syntax

section \<open>Handlers\<close>

subsection \<open>\<^verbatim>\<open>shift8.cc\<close>\<close>

definition ROL_EbR :: handler where [shift_defs]:
  "ROL_EbR i s =
     (let count = unat (if getIaOpcode i = ''BX_IA_ROL_Eb'' then CL s else Ib i);
          op1 = ucast (BX_READ_8BIT_REGx (dst i) (extend8bitL i) s) :: Bit32u
      in if count AND 0x7 = 0
         then if count AND 0x18 \<noteq> 0
              then let bit0 = op1 AND 1; bit7 = drop_bit 7 op1 in s\<lparr>oszapc := set_flags_OxxxxC (bit0 XOR bit7) bit0 (oszapc s)\<rparr>
              else s
         else let count = count AND 0x7;
                  result = ucast (push_bit count op1 OR drop_bit (8 - count) op1) :: Bit8u;
                  s = BX_WRITE_8BIT_REGx (dst i) (extend8bitL i) result s;
                  bit0 = ucast result AND 1;
                  bit7 = drop_bit 7 (ucast result)
              in s\<lparr>oszapc := set_flags_OxxxxC (bit0 XOR bit7) bit0 (oszapc s)\<rparr>)"

definition ROR_EbR :: handler where [shift_defs]:
  "ROR_EbR i s =
     (let count = unat (if getIaOpcode i = ''BX_IA_ROR_Eb'' then CL s else Ib i);
          op1 = ucast (BX_READ_8BIT_REGx (dst i) (extend8bitL i) s) :: Bit32u
      in if count AND 0x7 = 0
         then if count AND 0x18 \<noteq> 0
              then let bit6 = drop_bit 6 op1 AND 1; bit7 = drop_bit 7 op1 AND 1 in s\<lparr>oszapc := set_flags_OxxxxC (bit6 XOR bit7) bit7 (oszapc s)\<rparr>
              else s
         else let count = count AND 0x7;
                  result = ucast (drop_bit count op1 OR push_bit (8 - count) op1) :: Bit8u;
                  s = BX_WRITE_8BIT_REGx (dst i) (extend8bitL i) result s;
                  bit6 = drop_bit 6 (ucast result) AND 1;
                  bit7 = drop_bit 7 (ucast result) AND 1
              in s\<lparr>oszapc := set_flags_OxxxxC (bit6 XOR bit7) bit7 (oszapc s)\<rparr>)"

definition RCL_EbR :: handler where [shift_defs]:
  "RCL_EbR i s =
     (let count = unat (if getIaOpcode i = ''BX_IA_RCL_Eb'' then CL s else Ib i);
          count = (count AND 0x1f) mod 9
      in if count = 0 then s
         else let op1 = ucast (BX_READ_8BIT_REGx (dst i) (extend8bitL i) s) :: Bit32u;
                  temp_CF = getB_CF (oszapc s);
                  result = (if count = 1 then ucast (push_bit 1 op1 OR temp_CF) :: Bit8u else ucast (push_bit count op1 OR push_bit (count - 1) temp_CF OR drop_bit (9 - count) op1) :: Bit8u);
                  s = BX_WRITE_8BIT_REGx (dst i) (extend8bitL i) result s;
                  cf = drop_bit (8 - count) op1 AND 0x1;
                  new_of = cf XOR drop_bit 7 (ucast result)
              in s\<lparr>oszapc := set_flags_OxxxxC new_of cf (oszapc s)\<rparr>)"

definition RCR_EbR :: handler where [shift_defs]:
  "RCR_EbR i s =
     (let count = unat (if getIaOpcode i = ''BX_IA_RCR_Eb'' then CL s else Ib i);
          count = (count AND 0x1f) mod 9
      in if count = 0 then s
         else let op1 = ucast (BX_READ_8BIT_REGx (dst i) (extend8bitL i) s) :: Bit32u;
                  temp_CF = getB_CF (oszapc s);
                  result = ucast (drop_bit count op1 OR push_bit (8 - count) temp_CF OR push_bit (9 - count) op1) :: Bit8u;
                  s = BX_WRITE_8BIT_REGx (dst i) (extend8bitL i) result s;
                  cf = drop_bit (count - 1) op1 AND 0x1;
                  new_of = drop_bit 7 (push_bit 1 (ucast result) XOR ucast result) AND 0x1
              in s\<lparr>oszapc := set_flags_OxxxxC new_of cf (oszapc s)\<rparr>)"

definition SHL_EbR :: handler where [shift_defs]:
  "SHL_EbR i s =
     (let count = unat (if getIaOpcode i = ''BX_IA_SHL_Eb'' then CL s else Ib i);
          count = count AND 0x1f
      in if count = 0 then s
         else let op1 = ucast (BX_READ_8BIT_REGx (dst i) (extend8bitL i) s) :: Bit32u;
                  (result, cf, new_of) = (if count \<le> 8
                    then let result = ucast (push_bit count op1) :: Bit8u;
                             cf = drop_bit (8 - count) op1 AND 0x1;
                             new_of = cf XOR drop_bit 7 (ucast result)
                         in (result, cf, new_of)
                    else (0, 0, 0));
                  s = BX_WRITE_8BIT_REGx (dst i) (extend8bitL i) result s;
                  s = s\<lparr>oszapc := SET_FLAGS_OSZAPC_LOGIC_8 (ucast result) (oszapc s)\<rparr>
              in s\<lparr>oszapc := set_flags_OxxxxC new_of cf (oszapc s)\<rparr>)"

definition SHR_EbR :: handler where [shift_defs]:
  "SHR_EbR i s =
     (let count = unat (if getIaOpcode i = ''BX_IA_SHR_Eb'' then CL s else Ib i);
          count = count AND 0x1f
      in if count = 0 then s
         else let op1 = ucast (BX_READ_8BIT_REGx (dst i) (extend8bitL i) s) :: Bit32u;
                  result = ucast (drop_bit count op1) :: Bit8u;
                  s = BX_WRITE_8BIT_REGx (dst i) (extend8bitL i) result s;
                  cf = drop_bit (count - 1) op1 AND 0x1;
                  new_of = drop_bit 7 (push_bit 1 (ucast result) XOR ucast result) AND 0x1;
                  s = s\<lparr>oszapc := SET_FLAGS_OSZAPC_LOGIC_8 (ucast result) (oszapc s)\<rparr>
              in s\<lparr>oszapc := set_flags_OxxxxC new_of cf (oszapc s)\<rparr>)"

definition SAR_EbR :: handler where [shift_defs]:
  "SAR_EbR i s =
     (let count = unat (if getIaOpcode i = ''BX_IA_SAR_Eb'' then CL s else Ib i);
          count = count AND 0x1f
      in if count = 0 then s
         else let op1 = scast (BX_READ_8BIT_REGx (dst i) (extend8bitL i) s) :: Bit32u;
                  result = ucast (signed_drop_bit count op1) :: Bit8u;
                  s = BX_WRITE_8BIT_REGx (dst i) (extend8bitL i) result s;
                  cf = signed_drop_bit (count - 1) op1 AND 0x1;
                  s = s\<lparr>oszapc := SET_FLAGS_OSZAPC_LOGIC_8 (ucast result) (oszapc s)\<rparr>
              in s\<lparr>oszapc := set_flags_OxxxxC 0 cf (oszapc s)\<rparr>)"

subsection \<open>\<^verbatim>\<open>shift16.cc\<close>\<close>

definition SHLD_EwGwR :: handler where [shift_defs]:
  "SHLD_EwGwR i s =
     (let count = unat (if getIaOpcode i = ''BX_IA_SHLD_EwGw'' then CL s else Ib i);
          count = count AND 0x1f
      in if count \<noteq> 0
         then let op1 = ucast (BX_READ_16BIT_REG (dst i) s) :: Bit32u;
                  op2 = ucast (BX_READ_16BIT_REG (src i) s) :: Bit32u;
                  temp_32 = push_bit 16 op1 OR op2;
                  result_32 = push_bit count temp_32;
                  result_32 = (if count > 16 then result_32 OR push_bit (count - 16) op1 else result_32);
                  result = ucast (drop_bit 16 result_32) :: Bit16u;
                  s = BX_WRITE_16BIT_REG (dst i) result s;
                  s = s\<lparr>oszapc := SET_FLAGS_OSZAPC_LOGIC_16 (ucast result) (oszapc s)\<rparr>;
                  cf = drop_bit (32 - count) temp_32 AND 0x1;
                  new_of = cf XOR drop_bit 15 (ucast result)
              in s\<lparr>oszapc := set_flags_OxxxxC new_of cf (oszapc s)\<rparr>
         else s)"

definition SHRD_EwGwR :: handler where [shift_defs]:
  "SHRD_EwGwR i s =
     (let count = unat (if getIaOpcode i = ''BX_IA_SHRD_EwGw'' then CL s else Ib i);
          count = count AND 0x1f
      in if count \<noteq> 0
         then let op1 = ucast (BX_READ_16BIT_REG (dst i) s) :: Bit32u;
                  op2 = ucast (BX_READ_16BIT_REG (src i) s) :: Bit32u;
                  temp_32 = push_bit 16 op2 OR op1;
                  result_32 = drop_bit count temp_32;
                  result_32 = (if count > 16 then result_32 OR push_bit (32 - count) op1 else result_32);
                  result = ucast result_32 :: Bit16u;
                  s = BX_WRITE_16BIT_REG (dst i) result s;
                  s = s\<lparr>oszapc := SET_FLAGS_OSZAPC_LOGIC_16 (ucast result) (oszapc s)\<rparr>;
                  cf = drop_bit (count - 1) op1 AND 0x1;
                  new_of = drop_bit 15 (ucast (ucast (push_bit 1 (ucast result) XOR ucast result :: Bit32u) :: Bit16u)) AND 0x1;
                  cf = (if count > 16 then drop_bit (count - 17) op2 AND 0x1 else cf)
              in s\<lparr>oszapc := set_flags_OxxxxC new_of cf (oszapc s)\<rparr>
         else s)"

definition ROL_EwR :: handler where [shift_defs]:
  "ROL_EwR i s =
     (let count = unat (if getIaOpcode i = ''BX_IA_ROL_Ew'' then CL s else Ib i);
          op1 = ucast (BX_READ_16BIT_REG (dst i) s) :: Bit32u
      in if count AND 0xf = 0
         then if count AND 0x10 \<noteq> 0
              then let bit0 = op1 AND 1; bit15 = drop_bit 15 op1 in s\<lparr>oszapc := set_flags_OxxxxC (bit0 XOR bit15) bit0 (oszapc s)\<rparr>
              else s
         else let count = count AND 0xf;
                  result = ucast (push_bit count op1 OR drop_bit (16 - count) op1) :: Bit16u;
                  s = BX_WRITE_16BIT_REG (dst i) result s;
                  bit0 = ucast result AND 1;
                  bit15 = drop_bit 15 (ucast result)
              in s\<lparr>oszapc := set_flags_OxxxxC (bit0 XOR bit15) bit0 (oszapc s)\<rparr>)"

definition ROR_EwR :: handler where [shift_defs]:
  "ROR_EwR i s =
     (let count = unat (if getIaOpcode i = ''BX_IA_ROR_Ew'' then CL s else Ib i);
          op1 = ucast (BX_READ_16BIT_REG (dst i) s) :: Bit32u
      in if count AND 0xf = 0
         then if count AND 0x10 \<noteq> 0
              then let bit14 = drop_bit 14 op1 AND 1; bit15 = drop_bit 15 op1 AND 1 in s\<lparr>oszapc := set_flags_OxxxxC (bit14 XOR bit15) bit15 (oszapc s)\<rparr>
              else s
         else let count = count AND 0xf;
                  result = ucast (drop_bit count op1 OR push_bit (16 - count) op1) :: Bit16u;
                  s = BX_WRITE_16BIT_REG (dst i) result s;
                  bit14 = drop_bit 14 (ucast result) AND 1;
                  bit15 = drop_bit 15 (ucast result) AND 1
              in s\<lparr>oszapc := set_flags_OxxxxC (bit14 XOR bit15) bit15 (oszapc s)\<rparr>)"

definition RCL_EwR :: handler where [shift_defs]:
  "RCL_EwR i s =
     (let count = unat (if getIaOpcode i = ''BX_IA_RCL_Ew'' then CL s else Ib i);
          count = (count AND 0x1f) mod 17
      in if count = 0 then s
         else let op1 = ucast (BX_READ_16BIT_REG (dst i) s) :: Bit32u;
                  temp_CF = getB_CF (oszapc s);
                  result = (if count = 1 then ucast (push_bit 1 op1 OR temp_CF) :: Bit16u else if count = 16 then ucast (push_bit 15 temp_CF OR drop_bit 1 op1) :: Bit16u else ucast (push_bit count op1 OR push_bit (count - 1) temp_CF OR drop_bit (17 - count) op1) :: Bit16u);
                  s = BX_WRITE_16BIT_REG (dst i) result s;
                  cf = drop_bit (16 - count) op1 AND 0x1;
                  new_of = cf XOR drop_bit 15 (ucast result)
              in s\<lparr>oszapc := set_flags_OxxxxC new_of cf (oszapc s)\<rparr>)"

definition RCR_EwR :: handler where [shift_defs]:
  "RCR_EwR i s =
     (let count = unat (if getIaOpcode i = ''BX_IA_RCR_Ew'' then CL s else Ib i);
          count = (count AND 0x1f) mod 17
      in if count = 0 then s
         else let op1 = ucast (BX_READ_16BIT_REG (dst i) s) :: Bit32u;
                  temp_CF = getB_CF (oszapc s);
                  result = ucast (drop_bit count op1 OR push_bit (16 - count) temp_CF OR push_bit (17 - count) op1) :: Bit16u;
                  s = BX_WRITE_16BIT_REG (dst i) result s;
                  cf = drop_bit (count - 1) op1 AND 0x1;
                  new_of = drop_bit 15 (ucast (ucast (push_bit 1 (ucast result) XOR ucast result :: Bit32u) :: Bit16u)) AND 0x1
              in s\<lparr>oszapc := set_flags_OxxxxC new_of cf (oszapc s)\<rparr>)"

definition SHL_EwR :: handler where [shift_defs]:
  "SHL_EwR i s =
     (let count = unat (if getIaOpcode i = ''BX_IA_SHL_Ew'' then CL s else Ib i);
          count = count AND 0x1f
      in if count = 0 then s
         else let op1 = ucast (BX_READ_16BIT_REG (dst i) s) :: Bit32u;
                  (result, cf, new_of) = (if count \<le> 16
                    then let result = ucast (push_bit count op1) :: Bit16u;
                             cf = drop_bit (16 - count) op1 AND 0x1;
                             new_of = cf XOR drop_bit 15 (ucast result)
                         in (result, cf, new_of)
                    else (0, 0, 0));
                  s = BX_WRITE_16BIT_REG (dst i) result s;
                  s = s\<lparr>oszapc := SET_FLAGS_OSZAPC_LOGIC_16 (ucast result) (oszapc s)\<rparr>
              in s\<lparr>oszapc := set_flags_OxxxxC new_of cf (oszapc s)\<rparr>)"

definition SHR_EwR :: handler where [shift_defs]:
  "SHR_EwR i s =
     (let count = unat (if getIaOpcode i = ''BX_IA_SHR_Ew'' then CL s else Ib i);
          count = count AND 0x1f
      in if count = 0 then s
         else let op1 = ucast (BX_READ_16BIT_REG (dst i) s) :: Bit32u;
                  result = ucast (drop_bit count op1) :: Bit16u;
                  s = BX_WRITE_16BIT_REG (dst i) result s;
                  cf = drop_bit (count - 1) op1 AND 0x1;
                  new_of = drop_bit 15 (ucast (ucast (push_bit 1 (ucast result) XOR ucast result :: Bit32u) :: Bit16u)) AND 0x1;
                  s = s\<lparr>oszapc := SET_FLAGS_OSZAPC_LOGIC_16 (ucast result) (oszapc s)\<rparr>
              in s\<lparr>oszapc := set_flags_OxxxxC new_of cf (oszapc s)\<rparr>)"

definition SAR_EwR :: handler where [shift_defs]:
  "SAR_EwR i s =
     (let count = unat (if getIaOpcode i = ''BX_IA_SAR_Ew'' then CL s else Ib i);
          count = count AND 0x1f
      in if count = 0 then s
         else let op1 = scast (BX_READ_16BIT_REG (dst i) s) :: Bit32u;
                  result = ucast (signed_drop_bit count op1) :: Bit16u;
                  s = BX_WRITE_16BIT_REG (dst i) result s;
                  cf = signed_drop_bit (count - 1) op1 AND 0x1;
                  s = s\<lparr>oszapc := SET_FLAGS_OSZAPC_LOGIC_16 (ucast result) (oszapc s)\<rparr>
              in s\<lparr>oszapc := set_flags_OxxxxC 0 cf (oszapc s)\<rparr>)"

subsection \<open>\<^verbatim>\<open>shift32.cc\<close>\<close>

definition SHLD_EdGdR :: handler where [shift_defs]:
  "SHLD_EdGdR i s =
     (let count = unat (if getIaOpcode i = ''BX_IA_SHLD_EdGd'' then CL s else Ib i);
          count = count AND 0x1f
      in if count = 0 then BX_CLEAR_64BIT_HIGH (dst i) s
         else let op1 = BX_READ_32BIT_REG (dst i) s;
                  op2 = BX_READ_32BIT_REG (src i) s;
                  result = push_bit count op1 OR drop_bit (32 - count) op2;
                  s = BX_WRITE_32BIT_REGZ (dst i) result s;
                  s = s\<lparr>oszapc := SET_FLAGS_OSZAPC_LOGIC_32 result (oszapc s)\<rparr>;
                  cf = drop_bit (32 - count) op1 AND 0x1;
                  new_of = cf XOR drop_bit 31 result
              in s\<lparr>oszapc := set_flags_OxxxxC new_of cf (oszapc s)\<rparr>)"

definition SHRD_EdGdR :: handler where [shift_defs]:
  "SHRD_EdGdR i s =
     (let count = unat (if getIaOpcode i = ''BX_IA_SHRD_EdGd'' then CL s else Ib i);
          count = count AND 0x1f
      in if count = 0 then BX_CLEAR_64BIT_HIGH (dst i) s
         else let op1 = BX_READ_32BIT_REG (dst i) s;
                  op2 = BX_READ_32BIT_REG (src i) s;
                  result = push_bit (32 - count) op2 OR drop_bit count op1;
                  s = BX_WRITE_32BIT_REGZ (dst i) result s;
                  s = s\<lparr>oszapc := SET_FLAGS_OSZAPC_LOGIC_32 result (oszapc s)\<rparr>;
                  cf = drop_bit (count - 1) op1 AND 0x1;
                  new_of = drop_bit 31 (push_bit 1 result XOR result)
              in s\<lparr>oszapc := set_flags_OxxxxC new_of cf (oszapc s)\<rparr>)"

definition ROL_EdR :: handler where [shift_defs]:
  "ROL_EdR i s =
     (let count = unat (if getIaOpcode i = ''BX_IA_ROL_Ed'' then CL s else Ib i);
          count = count AND 0x1f
      in if count = 0 then BX_CLEAR_64BIT_HIGH (dst i) s
         else let op1 = BX_READ_32BIT_REG (dst i) s;
                  result = push_bit count op1 OR drop_bit (32 - count) op1;
                  s = BX_WRITE_32BIT_REGZ (dst i) result s;
                  bit0 = result AND 0x1;
                  bit31 = drop_bit 31 result
              in s\<lparr>oszapc := set_flags_OxxxxC (bit0 XOR bit31) bit0 (oszapc s)\<rparr>)"

definition ROR_EdR :: handler where [shift_defs]:
  "ROR_EdR i s =
     (let count = unat (if getIaOpcode i = ''BX_IA_ROR_Ed'' then CL s else Ib i);
          count = count AND 0x1f
      in if count = 0 then BX_CLEAR_64BIT_HIGH (dst i) s
         else let op1 = BX_READ_32BIT_REG (dst i) s;
                  result = drop_bit count op1 OR push_bit (32 - count) op1;
                  s = BX_WRITE_32BIT_REGZ (dst i) result s;
                  bit31 = drop_bit 31 result AND 1;
                  bit30 = drop_bit 30 result AND 1
              in s\<lparr>oszapc := set_flags_OxxxxC (bit30 XOR bit31) bit31 (oszapc s)\<rparr>)"

definition RCL_EdR :: handler where [shift_defs]:
  "RCL_EdR i s =
     (let count = unat (if getIaOpcode i = ''BX_IA_RCL_Ed'' then CL s else Ib i);
          count = count AND 0x1f
      in if count = 0 then BX_CLEAR_64BIT_HIGH (dst i) s
         else let op1 = BX_READ_32BIT_REG (dst i) s;
                  temp_CF = getB_CF (oszapc s);
                  result = (if count = 1 then push_bit 1 op1 OR temp_CF else push_bit count op1 OR push_bit (count - 1) temp_CF OR drop_bit (33 - count) op1);
                  s = BX_WRITE_32BIT_REGZ (dst i) result s;
                  cf = drop_bit (32 - count) op1 AND 0x1;
                  new_of = cf XOR drop_bit 31 result
              in s\<lparr>oszapc := set_flags_OxxxxC new_of cf (oszapc s)\<rparr>)"

definition RCR_EdR :: handler where [shift_defs]:
  "RCR_EdR i s =
     (let count = unat (if getIaOpcode i = ''BX_IA_RCR_Ed'' then CL s else Ib i);
          count = count AND 0x1f
      in if count = 0 then BX_CLEAR_64BIT_HIGH (dst i) s
         else let op1 = BX_READ_32BIT_REG (dst i) s;
                  temp_CF = getB_CF (oszapc s);
                  result = (if count = 1 then drop_bit 1 op1 OR push_bit 31 temp_CF else drop_bit count op1 OR push_bit (32 - count) temp_CF OR push_bit (33 - count) op1);
                  s = BX_WRITE_32BIT_REGZ (dst i) result s;
                  cf = drop_bit (count - 1) op1 AND 0x1;
                  new_of = drop_bit 31 (push_bit 1 result XOR result)
              in s\<lparr>oszapc := set_flags_OxxxxC new_of cf (oszapc s)\<rparr>)"

definition SHL_EdR :: handler where [shift_defs]:
  "SHL_EdR i s =
     (let count = unat (if getIaOpcode i = ''BX_IA_SHL_Ed'' then CL s else Ib i);
          count = count AND 0x1f
      in if count = 0 then BX_CLEAR_64BIT_HIGH (dst i) s
         else let op1 = BX_READ_32BIT_REG (dst i) s;
                  result = push_bit count op1;
                  s = BX_WRITE_32BIT_REGZ (dst i) result s;
                  cf = drop_bit (32 - count) op1 AND 0x1;
                  new_of = cf XOR drop_bit 31 result;
                  s = s\<lparr>oszapc := SET_FLAGS_OSZAPC_LOGIC_32 result (oszapc s)\<rparr>
              in s\<lparr>oszapc := set_flags_OxxxxC new_of cf (oszapc s)\<rparr>)"

definition SHR_EdR :: handler where [shift_defs]:
  "SHR_EdR i s =
     (let count = unat (if getIaOpcode i = ''BX_IA_SHR_Ed'' then CL s else Ib i);
          count = count AND 0x1f
      in if count = 0 then BX_CLEAR_64BIT_HIGH (dst i) s
         else let op1 = BX_READ_32BIT_REG (dst i) s;
                  result = drop_bit count op1;
                  s = BX_WRITE_32BIT_REGZ (dst i) result s;
                  cf = drop_bit (count - 1) op1 AND 0x1;
                  new_of = drop_bit 31 (push_bit 1 result XOR result);
                  s = s\<lparr>oszapc := SET_FLAGS_OSZAPC_LOGIC_32 result (oszapc s)\<rparr>
              in s\<lparr>oszapc := set_flags_OxxxxC new_of cf (oszapc s)\<rparr>)"

definition SAR_EdR :: handler where [shift_defs]:
  "SAR_EdR i s =
     (let count = unat (if getIaOpcode i = ''BX_IA_SAR_Ed'' then CL s else Ib i);
          count = count AND 0x1f
      in if count = 0 then BX_CLEAR_64BIT_HIGH (dst i) s
         else let op1 = BX_READ_32BIT_REG (dst i) s;
                  result = signed_drop_bit count op1;
                  s = BX_WRITE_32BIT_REGZ (dst i) result s;
                  s = s\<lparr>oszapc := SET_FLAGS_OSZAPC_LOGIC_32 result (oszapc s)\<rparr>;
                  cf = drop_bit (count - 1) op1 AND 1
              in s\<lparr>oszapc := set_flags_OxxxxC 0 cf (oszapc s)\<rparr>)"

subsection \<open>\<^verbatim>\<open>shift64.cc\<close>\<close>

definition SHLD_EqGqR :: handler where [shift_defs]:
  "SHLD_EqGqR i s =
     (let count = unat (if getIaOpcode i = ''BX_IA_SHLD_EqGq'' then CL s else Ib i);
          count = count AND 0x3f
      in if count = 0 then s
         else let op1 = BX_READ_64BIT_REG (dst i) s;
                  op2 = BX_READ_64BIT_REG (src i) s;
                  result = push_bit count op1 OR drop_bit (64 - count) op2;
                  s = BX_WRITE_64BIT_REG (dst i) result s;
                  s = s\<lparr>oszapc := SET_FLAGS_OSZAPC_LOGIC_64 result (oszapc s)\<rparr>;
                  cf = ucast (drop_bit (64 - count) op1 AND 0x1);
                  new_of = ucast (ucast cf XOR drop_bit 63 result)
              in s\<lparr>oszapc := set_flags_OxxxxC new_of cf (oszapc s)\<rparr>)"

definition SHRD_EqGqR :: handler where [shift_defs]:
  "SHRD_EqGqR i s =
     (let count = unat (if getIaOpcode i = ''BX_IA_SHRD_EqGq'' then CL s else Ib i);
          count = count AND 0x3f
      in if count = 0 then s
         else let op1 = BX_READ_64BIT_REG (dst i) s;
                  op2 = BX_READ_64BIT_REG (src i) s;
                  result = push_bit (64 - count) op2 OR drop_bit count op1;
                  s = BX_WRITE_64BIT_REG (dst i) result s;
                  s = s\<lparr>oszapc := SET_FLAGS_OSZAPC_LOGIC_64 result (oszapc s)\<rparr>;
                  cf = ucast (drop_bit (count - 1) op1 AND 0x1);
                  new_of = ucast (drop_bit 63 (push_bit 1 result XOR result))
              in s\<lparr>oszapc := set_flags_OxxxxC new_of cf (oszapc s)\<rparr>)"

definition ROL_EqR :: handler where [shift_defs]:
  "ROL_EqR i s =
     (let count = unat (if getIaOpcode i = ''BX_IA_ROL_Eq'' then CL s else Ib i);
          count = count AND 0x3f
      in if count = 0 then s
         else let op1 = BX_READ_64BIT_REG (dst i) s;
                  result = push_bit count op1 OR drop_bit (64 - count) op1;
                  s = BX_WRITE_64BIT_REG (dst i) result s;
                  bit0 = ucast (result AND 0x1);
                  bit63 = ucast (drop_bit 63 result)
              in s\<lparr>oszapc := set_flags_OxxxxC (bit0 XOR bit63) bit0 (oszapc s)\<rparr>)"

definition ROR_EqR :: handler where [shift_defs]:
  "ROR_EqR i s =
     (let count = unat (if getIaOpcode i = ''BX_IA_ROR_Eq'' then CL s else Ib i);
          count = count AND 0x3f
      in if count = 0 then s
         else let op1 = BX_READ_64BIT_REG (dst i) s;
                  result = drop_bit count op1 OR push_bit (64 - count) op1;
                  s = BX_WRITE_64BIT_REG (dst i) result s;
                  bit63 = ucast (drop_bit 63 result AND 1);
                  bit62 = ucast (drop_bit 62 result AND 1)
              in s\<lparr>oszapc := set_flags_OxxxxC (bit62 XOR bit63) bit63 (oszapc s)\<rparr>)"

definition RCL_EqR :: handler where [shift_defs]:
  "RCL_EqR i s =
     (let count = unat (if getIaOpcode i = ''BX_IA_RCL_Eq'' then CL s else Ib i);
          count = count AND 0x3f
      in if count = 0 then s
         else let op1 = BX_READ_64BIT_REG (dst i) s;
                  temp_CF = ucast (getB_CF (oszapc s)) :: Bit64u;
                  result = (if count = 1 then push_bit 1 op1 OR temp_CF else push_bit count op1 OR push_bit (count - 1) temp_CF OR drop_bit (65 - count) op1);
                  s = BX_WRITE_64BIT_REG (dst i) result s;
                  cf = ucast (drop_bit (64 - count) op1 AND 0x1);
                  new_of = ucast (ucast cf XOR drop_bit 63 result)
              in s\<lparr>oszapc := set_flags_OxxxxC new_of cf (oszapc s)\<rparr>)"

definition RCR_EqR :: handler where [shift_defs]:
  "RCR_EqR i s =
     (let count = unat (if getIaOpcode i = ''BX_IA_RCR_Eq'' then CL s else Ib i);
          count = count AND 0x3f
      in if count = 0 then s
         else let op1 = BX_READ_64BIT_REG (dst i) s;
                  temp_CF = ucast (getB_CF (oszapc s)) :: Bit64u;
                  result = (if count = 1 then drop_bit 1 op1 OR push_bit 63 temp_CF else drop_bit count op1 OR push_bit (64 - count) temp_CF OR push_bit (65 - count) op1);
                  s = BX_WRITE_64BIT_REG (dst i) result s;
                  cf = ucast (drop_bit (count - 1) op1 AND 0x1);
                  new_of = ucast (drop_bit 63 (push_bit 1 result XOR result))
              in s\<lparr>oszapc := set_flags_OxxxxC new_of cf (oszapc s)\<rparr>)"

definition SHL_EqR :: handler where [shift_defs]:
  "SHL_EqR i s =
     (let count = unat (if getIaOpcode i = ''BX_IA_SHL_Eq'' then CL s else Ib i);
          count = count AND 0x3f
      in if count = 0 then s
         else let op1 = BX_READ_64BIT_REG (dst i) s;
                  result = push_bit count op1;
                  s = BX_WRITE_64BIT_REG (dst i) result s;
                  cf = ucast (drop_bit (64 - count) op1 AND 0x1);
                  new_of = ucast (ucast cf XOR drop_bit 63 result);
                  s = s\<lparr>oszapc := SET_FLAGS_OSZAPC_LOGIC_64 result (oszapc s)\<rparr>
              in s\<lparr>oszapc := set_flags_OxxxxC new_of cf (oszapc s)\<rparr>)"

definition SHR_EqR :: handler where [shift_defs]:
  "SHR_EqR i s =
     (let count = unat (if getIaOpcode i = ''BX_IA_SHR_Eq'' then CL s else Ib i);
          count = count AND 0x3f
      in if count = 0 then s
         else let op1 = BX_READ_64BIT_REG (dst i) s;
                  result = drop_bit count op1;
                  s = BX_WRITE_64BIT_REG (dst i) result s;
                  cf = ucast (drop_bit (count - 1) op1 AND 0x1);
                  new_of = ucast (drop_bit 63 (push_bit 1 result XOR result));
                  s = s\<lparr>oszapc := SET_FLAGS_OSZAPC_LOGIC_64 result (oszapc s)\<rparr>
              in s\<lparr>oszapc := set_flags_OxxxxC new_of cf (oszapc s)\<rparr>)"

definition SAR_EqR :: handler where [shift_defs]:
  "SAR_EqR i s =
     (let count = unat (if getIaOpcode i = ''BX_IA_SAR_Eq'' then CL s else Ib i);
          count = count AND 0x3f
      in if count = 0 then s
         else let op1 = BX_READ_64BIT_REG (dst i) s;
                  result = signed_drop_bit count op1;
                  s = BX_WRITE_64BIT_REG (dst i) result s;
                  s = s\<lparr>oszapc := SET_FLAGS_OSZAPC_LOGIC_64 result (oszapc s)\<rparr>;
                  cf = ucast (drop_bit (count - 1) op1 AND 1)
              in s\<lparr>oszapc := set_flags_OxxxxC 0 cf (oszapc s)\<rparr>)"


section \<open>One bit at a time\<close>

text \<open>A step takes the operand and CF to the operand and CF.\<close>

definition shl1 :: "'n::len word \<times> bool \<Rightarrow> 'n word \<times> bool" where
  "shl1 = (\<lambda>(x, f). (push_bit 1 x, bit x (LENGTH('n) - 1)))"
definition shr1 :: "'n::len word \<times> bool \<Rightarrow> 'n word \<times> bool" where
  "shr1 = (\<lambda>(x, f). (drop_bit 1 x, bit x 0))"
definition sar1 :: "'n::len word \<times> bool \<Rightarrow> 'n word \<times> bool" where
  "sar1 = (\<lambda>(x, f). (signed_drop_bit 1 x, bit x 0))"
definition in_low :: "bool \<Rightarrow> 'n::len word \<Rightarrow> 'n word" where
  "in_low b x = push_bit 1 x OR of_bool b"
definition in_high :: "bool \<Rightarrow> 'n::len word \<Rightarrow> 'n word" where
  "in_high b x = drop_bit 1 x OR push_bit (LENGTH('n) - 1) (of_bool b)"

definition rol1 :: "'n::len word \<times> bool \<Rightarrow> 'n word \<times> bool" where
  "rol1 = (\<lambda>(x, f). (in_low (bit x (LENGTH('n) - 1)) x, bit x (LENGTH('n) - 1)))"
definition ror1 :: "'n::len word \<times> bool \<Rightarrow> 'n word \<times> bool" where
  "ror1 = (\<lambda>(x, f). (in_high (bit x 0) x, bit x 0))"
definition rcl1 :: "'n::len word \<times> bool \<Rightarrow> 'n word \<times> bool" where
  "rcl1 = (\<lambda>(x, f). (in_low f x, bit x (LENGTH('n) - 1)))"
definition rcr1 :: "'n::len word \<times> bool \<Rightarrow> 'n word \<times> bool" where
  "rcr1 = (\<lambda>(x, f). (in_high f x, bit x 0))"

text \<open>
  The double shifts move the pair of operands around a ring, so that a count beyond the size of a
  16-bit operand goes on with the bits of the first one.
\<close>

definition shld1 :: "('n::len word \<times> 'n word) \<times> bool \<Rightarrow> ('n word \<times> 'n word) \<times> bool" where
  "shld1 = (\<lambda>((x, y), f). ((in_low (bit y (LENGTH('n) - 1)) x, in_low (bit x (LENGTH('n) - 1)) y), bit x (LENGTH('n) - 1)))"
definition shrd1 :: "('n::len word \<times> 'n word) \<times> bool \<Rightarrow> ('n word \<times> 'n word) \<times> bool" where
  "shrd1 = (\<lambda>((x, y), f). ((in_high (bit y 0) x, in_high (bit x 0) y), bit x 0))"

section \<open>Many steps at once\<close>

declare push_bit_Suc [simp del] drop_bit_Suc [simp del]

lemma bit_in_low: "bit (in_low b x) j \<longleftrightarrow> j < LENGTH('n) \<and> (if j = 0 then b else bit x (j - 1))" for x :: "'n::len word"
  by (cases j) (auto simp: in_low_def bit_or_iff bit_push_bit_iff bit_of_bool_iff dest: bit_imp_le_length)

lemma bit_in_high: "bit (in_high b x) j \<longleftrightarrow> j < LENGTH('n) \<and> (if j = LENGTH('n) - 1 then b else bit x (j + 1))" for x :: "'n::len word"
  by (auto simp: in_high_def bit_or_iff bit_push_bit_iff bit_drop_bit_eq bit_of_bool_iff dest: bit_imp_le_length)

lemma funpow_pair_Suc: "(f ^^ Suc k) p = f (fst ((f ^^ k) p), snd ((f ^^ k) p))"
  by simp

text \<open>The operand and the carry after \<open>k + 1\<close> steps.\<close>

lemma shl_steps:
  "(shl1 ^^ Suc k) (x :: 'n::len word, f) = (push_bit (Suc k) x, k < LENGTH('n) \<and> bit x (LENGTH('n) - 1 - k))"
proof (induction k)
  case (Suc k)
  have "bit (push_bit (Suc k) x) (LENGTH('n) - 1) \<longleftrightarrow> Suc k < LENGTH('n) \<and> bit x (LENGTH('n) - 1 - Suc k)"
    by (auto simp: bit_push_bit_iff)
  then show ?case unfolding funpow.simps(2) [of "Suc k"] comp_apply Suc by (simp add: shl1_def)
qed (simp add: shl1_def)

lemma shr_steps: "(shr1 ^^ Suc k) (x :: 'n::len word, f) = (drop_bit (Suc k) x, bit x k)"
proof (induction k)
  case (Suc k)
  show ?case unfolding funpow.simps(2) [of "Suc k"] comp_apply Suc by (simp add: shr1_def bit_drop_bit_eq)
qed (simp add: shr1_def)

lemma sar_steps:
  "(sar1 ^^ Suc k) (x :: 'n::len word, f) = (signed_drop_bit (Suc k) x, bit x (min k (LENGTH('n) - 1)))"
proof (induction k)
  case (Suc k)
  have "signed_drop_bit 1 (signed_drop_bit (Suc k) x) = signed_drop_bit (Suc (Suc k)) x"
    by (rule bit_word_eqI) (auto simp: bit_signed_drop_bit_iff)
  then show ?case unfolding funpow.simps(2) [of "Suc k"] comp_apply Suc
    by (auto simp: sar1_def bit_signed_drop_bit_iff min_def not_le intro: arg_cong)
qed (simp add: sar1_def min_def)

text \<open>
  A rotation by at most the length of the ring: \<open>g\<close> reads the ring of \<open>m\<close> bits, and one step makes
  bit \<open>j\<close> the former bit \<open>j - 1\<close> and bit 0 the former bit \<open>m - 1\<close>, or the other way round.
\<close>

lemma ring_left:
  fixes g :: "'s \<Rightarrow> nat \<Rightarrow> bool"
  assumes step: "\<And>s j. j < m \<Longrightarrow> g (f s) j = g s (if j = 0 then m - 1 else j - 1)" and "c \<le> m" "j < m"
  shows "g ((f ^^ c) s) j = g s (if c \<le> j then j - c else j + m - c)"
  using assms(2,3)
proof (induction c arbitrary: j)
  case (Suc c)
  let ?i = "if j = 0 then m - 1 else j - 1"
  have "g ((f ^^ Suc c) s) j = g ((f ^^ c) s) ?i" using step [OF Suc.prems(2)] by simp
  also have "\<dots> = g s (if c \<le> ?i then ?i - c else ?i + m - c)" using Suc by (intro Suc.IH) auto
  also have "(if c \<le> ?i then ?i - c else ?i + m - c) = (if Suc c \<le> j then j - Suc c else j + m - Suc c)"
    using Suc.prems by auto
  finally show ?case .
qed simp

lemma ring_right:
  fixes g :: "'s \<Rightarrow> nat \<Rightarrow> bool"
  assumes step: "\<And>s j. j < m \<Longrightarrow> g (f s) j = g s (if j = m - 1 then 0 else j + 1)" and "c \<le> m" "j < m"
  shows "g ((f ^^ c) s) j = g s (if j + c < m then j + c else j + c - m)"
  using assms(2,3)
proof (induction c arbitrary: j)
  case (Suc c)
  let ?i = "if j = m - 1 then 0 else j + 1"
  have "g ((f ^^ Suc c) s) j = g ((f ^^ c) s) ?i" using step [OF Suc.prems(2)] by simp
  also have "\<dots> = g s (if ?i + c < m then ?i + c else ?i + c - m)" using Suc by (intro Suc.IH) auto
  also have "(if ?i + c < m then ?i + c else ?i + c - m) = (if j + Suc c < m then j + Suc c else j + Suc c - m)"
    using Suc.prems by auto
  finally show ?case .
qed simp

text \<open>The rings: the operand, the operand with CF above it, and two operands.\<close>

definition bits :: "'n::len word \<times> bool \<Rightarrow> nat \<Rightarrow> bool" where
  "bits p j = bit (fst p) j"
definition cbits :: "'n::len word \<times> bool \<Rightarrow> nat \<Rightarrow> bool" where
  "cbits p j = (if j = LENGTH('n) then snd p else bit (fst p) j)"
definition bits2 :: "('n::len word \<times> 'n word) \<times> bool \<Rightarrow> nat \<Rightarrow> bool" where
  "bits2 p j = (if LENGTH('n) \<le> j then bit (fst (fst p)) (j - LENGTH('n)) else bit (snd (fst p)) j)"

lemma rol_ring: "j < LENGTH('n) \<Longrightarrow> bits (rol1 p) j = bits p (if j = 0 then LENGTH('n) - 1 else j - 1)" for p :: "'n::len word \<times> bool"
  by (cases p) (simp add: bits_def rol1_def bit_in_low)
lemma ror_ring: "j < LENGTH('n) \<Longrightarrow> bits (ror1 p) j = bits p (if j = LENGTH('n) - 1 then 0 else j + 1)" for p :: "'n::len word \<times> bool"
  by (cases p) (simp add: bits_def ror1_def bit_in_high)
lemma rcl_ring: "j < LENGTH('n) + 1 \<Longrightarrow> cbits (rcl1 p) j = cbits p (if j = 0 then LENGTH('n) + 1 - 1 else j - 1)" for p :: "'n::len word \<times> bool"
  by (cases p; cases "LENGTH('n)") (auto simp: cbits_def rcl1_def bit_in_low less_Suc_eq)
lemma rcr_ring: "j < LENGTH('n) + 1 \<Longrightarrow> cbits (rcr1 p) j = cbits p (if j = LENGTH('n) + 1 - 1 then 0 else j + 1)" for p :: "'n::len word \<times> bool"
  by (cases p; cases "LENGTH('n)") (auto simp: cbits_def rcr1_def bit_in_high less_Suc_eq)
lemma shld_ring: "j < 2 * LENGTH('n) \<Longrightarrow> bits2 (shld1 p) j = bits2 p (if j = 0 then 2 * LENGTH('n) - 1 else j - 1)" for p :: "('n::len word \<times> 'n word) \<times> bool"
  by (cases p; cases "j = LENGTH('n)") (auto simp: bits2_def shld1_def bit_in_low not_le)
definition swap2 :: "('n::len word \<times> 'n word) \<times> bool \<Rightarrow> ('n word \<times> 'n word) \<times> bool" where
  "swap2 = (\<lambda>((x, y), f). ((y, x), f))"

lemma shrd_ring:
  fixes p :: "('n::len word \<times> 'n word) \<times> bool"
  assumes "j < 2 * LENGTH('n)"
  shows "bits2 (swap2 (shrd1 p)) j = bits2 (swap2 p) (if j = 2 * LENGTH('n) - 1 then 0 else j + 1)"
proof -
  obtain m where m: "LENGTH('n) = Suc m" by (cases "LENGTH('n)") simp_all
  consider "j < m" | "j = m" | "Suc m \<le> j" "j < Suc (2 * m)" | "j = Suc (2 * m)" using assms m by linarith
  then show ?thesis
    by cases (use m in \<open>auto simp: bits2_def swap2_def shrd1_def bit_in_high split_beta Suc_diff_Suc\<close>)
qed

text \<open>The carry after at least one step is the bit that was moved out.\<close>

lemma rol_steps:
  fixes x :: "'n::len word"
  assumes "c \<le> LENGTH('n)" "j < LENGTH('n)"
  shows "bit (fst ((rol1 ^^ c) (x, f))) j = bit x (if c \<le> j then j - c else j + LENGTH('n) - c)"
  using ring_left [of "LENGTH('n)" bits rol1 c j "(x, f)", OF rol_ring assms] by (simp add: bits_def)

lemma rol_carry: "0 < c \<Longrightarrow> snd ((rol1 ^^ c) p) = bit (fst ((rol1 ^^ c) p)) 0"
  by (cases c) (simp_all add: rol1_def split_beta bit_in_low)

lemma ror_steps:
  fixes x :: "'n::len word"
  assumes "c \<le> LENGTH('n)" "j < LENGTH('n)"
  shows "bit (fst ((ror1 ^^ c) (x, f))) j = bit x (if j + c < LENGTH('n) then j + c else j + c - LENGTH('n))"
  using ring_right [of "LENGTH('n)" bits ror1 c j "(x, f)", OF ror_ring assms] by (simp add: bits_def)

lemma ror_carry: "0 < c \<Longrightarrow> snd ((ror1 ^^ c) p) = bit (fst ((ror1 ^^ c) p)) (LENGTH('n) - 1)" for p :: "'n::len word \<times> bool"
  by (cases c) (simp_all add: ror1_def split_beta bit_in_high)

lemma rcl_steps:
  fixes x :: "'n::len word"
  assumes "c \<le> LENGTH('n) + 1"
  shows "j < LENGTH('n) \<Longrightarrow> bit (fst ((rcl1 ^^ c) (x, f))) j =
      (if c \<le> j then bit x (j - c) else if j + 1 = c then f else bit x (j + LENGTH('n) + 1 - c))"
    and "snd ((rcl1 ^^ c) (x, f)) = (if c = 0 \<or> c = LENGTH('n) + 1 then f else bit x (LENGTH('n) - c))"
  using ring_left [of "LENGTH('n) + 1" cbits rcl1 c j "(x, f)", OF rcl_ring assms]
    ring_left [of "LENGTH('n) + 1" cbits rcl1 c "LENGTH('n)" "(x, f)", OF rcl_ring assms] assms
  by (auto simp: cbits_def split: if_splits)

lemma rcr_steps:
  fixes x :: "'n::len word"
  assumes "c \<le> LENGTH('n) + 1"
  shows "j < LENGTH('n) \<Longrightarrow> bit (fst ((rcr1 ^^ c) (x, f))) j =
      (if j + c < LENGTH('n) then bit x (j + c) else if j + c = LENGTH('n) then f else bit x (j + c - LENGTH('n) - 1))"
    and "snd ((rcr1 ^^ c) (x, f)) = (if c = 0 \<or> c = LENGTH('n) + 1 then f else bit x (c - 1))"
  using ring_right [of "LENGTH('n) + 1" cbits rcr1 c j "(x, f)", OF rcr_ring assms]
    ring_right [of "LENGTH('n) + 1" cbits rcr1 c "LENGTH('n)" "(x, f)", OF rcr_ring assms] assms
  by (auto simp: cbits_def split: if_splits)

lemma shld_steps:
  fixes x :: "'n::len word"
  assumes "c \<le> 2 * LENGTH('n)" "j < LENGTH('n)"
  shows "bit (fst (fst ((shld1 ^^ c) ((x, y), f)))) j =
    bits2 ((x, y), f) (if c \<le> j + LENGTH('n) then j + LENGTH('n) - c else j + LENGTH('n) + 2 * LENGTH('n) - c)"
  using ring_left [of "2 * LENGTH('n)" bits2 shld1 c "j + LENGTH('n)" "((x, y), f)", OF shld_ring assms(1)] assms(2)
  by (simp add: bits2_def)

lemma shld_low:
  fixes x :: "'n::len word"
  assumes "c \<le> 2 * LENGTH('n)" "0 < c"
  shows "snd ((shld1 ^^ c) ((x, y), f)) = bits2 ((x, y), f) (2 * LENGTH('n) - c)"
proof -
  obtain k where k: "c = Suc k" using assms(2) by (cases c) auto
  have "snd ((shld1 ^^ c) ((x, y), f)) = bits2 ((shld1 ^^ c) ((x, y), f)) 0"
    unfolding k funpow.simps comp_apply by (simp add: shld1_def split_beta bits2_def bit_in_low)
  also have "\<dots> = bits2 ((x, y), f) (2 * LENGTH('n) - c)"
    using ring_left [of "2 * LENGTH('n)" bits2 shld1 c 0 "((x, y), f)", OF shld_ring assms(1)] assms(2) by simp
  finally show ?thesis .
qed

lemma shrd_steps:
  fixes x :: "'n::len word"
  assumes "c \<le> 2 * LENGTH('n)" "j < LENGTH('n)"
  shows "bit (fst (fst ((shrd1 ^^ c) ((x, y), f)))) j =
    bits2 ((y, x), f) (if j + c < 2 * LENGTH('n) then j + c else j + c - 2 * LENGTH('n))"
proof -
  have "bits2 (swap2 ((shrd1 ^^ c) ((x, y), f))) j = bits2 (swap2 ((x, y), f)) (if j + c < 2 * LENGTH('n) then j + c else j + c - 2 * LENGTH('n))"
    using ring_right [of "2 * LENGTH('n)" "\<lambda>p. bits2 (swap2 p)" shrd1 c j "((x, y), f)", OF shrd_ring assms(1)] assms(2) by simp
  then show ?thesis using assms(2) by (simp add: swap2_def bits2_def split_beta)
qed

lemma shrd_low:
  fixes x :: "'n::len word"
  assumes "c \<le> 2 * LENGTH('n)" "0 < c"
  shows "snd ((shrd1 ^^ c) ((x, y), f)) = bits2 ((y, x), f) (c - 1)"
proof -
  obtain k where k: "c = Suc k" using assms(2) by (cases c) auto
  have "snd ((shrd1 ^^ c) ((x, y), f)) = bits2 (swap2 ((shrd1 ^^ k) ((x, y), f))) 0"
    unfolding k funpow.simps comp_apply by (simp add: shrd1_def split_beta bits2_def swap2_def)
  also have "\<dots> = bits2 (swap2 ((x, y), f)) k"
    using ring_right [of "2 * LENGTH('n)" "\<lambda>p. bits2 (swap2 p)" shrd1 k 0 "((x, y), f)", OF shrd_ring] assms(1) k by simp
  finally show ?thesis by (simp add: swap2_def k)
qed

section \<open>The code's expressions\<close>

text \<open>
  The operand \<open>x\<close> of \<open>'n\<close> bits is computed with in a type \<open>'w\<close> at least as wide: \<open>int\<close> for the
  8 and 16-bit operands, its own type for the others.
\<close>

lemma ucast_bit: "LENGTH('n) \<le> LENGTH('w) \<Longrightarrow> bit (ucast x :: 'w::len word) j = bit x j" for x :: "'n::len word"
  by (auto simp: bit_ucast_iff dest: bit_imp_le_length)

lemma shl_expr:
  "LENGTH('n) \<le> LENGTH('w) \<Longrightarrow> ucast (push_bit c (ucast x :: 'w::len word)) = push_bit c x" for x :: "'n::len word"
  by (rule bit_word_eqI) (auto simp: bit_ucast_iff bit_push_bit_iff)

lemma shr_expr:
  "LENGTH('n) \<le> LENGTH('w) \<Longrightarrow> ucast (drop_bit c (ucast x :: 'w::len word)) = drop_bit c x" for x :: "'n::len word"
  by (rule bit_word_eqI) (auto simp: bit_ucast_iff bit_drop_bit_eq dest: bit_imp_le_length)

lemma sar_expr:
  fixes x :: "'n::len word"
  assumes "LENGTH('n) \<le> LENGTH('w)"
  shows "ucast (signed_drop_bit c (scast x :: 'w::len word)) = signed_drop_bit c x"
proof (rule bit_word_eqI)
  fix j assume j: "j < LENGTH('n)"
  let ?i = "if LENGTH('w) - c \<le> j \<and> j < LENGTH('w) then LENGTH('w) - 1 else c + j"
  have i: "?i < LENGTH('w)" using j assms by auto
  have "min (LENGTH('n) - 1) ?i = (if LENGTH('n) - c \<le> j \<and> j < LENGTH('n) then LENGTH('n) - 1 else c + j)"
    using j assms by auto
  moreover have "bit (scast x :: 'w word) ?i = bit x (min (LENGTH('n) - 1) ?i)"
    using i by (simp only: bit_signed_iff possible_bit_word) simp
  ultimately show "bit (ucast (signed_drop_bit c (scast x :: 'w word)) :: 'n word) j = bit (signed_drop_bit c x) j"
    using j by (simp only: bit_ucast_iff bit_signed_drop_bit_iff possible_bit_word) simp
qed

lemma rol_expr:
  fixes x :: "'n::len word"
  assumes "LENGTH('n) \<le> LENGTH('w)" "0 < c" "c < LENGTH('n)"
  shows "ucast (push_bit c (ucast x :: 'w::len word) OR drop_bit (LENGTH('n) - c) (ucast x)) = fst ((rol1 ^^ c) (x, f))"
  by (rule bit_word_eqI)
    (use assms in \<open>auto simp: rol_steps bit_ucast_iff bit_or_iff bit_push_bit_iff bit_drop_bit_eq algebra_simps dest: bit_imp_le_length\<close>)

lemma ror_expr:
  fixes x :: "'n::len word"
  assumes "LENGTH('n) \<le> LENGTH('w)" "0 < c" "c < LENGTH('n)"
  shows "ucast (drop_bit c (ucast x :: 'w::len word) OR push_bit (LENGTH('n) - c) (ucast x)) = fst ((ror1 ^^ c) (x, f))"
  by (rule bit_word_eqI)
    (use assms in \<open>auto simp: ror_steps bit_ucast_iff bit_or_iff bit_push_bit_iff bit_drop_bit_eq algebra_simps dest: bit_imp_le_length\<close>)

lemma rcl_expr:
  fixes x :: "'n::len word"
  assumes "LENGTH('n) \<le> LENGTH('w)" "0 < c" "c \<le> LENGTH('n)"
  shows "ucast (push_bit c (ucast x :: 'w::len word) OR push_bit (c - 1) (of_bool f) OR drop_bit (LENGTH('n) + 1 - c) (ucast x)) = fst ((rcl1 ^^ c) (x, f))"
  by (rule bit_word_eqI)
    (use assms in \<open>auto simp: rcl_steps bit_ucast_iff bit_or_iff bit_push_bit_iff bit_drop_bit_eq bit_of_bool_iff algebra_simps dest: bit_imp_le_length\<close>)

lemma rcr_expr:
  fixes x :: "'n::len word"
  assumes "LENGTH('n) \<le> LENGTH('w)" "0 < c" "c \<le> LENGTH('n)"
  shows "ucast (drop_bit c (ucast x :: 'w::len word) OR push_bit (LENGTH('n) - c) (of_bool f) OR push_bit (LENGTH('n) + 1 - c) (ucast x)) = fst ((rcr1 ^^ c) (x, f))"
  by (rule bit_word_eqI)
    (use assms in \<open>auto simp: rcr_steps bit_ucast_iff bit_or_iff bit_push_bit_iff bit_drop_bit_eq bit_of_bool_iff algebra_simps dest: bit_imp_le_length\<close>)

lemma shld_expr:
  fixes x y :: "'n::len word"
  assumes "0 < c" "c < LENGTH('n)"
  shows "push_bit c x OR drop_bit (LENGTH('n) - c) y = fst (fst ((shld1 ^^ c) ((x, y), f)))"
  by (rule bit_word_eqI)
    (use assms in \<open>auto simp: shld_steps bits2_def bit_or_iff bit_push_bit_iff bit_drop_bit_eq algebra_simps dest: bit_imp_le_length\<close>)

lemma shrd_expr:
  fixes x y :: "'n::len word"
  assumes "0 < c" "c < LENGTH('n)"
  shows "push_bit (LENGTH('n) - c) y OR drop_bit c x = fst (fst ((shrd1 ^^ c) ((x, y), f)))"
  by (rule bit_word_eqI)
    (use assms in \<open>auto simp: shrd_steps bits2_def bit_or_iff bit_push_bit_iff bit_drop_bit_eq algebra_simps dest: bit_imp_le_length\<close>)

lemma shld_expr_wide:
  fixes x y :: "'n::len word"
  assumes "LENGTH('w) = 2 * LENGTH('n)" "0 < c" "c < 2 * LENGTH('n)"
  shows "ucast (drop_bit LENGTH('n) (if LENGTH('n) < c
        then push_bit c (push_bit LENGTH('n) (ucast x) OR ucast y) OR push_bit (c - LENGTH('n)) (ucast x)
        else push_bit c (push_bit LENGTH('n) (ucast x) OR ucast y :: 'w::len word))) = fst (fst ((shld1 ^^ c) ((x, y), f)))"
  by (rule bit_word_eqI)
    (use assms in \<open>auto simp: shld_steps bits2_def bit_ucast_iff bit_or_iff bit_push_bit_iff bit_drop_bit_eq algebra_simps mult_2_right dest: bit_imp_le_length\<close>)

lemma shrd_expr_wide:
  fixes x y :: "'n::len word"
  assumes "LENGTH('w) = 2 * LENGTH('n)" "0 < c" "c < 2 * LENGTH('n)"
  shows "ucast (if LENGTH('n) < c
        then drop_bit c (push_bit LENGTH('n) (ucast y) OR ucast x) OR push_bit (2 * LENGTH('n) - c) (ucast x)
        else drop_bit c (push_bit LENGTH('n) (ucast y) OR ucast x :: 'w::len word)) = fst (fst ((shrd1 ^^ c) ((x, y), f)))"
  by (rule bit_word_eqI)
    (use assms in \<open>auto simp: shrd_steps bits2_def bit_ucast_iff bit_or_iff bit_push_bit_iff bit_drop_bit_eq algebra_simps mult_2_right dest: bit_imp_le_length\<close>)

section \<open>Specification\<close>

text \<open>
  OF tells that the sign has changed in the last step to the left, and that the two top bits differ
  after a step to the right; SHR has the sign of the operand after one step, SAR never changes it.
\<close>

type_synonym 'n ov = "nat \<Rightarrow> 'n word \<Rightarrow> 'n word \<Rightarrow> bool \<Rightarrow> bool"

definition ov_left :: "'n::len ov" where
  "ov_left c x r cf \<longleftrightarrow> cf \<noteq> bit r (LENGTH('n) - 1)"
definition ov_right :: "'n::len ov" where
  "ov_right c x r cf \<longleftrightarrow> bit r (LENGTH('n) - 2) \<noteq> bit r (LENGTH('n) - 1)"
definition ov_shr :: "'n::len ov" where
  "ov_shr c x r cf \<longleftrightarrow> c = 1 \<and> bit x (LENGTH('n) - 1)"
definition ov_none :: "'n::len ov" where
  "ov_none c x r cf \<longleftrightarrow> False"

text \<open>A count of 0 changes no flag; a 32-bit operand is still written, with the upper half cleared.\<close>

definition spec_shift ::
    "('n::len word \<times> bool \<Rightarrow> 'n word \<times> bool) \<Rightarrow> 'n ov \<Rightarrow> nat \<Rightarrow> (acpu \<Rightarrow> 'n word) \<Rightarrow> ('n word \<Rightarrow> acpu \<Rightarrow> acpu) \<Rightarrow> acpu \<Rightarrow> acpu" where
  "spec_shift step ov c rd wr a =
     (if c = 0 then wr (rd a) a
      else let (r, cf) = (step ^^ c) (rd a, f_CF (aflags a))
           in (wr r a)\<lparr>aflags := (logic_oszapc r)\<lparr>f_OF := ov c (rd a) r cf, f_CF := cf\<rparr>\<rparr>)"

definition spec_rotate ::
    "('n::len word \<times> bool \<Rightarrow> 'n word \<times> bool) \<Rightarrow> 'n ov \<Rightarrow> nat \<Rightarrow> (acpu \<Rightarrow> 'n word) \<Rightarrow> ('n word \<Rightarrow> acpu \<Rightarrow> acpu) \<Rightarrow> acpu \<Rightarrow> acpu" where
  "spec_rotate step ov c rd wr a =
     (if c = 0 then wr (rd a) a
      else let (r, cf) = (step ^^ c) (rd a, f_CF (aflags a))
           in (wr r a)\<lparr>aflags := (aflags a)\<lparr>f_OF := ov c (rd a) r cf, f_CF := cf\<rparr>\<rparr>)"

definition spec_double ::
    "(('n::len word \<times> 'n word) \<times> bool \<Rightarrow> ('n word \<times> 'n word) \<times> bool) \<Rightarrow> 'n ov \<Rightarrow> nat \<Rightarrow>
     (acpu \<Rightarrow> 'n word) \<Rightarrow> (acpu \<Rightarrow> 'n word) \<Rightarrow> ('n word \<Rightarrow> acpu \<Rightarrow> acpu) \<Rightarrow> acpu \<Rightarrow> acpu" where
  "spec_double step ov c rd rs wr a =
     (if c = 0 then wr (rd a) a
      else let ((r, _), cf) = (step ^^ c) ((rd a, rs a), f_CF (aflags a))
           in (wr r a)\<lparr>aflags := (logic_oszapc r)\<lparr>f_OF := ov c (rd a) r cf, f_CF := cf\<rparr>\<rparr>)"

text \<open>The count operand: CL or the immediate.\<close>

definition shift_count :: "string \<Rightarrow> bxInstruction_c \<Rightarrow> acpu \<Rightarrow> nat" where
  "shift_count opc i a = unat (if getIaOpcode i = opc then r8 1 False a else Ib i)"

lemma acpu_CL [simp]: "CL s = r8 1 False (acpu_of s)"
  by (simp add: CL_def acpu_of_def operand_defs del: lf_flags_acpu acpu_reads)

lemma and_mask_mod: "n AND mask k = n mod 2 ^ k" for n :: nat
  by (simp only: take_bit_eq_mask [symmetric] take_bit_eq_mod)

lemma count_mask [simp]:
  "n AND 31 = n mod 32" "n AND 63 = n mod 64" "n AND 7 = n mod 8" "n AND 15 = n mod 16" for n :: nat
  using and_mask_mod [of n 5] and_mask_mod [of n 6] and_mask_mod [of n 3] and_mask_mod [of n 4]
  by (simp_all add: mask_eq_exp_minus_1)

lemma set_same:
  "set_rl (reg_rl r) r = r" "set_rh (reg_rh r) r = r" "set_rx (reg_rx r) r = r"
proof -
  show "set_rl (reg_rl r) r = r" unfolding reg_defs take_bit_mask_simps
    by (rule bit_word_eqI) (auto simp: bit_simps)
  show "set_rx (reg_rx r) r = r" unfolding reg_defs take_bit_mask_simps
    by (rule bit_word_eqI) (auto simp: bit_simps)
  show "set_rh (reg_rh r) r = r" unfolding reg_defs take_bit_mask_simps
    by (rule bit_word_eqI) (auto simp: bit_simps)
qed

lemma write_back [simp]:
  "w8 n b (r8 n b a) a = a" "w16 n (r16 n a) a = a" "w64 n (r64 n a) a = a"
  "acpu_of (BX_CLEAR_64BIT_HIGH n s) = w32 n (r32 n (acpu_of s)) (acpu_of s)"
  by (simp_all add: operand_defs set_same)
    (simp add: acpu_of_def cpu_reg_defs set_hrx_0 del: lf_flags_acpu acpu_reads)

text \<open>The flag expressions as truth values.\<close>

lemma of_bool_xor: "of_bool a XOR of_bool b = (of_bool (a \<noteq> b) :: 'a::len word)"
  by (cases a; cases b) simp_all

lemma top_drop: "Suc k = LENGTH('a) \<Longrightarrow> drop_bit k w = of_bool (bit w k)" for w :: "'a::len word"
proof (rule bit_word_eqI)
  fix n assume "Suc k = LENGTH('a)"
  then show "bit (drop_bit k w) n = bit (of_bool (bit w k) :: 'a word) n"
    using bit_imp_le_length [of w "k + n"] by (cases n) (auto simp: bit_drop_bit_eq bit_of_bool_iff)
qed

lemma top_drop_ucast:
  "Suc k = LENGTH('a) \<Longrightarrow> LENGTH('a) \<le> LENGTH('b) \<Longrightarrow> drop_bit k (ucast w :: 'b::len word) = of_bool (bit w k)" for w :: "'a::len word"
proof (rule bit_word_eqI)
  fix n assume "Suc k = LENGTH('a)" "LENGTH('a) \<le> LENGTH('b)"
  then show "bit (drop_bit k (ucast w :: 'b word)) n = bit (of_bool (bit w k) :: 'b word) n"
    using bit_imp_le_length [of w "k + n"] by (cases n) (auto simp: bit_drop_bit_eq bit_ucast_iff bit_of_bool_iff)
qed

lemma top_bit:
  "drop_bit 7 (ucast (b :: Bit8u) :: Bit32u) = of_bool (bit b 7)" "drop_bit 15 (ucast (w :: Bit16u) :: Bit32u) = of_bool (bit w 15)"
  "drop_bit 31 (d :: Bit32u) = of_bool (bit d 31)" "drop_bit 63 (q :: Bit64u) = of_bool (bit q 63)"
  by (rule top_drop_ucast top_drop; simp)+

lemma ucast_of_bool: "ucast (of_bool b :: 'a::len word) = (of_bool b :: 'b::len word)"
  by (cases b) simp_all

lemma bit_beyond:
  "8 \<le> n \<Longrightarrow> \<not> bit (b :: Bit8u) n" "16 \<le> n \<Longrightarrow> \<not> bit (w :: Bit16u) n"
  "32 \<le> n \<Longrightarrow> \<not> bit (d :: Bit32u) n" "64 \<le> n \<Longrightarrow> \<not> bit (q :: Bit64u) n"
  using bit_imp_le_length [of b n] bit_imp_le_length [of w n] bit_imp_le_length [of d n] bit_imp_le_length [of q n]
  by auto

lemma flags_0:
  "lf_flags (set_flags_OxxxxC 0 0 e) = (lf_flags e)\<lparr>f_OF := False, f_CF := False\<rparr>"
  "lf_flags (set_flags_OxxxxC 0 (of_bool c) e) = (lf_flags e)\<lparr>f_OF := False, f_CF := c\<rparr>"
  "lf_flags (SET_FLAGS_OSZAPC_LOGIC_8 0 e) = logic_oszapc (0 :: Bit8u)"
  using lf_flags_set_flags_OxxxxC [of False False e] lf_flags_set_flags_OxxxxC [of False c e] logic_flags_sized(1) [of 0 e]
  by simp_all

lemma bit_from_top:
  "bit (b :: Bit8u) (7 + k) \<longleftrightarrow> k = 0 \<and> bit b 7" "bit (w :: Bit16u) (15 + k) \<longleftrightarrow> k = 0 \<and> bit w 15"
  "bit (d :: Bit32u) (31 + k) \<longleftrightarrow> k = 0 \<and> bit d 31" "bit (q :: Bit64u) (63 + k) \<longleftrightarrow> k = 0 \<and> bit q 63"
  by (cases k; simp add: bit_beyond)+

lemma narrow_bit_15: "bit (ucast (w :: Bit32u) :: Bit16u) 15 = bit w 15"
  by (simp add: bit_ucast_iff)

lemma sar_carry:
  "k < 31 \<Longrightarrow> bit (signed_drop_bit k (scast (b :: Bit8u) :: Bit32u)) 0 = bit b (min k 7)"
  "k < 31 \<Longrightarrow> bit (signed_drop_bit k (scast (w :: Bit16u) :: Bit32u)) 0 = bit w (min k 15)"
  by (simp_all add: bit_signed_drop_bit_iff bit_signed_iff min.commute)

lemmas flag_exprs = bit_from_top narrow_bit_15 sar_carry of_bool_xor top_bit drop_bit_and_1 and_1_bit ucast_of_bool ucast_bit bit_beyond
  bit_drop_bit_eq bit_push_bit_iff bit_xor_iff lf_flags_set_flags_OxxxxC flags_0 logic_flags_sized
lemmas ov_defs = ov_left_def ov_right_def ov_shr_def ov_none_def

lemma SHL_EbR_spec: "acpu_of (SHL_EbR i s) = spec_shift shl1 ov_left (shift_count ''BX_IA_SHL_Eb'' i (acpu_of s) mod 32) (r8 (dst i) (extend8bitL i)) (w8 (dst i) (extend8bitL i)) (acpu_of s)"
proof -
  define c where "c = shift_count ''BX_IA_SHL_Eb'' i (acpu_of s) mod 32"
  have "c < 32" "c = 0 \<or> (\<exists>k. c = Suc k)" by (simp add: c_def) (cases c, auto)
  then show ?thesis
    unfolding SHL_EbR_def count_mask acpu_CL shift_count_def [symmetric] c_def [symmetric] Let_def
    by (elim disjE exE) (simp_all add: spec_shift_def shl_steps ov_defs flag_exprs shl_expr del: funpow.simps drop_bit_xor)
qed

lemma SHL_EwR_spec: "acpu_of (SHL_EwR i s) = spec_shift shl1 ov_left (shift_count ''BX_IA_SHL_Ew'' i (acpu_of s) mod 32) (r16 (dst i)) (w16 (dst i)) (acpu_of s)"
proof -
  define c where "c = shift_count ''BX_IA_SHL_Ew'' i (acpu_of s) mod 32"
  have "c < 32" "c = 0 \<or> (\<exists>k. c = Suc k)" by (simp add: c_def) (cases c, auto)
  then show ?thesis
    unfolding SHL_EwR_def count_mask acpu_CL shift_count_def [symmetric] c_def [symmetric] Let_def
    by (elim disjE exE) (simp_all add: spec_shift_def shl_steps ov_defs flag_exprs shl_expr del: funpow.simps drop_bit_xor)
qed

lemma SHL_EdR_spec: "acpu_of (SHL_EdR i s) = spec_shift shl1 ov_left (shift_count ''BX_IA_SHL_Ed'' i (acpu_of s) mod 32) (r32 (dst i)) (w32 (dst i)) (acpu_of s)"
proof -
  define c where "c = shift_count ''BX_IA_SHL_Ed'' i (acpu_of s) mod 32"
  have "c < 32" "c = 0 \<or> (\<exists>k. c = Suc k)" by (simp add: c_def) (cases c, auto)
  then show ?thesis
    unfolding SHL_EdR_def count_mask acpu_CL shift_count_def [symmetric] c_def [symmetric] Let_def
    by (elim disjE exE) (simp_all add: spec_shift_def shl_steps ov_defs flag_exprs shl_expr del: funpow.simps drop_bit_xor)
qed

lemma SHL_EqR_spec: "acpu_of (SHL_EqR i s) = spec_shift shl1 ov_left (shift_count ''BX_IA_SHL_Eq'' i (acpu_of s) mod 64) (r64 (dst i)) (w64 (dst i)) (acpu_of s)"
proof -
  define c where "c = shift_count ''BX_IA_SHL_Eq'' i (acpu_of s) mod 64"
  have "c < 64" "c = 0 \<or> (\<exists>k. c = Suc k)" by (simp add: c_def) (cases c, auto)
  then show ?thesis
    unfolding SHL_EqR_def count_mask acpu_CL shift_count_def [symmetric] c_def [symmetric] Let_def
    by (elim disjE exE) (simp_all add: spec_shift_def shl_steps ov_defs flag_exprs shl_expr del: funpow.simps drop_bit_xor)
qed

lemma SHR_EbR_spec: "acpu_of (SHR_EbR i s) = spec_shift shr1 ov_shr (shift_count ''BX_IA_SHR_Eb'' i (acpu_of s) mod 32) (r8 (dst i) (extend8bitL i)) (w8 (dst i) (extend8bitL i)) (acpu_of s)"
proof -
  define c where "c = shift_count ''BX_IA_SHR_Eb'' i (acpu_of s) mod 32"
  have "c < 32" "c = 0 \<or> (\<exists>k. c = Suc k)" by (simp add: c_def) (cases c, auto)
  then show ?thesis
    unfolding SHR_EbR_def count_mask acpu_CL shift_count_def [symmetric] c_def [symmetric] Let_def
    by (elim disjE exE) (simp_all add: spec_shift_def shr_steps ov_defs flag_exprs shr_expr del: funpow.simps drop_bit_xor)
qed

lemma SHR_EwR_spec: "acpu_of (SHR_EwR i s) = spec_shift shr1 ov_shr (shift_count ''BX_IA_SHR_Ew'' i (acpu_of s) mod 32) (r16 (dst i)) (w16 (dst i)) (acpu_of s)"
proof -
  define c where "c = shift_count ''BX_IA_SHR_Ew'' i (acpu_of s) mod 32"
  have "c < 32" "c = 0 \<or> (\<exists>k. c = Suc k)" by (simp add: c_def) (cases c, auto)
  then show ?thesis
    unfolding SHR_EwR_def count_mask acpu_CL shift_count_def [symmetric] c_def [symmetric] Let_def
    by (elim disjE exE) (simp_all add: spec_shift_def shr_steps ov_defs flag_exprs shr_expr del: funpow.simps drop_bit_xor)
qed

lemma SHR_EdR_spec: "acpu_of (SHR_EdR i s) = spec_shift shr1 ov_shr (shift_count ''BX_IA_SHR_Ed'' i (acpu_of s) mod 32) (r32 (dst i)) (w32 (dst i)) (acpu_of s)"
proof -
  define c where "c = shift_count ''BX_IA_SHR_Ed'' i (acpu_of s) mod 32"
  have "c < 32" "c = 0 \<or> (\<exists>k. c = Suc k)" by (simp add: c_def) (cases c, auto)
  then show ?thesis
    unfolding SHR_EdR_def count_mask acpu_CL shift_count_def [symmetric] c_def [symmetric] Let_def
    by (elim disjE exE) (simp_all add: spec_shift_def shr_steps ov_defs flag_exprs shr_expr del: funpow.simps drop_bit_xor)
qed

lemma SHR_EqR_spec: "acpu_of (SHR_EqR i s) = spec_shift shr1 ov_shr (shift_count ''BX_IA_SHR_Eq'' i (acpu_of s) mod 64) (r64 (dst i)) (w64 (dst i)) (acpu_of s)"
proof -
  define c where "c = shift_count ''BX_IA_SHR_Eq'' i (acpu_of s) mod 64"
  have "c < 64" "c = 0 \<or> (\<exists>k. c = Suc k)" by (simp add: c_def) (cases c, auto)
  then show ?thesis
    unfolding SHR_EqR_def count_mask acpu_CL shift_count_def [symmetric] c_def [symmetric] Let_def
    by (elim disjE exE) (simp_all add: spec_shift_def shr_steps ov_defs flag_exprs shr_expr del: funpow.simps drop_bit_xor)
qed

lemma SAR_EbR_spec: "acpu_of (SAR_EbR i s) = spec_shift sar1 ov_none (shift_count ''BX_IA_SAR_Eb'' i (acpu_of s) mod 32) (r8 (dst i) (extend8bitL i)) (w8 (dst i) (extend8bitL i)) (acpu_of s)"
proof -
  define c where "c = shift_count ''BX_IA_SAR_Eb'' i (acpu_of s) mod 32"
  have "c < 32" "c = 0 \<or> (\<exists>k. c = Suc k)" by (simp add: c_def) (cases c, auto)
  then show ?thesis
    unfolding SAR_EbR_def count_mask acpu_CL shift_count_def [symmetric] c_def [symmetric] Let_def
    by (elim disjE exE) (simp_all add: spec_shift_def sar_steps ov_defs flag_exprs sar_expr del: funpow.simps drop_bit_xor)
qed

lemma SAR_EwR_spec: "acpu_of (SAR_EwR i s) = spec_shift sar1 ov_none (shift_count ''BX_IA_SAR_Ew'' i (acpu_of s) mod 32) (r16 (dst i)) (w16 (dst i)) (acpu_of s)"
proof -
  define c where "c = shift_count ''BX_IA_SAR_Ew'' i (acpu_of s) mod 32"
  have "c < 32" "c = 0 \<or> (\<exists>k. c = Suc k)" by (simp add: c_def) (cases c, auto)
  then show ?thesis
    unfolding SAR_EwR_def count_mask acpu_CL shift_count_def [symmetric] c_def [symmetric] Let_def
    by (elim disjE exE) (simp_all add: spec_shift_def sar_steps ov_defs flag_exprs sar_expr del: funpow.simps drop_bit_xor)
qed

lemma SAR_EdR_spec: "acpu_of (SAR_EdR i s) = spec_shift sar1 ov_none (shift_count ''BX_IA_SAR_Ed'' i (acpu_of s) mod 32) (r32 (dst i)) (w32 (dst i)) (acpu_of s)"
proof -
  define c where "c = shift_count ''BX_IA_SAR_Ed'' i (acpu_of s) mod 32"
  have "c < 32" "c = 0 \<or> (\<exists>k. c = Suc k)" by (simp add: c_def) (cases c, auto)
  then show ?thesis
    unfolding SAR_EdR_def count_mask acpu_CL shift_count_def [symmetric] c_def [symmetric] Let_def
    by (elim disjE exE) (simp_all add: spec_shift_def sar_steps ov_defs flag_exprs sar_expr del: funpow.simps drop_bit_xor)
qed

lemma SAR_EqR_spec: "acpu_of (SAR_EqR i s) = spec_shift sar1 ov_none (shift_count ''BX_IA_SAR_Eq'' i (acpu_of s) mod 64) (r64 (dst i)) (w64 (dst i)) (acpu_of s)"
proof -
  define c where "c = shift_count ''BX_IA_SAR_Eq'' i (acpu_of s) mod 64"
  have "c < 64" "c = 0 \<or> (\<exists>k. c = Suc k)" by (simp add: c_def) (cases c, auto)
  then show ?thesis
    unfolding SAR_EqR_def count_mask acpu_CL shift_count_def [symmetric] c_def [symmetric] Let_def
    by (elim disjE exE) (simp_all add: spec_shift_def sar_steps ov_defs flag_exprs sar_expr del: funpow.simps drop_bit_xor)
qed

text \<open>The expressions at the four sizes.\<close>

lemma rcl_one: "LENGTH('n) \<le> LENGTH('w) \<Longrightarrow> ucast (push_bit 1 (ucast x :: 'w::len word) OR of_bool f) = fst ((rcl1 ^^ 1) (x, f))"
  for x :: "'n::len word"
  by (rule bit_word_eqI) (auto simp: rcl1_def bit_in_low bit_ucast_iff bit_or_iff bit_push_bit_iff bit_of_bool_iff)

lemma rcl_all:
  fixes x :: "'n::len word"
  assumes "LENGTH('n) \<le> LENGTH('w)"
  shows "ucast (push_bit (LENGTH('n) - 1) (of_bool f) OR drop_bit 1 (ucast x :: 'w::len word)) = fst ((rcl1 ^^ LENGTH('n)) (x, f))"
  by (rule bit_word_eqI)
    (use assms in \<open>auto simp: rcl_steps bit_ucast_iff bit_or_iff bit_push_bit_iff bit_drop_bit_eq bit_of_bool_iff dest: bit_imp_le_length\<close>)

lemma rcr_one: "drop_bit 1 x OR push_bit (LENGTH('n) - 1) (of_bool f) = fst ((rcr1 ^^ 1) (x, f))" for x :: "'n::len word"
  by (simp add: rcr1_def in_high_def)

lemmas rol_exprs = rol_expr [where 'n = 8 and 'w = 32, simplified] rol_expr [where 'n = 16 and 'w = 32, simplified]
  rol_expr [where 'n = 32 and 'w = 32, simplified] rol_expr [where 'n = 64 and 'w = 64, simplified]
lemmas ror_exprs = ror_expr [where 'n = 8 and 'w = 32, simplified] ror_expr [where 'n = 16 and 'w = 32, simplified]
  ror_expr [where 'n = 32 and 'w = 32, simplified] ror_expr [where 'n = 64 and 'w = 64, simplified]
lemmas rcl_exprs = rcl_expr [where 'n = 8 and 'w = 32, simplified] rcl_expr [where 'n = 16 and 'w = 32, simplified]
  rcl_expr [where 'n = 32 and 'w = 32, simplified] rcl_expr [where 'n = 64 and 'w = 64, simplified]
lemmas rcl_ones = rcl_one [where 'n = 8 and 'w = 32, simplified] rcl_one [where 'n = 16 and 'w = 32, simplified]
  rcl_one [where 'n = 32 and 'w = 32, simplified] rcl_one [where 'n = 64 and 'w = 64, simplified]
lemmas rcr_exprs = rcr_expr [where 'n = 8 and 'w = 32, simplified] rcr_expr [where 'n = 16 and 'w = 32, simplified]
  rcr_expr [where 'n = 32 and 'w = 32, simplified] rcr_expr [where 'n = 64 and 'w = 64, simplified]

text \<open>The 8 and 16-bit rotations look at the count modulo the size.\<close>

lemma rol_fst: "fst ((rol1 ^^ c) p) = ((\<lambda>x. in_low (bit x (LENGTH('n) - 1)) x) ^^ c) (fst p)" for p :: "'n::len word \<times> bool"
  by (induction c) (auto simp: rol1_def split_beta)

lemma ror_fst: "fst ((ror1 ^^ c) p) = ((\<lambda>x. in_high (bit x 0) x) ^^ c) (fst p)" for p :: "'n::len word \<times> bool"
  by (induction c) (auto simp: ror1_def split_beta)

lemma rol_mod: "fst ((rol1 ^^ (c mod LENGTH('n))) (x, f)) = fst ((rol1 ^^ c) (x, f))" for x :: "'n::len word"
proof -
  have "fst ((rol1 ^^ LENGTH('n)) (x, f)) = x" by (rule bit_word_eqI) (simp add: rol_steps)
  then show ?thesis unfolding rol_fst by (intro funpow_mod_eq) simp
qed

lemma ror_mod: "fst ((ror1 ^^ (c mod LENGTH('n))) (x, f)) = fst ((ror1 ^^ c) (x, f))" for x :: "'n::len word"
proof -
  have "fst ((ror1 ^^ LENGTH('n)) (x, f)) = x" by (rule bit_word_eqI) (simp add: ror_steps)
  then show ?thesis unfolding ror_fst by (intro funpow_mod_eq) simp
qed

lemma and_below_32: "(31 :: nat) AND k = k \<Longrightarrow> n AND k = (n mod 32) AND k" for n k :: nat
  by (metis and.assoc count_mask(1))

lemma and_count:
  "n mod 8 = 0 \<Longrightarrow> n AND 24 = 0 \<longleftrightarrow> n mod 32 = 0" "n mod 16 = 0 \<Longrightarrow> n AND 16 = 0 \<longleftrightarrow> n mod 32 = 0" for n :: nat
proof -
  have c: "list_all (\<lambda>m. m mod 8 = 0 \<longrightarrow> (m AND 24 = 0) = (m = (0 :: nat))) [0..<32]"
    "list_all (\<lambda>m. m mod 16 = 0 \<longrightarrow> (m AND 16 = 0) = (m = (0 :: nat))) [0..<32]" by code_simp+
  have m: "n mod 32 mod 8 = n mod 8" "n mod 32 mod 16 = n mod 16" by (simp_all add: mod_mod_cancel)
  show "n mod 8 = 0 \<Longrightarrow> n AND 24 = 0 \<longleftrightarrow> n mod 32 = 0"
    using c(1) m and_below_32 [of 24 n] by (simp add: list_all_iff)
  show "n mod 16 = 0 \<Longrightarrow> n AND 16 = 0 \<longleftrightarrow> n mod 32 = 0"
    using c(2) m and_below_32 [of 16 n] by (simp add: list_all_iff)
qed

lemma rotate_mod:
  "fst ((rol1 ^^ (n mod 32)) (b :: Bit8u, f)) = fst ((rol1 ^^ (n mod 8)) (b, f))"
  "fst ((rol1 ^^ (n mod 32)) (w :: Bit16u, f)) = fst ((rol1 ^^ (n mod 16)) (w, f))"
  "fst ((ror1 ^^ (n mod 32)) (b, f)) = fst ((ror1 ^^ (n mod 8)) (b, f))"
  "fst ((ror1 ^^ (n mod 32)) (w, f)) = fst ((ror1 ^^ (n mod 16)) (w, f))"
  using rol_mod [of "n mod 32" b f] rol_mod [of "n mod 32" w f] ror_mod [of "n mod 32" b f] ror_mod [of "n mod 32" w f]
  by (simp_all add: mod_mod_cancel)

lemma ROL_EbR_spec: "acpu_of (ROL_EbR i s) = spec_rotate rol1 ov_left (shift_count ''BX_IA_ROL_Eb'' i (acpu_of s) mod 32) (r8 (dst i) (extend8bitL i)) (w8 (dst i) (extend8bitL i)) (acpu_of s)"
proof -
  define n where "n = shift_count ''BX_IA_ROL_Eb'' i (acpu_of s)"
  define f where "f = f_CF (aflags (acpu_of s))"
  consider "n mod 32 = 0" "n mod 8 = 0" | "n mod 32 \<noteq> 0" "n mod 8 = 0" | "0 < n mod 8" "n mod 32 \<noteq> 0"
    using mod_mod_cancel [of 8 32 n] by (cases "n mod 8 = 0"; cases "n mod 32 = 0") auto
  then show ?thesis
    unfolding ROL_EbR_def count_mask acpu_CL shift_count_def [symmetric] n_def [symmetric] Let_def
    by cases (simp_all add: spec_rotate_def case_prod_unfold Let_def f_def [symmetric] and_count rotate_mod rol_exprs [where f = f]
        rol_carry ov_defs flag_exprs del: funpow.simps drop_bit_xor)
qed

lemma ROL_EwR_spec: "acpu_of (ROL_EwR i s) = spec_rotate rol1 ov_left (shift_count ''BX_IA_ROL_Ew'' i (acpu_of s) mod 32) (r16 (dst i)) (w16 (dst i)) (acpu_of s)"
proof -
  define n where "n = shift_count ''BX_IA_ROL_Ew'' i (acpu_of s)"
  define f where "f = f_CF (aflags (acpu_of s))"
  consider "n mod 32 = 0" "n mod 16 = 0" | "n mod 32 \<noteq> 0" "n mod 16 = 0" | "0 < n mod 16" "n mod 32 \<noteq> 0"
    using mod_mod_cancel [of 16 32 n] by (cases "n mod 16 = 0"; cases "n mod 32 = 0") auto
  then show ?thesis
    unfolding ROL_EwR_def count_mask acpu_CL shift_count_def [symmetric] n_def [symmetric] Let_def
    by cases (simp_all add: spec_rotate_def case_prod_unfold Let_def f_def [symmetric] and_count rotate_mod rol_exprs [where f = f]
        rol_carry ov_defs flag_exprs del: funpow.simps drop_bit_xor)
qed

lemma ROL_EdR_spec: "acpu_of (ROL_EdR i s) = spec_rotate rol1 ov_left (shift_count ''BX_IA_ROL_Ed'' i (acpu_of s) mod 32) (r32 (dst i)) (w32 (dst i)) (acpu_of s)"
proof -
  define c where "c = shift_count ''BX_IA_ROL_Ed'' i (acpu_of s) mod 32"
  define f where "f = f_CF (aflags (acpu_of s))"
  consider "c = 0" | "0 < c" "c < 32" by (cases "c = 0") (simp_all add: c_def)
  then show ?thesis
    unfolding ROL_EdR_def count_mask acpu_CL shift_count_def [symmetric] c_def [symmetric] Let_def
    by cases (simp_all add: spec_rotate_def case_prod_unfold Let_def f_def [symmetric] rol_exprs [where f = f]
        rol_carry ov_defs flag_exprs del: funpow.simps drop_bit_xor)
qed

lemma ROL_EqR_spec: "acpu_of (ROL_EqR i s) = spec_rotate rol1 ov_left (shift_count ''BX_IA_ROL_Eq'' i (acpu_of s) mod 64) (r64 (dst i)) (w64 (dst i)) (acpu_of s)"
proof -
  define c where "c = shift_count ''BX_IA_ROL_Eq'' i (acpu_of s) mod 64"
  define f where "f = f_CF (aflags (acpu_of s))"
  consider "c = 0" | "0 < c" "c < 64" by (cases "c = 0") (simp_all add: c_def)
  then show ?thesis
    unfolding ROL_EqR_def count_mask acpu_CL shift_count_def [symmetric] c_def [symmetric] Let_def
    by cases (simp_all add: spec_rotate_def case_prod_unfold Let_def f_def [symmetric] rol_exprs [where f = f]
        rol_carry ov_defs flag_exprs del: funpow.simps drop_bit_xor)
qed

lemma ROR_EbR_spec: "acpu_of (ROR_EbR i s) = spec_rotate ror1 ov_right (shift_count ''BX_IA_ROR_Eb'' i (acpu_of s) mod 32) (r8 (dst i) (extend8bitL i)) (w8 (dst i) (extend8bitL i)) (acpu_of s)"
proof -
  define n where "n = shift_count ''BX_IA_ROR_Eb'' i (acpu_of s)"
  define f where "f = f_CF (aflags (acpu_of s))"
  consider "n mod 32 = 0" "n mod 8 = 0" | "n mod 32 \<noteq> 0" "n mod 8 = 0" | "0 < n mod 8" "n mod 32 \<noteq> 0"
    using mod_mod_cancel [of 8 32 n] by (cases "n mod 8 = 0"; cases "n mod 32 = 0") auto
  then show ?thesis
    unfolding ROR_EbR_def count_mask acpu_CL shift_count_def [symmetric] n_def [symmetric] Let_def
    by cases (simp_all add: spec_rotate_def case_prod_unfold Let_def f_def [symmetric] and_count rotate_mod ror_exprs [where f = f]
        ror_carry ov_defs flag_exprs del: funpow.simps drop_bit_xor)
qed

lemma ROR_EwR_spec: "acpu_of (ROR_EwR i s) = spec_rotate ror1 ov_right (shift_count ''BX_IA_ROR_Ew'' i (acpu_of s) mod 32) (r16 (dst i)) (w16 (dst i)) (acpu_of s)"
proof -
  define n where "n = shift_count ''BX_IA_ROR_Ew'' i (acpu_of s)"
  define f where "f = f_CF (aflags (acpu_of s))"
  consider "n mod 32 = 0" "n mod 16 = 0" | "n mod 32 \<noteq> 0" "n mod 16 = 0" | "0 < n mod 16" "n mod 32 \<noteq> 0"
    using mod_mod_cancel [of 16 32 n] by (cases "n mod 16 = 0"; cases "n mod 32 = 0") auto
  then show ?thesis
    unfolding ROR_EwR_def count_mask acpu_CL shift_count_def [symmetric] n_def [symmetric] Let_def
    by cases (simp_all add: spec_rotate_def case_prod_unfold Let_def f_def [symmetric] and_count rotate_mod ror_exprs [where f = f]
        ror_carry ov_defs flag_exprs del: funpow.simps drop_bit_xor)
qed

lemma ROR_EdR_spec: "acpu_of (ROR_EdR i s) = spec_rotate ror1 ov_right (shift_count ''BX_IA_ROR_Ed'' i (acpu_of s) mod 32) (r32 (dst i)) (w32 (dst i)) (acpu_of s)"
proof -
  define c where "c = shift_count ''BX_IA_ROR_Ed'' i (acpu_of s) mod 32"
  define f where "f = f_CF (aflags (acpu_of s))"
  consider "c = 0" | "0 < c" "c < 32" by (cases "c = 0") (simp_all add: c_def)
  then show ?thesis
    unfolding ROR_EdR_def count_mask acpu_CL shift_count_def [symmetric] c_def [symmetric] Let_def
    by cases (simp_all add: spec_rotate_def case_prod_unfold Let_def f_def [symmetric] ror_exprs [where f = f]
        ror_carry ov_defs flag_exprs del: funpow.simps drop_bit_xor)
qed

lemma ROR_EqR_spec: "acpu_of (ROR_EqR i s) = spec_rotate ror1 ov_right (shift_count ''BX_IA_ROR_Eq'' i (acpu_of s) mod 64) (r64 (dst i)) (w64 (dst i)) (acpu_of s)"
proof -
  define c where "c = shift_count ''BX_IA_ROR_Eq'' i (acpu_of s) mod 64"
  define f where "f = f_CF (aflags (acpu_of s))"
  consider "c = 0" | "0 < c" "c < 64" by (cases "c = 0") (simp_all add: c_def)
  then show ?thesis
    unfolding ROR_EqR_def count_mask acpu_CL shift_count_def [symmetric] c_def [symmetric] Let_def
    by cases (simp_all add: spec_rotate_def case_prod_unfold Let_def f_def [symmetric] ror_exprs [where f = f]
        ror_carry ov_defs flag_exprs del: funpow.simps drop_bit_xor)
qed

lemma one_step:
  "(h ^^ Suc 0) p = h p" "snd (rcl1 (x, f)) = bit x (LENGTH('n) - 1)" "snd (rcr1 (x, f)) = bit x 0"
  for h :: "'b \<Rightarrow> 'b" and x :: "'n::len word"
  by (simp_all add: rcl1_def rcr1_def)

lemma RCL_EbR_spec: "acpu_of (RCL_EbR i s) = spec_rotate rcl1 ov_left (shift_count ''BX_IA_RCL_Eb'' i (acpu_of s) mod 32 mod 9) (r8 (dst i) (extend8bitL i)) (w8 (dst i) (extend8bitL i)) (acpu_of s)"
proof -
  define c where "c = shift_count ''BX_IA_RCL_Eb'' i (acpu_of s) mod 32 mod 9"
  define f where "f = f_CF (aflags (acpu_of s))"
  have "c < 9" by (simp add: c_def)
  then consider "c = 0" | "c = 1" | "1 < c" "c < 9" by linarith
  then show ?thesis
    unfolding RCL_EbR_def count_mask acpu_CL shift_count_def [symmetric] c_def [symmetric] Let_def
    by cases (simp_all add: spec_rotate_def case_prod_unfold Let_def f_def [symmetric] rcl_exprs [where f = f]
        rcl_ones(1) [where f = f] rcl_steps(2) one_step ov_defs flag_exprs del: funpow.simps drop_bit_xor)
qed

lemma RCL_EwR_spec: "acpu_of (RCL_EwR i s) = spec_rotate rcl1 ov_left (shift_count ''BX_IA_RCL_Ew'' i (acpu_of s) mod 32 mod 17) (r16 (dst i)) (w16 (dst i)) (acpu_of s)"
proof -
  define c where "c = shift_count ''BX_IA_RCL_Ew'' i (acpu_of s) mod 32 mod 17"
  define f where "f = f_CF (aflags (acpu_of s))"
  have "c < 17" by (simp add: c_def)
  then consider "c = 0" | "c = 1" | "c = 16" | "1 < c" "c < 16" by linarith
  then show ?thesis
    unfolding RCL_EwR_def count_mask acpu_CL shift_count_def [symmetric] c_def [symmetric] Let_def
    by cases (simp_all add: spec_rotate_def case_prod_unfold Let_def f_def [symmetric] rcl_exprs [where f = f]
        rcl_ones(2) [where f = f] rcl_all [where 'n = 16 and 'w = 32, simplified, where f = f] rcl_steps(2) one_step ov_defs flag_exprs del: funpow.simps drop_bit_xor)
qed

lemma RCL_EdR_spec: "acpu_of (RCL_EdR i s) = spec_rotate rcl1 ov_left (shift_count ''BX_IA_RCL_Ed'' i (acpu_of s) mod 32) (r32 (dst i)) (w32 (dst i)) (acpu_of s)"
proof -
  define c where "c = shift_count ''BX_IA_RCL_Ed'' i (acpu_of s) mod 32"
  define f where "f = f_CF (aflags (acpu_of s))"
  have "c < 32" by (simp add: c_def)
  then consider "c = 0" | "c = 1" | "1 < c" "c < 32" by linarith
  then show ?thesis
    unfolding RCL_EdR_def count_mask acpu_CL shift_count_def [symmetric] c_def [symmetric] Let_def
    by cases (simp_all add: spec_rotate_def case_prod_unfold Let_def f_def [symmetric] rcl_exprs [where f = f]
        rcl_ones(3) [where f = f] rcl_steps(2) one_step ov_defs flag_exprs del: funpow.simps drop_bit_xor)
qed

lemma RCL_EqR_spec: "acpu_of (RCL_EqR i s) = spec_rotate rcl1 ov_left (shift_count ''BX_IA_RCL_Eq'' i (acpu_of s) mod 64) (r64 (dst i)) (w64 (dst i)) (acpu_of s)"
proof -
  define c where "c = shift_count ''BX_IA_RCL_Eq'' i (acpu_of s) mod 64"
  define f where "f = f_CF (aflags (acpu_of s))"
  have "c < 64" by (simp add: c_def)
  then consider "c = 0" | "c = 1" | "1 < c" "c < 64" by linarith
  then show ?thesis
    unfolding RCL_EqR_def count_mask acpu_CL shift_count_def [symmetric] c_def [symmetric] Let_def
    by cases (simp_all add: spec_rotate_def case_prod_unfold Let_def f_def [symmetric] rcl_exprs [where f = f]
        rcl_ones(4) [where f = f] rcl_steps(2) one_step ov_defs flag_exprs del: funpow.simps drop_bit_xor)
qed

lemma RCR_EbR_spec: "acpu_of (RCR_EbR i s) = spec_rotate rcr1 ov_right (shift_count ''BX_IA_RCR_Eb'' i (acpu_of s) mod 32 mod 9) (r8 (dst i) (extend8bitL i)) (w8 (dst i) (extend8bitL i)) (acpu_of s)"
proof -
  define c where "c = shift_count ''BX_IA_RCR_Eb'' i (acpu_of s) mod 32 mod 9"
  define f where "f = f_CF (aflags (acpu_of s))"
  have "c < 9" by (simp add: c_def)
  then consider "c = 0" | "0 < c" "c < 9" by linarith
  then show ?thesis
    unfolding RCR_EbR_def count_mask acpu_CL shift_count_def [symmetric] c_def [symmetric] Let_def
    by cases (simp_all add: spec_rotate_def case_prod_unfold Let_def f_def [symmetric] rcr_exprs [where f = f]
        rcr_one [where 'n = 8, simplified, where f = f] rcr_steps(2) one_step ov_defs flag_exprs del: funpow.simps drop_bit_xor)
qed

lemma RCR_EwR_spec: "acpu_of (RCR_EwR i s) = spec_rotate rcr1 ov_right (shift_count ''BX_IA_RCR_Ew'' i (acpu_of s) mod 32 mod 17) (r16 (dst i)) (w16 (dst i)) (acpu_of s)"
proof -
  define c where "c = shift_count ''BX_IA_RCR_Ew'' i (acpu_of s) mod 32 mod 17"
  define f where "f = f_CF (aflags (acpu_of s))"
  have "c < 17" by (simp add: c_def)
  then consider "c = 0" | "0 < c" "c < 17" by linarith
  then show ?thesis
    unfolding RCR_EwR_def count_mask acpu_CL shift_count_def [symmetric] c_def [symmetric] Let_def
    by cases (simp_all add: spec_rotate_def case_prod_unfold Let_def f_def [symmetric] rcr_exprs [where f = f]
        rcr_one [where 'n = 16, simplified, where f = f] rcr_steps(2) one_step ov_defs flag_exprs del: funpow.simps drop_bit_xor)
qed

lemma RCR_EdR_spec: "acpu_of (RCR_EdR i s) = spec_rotate rcr1 ov_right (shift_count ''BX_IA_RCR_Ed'' i (acpu_of s) mod 32) (r32 (dst i)) (w32 (dst i)) (acpu_of s)"
proof -
  define c where "c = shift_count ''BX_IA_RCR_Ed'' i (acpu_of s) mod 32"
  define f where "f = f_CF (aflags (acpu_of s))"
  have "c < 32" by (simp add: c_def)
  then consider "c = 0" | "c = 1" | "1 < c" "c < 32" by linarith
  then show ?thesis
    unfolding RCR_EdR_def count_mask acpu_CL shift_count_def [symmetric] c_def [symmetric] Let_def
    by cases (simp_all add: spec_rotate_def case_prod_unfold Let_def f_def [symmetric] rcr_exprs [where f = f]
        rcr_one [where 'n = 32, simplified, where f = f] rcr_steps(2) one_step ov_defs flag_exprs del: funpow.simps drop_bit_xor)
qed

lemma RCR_EqR_spec: "acpu_of (RCR_EqR i s) = spec_rotate rcr1 ov_right (shift_count ''BX_IA_RCR_Eq'' i (acpu_of s) mod 64) (r64 (dst i)) (w64 (dst i)) (acpu_of s)"
proof -
  define c where "c = shift_count ''BX_IA_RCR_Eq'' i (acpu_of s) mod 64"
  define f where "f = f_CF (aflags (acpu_of s))"
  have "c < 64" by (simp add: c_def)
  then consider "c = 0" | "c = 1" | "1 < c" "c < 64" by linarith
  then show ?thesis
    unfolding RCR_EqR_def count_mask acpu_CL shift_count_def [symmetric] c_def [symmetric] Let_def
    by cases (simp_all add: spec_rotate_def case_prod_unfold Let_def f_def [symmetric] rcr_exprs [where f = f]
        rcr_one [where 'n = 64, simplified, where f = f] rcr_steps(2) one_step ov_defs flag_exprs del: funpow.simps drop_bit_xor)
qed

lemmas shld_exprs = shld_expr [where 'n = 32, simplified] shld_expr [where 'n = 64, simplified]
lemmas shrd_exprs = shrd_expr [where 'n = 32, simplified] shrd_expr [where 'n = 64, simplified]

lemma shld_wides:
  fixes x y :: Bit16u
  shows "0 < c \<Longrightarrow> c \<le> 16 \<Longrightarrow>
      ucast (drop_bit 16 (push_bit c (push_bit 16 (ucast x) OR ucast y :: Bit32u))) = fst (fst ((shld1 ^^ c) ((x, y), f)))"
    "16 < c \<Longrightarrow> c < 32 \<Longrightarrow>
      ucast (drop_bit 16 (push_bit c (push_bit 16 (ucast x) OR ucast y) OR push_bit (c - 16) (ucast x :: Bit32u))) = fst (fst ((shld1 ^^ c) ((x, y), f)))"
  using shld_expr_wide [where 'n = 16 and 'w = 32 and x = x and y = y and c = c and f = f]
  by (auto simp del: drop_bit_or push_bit_or push_bit_push_bit)

lemma shld_wide_carry:
  fixes x y :: Bit16u
  shows "0 < c \<Longrightarrow> c \<le> 16 \<Longrightarrow> bit (push_bit 16 (ucast x) OR ucast y :: Bit32u) (32 - c) = bit x (16 - c)"
    "16 < c \<Longrightarrow> c < 32 \<Longrightarrow> bit (push_bit 16 (ucast x) OR ucast y :: Bit32u) (32 - c) = bit y (32 - c)"
  by (auto simp: bit_or_iff bit_push_bit_iff bit_ucast_iff simp del: push_bit_or dest: bit_imp_le_length)

lemma shrd_wides:
  fixes x y :: Bit16u
  shows "0 < c \<Longrightarrow> c \<le> 16 \<Longrightarrow>
      ucast (drop_bit c (push_bit 16 (ucast y) OR ucast x :: Bit32u)) = fst (fst ((shrd1 ^^ c) ((x, y), f)))"
    "16 < c \<Longrightarrow> c < 32 \<Longrightarrow>
      ucast (drop_bit c (push_bit 16 (ucast y) OR ucast x) OR push_bit (32 - c) (ucast x :: Bit32u)) = fst (fst ((shrd1 ^^ c) ((x, y), f)))"
  using shrd_expr_wide [where 'n = 16 and 'w = 32 and x = x and y = y and c = c and f = f]
  by (auto simp del: drop_bit_or push_bit_or push_bit_push_bit)

lemma SHLD_EwGwR_spec: "acpu_of (SHLD_EwGwR i s) = spec_double shld1 ov_left (shift_count ''BX_IA_SHLD_EwGw'' i (acpu_of s) mod 32) (r16 (dst i)) (r16 (src i)) (w16 (dst i)) (acpu_of s)"
proof -
  define c where "c = shift_count ''BX_IA_SHLD_EwGw'' i (acpu_of s) mod 32"
  define f where "f = f_CF (aflags (acpu_of s))"
  consider "c = 0" | "0 < c" "c \<le> 16" | "16 < c" "c < 32" by (cases "c = 0"; cases "c \<le> 16") (simp_all add: c_def)
  then show ?thesis
    unfolding SHLD_EwGwR_def count_mask acpu_CL shift_count_def [symmetric] c_def [symmetric] Let_def
    by cases (simp_all add: spec_double_def case_prod_unfold Let_def f_def [symmetric] shld_wides [where f = f]
        shld_wide_carry shld_low bits2_def ov_defs flag_exprs del: funpow.simps drop_bit_xor drop_bit_or push_bit_or push_bit_push_bit drop_bit_drop_bit)
qed

lemma SHLD_EdGdR_spec: "acpu_of (SHLD_EdGdR i s) = spec_double shld1 ov_left (shift_count ''BX_IA_SHLD_EdGd'' i (acpu_of s) mod 32) (r32 (dst i)) (r32 (src i)) (w32 (dst i)) (acpu_of s)"
proof -
  define c where "c = shift_count ''BX_IA_SHLD_EdGd'' i (acpu_of s) mod 32"
  define f where "f = f_CF (aflags (acpu_of s))"
  consider "c = 0" | "0 < c" "c < 32" by (cases "c = 0") (simp_all add: c_def)
  then show ?thesis
    unfolding SHLD_EdGdR_def count_mask acpu_CL shift_count_def [symmetric] c_def [symmetric] Let_def
    by cases (simp_all add: spec_double_def case_prod_unfold Let_def f_def [symmetric] shld_exprs [where f = f]
        shld_low bits2_def ov_defs flag_exprs del: funpow.simps drop_bit_xor)
qed

lemma SHLD_EqGqR_spec: "acpu_of (SHLD_EqGqR i s) = spec_double shld1 ov_left (shift_count ''BX_IA_SHLD_EqGq'' i (acpu_of s) mod 64) (r64 (dst i)) (r64 (src i)) (w64 (dst i)) (acpu_of s)"
proof -
  define c where "c = shift_count ''BX_IA_SHLD_EqGq'' i (acpu_of s) mod 64"
  define f where "f = f_CF (aflags (acpu_of s))"
  consider "c = 0" | "0 < c" "c < 64" by (cases "c = 0") (simp_all add: c_def)
  then show ?thesis
    unfolding SHLD_EqGqR_def count_mask acpu_CL shift_count_def [symmetric] c_def [symmetric] Let_def
    by cases (simp_all add: spec_double_def case_prod_unfold Let_def f_def [symmetric] shld_exprs [where f = f]
        shld_low bits2_def ov_defs flag_exprs del: funpow.simps drop_bit_xor)
qed

lemma SHRD_EwGwR_spec: "acpu_of (SHRD_EwGwR i s) = spec_double shrd1 ov_right (shift_count ''BX_IA_SHRD_EwGw'' i (acpu_of s) mod 32) (r16 (dst i)) (r16 (src i)) (w16 (dst i)) (acpu_of s)"
proof -
  define c where "c = shift_count ''BX_IA_SHRD_EwGw'' i (acpu_of s) mod 32"
  define f where "f = f_CF (aflags (acpu_of s))"
  consider "c = 0" | "0 < c" "c \<le> 16" | "16 < c" "c < 32" by (cases "c = 0"; cases "c \<le> 16") (simp_all add: c_def)
  then show ?thesis
    unfolding SHRD_EwGwR_def count_mask acpu_CL shift_count_def [symmetric] c_def [symmetric] Let_def
    by cases (simp_all add: spec_double_def case_prod_unfold Let_def f_def [symmetric] shrd_wides [where f = f]
        shrd_low bits2_def ov_defs flag_exprs del: funpow.simps drop_bit_xor drop_bit_or push_bit_or push_bit_push_bit drop_bit_drop_bit)
qed

lemma SHRD_EdGdR_spec: "acpu_of (SHRD_EdGdR i s) = spec_double shrd1 ov_right (shift_count ''BX_IA_SHRD_EdGd'' i (acpu_of s) mod 32) (r32 (dst i)) (r32 (src i)) (w32 (dst i)) (acpu_of s)"
proof -
  define c where "c = shift_count ''BX_IA_SHRD_EdGd'' i (acpu_of s) mod 32"
  define f where "f = f_CF (aflags (acpu_of s))"
  consider "c = 0" | "0 < c" "c < 32" by (cases "c = 0") (simp_all add: c_def)
  then show ?thesis
    unfolding SHRD_EdGdR_def count_mask acpu_CL shift_count_def [symmetric] c_def [symmetric] Let_def
    by cases (simp_all add: spec_double_def case_prod_unfold Let_def f_def [symmetric] shrd_exprs [where f = f]
        shrd_low bits2_def ov_defs flag_exprs del: funpow.simps drop_bit_xor)
qed

lemma SHRD_EqGqR_spec: "acpu_of (SHRD_EqGqR i s) = spec_double shrd1 ov_right (shift_count ''BX_IA_SHRD_EqGq'' i (acpu_of s) mod 64) (r64 (dst i)) (r64 (src i)) (w64 (dst i)) (acpu_of s)"
proof -
  define c where "c = shift_count ''BX_IA_SHRD_EqGq'' i (acpu_of s) mod 64"
  define f where "f = f_CF (aflags (acpu_of s))"
  consider "c = 0" | "0 < c" "c < 64" by (cases "c = 0") (simp_all add: c_def)
  then show ?thesis
    unfolding SHRD_EqGqR_def count_mask acpu_CL shift_count_def [symmetric] c_def [symmetric] Let_def
    by cases (simp_all add: spec_double_def case_prod_unfold Let_def f_def [symmetric] shrd_exprs [where f = f]
        shrd_low bits2_def ov_defs flag_exprs del: funpow.simps drop_bit_xor)
qed

section \<open>The barrel shifter is the one-bit step, repeated\<close>

text \<open>
  C30: SHL, SHR, SAR and the double shifts SHLD, SHRD, which compute the result in one expression, do what
  repeating the one-bit step of the operation as often as the masked count says would do: the register
  has the result (or is rewritten with itself when the count is 0, which clears the upper half of a
  64-bit register after a 32-bit shift), CF is the bit shifted out last, also for counts beyond the
  operand size, OF compares as the operation demands, the other flags come from the result, and a count
  of 0 leaves every flag.
\<close>

theorem shifts_refine:
  "acpu_of (SHL_EbR i s) = spec_shift shl1 ov_left (shift_count ''BX_IA_SHL_Eb'' i (acpu_of s) mod 32) (r8 (dst i) (extend8bitL i)) (w8 (dst i) (extend8bitL i)) (acpu_of s)
   \<and> acpu_of (SHL_EwR i s) = spec_shift shl1 ov_left (shift_count ''BX_IA_SHL_Ew'' i (acpu_of s) mod 32) (r16 (dst i)) (w16 (dst i)) (acpu_of s)
   \<and> acpu_of (SHL_EdR i s) = spec_shift shl1 ov_left (shift_count ''BX_IA_SHL_Ed'' i (acpu_of s) mod 32) (r32 (dst i)) (w32 (dst i)) (acpu_of s)
   \<and> acpu_of (SHL_EqR i s) = spec_shift shl1 ov_left (shift_count ''BX_IA_SHL_Eq'' i (acpu_of s) mod 64) (r64 (dst i)) (w64 (dst i)) (acpu_of s)
   \<and> acpu_of (SHR_EbR i s) = spec_shift shr1 ov_shr (shift_count ''BX_IA_SHR_Eb'' i (acpu_of s) mod 32) (r8 (dst i) (extend8bitL i)) (w8 (dst i) (extend8bitL i)) (acpu_of s)
   \<and> acpu_of (SHR_EwR i s) = spec_shift shr1 ov_shr (shift_count ''BX_IA_SHR_Ew'' i (acpu_of s) mod 32) (r16 (dst i)) (w16 (dst i)) (acpu_of s)
   \<and> acpu_of (SHR_EdR i s) = spec_shift shr1 ov_shr (shift_count ''BX_IA_SHR_Ed'' i (acpu_of s) mod 32) (r32 (dst i)) (w32 (dst i)) (acpu_of s)
   \<and> acpu_of (SHR_EqR i s) = spec_shift shr1 ov_shr (shift_count ''BX_IA_SHR_Eq'' i (acpu_of s) mod 64) (r64 (dst i)) (w64 (dst i)) (acpu_of s)
   \<and> acpu_of (SAR_EbR i s) = spec_shift sar1 ov_none (shift_count ''BX_IA_SAR_Eb'' i (acpu_of s) mod 32) (r8 (dst i) (extend8bitL i)) (w8 (dst i) (extend8bitL i)) (acpu_of s)
   \<and> acpu_of (SAR_EwR i s) = spec_shift sar1 ov_none (shift_count ''BX_IA_SAR_Ew'' i (acpu_of s) mod 32) (r16 (dst i)) (w16 (dst i)) (acpu_of s)
   \<and> acpu_of (SAR_EdR i s) = spec_shift sar1 ov_none (shift_count ''BX_IA_SAR_Ed'' i (acpu_of s) mod 32) (r32 (dst i)) (w32 (dst i)) (acpu_of s)
   \<and> acpu_of (SAR_EqR i s) = spec_shift sar1 ov_none (shift_count ''BX_IA_SAR_Eq'' i (acpu_of s) mod 64) (r64 (dst i)) (w64 (dst i)) (acpu_of s)
   \<and> acpu_of (SHLD_EwGwR i s) = spec_double shld1 ov_left (shift_count ''BX_IA_SHLD_EwGw'' i (acpu_of s) mod 32) (r16 (dst i)) (r16 (src i)) (w16 (dst i)) (acpu_of s)
   \<and> acpu_of (SHLD_EdGdR i s) = spec_double shld1 ov_left (shift_count ''BX_IA_SHLD_EdGd'' i (acpu_of s) mod 32) (r32 (dst i)) (r32 (src i)) (w32 (dst i)) (acpu_of s)
   \<and> acpu_of (SHLD_EqGqR i s) = spec_double shld1 ov_left (shift_count ''BX_IA_SHLD_EqGq'' i (acpu_of s) mod 64) (r64 (dst i)) (r64 (src i)) (w64 (dst i)) (acpu_of s)
   \<and> acpu_of (SHRD_EwGwR i s) = spec_double shrd1 ov_right (shift_count ''BX_IA_SHRD_EwGw'' i (acpu_of s) mod 32) (r16 (dst i)) (r16 (src i)) (w16 (dst i)) (acpu_of s)
   \<and> acpu_of (SHRD_EdGdR i s) = spec_double shrd1 ov_right (shift_count ''BX_IA_SHRD_EdGd'' i (acpu_of s) mod 32) (r32 (dst i)) (r32 (src i)) (w32 (dst i)) (acpu_of s)
   \<and> acpu_of (SHRD_EqGqR i s) = spec_double shrd1 ov_right (shift_count ''BX_IA_SHRD_EqGq'' i (acpu_of s) mod 64) (r64 (dst i)) (r64 (src i)) (w64 (dst i)) (acpu_of s)"
  by (intro conjI; rule SHL_EbR_spec SHL_EwR_spec SHL_EdR_spec SHL_EqR_spec SHR_EbR_spec SHR_EwR_spec SHR_EdR_spec SHR_EqR_spec SAR_EbR_spec SAR_EwR_spec SAR_EdR_spec SAR_EqR_spec SHLD_EwGwR_spec SHLD_EdGdR_spec SHLD_EqGqR_spec SHRD_EwGwR_spec SHRD_EdGdR_spec SHRD_EqGqR_spec)

text \<open>
  C31: ROL, ROR and the rotations through carry RCL, RCR do what repeating their one-bit step as often as the
  masked count says would do (RCL and RCR of 8 and 16 bits reduce the count modulo 9 and 17 first): CF is
  the bit that moved last, OF compares the top bits, SF, ZF, AF and PF keep their values, and a count of 0
  leaves every flag; when the reduced count is 0 because the rotation is by whole turns, CF is still the
  low or the top bit of the operand.
\<close>

theorem rotates_refine:
  "acpu_of (ROL_EbR i s) = spec_rotate rol1 ov_left (shift_count ''BX_IA_ROL_Eb'' i (acpu_of s) mod 32) (r8 (dst i) (extend8bitL i)) (w8 (dst i) (extend8bitL i)) (acpu_of s)
   \<and> acpu_of (ROL_EwR i s) = spec_rotate rol1 ov_left (shift_count ''BX_IA_ROL_Ew'' i (acpu_of s) mod 32) (r16 (dst i)) (w16 (dst i)) (acpu_of s)
   \<and> acpu_of (ROL_EdR i s) = spec_rotate rol1 ov_left (shift_count ''BX_IA_ROL_Ed'' i (acpu_of s) mod 32) (r32 (dst i)) (w32 (dst i)) (acpu_of s)
   \<and> acpu_of (ROL_EqR i s) = spec_rotate rol1 ov_left (shift_count ''BX_IA_ROL_Eq'' i (acpu_of s) mod 64) (r64 (dst i)) (w64 (dst i)) (acpu_of s)
   \<and> acpu_of (ROR_EbR i s) = spec_rotate ror1 ov_right (shift_count ''BX_IA_ROR_Eb'' i (acpu_of s) mod 32) (r8 (dst i) (extend8bitL i)) (w8 (dst i) (extend8bitL i)) (acpu_of s)
   \<and> acpu_of (ROR_EwR i s) = spec_rotate ror1 ov_right (shift_count ''BX_IA_ROR_Ew'' i (acpu_of s) mod 32) (r16 (dst i)) (w16 (dst i)) (acpu_of s)
   \<and> acpu_of (ROR_EdR i s) = spec_rotate ror1 ov_right (shift_count ''BX_IA_ROR_Ed'' i (acpu_of s) mod 32) (r32 (dst i)) (w32 (dst i)) (acpu_of s)
   \<and> acpu_of (ROR_EqR i s) = spec_rotate ror1 ov_right (shift_count ''BX_IA_ROR_Eq'' i (acpu_of s) mod 64) (r64 (dst i)) (w64 (dst i)) (acpu_of s)
   \<and> acpu_of (RCL_EbR i s) = spec_rotate rcl1 ov_left (shift_count ''BX_IA_RCL_Eb'' i (acpu_of s) mod 32 mod 9) (r8 (dst i) (extend8bitL i)) (w8 (dst i) (extend8bitL i)) (acpu_of s)
   \<and> acpu_of (RCL_EwR i s) = spec_rotate rcl1 ov_left (shift_count ''BX_IA_RCL_Ew'' i (acpu_of s) mod 32 mod 17) (r16 (dst i)) (w16 (dst i)) (acpu_of s)
   \<and> acpu_of (RCL_EdR i s) = spec_rotate rcl1 ov_left (shift_count ''BX_IA_RCL_Ed'' i (acpu_of s) mod 32) (r32 (dst i)) (w32 (dst i)) (acpu_of s)
   \<and> acpu_of (RCL_EqR i s) = spec_rotate rcl1 ov_left (shift_count ''BX_IA_RCL_Eq'' i (acpu_of s) mod 64) (r64 (dst i)) (w64 (dst i)) (acpu_of s)
   \<and> acpu_of (RCR_EbR i s) = spec_rotate rcr1 ov_right (shift_count ''BX_IA_RCR_Eb'' i (acpu_of s) mod 32 mod 9) (r8 (dst i) (extend8bitL i)) (w8 (dst i) (extend8bitL i)) (acpu_of s)
   \<and> acpu_of (RCR_EwR i s) = spec_rotate rcr1 ov_right (shift_count ''BX_IA_RCR_Ew'' i (acpu_of s) mod 32 mod 17) (r16 (dst i)) (w16 (dst i)) (acpu_of s)
   \<and> acpu_of (RCR_EdR i s) = spec_rotate rcr1 ov_right (shift_count ''BX_IA_RCR_Ed'' i (acpu_of s) mod 32) (r32 (dst i)) (w32 (dst i)) (acpu_of s)
   \<and> acpu_of (RCR_EqR i s) = spec_rotate rcr1 ov_right (shift_count ''BX_IA_RCR_Eq'' i (acpu_of s) mod 64) (r64 (dst i)) (w64 (dst i)) (acpu_of s)"
  by (intro conjI; rule ROL_EbR_spec ROL_EwR_spec ROL_EdR_spec ROL_EqR_spec ROR_EbR_spec ROR_EwR_spec ROR_EdR_spec ROR_EqR_spec RCL_EbR_spec RCL_EwR_spec RCL_EdR_spec RCL_EqR_spec RCR_EbR_spec RCR_EwR_spec RCR_EdR_spec RCR_EqR_spec)

end
