(* ===== verification/Bcd.thy ===== *)
theory Bcd
  imports Arith
begin

text \<open>
  The decimal adjust instructions of \<^verbatim>\<open>cpu/bcd.cc\<close>, with the divide error of AAM as an
  exception. The lemmas relate them to decimal arithmetic: the adjustment after ADC and SBB of
  packed decimal bytes gives the decimal sum and difference, and AAD undoes AAM.
\<close>

unbundle bit_operations_syntax

section \<open>Handlers\<close>

definition AAA :: handler where [bcd_defs]:
  "AAA i s =
     (let adjust = (AL s AND 0x0f > 9 \<or> get_AF (oszapc s) \<noteq> 0);
          s = (if adjust then set_AX (AX s + 0x106) s else s);
          s = set_AL (AL s AND 0x0f) s;
          e = SET_FLAGS_OSZAPC_LOGIC_8 (ucast (AL s)) (oszapc s);
          e = set_CF adjust e;
          e = set_AF adjust e
      in s\<lparr>oszapc := e\<rparr>)"

definition AAS :: handler where [bcd_defs]:
  "AAS i s =
     (let adjust = (AL s AND 0x0F > 0x09 \<or> get_AF (oszapc s) \<noteq> 0);
          s = (if adjust then set_AX (AX s - 0x106) s else s);
          s = set_AL (AL s AND 0x0f) s;
          e = SET_FLAGS_OSZAPC_LOGIC_8 (ucast (AL s)) (oszapc s);
          e = set_CF adjust e;
          e = set_AF adjust e
      in s\<lparr>oszapc := e\<rparr>)"

definition AAM :: fault_handler where [bcd_defs]:
  "AAM i s =
     (let imm8 = Ib i
      in if imm8 = 0 then Inl BX_DE_EXCEPTION
         else
           let al = AL s;
               s = set_AH (al div imm8) s;
               s = set_AL (al mod imm8) s
           in Inr (s\<lparr>oszapc := SET_FLAGS_OSZAPC_LOGIC_8 (ucast (AL s)) (oszapc s)\<rparr>))"

definition AAD :: handler where [bcd_defs]:
  "AAD i s =
     (let tmp = ucast (AH s) :: Bit16u;
          tmp = tmp * ucast (Ib i);
          tmp = tmp + ucast (AL s);
          s = set_AX (tmp AND 0xff) s
      in s\<lparr>oszapc := SET_FLAGS_OSZAPC_LOGIC_8 (ucast (AL s)) (oszapc s)\<rparr>)"

definition DAA :: handler where [bcd_defs]:
  "DAA i s =
     (let tmpAL = AL s;
          (s, tmpCF, tmpAF) =
            (if tmpAL AND 0x0F > 0x09 \<or> get_AF (oszapc s) \<noteq> 0
             then (set_AL (AL s + 0x06) s, AL s > 0xF9 \<or> get_CF (oszapc s) \<noteq> 0, True)
             else (s, False, False));
          (s, tmpCF) =
            (if tmpAL > 0x99 \<or> get_CF (oszapc s) \<noteq> 0 then (set_AL (AL s + 0x60) s, True) else (s, tmpCF));
          e = SET_FLAGS_OSZAPC_LOGIC_8 (ucast (AL s)) (oszapc s);
          e = set_CF tmpCF e;
          e = set_AF tmpAF e
      in s\<lparr>oszapc := e\<rparr>)"

definition DAS :: handler where [bcd_defs]:
  "DAS i s =
     (let tmpAL = AL s;
          (s, tmpCF, tmpAF) =
            (if tmpAL AND 0x0F > 0x09 \<or> get_AF (oszapc s) \<noteq> 0
             then (set_AL (AL s - 0x06) s, AL s < 0x06 \<or> get_CF (oszapc s) \<noteq> 0, True)
             else (s, False, False));
          (s, tmpCF) =
            (if tmpAL > 0x99 \<or> get_CF (oszapc s) \<noteq> 0 then (set_AL (AL s - 0x60) s, True) else (s, tmpCF));
          e = SET_FLAGS_OSZAPC_LOGIC_8 (ucast (AL s)) (oszapc s);
          e = set_CF tmpCF e;
          e = set_AF tmpAF e
      in s\<lparr>oszapc := e\<rparr>)"

section \<open>What the adjustments compute\<close>

text \<open>The value of AL and of the carry after the adjustment, from AL, AF and CF before it.\<close>

definition daa :: "Bit8u \<Rightarrow> bool \<Rightarrow> bool \<Rightarrow> Bit8u \<times> bool" where
  "daa x af cf =
     (let low = (x AND 0x0F > 9 \<or> af); high = (x > 0x99 \<or> cf);
          y = (if low then x + 6 else x)
      in (if high then y + 0x60 else y, high \<or> low \<and> (x > 0xF9 \<or> cf)))"

definition das :: "Bit8u \<Rightarrow> bool \<Rightarrow> bool \<Rightarrow> Bit8u \<times> bool" where
  "das x af cf =
     (let low = (x AND 0x0F > 9 \<or> af); high = (x > 0x99 \<or> cf);
          y = (if low then x - 6 else x)
      in (if high then y - 0x60 else y, high \<or> low \<and> (x < 6 \<or> cf)))"

lemma get_flags_nonzero: "get_AF e \<noteq> 0 \<longleftrightarrow> f_AF (lf_flags e)" "get_CF e \<noteq> 0 \<longleftrightarrow> f_CF (lf_flags e)"
proof -
  have "get_AF e = ucast (auxbits e) AND push_bit 3 1" "get_CF e = ucast (auxbits e) AND push_bit 31 1"
    by (rule bit_word_eqI; simp add: get_AF_def get_CF_def lf_defs bit_simps)+
  then show "get_AF e \<noteq> 0 \<longleftrightarrow> f_AF (lf_flags e)" "get_CF e \<noteq> 0 \<longleftrightarrow> f_CF (lf_flags e)"
    by (simp_all only: and_mask_eq_0_iff lf_flags_bits) (simp_all add: bit_ucast_iff)
qed

lemma AL_set_AL [simp]: "reg_rl (gen_reg (set_AL v s) 0) = v" "oszapc (set_AL v s) = oszapc s"
  by (simp_all add: set_AL_def)

lemma DAA_daa:
  "AL (DAA i s) = fst (daa (AL s) (f_AF (lf_flags (oszapc s))) (f_CF (lf_flags (oszapc s))))"
  "f_CF (lf_flags (oszapc (DAA i s))) = snd (daa (AL s) (f_AF (lf_flags (oszapc s))) (f_CF (lf_flags (oszapc s))))"
  by (simp_all add: DAA_def daa_def AL_def Let_def get_flags_nonzero lf_flags_set_CF lf_flags_set_AF
      del: acpu_reads lf_flags_acpu)

lemma DAS_das:
  "AL (DAS i s) = fst (das (AL s) (f_AF (lf_flags (oszapc s))) (f_CF (lf_flags (oszapc s))))"
  "f_CF (lf_flags (oszapc (DAS i s))) = snd (das (AL s) (f_AF (lf_flags (oszapc s))) (f_CF (lf_flags (oszapc s))))"
  by (simp_all add: DAS_def das_def AL_def Let_def get_flags_nonzero lf_flags_set_CF lf_flags_set_AF
      del: acpu_reads lf_flags_acpu)

section \<open>Decimal arithmetic\<close>

definition bcd_value :: "Bit8u \<Rightarrow> nat" where
  "bcd_value x = 10 * (unat x div 16) + unat x mod 16"

definition packed_bcd :: "Bit8u \<Rightarrow> bool" where
  "packed_bcd x \<longleftrightarrow> unat x div 16 \<le> 9 \<and> unat x mod 16 \<le> 9"

lemma bcd_of_digits:
  assumes "h \<le> 9" "l \<le> 9"
  shows "packed_bcd (of_nat (16 * h + l))" "bcd_value (of_nat (16 * h + l)) = 10 * h + l"
proof -
  have "unat (of_nat (16 * h + l) :: Bit8u) = 16 * h + l"
    using assms by (subst unat_of_nat) (simp del: of_nat_add of_nat_mult)
  then show "packed_bcd (of_nat (16 * h + l))" "bcd_value (of_nat (16 * h + l)) = 10 * h + l"
    using assms by (simp_all add: packed_bcd_def bcd_value_def)
qed

lemma low_digit: "(of_int v :: Bit8u) AND 0x0F > 9 \<longleftrightarrow> v mod 16 > 9"
proof -
  have "(of_int v :: Bit8u) AND 0x0F = of_int (v mod 16)"
    using take_bit_eq_mask [of 4 v] by (simp add: bit_eq_iff bit_simps take_bit_eq_mod mask_numeral)
  then show ?thesis by (simp add: word_less_def uint_word_of_int)
qed

text \<open>
  The sums of the high and low digits (with the carry into the low one) that can occur, and
  the decimal number their adjustment has to give.
\<close>

lemma daa_digits:
  assumes "hi \<le> 18" "lo \<le> 19"
  defines "v \<equiv> 16 * int hi + int lo"
  shows "(let (y, c) = daa (of_int v) (16 \<le> lo) (256 \<le> v)
          in packed_bcd y \<and> bcd_value y + 100 * of_bool c = 10 * hi + lo)"
proof -
  define h where "h = hi + of_bool (9 < lo) - 10 * of_bool (153 < v)"
  define l where "l = lo - 10 * of_bool (9 < lo)"
  have x: "(of_int v :: Bit8u) > 0x99 \<longleftrightarrow> v mod 256 > 153" "(of_int v :: Bit8u) > 0xF9 \<longleftrightarrow> v mod 256 > 249"
    by (simp_all add: word_less_def uint_word_of_int)
  have low: "v mod 16 > 9 \<or> 16 \<le> lo \<longleftrightarrow> 9 < lo"
    using assms(2) by (cases "lo < 16") (auto simp: v_def)
  have high: "v mod 256 > 153 \<or> 256 \<le> v \<longleftrightarrow> 153 < v"
    by (cases "v < 256") (auto simp: v_def)
  have carry: "153 < v \<or> 9 < lo \<and> (249 < v mod 256 \<or> 256 \<le> v) \<longleftrightarrow> 153 < v"
    by (cases "v < 256") (auto simp: v_def)
  have hl: "h \<le> 9" "l \<le> 9" "10 * h + l + 100 * of_bool (153 < v) = 10 * hi + lo"
    using assms(1,2) by (auto simp: h_def l_def v_def)
  have "daa (of_int v) (16 \<le> lo) (256 \<le> v) = (of_int (v + 6 * of_bool (9 < lo) + 96 * of_bool (153 < v)), 153 < v)"
    using carry unfolding daa_def Let_def low_digit x low high by auto
  moreover have "(of_int (v + 6 * of_bool (9 < lo) + 96 * of_bool (153 < v)) :: Bit8u) = of_nat (16 * h + l)"
  proof -
    have "v + 6 * of_bool (9 < lo) + 96 * of_bool (153 < v) = int (16 * h + l) + 256 * of_bool (153 < v)"
      using assms(1,2) by (auto simp: h_def l_def v_def)
    then show ?thesis by (simp only: of_int_add of_int_of_nat_eq) simp
  qed
  ultimately show ?thesis
    using hl bcd_of_digits [of h l] by simp
qed

lemma das_digits:
  assumes "-9 \<le> hi" "hi \<le> 9" "-10 \<le> lo" "lo \<le> 9"
  defines "v \<equiv> 16 * hi + lo"
  shows "(let (y, c) = das (of_int v) (lo < 0) (v < 0)
          in packed_bcd y \<and> int (bcd_value y) = 10 * hi + lo + 100 * of_bool c)"
proof -
  define h where "h = nat (hi - of_bool (lo < 0) + 10 * of_bool (v < 0))"
  define l where "l = nat (lo + 10 * of_bool (lo < 0))"
  have x: "(of_int v :: Bit8u) > 0x99 \<longleftrightarrow> v mod 256 > 153" "(of_int v :: Bit8u) < 6 \<longleftrightarrow> v mod 256 < 6"
    by (simp_all add: word_less_def uint_word_of_int)
  have low: "v mod 16 > 9 \<or> lo < 0 \<longleftrightarrow> lo < 0"
    using assms(4) by (cases "lo < 0") (auto simp: v_def)
  have v: "v < 0 \<or> v mod 256 = v"
    using assms(2,4) by (cases "v < 0") (simp_all add: v_def)
  then have high: "v mod 256 > 153 \<or> v < 0 \<longleftrightarrow> v < 0"
    using assms(2,4) by (auto simp: v_def)
  have carry: "v < 0 \<or> lo < 0 \<and> (v mod 256 < 6 \<or> v < 0) \<longleftrightarrow> v < 0"
  proof -
    have "6 \<le> v" if "0 \<le> v" "lo < 0"
      using that assms(3) unfolding v_def by presburger
    then show ?thesis using v by fastforce
  qed
  have hl: "h \<le> 9" "l \<le> 9" "int h = hi - of_bool (lo < 0) + 10 * of_bool (v < 0)" "int l = lo + 10 * of_bool (lo < 0)"
    using assms(1-4) by (auto simp: h_def l_def v_def)
  have "das (of_int v) (lo < 0) (v < 0) = (of_int (v - 6 * of_bool (lo < 0) - 96 * of_bool (v < 0)), v < 0)"
    using carry unfolding das_def Let_def low_digit x low high by auto
  moreover have "(of_int (v - 6 * of_bool (lo < 0) - 96 * of_bool (v < 0)) :: Bit8u) = of_nat (16 * h + l)"
  proof -
    have "v - 6 * of_bool (lo < 0) - 96 * of_bool (v < 0) = int (16 * h + l) - 256 * of_bool (v < 0)"
      using hl(3,4) by (simp add: v_def)
    then show ?thesis by (simp only: of_int_diff of_int_of_nat_eq) simp
  qed
  ultimately show ?thesis
    using hl bcd_of_digits [of h l] by simp
qed

lemma bcd_digits:
  assumes "packed_bcd x"
  obtains h l where "h \<le> 9" "l \<le> 9" "unat x = 16 * h + l" "bcd_value x = 10 * h + l" "x = of_nat (16 * h + l)" "uint x mod 16 = int l"
proof -
  have x: "unat x = 16 * (unat x div 16) + unat x mod 16" by simp
  moreover from this have "x = of_nat (16 * (unat x div 16) + unat x mod 16)" by simp
  moreover have "uint x mod 16 = int (unat x mod 16)" by (simp add: of_nat_mod)
  moreover have "unat x div 16 \<le> 9" "unat x mod 16 \<le> 9"
    using assms by (simp_all add: packed_bcd_def)
  ultimately show thesis
    by (intro that) (assumption, assumption, assumption, simp only: bcd_value_def, assumption+)
qed

text \<open>ADC of packed decimal bytes gives DAA a state covered by \<open>daa_digits\<close>, SBB gives DAS one covered by \<open>das_digits\<close>.\<close>

lemma adc_daa:
  assumes "packed_bcd a" "packed_bcd b"
  shows "(let f = add_oszapc a b c; (y, c') = daa (a + b + of_bool c) (f_AF f) (f_CF f)
          in packed_bcd y \<and> bcd_value y + 100 * of_bool c' = bcd_value a + bcd_value b + of_bool c)"
proof -
  obtain ah al where a: "ah \<le> 9" "al \<le> 9" "unat a = 16 * ah + al" "bcd_value a = 10 * ah + al" "a = of_nat (16 * ah + al)" "uint a mod 16 = int al"
    using bcd_digits [OF assms(1)] .
  obtain bh bl where b: "bh \<le> 9" "bl \<le> 9" "unat b = 16 * bh + bl" "bcd_value b = 10 * bh + bl" "b = of_nat (16 * bh + bl)" "uint b mod 16 = int bl"
    using bcd_digits [OF assms(2)] .
  define hi lo where "hi = ah + bh" and "lo = al + bl + of_bool c"
  note digits = daa_digits [of hi lo]
  have "a + b + of_bool c = of_int (16 * int hi + int lo)"
    using a(5) b(5) by (cases c) (simp_all add: algebra_simps hi_def lo_def)
  moreover have "f_AF (add_oszapc a b c) \<longleftrightarrow> 16 \<le> lo"
    using a(6) b(6) by (cases c) (auto simp: add_oszapc_def Let_def lo_def)
  moreover have "f_CF (add_oszapc a b c) \<longleftrightarrow> 256 \<le> 16 * int hi + int lo"
    using a(3) b(3) by (cases c) (auto simp: add_oszapc_def Let_def uint_nat hi_def lo_def)
  moreover have "10 * hi + lo = bcd_value a + bcd_value b + of_bool c"
    using a(4) b(4) by (simp add: hi_def lo_def)
  moreover have "hi \<le> 18" "lo \<le> 19"
    using a(1,2) b(1,2) by (auto simp: hi_def lo_def)
  ultimately show ?thesis
    using digits by (simp add: Let_def)
qed

lemma sbb_das:
  assumes "packed_bcd a" "packed_bcd b"
  shows "(let f = sub_oszapc a b c; (y, c') = das (a - (b + of_bool c)) (f_AF f) (f_CF f)
          in packed_bcd y \<and> int (bcd_value y) = int (bcd_value a) - (int (bcd_value b) + of_bool c) + 100 * of_bool c')"
proof -
  obtain ah al where a: "ah \<le> 9" "al \<le> 9" "unat a = 16 * ah + al" "bcd_value a = 10 * ah + al" "a = of_nat (16 * ah + al)" "uint a mod 16 = int al"
    using bcd_digits [OF assms(1)] .
  obtain bh bl where b: "bh \<le> 9" "bl \<le> 9" "unat b = 16 * bh + bl" "bcd_value b = 10 * bh + bl" "b = of_nat (16 * bh + bl)" "uint b mod 16 = int bl"
    using bcd_digits [OF assms(2)] .
  define hi lo where "hi = int ah - int bh" and "lo = int al - int bl - of_bool c"
  note digits = das_digits [of hi lo]
  have "a - (b + of_bool c) = of_int (16 * hi + lo)"
    unfolding a(5) b(5) hi_def lo_def by (cases c) (simp_all add: algebra_simps)
  moreover have "f_AF (sub_oszapc a b c) \<longleftrightarrow> lo < 0"
    using a(6) b(6) by (cases c) (auto simp: sub_oszapc_def Let_def lo_def)
  moreover have "f_CF (sub_oszapc a b c) \<longleftrightarrow> 16 * hi + lo < 0"
    using a(3) b(3) by (cases c) (auto simp: sub_oszapc_def Let_def uint_nat hi_def lo_def)
  moreover have "10 * hi + lo = int (bcd_value a) - (int (bcd_value b) + of_bool c)"
    using a(4) b(4) by (simp add: hi_def lo_def)
  moreover have "-9 \<le> hi" "hi \<le> 9" "-10 \<le> lo" "lo \<le> 9"
    using a(1,2) b(1,2) by (auto simp: hi_def lo_def)
  ultimately show ?thesis
    using digits by (simp add: Let_def case_prod_unfold)
qed

section \<open>The accumulator as two digits\<close>

lemma unat_AL_AH: "unat (AL s) = unat (AX s) mod 256" "unat (AH s) = unat (AX s) div 256"
proof -
  have "AL s = ucast (AX s)" "AH s = ucast (drop_bit 8 (AX s))"
    unfolding cpu_reg_defs reg_defs by (rule bit_word_eqI; auto simp: bit_simps)+
  moreover have "unat (AX s) div 256 < 256"
    by (rule less_mult_imp_div_less, rule order_less_le_trans, rule unsigned_less) simp
  ultimately show "unat (AL s) = unat (AX s) mod 256" "unat (AH s) = unat (AX s) div 256"
    by (simp_all add: unsigned_ucast_eq unat_drop_bit_eq take_bit_eq_mod drop_bit_eq_div unat_div del: acpu_reads)
qed

lemma unat_AX: "unat (AX s) = 256 * unat (AH s) + unat (AL s)"
  unfolding unat_AL_AH by simp

lemma AX_writes:
  "AL (set_AL v s) = v" "AH (set_AL v s) = AH s" "AX (set_AX w s) = w" "AH (oszapc_update f s) = AH s" "AL (oszapc_update f s) = AL s"
  "AL (set_AH v s) = AL s" "AH (set_AH v s) = v"
  by (simp_all add: cpu_reg_defs del: acpu_reads)

lemma and_0F: "unat (x AND 0x0F) = unat x mod 16" for x :: Bit8u
proof -
  have "x AND 0x0F = x mod 16"
    using take_bit_eq_mask [of 4 x] by (simp add: take_bit_eq_mod mask_numeral)
  then show ?thesis by (simp add: unat_mod)
qed

lemma unat_less: "unat x < 256" for x :: Bit8u
  by (rule order_less_le_trans, rule unsigned_less) simp

lemma mod_256_16: "(256 * h + n) mod 256 mod 16 = n mod 16" for n :: nat
  by (simp add: mod_mod_cancel)

lemma unat_AX_add: "unat (AX s + 0x106) = (unat (AX s) + 262) mod 65536"
  by (simp add: unat_word_ariths del: acpu_reads)

lemma AAA_digits:
  assumes "unat (AL s) \<le> 18" "unat (AH s) < 255" "f_AF (lf_flags (oszapc s)) \<longleftrightarrow> 16 \<le> unat (AL s)"
  shows "unat (AL (AAA i s)) \<le> 9 \<and> 10 * unat (AH (AAA i s)) + unat (AL (AAA i s)) = 10 * unat (AH s) + unat (AL s)
    \<and> (f_CF (lf_flags (oszapc (AAA i s))) \<longleftrightarrow> 9 < unat (AL s))"
proof -
  have adjust: "(AL s AND 0x0F > 9 \<or> get_AF (oszapc s) \<noteq> 0) \<longleftrightarrow> 9 < unat (AL s)"
    unfolding word_less_nat_alt and_0F get_flags_nonzero assms(3)
    using assms(1) by (cases "unat (AL s) < 16") (auto simp del: acpu_reads)
  show ?thesis
  proof (cases "9 < unat (AL s)")
    case True
    define l where "l = unat (AL s) - 10"
    have l: "unat (AL s) = l + 10" "l \<le> 9"
      using True assms(1) by (simp_all add: l_def)
    moreover from l have "(256 * unat (AH s) + unat (AL s) + 262) div 256 = unat (AH s) + 1"
      "(256 * unat (AH s) + unat (AL s) + 262) mod 256 mod 16 = l"
      using mod_256_16 [of "unat (AH s) + 1" "l + 16"] by (simp_all add: algebra_simps del: acpu_reads)
    ultimately show ?thesis
      using True assms(1,2) unfolding AAA_def Let_def adjust
      by (simp add: AX_writes unat_AL_AH [of "set_AX _ _"] and_0F unat_AX_add unat_AX lf_flags_set_CF lf_flags_set_AF
          del: acpu_reads lf_flags_acpu)
  next
    case False
    then show ?thesis
      using assms(1,2) unfolding AAA_def Let_def adjust
      by (simp add: AX_writes and_0F lf_flags_set_CF lf_flags_set_AF del: acpu_reads lf_flags_acpu)
  qed
qed

lemma unat_AX_sub: "unat (AX s - 0x106) = (unat (AX s) + 65274) mod 65536"
proof -
  have "AX s - 0x106 = AX s + 65274" by simp
  then show ?thesis by (simp only: unat_word_ariths) simp
qed

lemma AAS_digits:
  assumes "a \<le> 9" "b \<le> 9" "0 < unat (AH s)" "f_AF (lf_flags (oszapc s)) \<longleftrightarrow> a < b"
    and AL: "unat (AL s) = (if a < b then 256 + a - b else a - b)"
  shows "unat (AL (AAS i s)) \<le> 9 \<and> 10 * unat (AH (AAS i s)) + unat (AL (AAS i s)) + b = 10 * unat (AH s) + a
    \<and> (f_CF (lf_flags (oszapc (AAS i s))) \<longleftrightarrow> a < b)"
proof -
  have adjust: "(AL s AND 0x0F > 9 \<or> get_AF (oszapc s) \<noteq> 0) \<longleftrightarrow> a < b"
    unfolding word_less_nat_alt and_0F get_flags_nonzero assms(4) AL
    using assms(1) by auto
  show ?thesis
  proof (cases "a < b")
    case True
    define l where "l = 10 + a - b"
    obtain h where h: "unat (AH s) = Suc h" using assms(3) by (cases "unat (AH s)") auto
    have l: "l \<le> 9" "l + b = 10 + a" "unat (AL s) = 246 + l"
      using True assms(2) AL by (simp_all add: l_def)
    moreover from l(1) have "(240 + l) mod 16 = l" by presburger
    moreover have "unat (AX s - 0x106) = 256 * h + (240 + l)"
    proof -
      have "unat (AX s) + 65274 = 65536 + (256 * h + (240 + l))" "256 * h + (240 + l) < 65536"
        using l(1) h unat_less [of "AH s"] unfolding unat_AX l(3) by simp_all
      then show ?thesis unfolding unat_AX_sub by (simp only: mod_add_self1 mod_less)
    qed
    ultimately show ?thesis
      using True h unfolding AAS_def Let_def adjust
      by (simp add: AX_writes unat_AL_AH [of "set_AX _ _"] and_0F lf_flags_set_CF lf_flags_set_AF mod_256_16
          del: acpu_reads lf_flags_acpu)
  next
    case False
    then show ?thesis
      using assms(1) AL unfolding AAS_def Let_def adjust
      by (simp add: AX_writes and_0F lf_flags_set_CF lf_flags_set_AF del: acpu_reads lf_flags_acpu)
  qed
qed

section \<open>Properties\<close>

lemma ADC_SBB_8:
  "acpu_of (ADC_GbEbR i s) = spec_adc (r8 (dst i) (extend8bitL i)) (w8 (dst i) (extend8bitL i)) (r8 (src i) (extend8bitL i)) (acpu_of s)"
  "acpu_of (ADC_EbIbR i s) = spec_adc (r8 (dst i) (extend8bitL i)) (w8 (dst i) (extend8bitL i)) (\<lambda>_. Ib i) (acpu_of s)"
  "acpu_of (SBB_GbEbR i s) = spec_sbb (r8 (dst i) (extend8bitL i)) (w8 (dst i) (extend8bitL i)) (r8 (src i) (extend8bitL i)) (acpu_of s)"
  "acpu_of (SBB_EbIbR i s) = spec_sbb (r8 (dst i) (extend8bitL i)) (w8 (dst i) (extend8bitL i)) (\<lambda>_. Ib i) (acpu_of s)"
  by (simp_all add: alu_defs spec_alu_defs Let_def set_flags_macros sized_flag_simps)

lemma AL_acpu: "r8 0 x (acpu_of s) = AL s"
  by (simp add: operand_defs acpu_of_def AL_def del: acpu_reads lf_flags_acpu)

lemma adc_result:
  assumes "acpu_of t = spec_adc (r8 0 x) (w8 0 x) rs (acpu_of s)"
  shows "AL t = AL s + rs (acpu_of s) + of_bool (f_CF (lf_flags (oszapc s)))"
    "lf_flags (oszapc t) = add_oszapc (AL s) (rs (acpu_of s)) (f_CF (lf_flags (oszapc s)))"
proof -
  have "r8 0 x (acpu_of t) = AL t" "aflags (acpu_of t) = lf_flags (oszapc t)" "r8 0 x (acpu_of s) = AL s" "aflags (acpu_of s) = lf_flags (oszapc s)"
    by (simp_all only: AL_acpu lf_flags_acpu)
  moreover have "r8 0 x (acpu_of t) = r8 0 x (spec_adc (r8 0 x) (w8 0 x) rs (acpu_of s))"
    "aflags (acpu_of t) = aflags (spec_adc (r8 0 x) (w8 0 x) rs (acpu_of s))"
    by (simp_all only: assms)
  ultimately show "AL t = AL s + rs (acpu_of s) + of_bool (f_CF (lf_flags (oszapc s)))"
    "lf_flags (oszapc t) = add_oszapc (AL s) (rs (acpu_of s)) (f_CF (lf_flags (oszapc s)))"
    by (simp_all add: spec_adc_def Let_def del: acpu_reads lf_flags_acpu)
qed

lemma sbb_result:
  assumes "acpu_of t = spec_sbb (r8 0 x) (w8 0 x) rs (acpu_of s)"
  shows "AL t = AL s - (rs (acpu_of s) + of_bool (f_CF (lf_flags (oszapc s))))"
    "lf_flags (oszapc t) = sub_oszapc (AL s) (rs (acpu_of s)) (f_CF (lf_flags (oszapc s)))"
proof -
  have "r8 0 x (acpu_of t) = AL t" "aflags (acpu_of t) = lf_flags (oszapc t)" "r8 0 x (acpu_of s) = AL s" "aflags (acpu_of s) = lf_flags (oszapc s)"
    by (simp_all only: AL_acpu lf_flags_acpu)
  moreover have "r8 0 x (acpu_of t) = r8 0 x (spec_sbb (r8 0 x) (w8 0 x) rs (acpu_of s))"
    "aflags (acpu_of t) = aflags (spec_sbb (r8 0 x) (w8 0 x) rs (acpu_of s))"
    by (simp_all only: assms)
  ultimately show "AL t = AL s - (rs (acpu_of s) + of_bool (f_CF (lf_flags (oszapc s))))"
    "lf_flags (oszapc t) = sub_oszapc (AL s) (rs (acpu_of s)) (f_CF (lf_flags (oszapc s)))"
    by (simp_all add: spec_sbb_def Let_def del: acpu_reads lf_flags_acpu)
qed

text \<open>
  C38: DAA after an ADC of packed decimal bytes into AL (from a register or an immediate)
  leaves a packed decimal byte in AL which, with the carry as the hundreds, is the decimal sum
  of the operands and the carry in.
\<close>

theorem ADC_DAA_decimal:
  assumes "dst i = 0" "packed_bcd (AL s)"
    and "op = ADC_GbEbR \<and> y = BX_READ_8BIT_REGx (src i) (extend8bitL i) s \<or> op = ADC_EbIbR \<and> y = Ib i" "packed_bcd y"
  shows "packed_bcd (AL (DAA j (op i s)))
    \<and> bcd_value (AL (DAA j (op i s))) + 100 * of_bool (f_CF (lf_flags (oszapc (DAA j (op i s)))))
       = bcd_value (AL s) + bcd_value y + of_bool (f_CF (lf_flags (oszapc s)))"
proof -
  obtain rs where rs: "acpu_of (op i s) = spec_adc (r8 0 (extend8bitL i)) (w8 0 (extend8bitL i)) rs (acpu_of s)" "rs (acpu_of s) = y"
    using assms(1,3) ADC_SBB_8(1,2) [of i s] by auto
  show ?thesis
    using adc_daa [OF assms(2,4), of "f_CF (lf_flags (oszapc s))"]
    unfolding DAA_daa adc_result [OF rs(1)] rs(2) Let_def by (simp add: case_prod_unfold del: acpu_reads)
qed

theorem ADC_DAA_decimal_witness:
  "let i = \<lparr>dst = 0, src1 = 1, src2 = 0, extend8bitL = False, Id = 0x35, getIaOpcode = ''''\<rparr>;
       s = \<lparr>gen_reg = (\<lambda>_. 0x48), oszapc = \<lparr>result = 0, auxbits = 0x80000000\<rparr>, eflags = 2\<rparr>
   in packed_bcd (AL (DAA i (ADC_EbIbR i s)))
    \<and> bcd_value (AL (DAA i (ADC_EbIbR i s))) + 100 * of_bool (f_CF (lf_flags (oszapc (DAA i (ADC_EbIbR i s))))) = 48 + 35 + 1"
proof -
  let ?i = "\<lparr>dst = 0, src1 = 1, src2 = 0, extend8bitL = False, Id = 0x35, getIaOpcode = ''''\<rparr>"
  let ?s = "\<lparr>gen_reg = (\<lambda>_. 0x48), oszapc = \<lparr>result = 0, auxbits = 0x80000000\<rparr>, eflags = 2\<rparr>"
  have "packed_bcd (AL ?s)" "packed_bcd (Ib ?i)" "bcd_value (AL ?s) = 48" "bcd_value (Ib ?i) = 35"
    "f_CF (lf_flags (oszapc ?s))"
    by code_simp+
  then show ?thesis
    using ADC_DAA_decimal [of ?i ?s ADC_EbIbR "Ib ?i" ?i]
    by (simp del: acpu_reads lf_flags_acpu)
qed

text \<open>
  DAS after an SBB of packed decimal bytes from AL leaves a packed decimal byte in AL: the
  decimal difference of the operands and the borrow in, plus 100 exactly when CF is set.
\<close>

lemma SBB_DAS_decimal:
  assumes "dst i = 0" "packed_bcd (AL s)"
    and "op = SBB_GbEbR \<and> y = BX_READ_8BIT_REGx (src i) (extend8bitL i) s \<or> op = SBB_EbIbR \<and> y = Ib i" "packed_bcd y"
  shows "packed_bcd (AL (DAS j (op i s)))
    \<and> int (bcd_value (AL (DAS j (op i s)))) = int (bcd_value (AL s)) - (int (bcd_value y) + of_bool (f_CF (lf_flags (oszapc s))))
         + 100 * of_bool (f_CF (lf_flags (oszapc (DAS j (op i s)))))"
proof -
  obtain rs where rs: "acpu_of (op i s) = spec_sbb (r8 0 (extend8bitL i)) (w8 0 (extend8bitL i)) rs (acpu_of s)" "rs (acpu_of s) = y"
    using assms(1,3) ADC_SBB_8(3,4) [of i s] by auto
  show ?thesis
    using sbb_das [OF assms(2,4), of "f_CF (lf_flags (oszapc s))"]
    unfolding DAS_das sbb_result [OF rs(1)] rs(2) Let_def by (simp add: case_prod_unfold del: acpu_reads)
qed

lemma AAM_digits:
  assumes "Ib i \<noteq> 0"
  obtains t where "AAM i s = Inr t" "AH t = AL s div Ib i" "AL t = AL s mod Ib i"
proof (rule that)
  let ?t = "set_AL (AL s mod Ib i) (set_AH (AL s div Ib i) s)"
  show "AAM i s = Inr (?t\<lparr>oszapc := SET_FLAGS_OSZAPC_LOGIC_8 (ucast (AL ?t)) (oszapc ?t)\<rparr>)"
    using assms by (simp add: AAM_def Let_def del: acpu_reads)
qed (simp_all add: AX_writes del: acpu_reads)

lemma AAD_digits:
  "unat (AL (AAD i s)) = (unat (AH s) * unat (Ib i) + unat (AL s)) mod 256" "AH (AAD i s) = 0"
proof -
  let ?w = "(ucast (AH s) * ucast (Ib i) + ucast (AL s)) AND 0xff :: Bit16u"
  have w: "unat ?w = (unat (AH s) * unat (Ib i) + unat (AL s)) mod 256"
  proof -
    have "?w = (ucast (AH s) * ucast (Ib i) + ucast (AL s)) mod 256"
      using take_bit_eq_mask [of 8 "ucast (AH s) * ucast (Ib i) + ucast (AL s) :: Bit16u"] by (simp add: take_bit_eq_mod mask_numeral)
    then show ?thesis
      by (simp add: unat_mod unat_word_ariths unsigned_ucast_eq take_bit_eq_mod mod_mod_cancel mod_simps del: acpu_reads)
  qed
  have t: "AX (AAD i s) = ?w"
    by (simp add: AAD_def Let_def AX_def set_AX_def del: acpu_reads)
  show "unat (AL (AAD i s)) = (unat (AH s) * unat (Ib i) + unat (AL s)) mod 256"
    unfolding unat_AL_AH(1) [of "AAD i s"] t w by simp
  have "unat (AH (AAD i s)) = 0"
    unfolding unat_AL_AH(2) [of "AAD i s"] t w by simp
  then show "AH (AAD i s) = 0" by (simp add: unsigned_eq_0_iff)
qed

text \<open>
  C37: AAM raises a divide error exactly when its immediate base is 0; otherwise it splits AL into
  the quotient AH and the remainder AL of the base, and AAD with the same base puts AL back
  together and clears AH.
\<close>

theorem AAM_AAD:
  "case AAM i s of
     Inl e \<Rightarrow> Ib i = 0 \<and> e = BX_DE_EXCEPTION
   | Inr t \<Rightarrow> Ib i \<noteq> 0 \<and> unat (AL s) = unat (AH t) * unat (Ib i) + unat (AL t) \<and> unat (AL t) < unat (Ib i)
              \<and> AL (AAD i t) = AL s \<and> AH (AAD i t) = 0"
proof (cases "Ib i = 0")
  case True
  then show ?thesis by (simp add: AAM_def)
next
  case False
  then obtain t where t: "AAM i s = Inr t" "AH t = AL s div Ib i" "AL t = AL s mod Ib i" by (rule AAM_digits)
  have "unat (AH t) * unat (Ib i) + unat (AL t) = unat (AL s)"
    by (simp add: t(2,3) unat_div unat_mod del: acpu_reads)
  moreover have "unat (AL t) < unat (Ib i)"
    using False by (simp add: t(3) unat_mod unat_gt_0 del: acpu_reads)
  moreover have "AL (AAD i t) = AL s"
    using AAD_digits(1) [of i t] calculation(1) unat_less [of "AL s"] by (simp add: word_unat_eq_iff del: acpu_reads)
  ultimately show ?thesis
    using t(1) False AAD_digits(2) [of i t] by (simp del: acpu_reads)
qed

lemma ADD_SUB_8:
  "acpu_of (ADD_GbEbR i s) = spec_add (r8 (dst i) (extend8bitL i)) (w8 (dst i) (extend8bitL i)) (r8 (src i) (extend8bitL i)) (acpu_of s)"
  "acpu_of (SUB_GbEbR i s) = spec_sub (r8 (dst i) (extend8bitL i)) (w8 (dst i) (extend8bitL i)) (r8 (src i) (extend8bitL i)) (acpu_of s)"
  by (simp_all add: alu_defs spec_alu_defs Let_def set_flags_macros sized_flag_simps)

lemma AH_w8: "reg_rh (areg (w8 0 x v a) 0) = reg_rh (areg a 0)" "AH t = reg_rh (areg (acpu_of t) 0)"
  by (simp_all add: w8_def acpu_of_def AH_def del: lf_flags_acpu)

lemma ADD_SUB_AL:
  assumes "dst i = 0"
  shows "AL (ADD_GbEbR i s) = AL s + BX_READ_8BIT_REGx (src i) (extend8bitL i) s" "AH (ADD_GbEbR i s) = AH s"
    "lf_flags (oszapc (ADD_GbEbR i s)) = add_oszapc (AL s) (BX_READ_8BIT_REGx (src i) (extend8bitL i) s) False"
    "AL (SUB_GbEbR i s) = AL s - BX_READ_8BIT_REGx (src i) (extend8bitL i) s" "AH (SUB_GbEbR i s) = AH s"
    "lf_flags (oszapc (SUB_GbEbR i s)) = sub_oszapc (AL s) (BX_READ_8BIT_REGx (src i) (extend8bitL i) s) False"
proof -
  have AL: "AL t = r8 0 (extend8bitL i) (acpu_of t)" for t by (simp add: AL_acpu del: acpu_reads)
  note facts = AL AH_w8(2) lf_flags_acpu acpu_reads(1) ADD_SUB_8 assms spec_add_def spec_sub_def
  show "AL (ADD_GbEbR i s) = AL s + BX_READ_8BIT_REGx (src i) (extend8bitL i) s"
    "lf_flags (oszapc (ADD_GbEbR i s)) = add_oszapc (AL s) (BX_READ_8BIT_REGx (src i) (extend8bitL i) s) False"
    "AL (SUB_GbEbR i s) = AL s - BX_READ_8BIT_REGx (src i) (extend8bitL i) s"
    "lf_flags (oszapc (SUB_GbEbR i s)) = sub_oszapc (AL s) (BX_READ_8BIT_REGx (src i) (extend8bitL i) s) False"
    "AH (ADD_GbEbR i s) = AH s" "AH (SUB_GbEbR i s) = AH s"
    unfolding facts by (simp_all add: AH_w8(1))
qed

lemma unat_add_small: "unat a \<le> 9 \<Longrightarrow> unat b \<le> 9 \<Longrightarrow> unat (a + b) = unat a + unat b" for a b :: Bit8u
  by (simp add: unat_word_ariths)

lemma unat_sub_small:
  "unat a \<le> 9 \<Longrightarrow> unat b \<le> 9 \<Longrightarrow> unat (a - b) = (if unat a < unat b then 256 + unat a - unat b else unat a - unat b)" for a b :: Bit8u
  by (subst unat_sub_if') (auto simp: add.commute [of "256::nat" "unat a"])

text \<open>
  AAA after ADD and AAS after SUB of unpacked decimal digits in AL carry into and borrow from the
  digit in AH: AL stays a decimal digit, AH:AL is the exact decimal sum or difference, and CF tells
  whether a carry or borrow happened.
\<close>

lemma AAA_AAS_unpacked:
  fixes i :: bxInstruction_c and s :: bx_cpu
  defines "y \<equiv> BX_READ_8BIT_REGx (src i) (extend8bitL i) s"
  assumes "dst i = 0" "unat (AL s) \<le> 9" "unat y \<le> 9" "0 < unat (AH s)" "unat (AH s) < 255"
  shows "(let t = AAA j (ADD_GbEbR i s) in
       unat (AL t) \<le> 9 \<and> 10 * unat (AH t) + unat (AL t) = 10 * unat (AH s) + unat (AL s) + unat y
       \<and> f_CF (lf_flags (oszapc t)) = (9 < unat (AL s) + unat y))
    \<and> (let t = AAS j (SUB_GbEbR i s) in
       unat (AL t) \<le> 9 \<and> 10 * unat (AH t) + unat (AL t) + unat y = 10 * unat (AH s) + unat (AL s)
       \<and> f_CF (lf_flags (oszapc t)) = (unat (AL s) < unat y))"
proof -
  note add = ADD_SUB_AL(1-3) [OF assms(2), of s, folded y_def] and sub = ADD_SUB_AL(4-6) [OF assms(2), of s, folded y_def]
  have "f_AF (add_oszapc (AL s) y False) \<longleftrightarrow> 16 \<le> unat (AL s + y)"
    using assms(3,4) by (simp add: add_oszapc_def Let_def unat_add_small uint_nat del: acpu_reads of_nat_unat) linarith
  moreover have "f_AF (sub_oszapc (AL s) y False) \<longleftrightarrow> unat (AL s) < unat y"
    using assms(3,4) by (simp add: sub_oszapc_def Let_def uint_nat del: acpu_reads of_nat_unat)
  ultimately show ?thesis
    using AAA_digits [of "ADD_GbEbR i s" j] AAS_digits [of "unat (AL s)" "unat y" "SUB_GbEbR i s" j] assms(3-)
    unfolding add sub Let_def by (simp add: unat_add_small unat_sub_small del: acpu_reads lf_flags_acpu)
qed

end
