(* ===== verification/Wide_Int.thy ===== *)
theory Wide_Int
  imports Bochs_Prelude "HOL-Library.Signed_Division"
begin

text \<open>
  The 128-bit arithmetic of \<^verbatim>\<open>cpu/wide_int.cc\<close>, which 64-bit multiplication and division rest on:
  schoolbook multiplication on 32-bit digits and shift-and-subtract division. The lemmas show that
  they compute the exact product, quotient and remainder, also where the shifted divisor of
  \<open>long_div\<close> loses its top bit.
\<close>

unbundle bit_operations_syntax

section \<open>Definitions\<close>

record Bit128u =
  lo :: Bit64u
  hi :: Bit64u

definition partial_add :: "Bit32u \<Rightarrow> Bit32u \<Rightarrow> Bit32u \<times> Bit32u" where
  "partial_add a b = (let t = a; a = a + b in (a, of_bool (a < t)))"

text \<open>The digits are an array of four 32-bit numbers; \<open>k\<close> is the digit the carry goes to.\<close>

function propagate :: "nat \<Rightarrow> Bit32u \<Rightarrow> Bit32u list \<Rightarrow> Bit32u list" where
  "propagate k c result =
     (if k < 4 \<and> c \<noteq> 0
      then let (s, c) = partial_add (result ! k) c in propagate (k + 1) c (result[k := s])
      else result)"
  by pat_completeness auto
termination by (relation "measure (\<lambda>(k, _, _). 4 - k)") auto

declare propagate.simps [simp del]

definition long_mul_digits :: "Bit32u \<Rightarrow> Bit32u \<Rightarrow> nat \<Rightarrow> Bit32u list \<Rightarrow> Bit32u list" where
  "long_mul_digits a b k result =
     (let nn = ucast a * ucast b :: Bit64u;
          (s, c) = partial_add (result ! k) (ucast (nn AND 0xffffffff));
          result = result[k := s];
          (s, c) = partial_add (result ! (k + 1)) (ucast (drop_bit 32 nn) + c);
          result = result[k + 1 := s]
      in propagate (k + 2) c result)"

definition long_mul :: "Bit64u \<Rightarrow> Bit64u \<Rightarrow> Bit128u" where
  "long_mul op1 op2 =
     (let op_1 = [ucast (op1 AND 0xffffffff), ucast (drop_bit 32 op1)] :: Bit32u list;
          op_2 = [ucast (op2 AND 0xffffffff), ucast (drop_bit 32 op2)] :: Bit32u list;
          result = fold (\<lambda>i. fold (\<lambda>j. long_mul_digits (op_1 ! i) (op_2 ! j) (i + j)) [0..<2]) [0..<2] [0, 0, 0, 0]
      in \<lparr>lo = ucast (result ! 0) + push_bit 32 (ucast (result ! 1)), hi = ucast (result ! 2) + push_bit 32 (ucast (result ! 3))\<rparr>)"

definition long_neg :: "Bit128u \<Rightarrow> Bit128u" where
  "long_neg n =
     (let t = lo n;
          n = n\<lparr>lo := - lo n\<rparr>;
          n = (if t - 1 > t then n\<lparr>hi := hi n - 1\<rparr> else n)
      in n\<lparr>hi := NOT (hi n)\<rparr>)"

text \<open>Signed operands are read through \<open>sint\<close>.\<close>

definition long_imul :: "Bit64u \<Rightarrow> Bit64u \<Rightarrow> Bit128u" where
  "long_imul op1 op2 =
     (let s1 = (sint op1 < 0); op1 = (if s1 then - op1 else op1);
          s2 = (sint op2 < 0); op2 = (if s2 then - op2 else op2);
          product = long_mul op1 op2
      in if s1 \<noteq> s2 then long_neg product else product)"

definition long_shl :: "Bit128u \<Rightarrow> Bit128u" where
  "long_shl a = (let c = drop_bit 63 (lo a) in \<lparr>lo = push_bit 1 (lo a), hi = push_bit 1 (hi a) OR c\<rparr>)"

definition long_shr :: "Bit128u \<Rightarrow> Bit128u" where
  "long_shr a = (let c = push_bit 63 (hi a) in \<lparr>lo = drop_bit 1 (lo a) OR c, hi = drop_bit 1 (hi a)\<rparr>)"

text \<open>\<open>long_sub\<close> returns the borrow with the difference.\<close>

definition long_sub :: "Bit128u \<Rightarrow> Bit128u \<Rightarrow> bool \<times> Bit128u" where
  "long_sub a b =
     (let t = lo a;
          a = a\<lparr>lo := lo a - lo b\<rparr>;
          c = (lo a > t);
          t = hi a;
          a = a\<lparr>hi := hi a - (hi b + of_bool c)\<rparr>
      in (hi a > t, a))"

definition long_le :: "Bit128u \<Rightarrow> Bit128u \<Rightarrow> bool" where
  "long_le a b = (if hi a = hi b then lo a \<le> lo b else hi a \<le> hi b)"

function div_scale :: "Bit128u \<Rightarrow> Bit128u \<Rightarrow> nat \<Rightarrow> Bit128u \<times> nat" where
  "div_scale d acc n = (if long_le d acc \<and> n < 128 then div_scale (long_shl d) acc (n + 1) else (d, n))"
  by pat_completeness auto
termination by (relation "measure (\<lambda>(_, _, n). 128 - n)") auto

declare div_scale.simps [simp del]

fun div_steps :: "nat \<Rightarrow> Bit128u \<Rightarrow> Bit128u \<Rightarrow> Bit128u \<Rightarrow> Bit128u \<times> Bit128u" where
  "div_steps 0 d acc q = (q, acc)"
| "div_steps (Suc n) d acc q =
     (let d = long_shr d;
          q = long_shl q;
          temp = acc;
          (c, acc) = long_sub acc d
      in if c then div_steps n d temp q else div_steps n d acc (q\<lparr>lo := lo q + 1\<rparr>))"

definition long_div :: "Bit128u \<Rightarrow> Bit64u \<Rightarrow> Bit128u \<times> Bit64u" where
  "long_div dividend divisor =
     (let (d, n) = div_scale \<lparr>lo = divisor, hi = 0\<rparr> dividend 0;
          (q, acc) = div_steps n d dividend \<lparr>lo = 0, hi = 0\<rparr>
      in (q, lo acc))"

definition long_idiv :: "Bit128u \<Rightarrow> Bit64u \<Rightarrow> Bit128u \<times> Bit64u" where
  "long_idiv dividend divisor =
     (let temp = dividend;
          s1 = (sint (hi temp) < 0); temp = (if s1 then long_neg temp else temp);
          s2 = (sint divisor < 0); divisor = (if s2 then - divisor else divisor);
          (quotient, remainder) = long_div temp divisor;
          quotient = (if s1 \<noteq> s2 then long_neg quotient else quotient)
      in (quotient, if s1 then - remainder else remainder))"

section \<open>Values\<close>

definition val128 :: "Bit128u \<Rightarrow> int" where
  "val128 a = uint (hi a) * 2 ^ 64 + uint (lo a)"

definition sval128 :: "Bit128u \<Rightarrow> int" where
  "sval128 a = sint (hi a) * 2 ^ 64 + uint (lo a)"

lemma val128_bounds: "0 \<le> val128 a" "val128 a < 2 ^ 128"
  using uint_lt2p [of "hi a"] uint_lt2p [of "lo a"] by (simp_all add: val128_def)

lemma val128_inject: "val128 a = val128 b \<longleftrightarrow> a = b"
proof
  assume eq: "val128 a = val128 b"
  have "lo a = lo b"
    using arg_cong [OF eq, of "\<lambda>x. x mod 2 ^ 64"] uint_lt2p [of "lo a"] uint_lt2p [of "lo b"]
    by (simp add: val128_def word_uint_eq_iff)
  then show "a = b" using eq by (simp add: val128_def word_uint_eq_iff)
qed simp

lemma digit_less: "x * m + l < y * m + l'" if "x + 1 \<le> y" "l < m" "0 \<le> l'" "0 \<le> m" for x y m l l' :: int
proof -
  have "(x + 1) * m \<le> y * m" using that by (intro mult_right_mono) auto
  then show ?thesis using that by (simp add: algebra_simps)
qed

lemma long_le_iff: "long_le a b \<longleftrightarrow> val128 a \<le> val128 b"
proof -
  have lt: "0 \<le> uint (lo a)" "0 \<le> uint (lo b)" "uint (lo a) < 2 ^ 64" "uint (lo b) < 2 ^ 64"
    using uint_lt2p [of "lo a"] uint_lt2p [of "lo b"] by simp_all
  consider "uint (hi a) + 1 \<le> uint (hi b)" | "hi a = hi b" | "uint (hi b) + 1 \<le> uint (hi a)"
    by (metis word_uint_eq_iff linorder_cases zless_imp_add1_zle)
  then show ?thesis
  proof cases
    case 1
    then have "hi a \<noteq> hi b" "hi a \<le> hi b" by (auto simp: word_le_def)
    moreover have "val128 a \<le> val128 b" unfolding val128_def using digit_less [OF 1 lt(3,2)] by simp
    ultimately show ?thesis by (simp add: long_le_def)
  next
    case 2
    then show ?thesis by (simp add: long_le_def val128_def word_le_def)
  next
    case 3
    then have "hi a \<noteq> hi b" "\<not> hi a \<le> hi b" by (auto simp: word_le_def)
    moreover have "\<not> val128 a \<le> val128 b" unfolding val128_def using digit_less [OF 3 lt(4,1)] by simp
    ultimately show ?thesis by (simp add: long_le_def)
  qed
qed

section \<open>Multiplication\<close>

definition digits :: "Bit32u list \<Rightarrow> int" where
  "digits r = uint (r ! 0) + uint (r ! 1) * 2 ^ 32 + uint (r ! 2) * 2 ^ 64 + uint (r ! 3) * 2 ^ 96"

lemma partial_add:
  "uint (fst (partial_add a b)) = uint a + uint b - 2 ^ 32 * uint (snd (partial_add a b))"
  using uint_lt2p [of a] uint_lt2p [of b]
  by (auto simp: partial_add_def Let_def word_less_def uint_add_lem uint_plus_if_size word_size)

lemma digits_update:
  "length r = 4 \<Longrightarrow> k < 4 \<Longrightarrow> digits (r[k := s]) = digits r + (uint s - uint (r ! k)) * 2 ^ (32 * k)"
  by (auto simp: digits_def less_Suc_eq numeral_eq_Suc nth_list_update algebra_simps)

lemma digits_bounds: "0 \<le> digits r" "digits r < 2 ^ 128"
  using uint_lt2p [of "r ! 0"] uint_lt2p [of "r ! 1"] uint_lt2p [of "r ! 2"] uint_lt2p [of "r ! 3"]
  by (simp_all add: digits_def)

lemma propagate:
  assumes "length r = 4" "k \<le> 4"
  shows "length (propagate k c r) = 4 \<and> digits (propagate k c r) mod 2 ^ 128 = (digits r + uint c * 2 ^ (32 * k)) mod 2 ^ 128"
  using assms
proof (induction k c r rule: propagate.induct)
  case (1 k c r)
  show ?case
  proof (cases "k < 4 \<and> c \<noteq> 0")
    case True
    define s c' where "s = fst (partial_add (r ! k) c)" and "c' = snd (partial_add (r ! k) c)"
    have step: "propagate k c r = propagate (k + 1) c' (r[k := s])"
      using True by (subst propagate.simps) (simp add: s_def c'_def case_prod_unfold Let_def)
    have "digits (r[k := s]) = digits r + (uint c - 2 ^ 32 * uint c') * 2 ^ (32 * k)"
      using True "1.prems" partial_add [of "r ! k" c] by (simp add: digits_update flip: s_def c'_def)
    then have "digits (r[k := s]) + uint c' * 2 ^ (32 * (k + 1)) = digits r + uint c * 2 ^ (32 * k)"
      by (simp add: power_add algebra_simps)
    then show ?thesis
      using "1.IH" [OF True, of "(s, c')" s c'] "1.prems" True unfolding step by (simp add: s_def c'_def)
  next
    case False
    then have "propagate k c r = r" by (subst propagate.simps) auto
    then show ?thesis using "1.prems" False by (auto simp: le_less)
  qed
qed

lemma mod_add_digit: "a mod m = b mod m \<Longrightarrow> (a + x) mod m = (b + x) mod m" for a b m x :: int
  by (metis mod_add_cong)

lemma long_mul_digits:
  assumes "length r = 4" "k \<le> 2"
  shows "length (long_mul_digits a b k r) = 4
    \<and> digits (long_mul_digits a b k r) = (digits r + uint a * uint b * 2 ^ (32 * k)) mod 2 ^ 128"
proof -
  define nn where "nn = (ucast a * ucast b :: Bit64u)"
  define l h where "l = (ucast (nn AND 0xffffffff) :: Bit32u)" and "h = (ucast (drop_bit 32 nn) :: Bit32u)"
  have ab: "uint a * uint b \<le> (2 ^ 32 - 1) * (2 ^ 32 - 1)"
    using uint_lt2p [of a] uint_lt2p [of b] by (intro mult_mono) auto
  moreover have "uint (ucast a :: Bit64u) = uint a" "uint (ucast b :: Bit64u) = uint b"
    by (simp_all add: uint_up_ucast is_up)
  ultimately have nn: "uint nn = uint a * uint b"
    by (simp add: nn_def uint_word_ariths)
  have l: "uint l = uint nn mod 2 ^ 32"
  proof -
    have "nn AND 0xffffffff = take_bit 32 nn" by (simp add: take_bit_eq_mask mask_numeral)
    then show ?thesis by (simp add: l_def unsigned_ucast_eq take_bit_eq_mod uint_mod)
  qed
  have "uint nn div 2 ^ 32 < 2 ^ 32" using uint_lt2p [of nn] by simp
  then have h: "uint h = uint nn div 2 ^ 32"
    using div_int_pos_iff [of "uint nn" "2 ^ 32"]
    by (simp add: h_def unsigned_ucast_eq unsigned_drop_bit_eq drop_bit_eq_div take_bit_eq_mod uint_div)
  have nn_eq: "uint l + 2 ^ 32 * uint h = uint a * uint b" using l h nn by simp
  define s1 c1 where "s1 = fst (partial_add (r ! k) l)" and "c1 = snd (partial_add (r ! k) l)"
  have c1: "uint c1 \<le> 1" by (simp add: c1_def partial_add_def Let_def)
  have hc: "uint (h + c1) = uint h + uint c1"
  proof -
    have "uint h \<le> 2 ^ 32 - 2" using ab nn h by simp
    then show ?thesis using c1 by (simp add: uint_word_ariths)
  qed
  define r1 where "r1 = r[k := s1]"
  define s2 c2 where "s2 = fst (partial_add (r1 ! (k + 1)) (h + c1))" and "c2 = snd (partial_add (r1 ! (k + 1)) (h + c1))"
  define r2 where "r2 = r1[k + 1 := s2]"
  have "long_mul_digits a b k r = propagate (k + 2) c2 r2"
    by (simp add: long_mul_digits_def Let_def case_prod_unfold nn_def l_def h_def s1_def c1_def r1_def s2_def c2_def r2_def)
  moreover have "digits r2 + uint c2 * 2 ^ (32 * (k + 2)) = digits r + uint a * uint b * 2 ^ (32 * k)"
  proof -
    have "digits r1 = digits r + (uint l - 2 ^ 32 * uint c1) * 2 ^ (32 * k)"
      using assms partial_add [of "r ! k" l] by (simp add: r1_def digits_update flip: s1_def c1_def)
    moreover have "digits r2 = digits r1 + (uint h + uint c1 - 2 ^ 32 * uint c2) * 2 ^ (32 * (k + 1))"
      using assms partial_add [of "r1 ! (k + 1)" "h + c1", folded s2_def c2_def] hc
      by (simp add: r2_def digits_update r1_def)
    ultimately show ?thesis by (simp add: power_add algebra_simps flip: nn_eq)
  qed
  ultimately show ?thesis
    using propagate [of r2 "k + 2" c2] assms digits_bounds [of "propagate (k + 2) c2 r2"]
    by (simp add: r2_def r1_def)
qed

lemma halves: "uint (ucast (x AND 0xffffffff) :: Bit32u) + uint (ucast (drop_bit 32 x) :: Bit32u) * 2 ^ 32 = uint x" for x :: Bit64u
proof -
  have "x AND 0xffffffff = x mod 2 ^ 32" using take_bit_eq_mask [of 32 x] by (simp add: take_bit_eq_mod mask_numeral)
  moreover have "uint x div 2 ^ 32 < 2 ^ 32" "0 \<le> uint x div 2 ^ 32" using uint_lt2p [of x] by (simp_all add: div_int_pos_iff)
  ultimately show ?thesis
    by (simp add: unsigned_ucast_eq unsigned_drop_bit_eq drop_bit_eq_div take_bit_eq_mod uint_mod uint_div)
qed

lemma join_halves: "uint (ucast a + push_bit 32 (ucast b) :: Bit64u) = uint a + uint b * 2 ^ 32" for a b :: Bit32u
proof -
  have "uint (ucast a :: Bit64u) = uint a" "uint (ucast b :: Bit64u) = uint b" by (simp_all add: uint_up_ucast is_up)
  then show ?thesis
    using uint_lt2p [of a] uint_lt2p [of b] by (simp add: push_bit_eq_mult uint_word_ariths mod_simps)
qed

lemma long_mul_val: "val128 (long_mul a b) = uint a * uint b"
proof -
  define a0 a1 b0 b1 where "a0 = (ucast (a AND 0xffffffff) :: Bit32u)" and "a1 = (ucast (drop_bit 32 a) :: Bit32u)"
    and "b0 = (ucast (b AND 0xffffffff) :: Bit32u)" and "b1 = (ucast (drop_bit 32 b) :: Bit32u)"
  have a: "uint a0 + uint a1 * 2 ^ 32 = uint a" and b: "uint b0 + uint b1 * 2 ^ 32 = uint b"
    by (simp_all only: a0_def a1_def b0_def b1_def halves)
  define r1 where "r1 = long_mul_digits a0 b0 0 [0, 0, 0, 0]"
  define r2 where "r2 = long_mul_digits a0 b1 1 r1"
  define r3 where "r3 = long_mul_digits a1 b0 1 r2"
  define r4 where "r4 = long_mul_digits a1 b1 2 r3"
  have r1: "length r1 = 4" "digits r1 = (uint a0 * uint b0) mod 2 ^ 128"
    using long_mul_digits [of "[0, 0, 0, 0]" 0 a0 b0] by (simp_all add: r1_def digits_def)
  have r2: "length r2 = 4" "digits r2 = (digits r1 + uint a0 * uint b1 * 2 ^ 32) mod 2 ^ 128"
    using long_mul_digits [OF r1(1), of 1 a0 b1] by (simp_all add: r2_def)
  have r3: "length r3 = 4" "digits r3 = (digits r2 + uint a1 * uint b0 * 2 ^ 32) mod 2 ^ 128"
    using long_mul_digits [OF r2(1), of 1 a1 b0] by (simp_all add: r3_def)
  have r4: "length r4 = 4" "digits r4 = (digits r3 + uint a1 * uint b1 * 2 ^ 64) mod 2 ^ 128"
    using long_mul_digits [OF r3(1), of 2 a1 b1] by (simp_all add: r4_def)
  have "digits r4 = (uint a0 * uint b0 + uint a0 * uint b1 * 2 ^ 32 + uint a1 * uint b0 * 2 ^ 32 + uint a1 * uint b1 * 2 ^ 64) mod 2 ^ 128"
    unfolding r4(2) r3(2) r2(2) r1(2) by (simp only: mod_add_left_eq)
  also have "\<dots> = (uint a * uint b) mod 2 ^ 128"
    unfolding a [symmetric] b [symmetric] by (simp add: algebra_simps)
  also have "\<dots> = uint a * uint b"
  proof -
    have "uint a * uint b < 2 ^ 64 * 2 ^ 64"
      using uint_lt2p [of a] uint_lt2p [of b] by (intro mult_strict_mono') auto
    then show ?thesis by simp
  qed
  finally have "digits r4 = uint a * uint b" .
  moreover have "long_mul a b = \<lparr>lo = ucast (r4 ! 0) + push_bit 32 (ucast (r4 ! 1)), hi = ucast (r4 ! 2) + push_bit 32 (ucast (r4 ! 3))\<rparr>"
    by (simp add: long_mul_def Let_def r4_def r3_def r2_def r1_def a0_def a1_def b0_def b1_def upt_rec numeral_2_eq_2)
  then have "val128 (long_mul a b) = digits r4"
    by (simp only: val128_def digits_def join_halves Bit128u.simps) (simp add: algebra_simps)
  ultimately show ?thesis by simp
qed

section \<open>Negation and signed multiplication\<close>

lemma sval128_val128: "sval128 a = (if val128 a < 2 ^ 127 then val128 a else val128 a - 2 ^ 128)"
proof -
  have "uint (hi a) < 2 ^ 63 \<longleftrightarrow> val128 a < 2 ^ 127"
  proof
    assume "uint (hi a) < 2 ^ 63"
    then show "val128 a < 2 ^ 127" using uint_lt2p [of "lo a"] by (simp add: val128_def)
  next
    assume lt: "val128 a < 2 ^ 127"
    show "uint (hi a) < 2 ^ 63"
    proof (rule ccontr)
      assume "\<not> uint (hi a) < 2 ^ 63"
      then have "2 ^ 63 * 2 ^ 64 \<le> uint (hi a) * 2 ^ 64" by (intro mult_right_mono) simp_all
      then have "2 ^ 63 * 2 ^ 64 \<le> val128 a" unfolding val128_def by (rule add_increasing2 [OF uint_ge_0])
      then show False using lt by simp
    qed
  qed
  then show ?thesis by (simp add: sval128_def val128_def sint_cases)
qed

lemma uint_pos: "w \<noteq> 0 \<Longrightarrow> 0 < uint w" for w :: "'a::len word"
  by (metis order_less_le uint_0_iff uint_ge_0)

lemma uint_minus: "uint (- w) = (if w = 0 then 0 else 2 ^ LENGTH('a) - uint w)" for w :: "'a::len word"
  by (auto simp: uint_word_ariths zmod_zminus1_eq_if uint_0_iff)

lemma uint_not: "uint (NOT w) = 2 ^ LENGTH('a) - 1 - uint w" for w :: "'a::len word"
proof -
  have "NOT w = - w - 1" by (simp add: not_eq_complement)
  then have "uint (NOT w) = (- uint w - 1 + 2 ^ LENGTH('a)) mod 2 ^ LENGTH('a)"
    by (simp add: uint_word_ariths mod_simps)
  also have "\<dots> = - uint w - 1 + 2 ^ LENGTH('a)"
    using uint_lt2p [of w] uint_ge_0 [of w] by (intro mod_pos_pos_trivial) linarith+
  finally show ?thesis by simp
qed

lemma wrap_only_at_0: "t - 1 > t \<longleftrightarrow> t = 0" for t :: Bit64u
proof (cases "t = 0")
  case True
  have "uint (-1 :: Bit64u) = 2 ^ 64 - 1" by (simp add: unsigned_minus_1_eq_mask mask_eq_exp_minus_1)
  then show ?thesis using True by (simp add: word_less_def)
next
  case False
  then have "1 \<le> uint t" using uint_pos [of t] by simp
  then show ?thesis using False by (simp add: word_less_def uint_sub_if')
qed

lemma long_neg_val: "val128 (long_neg a) = (- val128 a) mod 2 ^ 128"
proof (cases "lo a = 0")
  case True
  have "NOT (hi a - 1) = - hi a" by (simp add: not_eq_complement)
  then have "val128 (long_neg a) = uint (- hi a) * 2 ^ 64"
    using True by (simp add: long_neg_def Let_def wrap_only_at_0 val128_def)
  moreover have "val128 a = uint (hi a) * 2 ^ 64" using True by (simp add: val128_def)
  ultimately show ?thesis
    using uint_lt2p [of "hi a"] uint_pos [of "hi a"] by (auto simp: uint_minus zmod_zminus1_eq_if)
next
  case False
  then have "val128 (long_neg a) = 2 ^ 128 - val128 a"
    by (simp add: long_neg_def Let_def wrap_only_at_0 val128_def uint_minus uint_not)
  moreover have "0 < val128 a" using uint_pos [OF False] by (simp add: val128_def add_nonneg_pos)
  ultimately show ?thesis
    using val128_bounds(2) [of a] by (simp add: zmod_zminus1_eq_if)
qed

lemma long_neg_sval: "sval128 a \<noteq> - (2 ^ 127) \<Longrightarrow> sval128 (long_neg a) = - sval128 a"
  using val128_bounds [of a] by (auto simp: sval128_val128 long_neg_val zmod_zminus1_eq_if)

lemma uint_abs: "uint (if sint w < 0 then - w else w) = \<bar>sint w\<bar>" for w :: "'a::len word"
proof -
  have "w = 0 \<or> 0 < uint w" "uint w < 2 ^ LENGTH('a)" using uint_pos [of w] by auto
  then show ?thesis by (cases "2 * uint w < 2 ^ LENGTH('a)") (auto simp: sint_cases uint_minus abs_if)
qed

lemma abs_sint_le: "\<bar>sint w\<bar> \<le> 2 ^ 63" for w :: Bit64u
  using uint_lt2p [of w] by (auto simp: sint_cases)

lemma long_imul_val: "sval128 (long_imul a b) = sint a * sint b"
proof -
  define p where "p = long_mul (if sint a < 0 then - a else a) (if sint b < 0 then - b else b)"
  have v: "val128 p = \<bar>sint a\<bar> * \<bar>sint b\<bar>" by (simp only: p_def long_mul_val uint_abs)
  have "\<bar>sint a\<bar> * \<bar>sint b\<bar> \<le> 2 ^ 63 * 2 ^ 63" by (intro mult_mono abs_sint_le) auto
  then have s: "sval128 p = \<bar>sint a\<bar> * \<bar>sint b\<bar>" using v by (simp add: sval128_val128)
  moreover have "long_imul a b = (if (sint a < 0) \<noteq> (sint b < 0) then long_neg p else p)"
    by (simp add: long_imul_def Let_def p_def)
  moreover have "0 \<le> \<bar>sint a\<bar> * \<bar>sint b\<bar>" by simp
  with s have "0 \<le> sval128 p" by simp
  then have "sval128 p \<noteq> - (2 ^ 127)" by auto
  ultimately show ?thesis
    by (auto simp: long_neg_sval abs_mult [symmetric] abs_if mult_less_0_iff)
qed

section \<open>Shifts and subtraction\<close>

definition word128 :: "Bit128u \<Rightarrow> 128 word" where
  "word128 a = word_cat (hi a) (lo a)"

lemma bit_word128: "bit (word128 a) n \<longleftrightarrow> (if n < 64 then bit (lo a) n else bit (hi a) (n - 64))"
  by (auto simp: word128_def bit_word_cat_iff dest: bit_imp_le_length)

lemma uint_word128: "uint (word128 a) = val128 a"
proof -
  have "word128 a = of_int (val128 a)"
  proof (rule bit_word_eqI)
    fix n
    have "bit (val128 a) n \<longleftrightarrow> (if n < 64 then bit (lo a) n else bit (hi a) (n - 64))"
    proof -
      have "val128 a = concat_bit 64 (uint (lo a)) (uint (hi a))"
        using take_bit_int_eq_self [of "uint (lo a)" 64] uint_lt2p [of "lo a"] by (simp add: val128_def concat_bit_eq push_bit_eq_mult)
      then show ?thesis by (simp add: bit_concat_bit_iff bit_uint_bit)
    qed
    then show "n < LENGTH(128) \<Longrightarrow> bit (word128 a) n = bit (word_of_int (val128 a) :: 128 word) n"
      by (simp add: bit_word128 bit_word_of_int_iff)
  qed
  then show ?thesis using val128_bounds [of a] by (simp add: uint_word_of_int)
qed

lemma bit_times_2: "bit (w * 2) n \<longleftrightarrow> 0 < n \<and> n < LENGTH('a) \<and> bit w (n - 1)" for w :: "'a::len word"
  using bit_push_bit_iff [of 1 w n] by (auto simp: push_bit_eq_mult dest: bit_imp_le_length)

lemma long_shl_val: "val128 (long_shl a) = (2 * val128 a) mod 2 ^ 128"
proof -
  have "word128 (long_shl a) = push_bit 1 (word128 a)"
  proof (rule bit_word_eqI)
    fix n :: nat
    consider "n = 0" | "0 < n" "n < 64" | "n = 64" | "64 < n" by linarith
    then show "n < LENGTH(128) \<Longrightarrow> bit (word128 (long_shl a)) n = bit (push_bit 1 (word128 a)) n"
      by cases (auto simp: bit_word128 long_shl_def Let_def bit_simps bit_times_2 dest: bit_imp_le_length)
  qed
  then have "uint (word128 (long_shl a)) = uint (word128 a * 2)" by (simp add: push_bit_eq_mult)
  then show ?thesis by (simp add: uint_word128 uint_word_ariths mult.commute)
qed

lemma long_shr_val: "val128 (long_shr a) = val128 a div 2"
proof -
  have "word128 (long_shr a) = drop_bit 1 (word128 a)"
  proof (rule bit_word_eqI)
    fix n :: nat
    consider "n < 63" | "n = 63" | "63 < n" by linarith
    then show "n < LENGTH(128) \<Longrightarrow> bit (word128 (long_shr a)) n = bit (drop_bit 1 (word128 a)) n"
      by cases (auto simp: bit_word128 long_shr_def Let_def bit_simps Suc_diff_le [symmetric] dest: bit_imp_le_length)
  qed
  then have "uint (word128 (long_shr a)) = uint (drop_bit 1 (word128 a))" by simp
  then show ?thesis by (simp only: uint_word128 unsigned_drop_bit_eq drop_bit_eq_div) (simp add: uint_div uint_word128)
qed

lemma mod_diff_cases: "(x - y) mod m = x - y + m * of_bool (x < y)" if "0 \<le> x" "x < m" "0 \<le> y" "y \<le> m" for x y m :: int
proof (cases "x < y")
  case True
  have "(x - y) mod m = (x - y + m) mod m" by simp
  also have "\<dots> = x - y + m" using True that by (intro mod_pos_pos_trivial) auto
  finally show ?thesis using True by simp
next
  case False
  then show ?thesis using that by (simp add: mod_pos_pos_trivial)
qed

lemma diff_digits:
  fixes a0 a1 b0 b1 m :: int
  assumes "0 \<le> a0" "a0 < m" "0 \<le> b0" "b0 < m" "0 \<le> a1" "a1 < m" "0 \<le> b1" "b1 + 1 < m"
  defines "c \<equiv> a0 < b0"
  shows "((a1 - (b1 + of_bool c)) mod m > a1) \<longleftrightarrow> a1 * m + a0 < b1 * m + b0"
    "(a1 - (b1 + of_bool c)) mod m * m + (a0 - b0) mod m = (a1 * m + a0 - (b1 * m + b0)) mod (m * m)"
proof -
  define d where "d \<longleftrightarrow> a1 < b1 + of_bool c"
  have h: "(a1 - (b1 + of_bool c)) mod m = a1 - (b1 + of_bool c) + m * of_bool d"
    using assms(5-8) unfolding d_def by (intro mod_diff_cases) (auto simp: c_def)
  have l: "(a0 - b0) mod m = a0 - b0 + m * of_bool c"
    using assms(1-4) unfolding c_def by (intro mod_diff_cases) auto
  have d: "d \<longleftrightarrow> a1 * m + a0 < b1 * m + b0"
  proof (cases d)
    case True
    then consider "a1 + 1 \<le> b1" | "a1 = b1" c unfolding d_def by (cases c; cases "a1 = b1") auto
    then show ?thesis using True digit_less [of a1 b1 a0 m b0] assms(1-4) by cases (auto simp: c_def)
  next
    case False
    then consider "b1 + 1 \<le> a1" | "a1 = b1" "\<not> c" unfolding d_def by (cases c; cases "a1 = b1") auto
    then show ?thesis using False digit_less [of b1 a1 b0 m a0] assms(1-4) by cases (auto simp: c_def)
  qed
  show "((a1 - (b1 + of_bool c)) mod m > a1) \<longleftrightarrow> a1 * m + a0 < b1 * m + b0"
    unfolding h d [symmetric] using assms(7,8) by (cases d; cases c) auto
  have "(a1 * m + a0 - (b1 * m + b0)) mod (m * m) = a1 * m + a0 - (b1 * m + b0) + m * m * of_bool d"
  proof -
    have "x * m + y < m * m" if "0 \<le> y" "y < m" "x < m" for x y :: int
      using digit_less [of x m y m 0] that by simp
    then show ?thesis unfolding d using assms(1-8) by (intro mod_diff_cases) (auto intro: order_less_imp_le)
  qed
  then show "(a1 - (b1 + of_bool c)) mod m * m + (a0 - b0) mod m = (a1 * m + a0 - (b1 * m + b0)) mod (m * m)"
    unfolding h l by (simp add: algebra_simps)
qed

lemma long_sub_val:
  assumes "val128 b < 2 ^ 127"
  shows "fst (long_sub a b) \<longleftrightarrow> val128 a < val128 b" "val128 (snd (long_sub a b)) = (val128 a - val128 b) mod 2 ^ 128"
proof -
  have b: "uint (hi b) + 1 < 2 ^ 64"
  proof (rule ccontr)
    assume "\<not> uint (hi b) + 1 < 2 ^ 64"
    then have "(2 ^ 64 - 1) * 2 ^ 64 \<le> uint (hi b) * 2 ^ 64" by (intro mult_right_mono) simp_all
    then have "(2 ^ 64 - 1) * 2 ^ 64 \<le> val128 b" unfolding val128_def by (rule add_increasing2 [OF uint_ge_0])
    then show False using assms by simp
  qed
  have lt: "uint (lo a) < 2 ^ 64" "uint (lo b) < 2 ^ 64" "uint (hi a) < 2 ^ 64"
    using uint_lt2p [of "lo a"] uint_lt2p [of "lo b"] uint_lt2p [of "hi a"] by simp_all
  have c: "lo a - lo b > lo a \<longleftrightarrow> uint (lo a) < uint (lo b)"
    using lt uint_ge_0 [of "lo b"] by (simp add: word_less_def uint_word_ariths mod_diff_cases)
  define r where "r = snd (long_sub a b)"
  have "long_sub a b = (hi a - (hi b + of_bool (lo a - lo b > lo a)) > hi a,
      \<lparr>lo = lo a - lo b, hi = hi a - (hi b + of_bool (lo a - lo b > lo a))\<rparr>)"
    by (cases a) (simp add: long_sub_def Let_def)
  note ls = this [unfolded c]
  have bc: "uint (hi b + of_bool (uint (lo a) < uint (lo b))) = uint (hi b) + of_bool (uint (lo a) < uint (lo b))"
    using b by (cases "uint (lo a) < uint (lo b)") (simp_all add: uint_word_ariths)
  have r: "uint (lo r) = (uint (lo a) - uint (lo b)) mod 2 ^ 64"
    "uint (hi r) = (uint (hi a) - (uint (hi b) + of_bool (uint (lo a) < uint (lo b)))) mod 2 ^ 64"
    "fst (long_sub a b) \<longleftrightarrow> uint (hi r) > uint (hi a)"
    unfolding r_def ls by (simp_all add: word_less_def uint_word_ariths(2) bc)
  note dd = diff_digits [of "uint (lo a)" "2 ^ 64" "uint (lo b)" "uint (hi a)" "uint (hi b)", OF uint_ge_0 lt(1) uint_ge_0 lt(2) uint_ge_0 lt(3) uint_ge_0 b]
  show "fst (long_sub a b) \<longleftrightarrow> val128 a < val128 b"
    using dd(1) by (simp only: r val128_def)
  show "val128 (snd (long_sub a b)) = (val128 a - val128 b) mod 2 ^ 128"
    using dd(2) by (simp add: r val128_def flip: r_def)
qed

section \<open>Division\<close>

text \<open>Scaling up while the shifted divisor stays below \<open>2^128\<close>.\<close>

lemma div_scale_exact:
  assumes "val128 d = D * 2 ^ n" "0 < D" "\<And>m. D * 2 ^ m \<le> val128 acc \<Longrightarrow> D * 2 ^ (m + 1) < 2 ^ 128"
  shows "\<exists>d' n'. div_scale d acc n = (d', n') \<and> val128 d' = D * 2 ^ n' \<and> val128 acc < D * 2 ^ n'"
  using assms(1)
proof (induction "128 - n" arbitrary: d n rule: less_induct)
  case less
  show ?case
  proof (cases "val128 d \<le> val128 acc")
    case True
    have n: "n < 128"
    proof (rule ccontr)
      assume "\<not> n < 128"
      then have "(2 :: int) ^ 128 \<le> 2 ^ n" by (intro power_increasing) auto
      also have "\<dots> \<le> D * 2 ^ n" using assms(2) by simp
      finally show False using True less.prems val128_bounds(2) [of acc] by simp
    qed
    have "D * 2 ^ (n + 1) < 2 ^ 128" using assms(3) True less.prems by simp
    then have "val128 (long_shl d) = D * 2 ^ (n + 1)"
      using less.prems assms(2) by (simp add: long_shl_val)
    moreover have "div_scale d acc n = div_scale (long_shl d) acc (n + 1)"
      using True n by (subst div_scale.simps) (simp add: long_le_iff)
    ultimately show ?thesis
      using less.hyps [of "n + 1" "long_shl d"] n by simp
  next
    case False
    then have "div_scale d acc n = (d, n)" by (subst div_scale.simps) (simp add: long_le_iff)
    then show ?thesis using less.prems False by simp
  qed
qed

text \<open>In any case the scaling does not stop before the scaled divisor exceeds the dividend.\<close>

lemma div_scale_at_least:
  assumes "val128 d = D * 2 ^ n" "0 < D" "n \<le> m" "D * 2 ^ m \<le> val128 acc"
  shows "m < snd (div_scale d acc n)" "snd (div_scale d acc n) \<le> 128"
proof -
  have m: "m < 128"
  proof (rule ccontr)
    assume "\<not> m < 128"
    then have "(2 :: int) ^ 128 \<le> 2 ^ m" by (intro power_increasing) auto
    also have "\<dots> \<le> D * 2 ^ m" using assms(2) by simp
    finally show False using assms(4) val128_bounds(2) [of acc] by simp
  qed
  have mono: "k \<le> snd (div_scale e acc k) \<and> (k \<le> 128 \<longrightarrow> snd (div_scale e acc k) \<le> 128)" for e k
  proof (induction e acc k rule: div_scale.induct)
    case (1 d acc n)
    then show ?case by (cases "long_le d acc \<and> n < 128") (auto simp: div_scale.simps [of d acc n])
  qed
  have "m < snd (div_scale d acc n)"
    using assms(1,3)
  proof (induction "m - n" arbitrary: d n)
    case 0
    then have "div_scale d acc n = div_scale (long_shl d) acc (n + 1)"
      using assms(4) m by (subst div_scale.simps) (simp add: long_le_iff)
    then show ?case using mono [of "n + 1" "long_shl d"] 0 by simp
  next
    case (Suc j)
    have le: "D * 2 ^ (n + 1) \<le> D * 2 ^ m" using Suc.hyps(2) assms(2) by (intro mult_left_mono power_increasing) auto
    have "D * 2 ^ n \<le> D * 2 ^ m" using Suc.prems(2) assms(2) by (intro mult_left_mono power_increasing) auto
    then have "div_scale d acc n = div_scale (long_shl d) acc (n + 1)"
      using assms(4) m Suc.prems Suc.hyps(2) by (subst div_scale.simps) (simp add: long_le_iff)
    moreover have "val128 (long_shl d) = D * 2 ^ (n + 1)"
    proof -
      have "D * 2 ^ (n + 1) < 2 ^ 128" using le assms(4) val128_bounds(2) [of acc] by linarith
      then show ?thesis using assms(2) Suc.prems(1) by (simp add: long_shl_val)
    qed
    ultimately show ?case using Suc.hyps(1) [of "n + 1" "long_shl d"] Suc.hyps(2) by simp
  qed
  then show "m < snd (div_scale d acc n)" .
  show "snd (div_scale d acc n) \<le> 128" using mono [of n d] m assms(3) by simp
qed

lemma long_shr_less: "val128 (long_shr d) < 2 ^ 127"
  using val128_bounds(2) [of d] by (simp add: long_shr_val)

lemma div_step:
  assumes "2 * val128 q + 1 < 2 ^ 128"
  shows "div_steps (Suc n) d acc q =
    (if val128 acc < val128 d div 2 then div_steps n (long_shr d) acc (long_shl q)
     else div_steps n (long_shr d) (snd (long_sub acc (long_shr d))) ((long_shl q)\<lparr>lo := lo (long_shl q) + 1\<rparr>))"
    "val128 (long_shl q) = 2 * val128 q" "val128 ((long_shl q)\<lparr>lo := lo (long_shl q) + 1\<rparr>) = 2 * val128 q + 1"
proof -
  show "div_steps (Suc n) d acc q =
    (if val128 acc < val128 d div 2 then div_steps n (long_shr d) acc (long_shl q)
     else div_steps n (long_shr d) (snd (long_sub acc (long_shr d))) ((long_shl q)\<lparr>lo := lo (long_shl q) + 1\<rparr>))"
    using long_sub_val(1) [OF long_shr_less, of acc d] by (simp add: Let_def case_prod_unfold long_shr_val)
  show q: "val128 (long_shl q) = 2 * val128 q"
    using assms val128_bounds(1) [of q] by (simp add: long_shl_val)
  have "lo (long_shl q) = lo q * 2" by (simp add: long_shl_def Let_def)
  then have "even (uint (lo (long_shl q)))" by (simp add: uint_word_ariths dvd_mod)
  then have "odd (uint (lo (long_shl q)) + 1)" "even (2 ^ 64 :: int)" by simp_all
  then have "uint (lo (long_shl q)) + 1 \<noteq> 2 ^ 64" by metis
  moreover have "uint (lo (long_shl q)) < 2 ^ 64" using uint_lt2p [of "lo (long_shl q)"] by simp
  ultimately have "uint (lo (long_shl q) + 1) = uint (lo (long_shl q)) + 1" by (simp add: uint_word_ariths)
  then show "val128 ((long_shl q)\<lparr>lo := lo (long_shl q) + 1\<rparr>) = 2 * val128 q + 1"
    using q by (simp add: val128_def)
qed

lemma div_steps_exact:
  assumes "val128 d = D * 2 ^ n" "0 < D" "val128 acc < D * 2 ^ n" "(val128 q + 1) * 2 ^ n \<le> 2 ^ 128"
  shows "val128 (fst (div_steps n d acc q)) = val128 q * 2 ^ n + val128 acc div D
    \<and> val128 (snd (div_steps n d acc q)) = val128 acc mod D"
  using assms(1,3,4)
proof (induction n arbitrary: d acc q)
  case 0
  then show ?case using assms(2) val128_bounds(1) [of acc] by simp
next
  case (Suc n)
  have "(val128 q + 1) * 2 ^ 1 \<le> (val128 q + 1) * 2 ^ Suc n"
    using val128_bounds(1) [of q] by (intro mult_left_mono power_increasing) auto
  then have q: "2 * val128 q + 1 < 2 ^ 128" using Suc.prems(3) by simp
  note step = div_step [OF q]
  have d: "val128 d div 2 = D * 2 ^ n" "val128 (long_shr d) = D * 2 ^ n"
    using Suc.prems(1) by (simp_all add: long_shr_val)
  show ?case
  proof (cases "val128 acc < D * 2 ^ n")
    case True
    have "(val128 (long_shl q) + 1) * 2 ^ n \<le> 2 ^ 128"
    proof -
      have "(val128 (long_shl q) + 1) * 2 ^ n \<le> (val128 q + 1) * 2 ^ Suc n" by (simp add: step(2) algebra_simps)
      then show ?thesis using Suc.prems(3) by (rule order_trans)
    qed
    then show ?thesis
      using Suc.IH [OF d(2) True, of "long_shl q"] True d(1) by (simp only: step(1,2)) simp
  next
    case False
    define acc' where "acc' = snd (long_sub acc (long_shr d))"
    define q' where "q' = (long_shl q)\<lparr>lo := lo (long_shl q) + 1\<rparr>"
    have acc': "val128 acc' = val128 acc - D * 2 ^ n"
    proof -
      have "0 \<le> val128 acc - D * 2 ^ n" "val128 acc - D * 2 ^ n < 2 ^ 128"
        using False val128_bounds(2) [of acc] val128_bounds(1) [of "long_shr d"] d(2) by simp_all
      then show ?thesis
        using long_sub_val(2) [OF long_shr_less, of acc d] d(2) by (simp add: acc'_def)
    qed
    have q': "val128 q' = 2 * val128 q + 1" using step(3) by (simp add: q'_def)
    have lt: "val128 acc' < D * 2 ^ n" using Suc.prems(2) acc' by simp
    have "(val128 q' + 1) * 2 ^ n \<le> 2 ^ 128" using Suc.prems(3) by (simp add: q' algebra_simps)
    note ih = Suc.IH [OF d(2) lt this]
    have "div_steps (Suc n) d acc q = div_steps n (long_shr d) acc' q'"
      using False d(1) by (simp only: step(1) acc'_def q'_def) simp
    moreover have "val128 acc = val128 acc' + D * 2 ^ n" using acc' by simp
    then have "val128 acc div D = val128 acc' div D + 2 ^ n" "val128 acc mod D = val128 acc' mod D"
      using assms(2) by simp_all
    ultimately show ?thesis using ih q' by (simp add: algebra_simps)
  qed
qed

lemma div_steps_at_least:
  assumes "(val128 q + 1) * 2 ^ n \<le> 2 ^ 128"
  shows "val128 q * 2 ^ n \<le> val128 (fst (div_steps n d acc q))"
  using assms
proof (induction n arbitrary: d acc q)
  case (Suc n)
  have "(val128 q + 1) * 2 ^ 1 \<le> (val128 q + 1) * 2 ^ Suc n"
    using val128_bounds(1) [of q] by (intro mult_left_mono power_increasing) auto
  then have q: "2 * val128 q + 1 < 2 ^ 128" using Suc.prems by simp
  note step = div_step [OF q]
  define q' where "q' = (long_shl q)\<lparr>lo := lo (long_shl q) + 1\<rparr>"
  have q': "val128 q' = 2 * val128 q + 1" using step(3) by (simp add: q'_def)
  have le: "(val128 (long_shl q) + 1) * 2 ^ n \<le> (val128 q + 1) * 2 ^ Suc n" "(val128 q' + 1) * 2 ^ n \<le> (val128 q + 1) * 2 ^ Suc n"
    "val128 q * 2 ^ Suc n \<le> val128 (long_shl q) * 2 ^ n" "val128 q * 2 ^ Suc n \<le> val128 q' * 2 ^ n"
    by (simp_all add: step(2) q' algebra_simps)
  show ?case
    unfolding step(1) q'_def [symmetric]
    using order_trans [OF le(3) Suc.IH [OF order_trans [OF le(1) Suc.prems]]]
      order_trans [OF le(4) Suc.IH [OF order_trans [OF le(2) Suc.prems]]]
    by simp
qed simp

lemma hi_zero: "hi q = 0 \<longleftrightarrow> val128 q < 2 ^ 64"
proof
  assume lt: "val128 q < 2 ^ 64"
  show "hi q = 0"
  proof (rule ccontr)
    assume "hi q \<noteq> 0"
    then have "1 * 2 ^ 64 \<le> uint (hi q) * 2 ^ 64" using uint_pos [of "hi q"] by (intro mult_right_mono) auto
    then have "1 * 2 ^ 64 \<le> val128 q" unfolding val128_def by (rule add_increasing2 [OF uint_ge_0])
    then show False using lt by simp
  qed
qed (use uint_lt2p [of "lo q"] in \<open>simp add: val128_def\<close>)

lemma long_div_unfold:
  "long_div a b = (case div_scale \<lparr>lo = b, hi = 0\<rparr> a 0 of (d, n) \<Rightarrow>
     (fst (div_steps n d a \<lparr>lo = 0, hi = 0\<rparr>), lo (snd (div_steps n d a \<lparr>lo = 0, hi = 0\<rparr>))))"
  by (simp add: long_div_def case_prod_unfold Let_def)

lemma long_div_no_overflow:
  assumes "b \<noteq> 0" "\<And>m. uint b * 2 ^ m \<le> val128 a \<Longrightarrow> uint b * 2 ^ (m + 1) < 2 ^ 128"
  shows "val128 (fst (long_div a b)) = val128 a div uint b" "uint (snd (long_div a b)) = val128 a mod uint b"
proof -
  have D: "0 < uint b" "val128 \<lparr>lo = b, hi = 0\<rparr> = uint b * 2 ^ 0" using assms(1) by (simp_all add: uint_pos val128_def)
  obtain d n where s: "div_scale \<lparr>lo = b, hi = 0\<rparr> a 0 = (d, n)" "val128 d = uint b * 2 ^ n" "val128 a < uint b * 2 ^ n"
    using div_scale_exact [OF D(2,1) assms(2)] by blast
  have "(2::int) ^ n \<le> 2 ^ 128"
  proof (rule ccontr)
    assume "\<not> ?thesis"
    then have "(2::int) ^ 128 * 1 \<le> 2 ^ n * uint b" using D(1) by (intro mult_mono) auto
    then show False using s(2) val128_bounds(2) [of d] by (simp add: mult.commute)
  qed
  then have e: "val128 (fst (div_steps n d a \<lparr>lo = 0, hi = 0\<rparr>)) = val128 a div uint b"
    "val128 (snd (div_steps n d a \<lparr>lo = 0, hi = 0\<rparr>)) = val128 a mod uint b"
    using div_steps_exact [OF s(2) D(1) s(3), of "\<lparr>lo = 0, hi = 0\<rparr>"] by (simp_all add: val128_def)
  then show "val128 (fst (long_div a b)) = val128 a div uint b" by (simp add: long_div_unfold s(1))
  define r where "r = snd (div_steps n d a \<lparr>lo = 0, hi = 0\<rparr>)"
  have "val128 r < uint b" using e(2) pos_mod_bound [OF D(1), of "val128 a"] by (simp add: r_def)
  then have "val128 r < 2 ^ 64" using uint_lt2p [of b] by simp
  then have "hi r = 0" by (simp only: hi_zero)
  then have "uint (lo r) = val128 r" by (simp add: val128_def)
  then show "uint (snd (long_div a b)) = val128 a mod uint b" using e(2) by (simp add: long_div_unfold s(1) r_def)
qed

lemma long_div_overflow:
  assumes "b \<noteq> 0" "uint b * 2 ^ m \<le> val128 a" "2 ^ 128 \<le> uint b * 2 ^ (m + 1)"
  shows "2 ^ 64 \<le> val128 (fst (long_div a b))"
proof -
  have D: "0 < uint b" "val128 \<lparr>lo = b, hi = 0\<rparr> = uint b * 2 ^ 0" using assms(1) by (simp_all add: uint_pos val128_def)
  obtain d n where s: "div_scale \<lparr>lo = b, hi = 0\<rparr> a 0 = (d, n)" by fastforce
  have n: "m < n" "n \<le> 128" using div_scale_at_least [OF D(2,1) _ assms(2)] s by simp_all
  have "(2::int) ^ 64 < 2 ^ (m + 1)"
  proof (rule ccontr)
    assume "\<not> ?thesis"
    then have "uint b * 2 ^ (m + 1) < 2 ^ 64 * 2 ^ 64"
      using uint_lt2p [of b] by (intro mult_less_le_imp_less) auto
    then show False using assms(3) by simp
  qed
  then have "64 < m + 1" by (rule power_less_imp_less_exp [rotated]) simp
  with n obtain k where k: "n = Suc k" "64 \<le> k" "k \<le> 127" by (cases n) auto
  have "2 ^ 127 \<le> uint b * 2 ^ m" using assms(3) by simp
  then have ge: "\<not> val128 a < val128 d div 2"
    using assms(2) long_shr_less [of d] by (simp add: long_shr_val)
  define q where "q = (long_shl \<lparr>lo = 0, hi = 0\<rparr>)\<lparr>lo := lo (long_shl \<lparr>lo = 0, hi = 0\<rparr>) + 1\<rparr>"
  have z: "2 * val128 \<lparr>lo = 0, hi = 0\<rparr> + 1 < 2 ^ 128" by (simp add: val128_def)
  have q: "val128 q = 1" using div_step(3) [OF z] by (simp add: q_def val128_def)
  have "(val128 q + 1) * 2 ^ k \<le> 2 ^ 128"
    using k(3) power_increasing [of "k + 1" 128 "2::int"] by (simp add: q)
  from div_steps_at_least [OF this, of "long_shr d" "snd (long_sub a (long_shr d))"]
  have "2 ^ k \<le> val128 (fst (div_steps n d a \<lparr>lo = 0, hi = 0\<rparr>))"
    using ge unfolding k(1) div_step(1) [OF z] by (simp add: q flip: q_def)
  moreover have "(2::int) ^ 64 \<le> 2 ^ k" using k(2) by (intro power_increasing) auto
  ultimately have "2 ^ 64 \<le> val128 (fst (div_steps n d a \<lparr>lo = 0, hi = 0\<rparr>))" by (rule order_trans [rotated])
  then show ?thesis by (simp only: long_div_unfold s prod.case fst_conv)
qed

lemma long_div_below:
  assumes "b \<noteq> 0" "val128 a < 2 ^ 127"
  shows "val128 (fst (long_div a b)) = val128 a div uint b" "uint (snd (long_div a b)) = val128 a mod uint b"
  using assms by (auto intro!: long_div_no_overflow)

lemma long_div_fits:
  assumes "b \<noteq> 0" "val128 a div uint b < 2 ^ 64"
  shows "val128 (fst (long_div a b)) = val128 a div uint b" "uint (snd (long_div a b)) = val128 a mod uint b"
proof -
  have D: "0 < uint b" using assms(1) by (rule uint_pos)
  have "uint b * 2 ^ (m + 1) < 2 ^ 128" if "uint b * 2 ^ m \<le> val128 a" for m
  proof -
    have "2 ^ m \<le> val128 a div uint b" using zdiv_mono1 [OF that D] D by simp
    then have "(2::int) ^ m < 2 ^ 64" using assms(2) by simp
    then have "m < 64" by (rule power_less_imp_less_exp [rotated]) simp
    then have "(2::int) ^ (m + 1) \<le> 2 ^ 64" by (intro power_increasing) auto
    then have "uint b * 2 ^ (m + 1) < 2 ^ 64 * 2 ^ 64"
      using uint_lt2p [of b] by (intro mult_less_le_imp_less) auto
    then show ?thesis by simp
  qed
  then show "val128 (fst (long_div a b)) = val128 a div uint b" "uint (snd (long_div a b)) = val128 a mod uint b"
    using long_div_no_overflow [OF assms(1)] by auto
qed

lemma long_div_hi:
  assumes "b \<noteq> 0" shows "hi (fst (long_div a b)) = 0 \<longleftrightarrow> val128 a div uint b < 2 ^ 64"
proof -
  show ?thesis
  proof (cases "val128 a div uint b < 2 ^ 64")
    case True
    then show ?thesis using long_div_fits [OF assms] by (simp add: hi_zero)
  next
    case False
    have "2 ^ 64 \<le> val128 (fst (long_div a b))"
    proof (cases "\<exists>m. uint b * 2 ^ m \<le> val128 a \<and> 2 ^ 128 \<le> uint b * 2 ^ (m + 1)")
      case True
      then show ?thesis using long_div_overflow [OF assms] by blast
    next
      case no_ovf: False
      then have "uint b * 2 ^ m \<le> val128 a \<Longrightarrow> uint b * 2 ^ (m + 1) < 2 ^ 128" for m by (meson not_le)
      then show ?thesis using long_div_no_overflow(1) [OF assms, of a] False by simp
    qed
    then show ?thesis using False by (simp add: hi_zero)
  qed
qed

section \<open>Signed division\<close>

lemma sdiv_smod_signs:
  fixes x y :: int
  assumes "y \<noteq> 0"
  shows "x sdiv y = (if (x < 0) \<noteq> (y < 0) then - (\<bar>x\<bar> div \<bar>y\<bar>) else \<bar>x\<bar> div \<bar>y\<bar>)"
    "x smod y = (if x < 0 then - (\<bar>x\<bar> mod \<bar>y\<bar>) else \<bar>x\<bar> mod \<bar>y\<bar>)"
  using assms by (auto simp: signed_divide_int_def signed_modulo_int_def sgn_if)

lemma long_idiv_val:
  assumes "b \<noteq> 0" "sval128 a \<noteq> - (2 ^ 127)"
  shows "sval128 (fst (long_idiv a b)) = sval128 a sdiv sint b" "sint (snd (long_idiv a b)) = sval128 a smod sint b"
proof -
  define t where "t = (if sint (hi a) < 0 then long_neg a else a)"
  define d where "d = (if sint b < 0 then - b else b)"
  have neg: "sint (hi a) < 0 \<longleftrightarrow> sval128 a < 0"
  proof -
    have "0 \<le> uint (lo a)" "uint (lo a) < 2 ^ 64" using uint_lt2p [of "lo a"] by simp_all
    moreover have "0 \<le> sval128 a" if "0 \<le> sint (hi a)" using that by (simp add: sval128_def)
    moreover have "sval128 a < 0" if "sint (hi a) < 0"
      using digit_less [of "sint (hi a)" 0 "uint (lo a)" "2 ^ 64" 0] that calculation(2) by (simp add: sval128_def)
    ultimately show ?thesis by linarith
  qed
  have b: "sint b \<noteq> 0" "d \<noteq> 0" using assms(1) by (auto simp: d_def signed_eq_0_iff)
  have d: "uint d = \<bar>sint b\<bar>" by (simp only: d_def uint_abs)
  have bounds: "- (2 ^ 127) < sval128 a" "sval128 a < 2 ^ 127"
    using assms(2) val128_bounds [of a] by (auto simp: sval128_val128)
  have "sval128 t = \<bar>sval128 a\<bar>" using neg assms(2) by (auto simp: t_def long_neg_sval)
  then have t: "val128 t = \<bar>sval128 a\<bar>" "val128 t < 2 ^ 127"
    using bounds val128_bounds [of t] by (auto simp: sval128_val128 split: if_splits)
  define q r where "q = fst (long_div t d)" and "r = snd (long_div t d)"
  have q: "val128 q = \<bar>sval128 a\<bar> div \<bar>sint b\<bar>" and r: "uint r = \<bar>sval128 a\<bar> mod \<bar>sint b\<bar>"
    using long_div_below [OF b(2) t(2)] t(1) d by (simp_all add: q_def r_def)
  have idiv: "long_idiv a b = (if (sint (hi a) < 0) \<noteq> (sint b < 0) then long_neg q else q, if sint (hi a) < 0 then - r else r)"
    by (simp add: long_idiv_def Let_def case_prod_unfold q_def r_def t_def d_def)
  have "\<bar>sval128 a\<bar> div \<bar>sint b\<bar> \<le> \<bar>sval128 a\<bar>" using zdiv_mono2 [of "\<bar>sval128 a\<bar>" 1 "\<bar>sint b\<bar>"] b(1) by simp
  then have sq: "sval128 q = \<bar>sval128 a\<bar> div \<bar>sint b\<bar>" "sval128 q \<noteq> - (2 ^ 127)"
    using q bounds val128_bounds(1) [of q] by (auto simp: sval128_val128)
  then show "sval128 (fst (long_idiv a b)) = sval128 a sdiv sint b"
    using neg by (auto simp: idiv sdiv_smod_signs [OF b(1)] long_neg_sval)
  have "uint r < 2 ^ 63" using r pos_mod_bound [of "\<bar>sint b\<bar>" "\<bar>sval128 a\<bar>"] abs_sint_le [of b] b(1) by linarith
  then have "sint r = uint r" "sint (- r) = - uint r"
    by (auto simp: sint_cases uint_minus)
  then show "sint (snd (long_idiv a b)) = sval128 a smod sint b"
    using neg r by (simp add: idiv sdiv_smod_signs [OF b(1)])
qed

section \<open>Properties\<close>

text \<open>
  \<open>long_mul\<close> and \<open>long_imul\<close> compute the exact 128-bit product of their unsigned and signed
  64-bit operands.
\<close>

lemma long_mul_exact: "val128 (long_mul a b) = uint a * uint b \<and> sval128 (long_imul a b) = sint a * sint b"
  by (simp add: long_mul_val long_imul_val)

text \<open>
  For a non-zero divisor \<open>long_div\<close> ends with a high quotient word of zero exactly when the quotient
  fits 64 bits, and then quotient and remainder are exact - even though the shifted divisor may lose its
  top bit when the dividend is \<open>2^127\<close> or more. \<open>long_idiv\<close> gives the quotient rounded towards zero and
  the remainder with the sign of the dividend, except for the most negative dividend.
\<close>

lemma long_div_exact:
  assumes "b \<noteq> 0"
  shows "(hi (fst (long_div a b)) = 0) = (val128 a div uint b < 2 ^ 64)
    \<and> (hi (fst (long_div a b)) = 0 \<longrightarrow> uint (lo (fst (long_div a b))) = val128 a div uint b \<and> uint (snd (long_div a b)) = val128 a mod uint b)
    \<and> (sval128 a \<noteq> - (2 ^ 127) \<longrightarrow>
        sval128 (fst (long_idiv a b)) = sval128 a sdiv sint b \<and> sint (snd (long_idiv a b)) = sval128 a smod sint b)"
  using long_div_hi [OF assms, of a] long_div_fits [OF assms, of a] long_idiv_val [OF assms, of a]
  by (auto simp: val128_def)

end
