(* ===== verification/Mult.thy ===== *)
theory Mult
  imports Logical Wide_Int
begin

text \<open>
  The register forms of the multiplication and division instructions: \<^verbatim>\<open>cpu/mult8.cc\<close>,
  \<^verbatim>\<open>mult16.cc\<close>, \<^verbatim>\<open>mult32.cc\<close> and \<^verbatim>\<open>mult64.cc\<close> (the last over \<open>Wide_Int\<close>). A signed C variable
  is a word read through \<open>sint\<close>; division by zero and a quotient that does not fit end with the
  exception \<open>BX_DE_EXCEPTION\<close>.
\<close>

unbundle bit_operations_syntax

section \<open>Handlers\<close>

subsection \<open>\<^verbatim>\<open>mult8.cc\<close>\<close>

definition MUL_ALEbR :: handler where [mult_defs]:
  "MUL_ALEbR i s =
     (let op1 = AL s;
          op2 = BX_READ_8BIT_REGx (src i) (extend8bitL i) s;
          product_16 = ucast op1 * ucast op2 :: Bit32u;
          product_8l = ucast (product_16 AND 0xFF) :: Bit8u;
          product_8h = ucast (drop_bit 8 product_16) :: Bit8u;
          s = set_AX (ucast product_16) s;
          e = SET_FLAGS_OSZAPC_LOGIC_8 (ucast product_8l) (oszapc s)
      in s\<lparr>oszapc := (if product_8h \<noteq> 0 then assert_flags_OxxxxC e else e)\<rparr>)"

definition IMUL_ALEbR :: handler where [mult_defs]:
  "IMUL_ALEbR i s =
     (let op1 = AL s;
          op2 = BX_READ_8BIT_REGx (src i) (extend8bitL i) s;
          product_16 = of_int (sint op1 * sint op2) :: Bit16u;
          product_8 = ucast (product_16 AND 0xFF) :: Bit8u;
          s = set_AX product_16 s;
          e = SET_FLAGS_OSZAPC_LOGIC_8 (ucast product_8) (oszapc s)
      in s\<lparr>oszapc := (if sint product_16 \<noteq> sint (ucast product_16 :: Bit8u) then assert_flags_OxxxxC e else e)\<rparr>)"

definition DIV_ALEbR :: fault_handler where [mult_defs]:
  "DIV_ALEbR i s =
     (let op2 = BX_READ_8BIT_REGx (src i) (extend8bitL i) s
      in if op2 = 0 then Inl BX_DE_EXCEPTION
         else
           let op1 = AX s;
               quotient_16 = op1 div ucast op2;
               remainder_8 = ucast (op1 mod ucast op2) :: Bit8u;
               quotient_8l = ucast (quotient_16 AND 0xFF) :: Bit8u
           in if quotient_16 \<noteq> ucast quotient_8l then Inl BX_DE_EXCEPTION
              else Inr (set_AH remainder_8 (set_AL quotient_8l s)))"

definition IDIV_ALEbR :: fault_handler where [mult_defs]:
  "IDIV_ALEbR i s =
     (let op1 = AX s
      in if op1 = 0x8000 then Inl BX_DE_EXCEPTION
         else
           let op2 = BX_READ_8BIT_REGx (src i) (extend8bitL i) s
           in if op2 = 0 then Inl BX_DE_EXCEPTION
              else
                let quotient_16 = of_int (sint op1 sdiv sint op2) :: Bit16u;
                    remainder_8 = of_int (sint op1 smod sint op2) :: Bit8u;
                    quotient_8l = ucast (quotient_16 AND 0xFF) :: Bit8u
                in if sint quotient_16 \<noteq> sint quotient_8l then Inl BX_DE_EXCEPTION
                   else Inr (set_AH remainder_8 (set_AL quotient_8l s)))"

subsection \<open>\<^verbatim>\<open>mult16.cc\<close>\<close>

definition MUL_AXEwR :: handler where [mult_defs]:
  "MUL_AXEwR i s =
     (let op1_16 = AX s;
          op2_16 = BX_READ_16BIT_REG (src i) s;
          product_32 = ucast op1_16 * ucast op2_16 :: Bit32u;
          product_16l = ucast (product_32 AND 0xFFFF) :: Bit16u;
          product_16h = ucast (drop_bit 16 product_32) :: Bit16u;
          s = set_AX product_16l s;
          s = set_DX product_16h s;
          e = SET_FLAGS_OSZAPC_LOGIC_16 (ucast product_16l) (oszapc s)
      in s\<lparr>oszapc := (if product_16h \<noteq> 0 then assert_flags_OxxxxC e else e)\<rparr>)"

definition IMUL_AXEwR :: handler where [mult_defs]:
  "IMUL_AXEwR i s =
     (let op1_16 = AX s;
          op2_16 = BX_READ_16BIT_REG (src i) s;
          product_32 = of_int (sint op1_16 * sint op2_16) :: Bit32u;
          product_16l = ucast (product_32 AND 0xFFFF) :: Bit16u;
          product_16h = ucast (drop_bit 16 product_32) :: Bit16u;
          s = set_AX product_16l s;
          s = set_DX product_16h s;
          e = SET_FLAGS_OSZAPC_LOGIC_16 (ucast product_16l) (oszapc s)
      in s\<lparr>oszapc := (if sint product_32 \<noteq> sint (ucast product_32 :: Bit16u) then assert_flags_OxxxxC e else e)\<rparr>)"

definition DIV_AXEwR :: fault_handler where [mult_defs]:
  "DIV_AXEwR i s =
     (let op2_16 = BX_READ_16BIT_REG (src i) s
      in if op2_16 = 0 then Inl BX_DE_EXCEPTION
         else
           let op1_32 = push_bit 16 (ucast (DX s)) OR ucast (AX s) :: Bit32u;
               quotient_32 = op1_32 div ucast op2_16;
               remainder_16 = ucast (op1_32 mod ucast op2_16) :: Bit16u;
               quotient_16l = ucast (quotient_32 AND 0xFFFF) :: Bit16u
           in if quotient_32 \<noteq> ucast quotient_16l then Inl BX_DE_EXCEPTION
              else Inr (set_DX remainder_16 (set_AX quotient_16l s)))"

definition IDIV_AXEwR :: fault_handler where [mult_defs]:
  "IDIV_AXEwR i s =
     (let op1_32 = push_bit 16 (ucast (DX s)) OR ucast (AX s) :: Bit32u
      in if op1_32 = 0x80000000 then Inl BX_DE_EXCEPTION
         else
           let op2_16 = BX_READ_16BIT_REG (src i) s
           in if op2_16 = 0 then Inl BX_DE_EXCEPTION
              else
                let quotient_32 = of_int (sint op1_32 sdiv sint op2_16) :: Bit32u;
                    remainder_16 = of_int (sint op1_32 smod sint op2_16) :: Bit16u;
                    quotient_16l = ucast (quotient_32 AND 0xFFFF) :: Bit16u
                in if sint quotient_32 \<noteq> sint quotient_16l then Inl BX_DE_EXCEPTION
                   else Inr (set_DX remainder_16 (set_AX quotient_16l s)))"

definition IMUL_GwEwIwR :: handler where [mult_defs]:
  "IMUL_GwEwIwR i s =
     (let op2_16 = BX_READ_16BIT_REG (src i) s;
          op3_16 = Iw i;
          product_32 = of_int (sint op2_16 * sint op3_16) :: Bit32u;
          product_16 = ucast (product_32 AND 0xFFFF) :: Bit16u;
          s = BX_WRITE_16BIT_REG (dst i) product_16 s;
          e = SET_FLAGS_OSZAPC_LOGIC_16 (ucast product_16) (oszapc s)
      in s\<lparr>oszapc := (if sint product_32 \<noteq> sint (ucast product_32 :: Bit16u) then assert_flags_OxxxxC e else e)\<rparr>)"

definition IMUL_GwEwR :: handler where [mult_defs]:
  "IMUL_GwEwR i s =
     (let op1_16 = BX_READ_16BIT_REG (dst i) s;
          op2_16 = BX_READ_16BIT_REG (src i) s;
          product_32 = of_int (sint op1_16 * sint op2_16) :: Bit32u;
          product_16 = ucast (product_32 AND 0xFFFF) :: Bit16u;
          s = BX_WRITE_16BIT_REG (dst i) product_16 s;
          e = SET_FLAGS_OSZAPC_LOGIC_16 (ucast product_16) (oszapc s)
      in s\<lparr>oszapc := (if sint product_32 \<noteq> sint (ucast product_32 :: Bit16u) then assert_flags_OxxxxC e else e)\<rparr>)"

subsection \<open>\<^verbatim>\<open>mult32.cc\<close>\<close>

definition GET32L :: "Bit64u \<Rightarrow> Bit32u" where "GET32L val64 = ucast (val64 AND 0xFFFFFFFF)"
definition GET32H :: "Bit64u \<Rightarrow> Bit32u" where "GET32H val64 = ucast (drop_bit 32 val64)"

definition MUL_EAXEdR :: handler where [mult_defs]:
  "MUL_EAXEdR i s =
     (let op1_32 = EAX s;
          op2_32 = BX_READ_32BIT_REG (src i) s;
          product_64 = ucast op1_32 * ucast op2_32 :: Bit64u;
          product_32l = GET32L product_64;
          product_32h = GET32H product_64;
          s = set_RAX (ucast product_32l) s;
          s = set_RDX (ucast product_32h) s;
          e = SET_FLAGS_OSZAPC_LOGIC_32 product_32l (oszapc s)
      in s\<lparr>oszapc := (if product_32h \<noteq> 0 then assert_flags_OxxxxC e else e)\<rparr>)"

definition IMUL_EAXEdR :: handler where [mult_defs]:
  "IMUL_EAXEdR i s =
     (let op1_32 = EAX s;
          op2_32 = BX_READ_32BIT_REG (src i) s;
          product_64 = scast op1_32 * scast op2_32 :: Bit64u;
          product_32l = GET32L product_64;
          product_32h = GET32H product_64;
          s = set_RAX (ucast product_32l) s;
          s = set_RDX (ucast product_32h) s;
          e = SET_FLAGS_OSZAPC_LOGIC_32 product_32l (oszapc s)
      in s\<lparr>oszapc := (if sint product_64 \<noteq> sint (ucast product_64 :: Bit32u) then assert_flags_OxxxxC e else e)\<rparr>)"

definition DIV_EAXEdR :: fault_handler where [mult_defs]:
  "DIV_EAXEdR i s =
     (let op2_32 = BX_READ_32BIT_REG (src i) s
      in if op2_32 = 0 then Inl BX_DE_EXCEPTION
         else
           let op1_64 = push_bit 32 (ucast (EDX s)) + ucast (EAX s) :: Bit64u;
               quotient_64 = op1_64 div ucast op2_32;
               remainder_32 = ucast (op1_64 mod ucast op2_32) :: Bit32u;
               quotient_32l = ucast (quotient_64 AND 0xFFFFFFFF) :: Bit32u
           in if quotient_64 \<noteq> ucast quotient_32l then Inl BX_DE_EXCEPTION
              else Inr (set_RDX (ucast remainder_32) (set_RAX (ucast quotient_32l) s)))"

definition IDIV_EAXEdR :: fault_handler where [mult_defs]:
  "IDIV_EAXEdR i s =
     (let op1_64 = push_bit 32 (ucast (EDX s)) OR ucast (EAX s) :: Bit64u
      in if op1_64 = 0x8000000000000000 then Inl BX_DE_EXCEPTION
         else
           let op2_32 = BX_READ_32BIT_REG (src i) s
           in if op2_32 = 0 then Inl BX_DE_EXCEPTION
              else
                let quotient_64 = of_int (sint op1_64 sdiv sint op2_32) :: Bit64u;
                    remainder_32 = of_int (sint op1_64 smod sint op2_32) :: Bit32u;
                    quotient_32l = ucast (quotient_64 AND 0xFFFFFFFF) :: Bit32u
                in if sint quotient_64 \<noteq> sint quotient_32l then Inl BX_DE_EXCEPTION
                   else Inr (set_RDX (ucast remainder_32) (set_RAX (ucast quotient_32l) s)))"

definition IMUL_GdEdIdR :: handler where [mult_defs]:
  "IMUL_GdEdIdR i s =
     (let op2_32 = BX_READ_32BIT_REG (src i) s;
          op3_32 = Id i;
          product_64 = scast op2_32 * scast op3_32 :: Bit64u;
          product_32 = ucast (product_64 AND 0xFFFFFFFF) :: Bit32u;
          s = BX_WRITE_32BIT_REGZ (dst i) product_32 s;
          e = SET_FLAGS_OSZAPC_LOGIC_32 product_32 (oszapc s)
      in s\<lparr>oszapc := (if sint product_64 \<noteq> sint (ucast product_64 :: Bit32u) then assert_flags_OxxxxC e else e)\<rparr>)"

definition IMUL_GdEdR :: handler where [mult_defs]:
  "IMUL_GdEdR i s =
     (let op1_32 = BX_READ_32BIT_REG (dst i) s;
          op2_32 = BX_READ_32BIT_REG (src i) s;
          product_64 = scast op1_32 * scast op2_32 :: Bit64u;
          product_32 = ucast (product_64 AND 0xFFFFFFFF) :: Bit32u;
          s = BX_WRITE_32BIT_REGZ (dst i) product_32 s;
          e = SET_FLAGS_OSZAPC_LOGIC_32 product_32 (oszapc s)
      in s\<lparr>oszapc := (if sint product_64 \<noteq> sint (ucast product_64 :: Bit32u) then assert_flags_OxxxxC e else e)\<rparr>)"

subsection \<open>\<^verbatim>\<open>mult64.cc\<close>\<close>

definition MUL_RAXEqR :: handler where [mult_defs]:
  "MUL_RAXEqR i s =
     (let op1_64 = RAX s;
          op2_64 = BX_READ_64BIT_REG (src i) s;
          product_128 = long_mul op1_64 op2_64;
          s = set_RAX (lo product_128) s;
          s = set_RDX (hi product_128) s;
          e = SET_FLAGS_OSZAPC_LOGIC_64 (lo product_128) (oszapc s)
      in s\<lparr>oszapc := (if hi product_128 \<noteq> 0 then assert_flags_OxxxxC e else e)\<rparr>)"

definition IMUL_RAXEqR :: handler where [mult_defs]:
  "IMUL_RAXEqR i s =
     (let op1_64 = RAX s;
          op2_64 = BX_READ_64BIT_REG (src i) s;
          product_128 = long_imul op1_64 op2_64;
          s = set_RAX (lo product_128) s;
          s = set_RDX (hi product_128) s;
          e = SET_FLAGS_OSZAPC_LOGIC_64 (lo product_128) (oszapc s)
      in s\<lparr>oszapc := (if hi product_128 + drop_bit 63 (lo product_128) \<noteq> 0 then assert_flags_OxxxxC e else e)\<rparr>)"

definition DIV_RAXEqR :: fault_handler where [mult_defs]:
  "DIV_RAXEqR i s =
     (let op2_64 = BX_READ_64BIT_REG (src i) s
      in if op2_64 = 0 then Inl BX_DE_EXCEPTION
         else
           let op1_128 = \<lparr>lo = RAX s, hi = RDX s\<rparr>;
               (quotient_128, remainder_64) = long_div op1_128 op2_64;
               quotient_64l = lo quotient_128
           in if hi quotient_128 \<noteq> 0 then Inl BX_DE_EXCEPTION
              else Inr (set_RDX remainder_64 (set_RAX quotient_64l s)))"

definition IDIV_RAXEqR :: fault_handler where [mult_defs]:
  "IDIV_RAXEqR i s =
     (let op1_128 = \<lparr>lo = RAX s, hi = RDX s\<rparr>
      in if hi op1_128 = 0x8000000000000000 \<and> lo op1_128 = 0 then Inl BX_DE_EXCEPTION
         else
           let op2_64 = BX_READ_64BIT_REG (src i) s
           in if op2_64 = 0 then Inl BX_DE_EXCEPTION
              else
                let (quotient_128, remainder_64) = long_idiv op1_128 op2_64;
                    quotient_64l = lo quotient_128
                in if (lo quotient_128 AND 0x8000000000000000 = 0 \<and> hi quotient_128 \<noteq> 0) \<or>
                      (lo quotient_128 AND 0x8000000000000000 \<noteq> 0 \<and> hi quotient_128 \<noteq> 0xffffffffffffffff)
                   then Inl BX_DE_EXCEPTION
                   else Inr (set_RDX remainder_64 (set_RAX quotient_64l s)))"

definition IMUL_GqEqIdR :: handler where [mult_defs]:
  "IMUL_GqEqIdR i s =
     (let op1_64 = BX_READ_64BIT_REG (src i) s;
          op2_64 = scast (Id i);
          product_128 = long_imul op1_64 op2_64;
          s = BX_WRITE_64BIT_REG (dst i) (lo product_128) s;
          e = SET_FLAGS_OSZAPC_LOGIC_64 (lo product_128) (oszapc s)
      in s\<lparr>oszapc := (if hi product_128 + drop_bit 63 (lo product_128) \<noteq> 0 then assert_flags_OxxxxC e else e)\<rparr>)"

definition IMUL_GqEqR :: handler where [mult_defs]:
  "IMUL_GqEqR i s =
     (let op1_64 = BX_READ_64BIT_REG (dst i) s;
          op2_64 = BX_READ_64BIT_REG (src i) s;
          product_128 = long_imul op1_64 op2_64;
          s = BX_WRITE_64BIT_REG (dst i) (lo product_128) s;
          e = SET_FLAGS_OSZAPC_LOGIC_64 (lo product_128) (oszapc s)
      in s\<lparr>oszapc := (if hi product_128 + drop_bit 63 (lo product_128) \<noteq> 0 then assert_flags_OxxxxC e else e)\<rparr>)"

section \<open>Results in the abstract machine\<close>

text \<open>
  A product goes to a low and a high operand; OF and CF tell that the low one alone does not hold
  it. A quotient that fits goes to one operand and the remainder to the other; otherwise, and for
  a zero divisor, the instruction faults.
\<close>

definition mul_result :: "('n::len word \<Rightarrow> acpu \<Rightarrow> acpu) \<Rightarrow> ('n word \<Rightarrow> acpu \<Rightarrow> acpu) \<Rightarrow> int \<Rightarrow> bool \<Rightarrow> acpu \<Rightarrow> acpu" where
  "mul_result wlo whi p ov a =
     (whi (of_int (p div 2 ^ LENGTH('n))) (wlo (of_int p) a))
       \<lparr>aflags := (logic_oszapc (of_int p :: 'n word))\<lparr>f_OF := ov, f_CF := ov\<rparr>\<rparr>"

definition spec_mul :: "('n::len word \<Rightarrow> acpu \<Rightarrow> acpu) \<Rightarrow> ('n word \<Rightarrow> acpu \<Rightarrow> acpu) \<Rightarrow> 'n word \<Rightarrow> 'n word \<Rightarrow> acpu \<Rightarrow> acpu" where
  "spec_mul wlo whi x y a = (let p = uint x * uint y in mul_result wlo whi p (2 ^ LENGTH('n) \<le> p) a)"

definition spec_imul :: "('n::len word \<Rightarrow> acpu \<Rightarrow> acpu) \<Rightarrow> ('n word \<Rightarrow> acpu \<Rightarrow> acpu) \<Rightarrow> 'n word \<Rightarrow> 'n word \<Rightarrow> acpu \<Rightarrow> acpu" where
  "spec_imul wlo whi x y a = (let p = sint x * sint y in mul_result wlo whi p (sint (of_int p :: 'n word) \<noteq> p) a)"

definition spec_div :: "('n::len word \<Rightarrow> acpu \<Rightarrow> acpu) \<Rightarrow> ('n word \<Rightarrow> acpu \<Rightarrow> acpu) \<Rightarrow> int \<Rightarrow> int \<Rightarrow> acpu \<Rightarrow> BX_Exception + acpu" where
  "spec_div wq wr x y a =
     (if y = 0 \<or> 2 ^ LENGTH('n) \<le> x div y then Inl BX_DE_EXCEPTION
      else Inr (wr (of_int (x mod y)) (wq (of_int (x div y)) a)))"

definition spec_idiv :: "('n::len word \<Rightarrow> acpu \<Rightarrow> acpu) \<Rightarrow> ('n word \<Rightarrow> acpu \<Rightarrow> acpu) \<Rightarrow> int \<Rightarrow> int \<Rightarrow> acpu \<Rightarrow> BX_Exception + acpu" where
  "spec_idiv wq wr x y a =
     (if y = 0 \<or> x sdiv y < - (2 ^ (LENGTH('n) - 1)) \<or> 2 ^ (LENGTH('n) - 1) \<le> x sdiv y then Inl BX_DE_EXCEPTION
      else Inr (wr (of_int (x smod y)) (wq (of_int (x sdiv y)) a)))"

section \<open>Products as words\<close>

lemma ucast_of_int: "LENGTH('n) \<le> LENGTH('w) \<Longrightarrow> (ucast (of_int p :: 'w::len word) :: 'n::len word) = of_int p"
  by (rule bit_word_eqI) (simp add: bit_simps)

lemma low_half: "LENGTH('n) \<le> LENGTH('w) \<Longrightarrow> (ucast ((of_int p :: 'w::len word) AND mask LENGTH('n)) :: 'n::len word) = of_int p"
  by (rule bit_word_eqI) (auto simp: bit_simps)

lemma high_half: "k + LENGTH('n) \<le> LENGTH('w) \<Longrightarrow> (ucast (drop_bit k (of_int p :: 'w::len word)) :: 'n::len word) = of_int (p div 2 ^ k)"
  by (rule bit_word_eqI) (auto simp: bit_simps simp flip: drop_bit_eq_div)

lemma halves_of_int:
  "(ucast (of_int p AND 0xFF :: Bit32u) :: Bit8u) = of_int p" "(ucast (of_int p AND 0xFF :: Bit16u) :: Bit8u) = of_int p"
  "(ucast (of_int p AND 0xFFFF :: Bit32u) :: Bit16u) = of_int p" "(ucast (of_int p AND 0xFFFFFFFF :: Bit64u) :: Bit32u) = of_int p"
  "(ucast (drop_bit 8 (of_int p :: Bit32u)) :: Bit8u) = of_int (p div 256)"
  "(ucast (drop_bit 16 (of_int p :: Bit32u)) :: Bit16u) = of_int (p div 65536)"
  "(ucast (drop_bit 32 (of_int p :: Bit64u)) :: Bit32u) = of_int (p div 4294967296)"
  "(ucast (of_int p :: Bit32u) :: Bit16u) = of_int p" "(ucast (of_int p :: Bit16u) :: Bit8u) = of_int p"
  "(ucast (of_int p :: Bit64u) :: Bit32u) = of_int p"
  using low_half [where 'n = 8 and 'w = 32, of p] low_half [where 'n = 8 and 'w = 16, of p]
    low_half [where 'n = 16 and 'w = 32, of p] low_half [where 'n = 32 and 'w = 64, of p]
  by (simp_all add: mask_numeral high_half ucast_of_int)

lemma product_of_int:
  "(ucast a * ucast b :: 'w::len word) = of_int (uint a * uint b)" "(scast a * scast b :: 'w word) = of_int (sint a * sint b)"
  by simp_all

lemma uint_product_less: "uint a * uint b < 2 ^ LENGTH('a) * 2 ^ LENGTH('a)" for a b :: "'a::len word"
  by (intro mult_strict_mono') auto

lemma high_nonzero: "0 \<le> p \<Longrightarrow> p < 2 ^ LENGTH('n) * 2 ^ LENGTH('n) \<Longrightarrow> (of_int (p div 2 ^ LENGTH('n)) :: 'n::len word) \<noteq> 0 \<longleftrightarrow> 2 ^ LENGTH('n) \<le> p"
proof -
  assume p: "0 \<le> p" "p < 2 ^ LENGTH('n) * 2 ^ LENGTH('n)"
  have "p div 2 ^ LENGTH('n) < 2 ^ LENGTH('n)"
  proof (rule ccontr)
    assume "\<not> ?thesis"
    then have "2 ^ LENGTH('n) * 2 ^ LENGTH('n) \<le> p div 2 ^ LENGTH('n) * 2 ^ LENGTH('n)" by (intro mult_right_mono) auto
    also have "\<dots> \<le> p" by (simp flip: minus_mod_eq_div_mult)
    finally show False using p(2) by simp
  qed
  moreover have "0 \<le> p div 2 ^ LENGTH('n)" using p(1) by (simp add: pos_imp_zdiv_nonneg_iff)
  ultimately have "uint (of_int (p div 2 ^ LENGTH('n)) :: 'n word) = p div 2 ^ LENGTH('n)" by (simp add: uint_word_of_int)
  then show ?thesis using p(1) by (auto simp: word_uint_eq_iff zdiv_eq_0_iff)
qed

lemma sint_of_int: "- (2 ^ (LENGTH('n) - 1)) \<le> p \<Longrightarrow> p < 2 ^ (LENGTH('n) - 1) \<Longrightarrow> sint (of_int p :: 'n::len word) = p"
  by (simp add: sint_sbintrunc' signed_take_bit_int_eq_self)

lemma sint_fits: "sint (of_int p :: 'n::len word) = p \<longleftrightarrow> - (2 ^ (LENGTH('n) - 1)) \<le> p \<and> p < 2 ^ (LENGTH('n) - 1)"
  using sint_of_int [where 'n = 'n, of p] sint_ge [of "of_int p :: 'n word"] sint_lt [of "of_int p :: 'n word"] by metis

lemma sint_product_bounds:
  "\<bar>sint a * sint b\<bar> \<le> 2 ^ (LENGTH('a) - 1) * 2 ^ (LENGTH('a) - 1)" for a b :: "'a::len word"
proof -
  have "\<bar>sint w\<bar> \<le> 2 ^ (LENGTH('a) - 1)" for w :: "'a word"
    using sint_ge [of w] sint_lt [of w] by (simp add: abs_le_iff)
  then show ?thesis unfolding abs_mult by (intro mult_mono) auto
qed

lemma product_signed_overflow:
  "sint (scast a * scast b :: Bit16u) = sint a * sint b" "sint (scast c * scast d :: Bit32u) = sint c * sint d"
  "sint (scast e * scast f :: Bit64u) = sint e * sint f"
  for a b :: Bit8u and c d :: Bit16u and e f :: Bit32u
  using sint_product_bounds [of a b] sint_product_bounds [of c d] sint_product_bounds [of e f]
  unfolding product_of_int(2) by (intro sint_of_int; simp add: abs_le_iff)+

section \<open>Registers in the abstract machine\<close>

lemma acpu_pair_writes [simp]:
  "acpu_of (set_DX u s) = w16 2 u (acpu_of s)" "acpu_of (set_RDX z s) = w64 2 z (acpu_of s)" "acpu_of (set_AH v s) = w8 4 False v (acpu_of s)"
  "w64 n (ucast (y :: Bit32u)) a = w32 n y a"
  by (simp_all add: acpu_of_def operand_defs cpu_reg_defs bit_0 del: lf_flags_acpu acpu_reads)

lemma set_rx_bytes: "set_rx w r = set_rh (ucast (drop_bit 8 w)) (set_rl (ucast w) r)"
  unfolding reg_defs take_bit_mask_simps by (rule bit_word_eqI) (auto simp: bit_simps dest: bit_imp_le_length)

lemma w16_bytes: "w16 0 (of_int p) a = w8 4 False (of_int (p div 256)) (w8 0 False (of_int p) a)"
  by (simp add: operand_defs set_rx_bytes high_half ucast_of_int bit_0)

lemma acpu_pair_reads: "DX s = r16 2 (acpu_of s)" "EDX s = r32 2 (acpu_of s)" "RDX s = r64 2 (acpu_of s)"
  by (simp_all add: acpu_of_def operand_defs DX_def EDX_def RDX_def del: lf_flags_acpu acpu_reads)

lemma oszapc_pair_writes [simp]: "oszapc (set_DX u s) = oszapc s" "oszapc (set_RDX z s) = oszapc s" "oszapc (set_RAX z s) = oszapc s"
  "oszapc (set_AX u s) = oszapc s"
  by (simp_all add: cpu_reg_defs)

lemma lf_flags_assert_if:
  "lf_flags (if c then assert_flags_OxxxxC e else e) = (if c then (lf_flags e)\<lparr>f_OF := True, f_CF := True\<rparr> else lf_flags e)"
  using lf_flags_set_flags_OxxxxC [of True True e] by (simp add: assert_flags_OxxxxC_def)

lemma logic_flags_no_overflow [simp]: "(logic_oszapc r)\<lparr>f_OF := False, f_CF := False\<rparr> = logic_oszapc r"
  by (simp add: logic_oszapc_def)

lemmas mult_refine_simps = halves_of_int ucast_of_int GET32L_def GET32H_def w16_bytes lf_flags_assert_if logic_flags_sized mul_result_def

section \<open>Multiplication\<close>

lemma long_of_val: "val128 x = p \<Longrightarrow> lo x = of_int p \<and> hi x = of_int (p div 2 ^ 64)"
proof -
  assume "val128 x = p"
  moreover have "0 \<le> uint (lo x)" "uint (lo x) < 2 ^ 64" using uint_lt2p [of "lo x"] by simp_all
  ultimately have "p div 2 ^ 64 = uint (hi x)" "p mod 2 ^ 64 = uint (lo x)" by (auto simp: val128_def)
  then show ?thesis by (simp add: word_uint_eq_iff uint_word_of_int)
qed

lemma long_of_sval: "sval128 x = p \<Longrightarrow> lo x = of_int p \<and> hi x = of_int (p div 2 ^ 64)"
proof -
  assume p: "sval128 x = p"
  have "of_int p = (of_int (val128 x) :: Bit64u)" "p div 2 ^ 64 = val128 x div 2 ^ 64 \<or> p div 2 ^ 64 = val128 x div 2 ^ 64 - 2 ^ 64"
    using p by (auto simp: sval128_val128)
  then show ?thesis using long_of_val [OF refl, of x] by auto
qed

lemma drop_bit_63: "drop_bit 63 w = of_bool (bit w 63)" for w :: Bit64u
proof (rule bit_word_eqI)
  fix n
  show "n < LENGTH(64) \<Longrightarrow> bit (drop_bit 63 w) n = bit (of_bool (bit w 63) :: Bit64u) n"
    by (cases n) (auto simp: bit_simps dest: bit_imp_le_length)
qed

lemma magic_compare:
  assumes "sval128 x = p" shows "hi x + drop_bit 63 (lo x) \<noteq> 0 \<longleftrightarrow> sint (of_int p :: Bit64u) \<noteq> p"
proof -
  define b where "b \<longleftrightarrow> bit (lo x) 63"
  have top: "drop_bit 63 (lo x) = of_bool b" by (simp only: b_def drop_bit_63)
  have "b \<longleftrightarrow> sint (lo x) < 0" by (simp add: b_def sint_less_0_bit)
  then have lo: "sint (lo x) = uint (lo x) - 2 ^ 64 * of_bool b"
    using uint_lt2p [of "lo x"] by (auto simp: sint_cases)
  have "hi x + of_bool b = 0 \<longleftrightarrow> hi x = - of_bool b" by (simp add: eq_neg_iff_add_eq_0)
  also have "\<dots> \<longleftrightarrow> sint (hi x) = - of_bool b" using signed_word_eqI [where 'a = int, of "hi x" "- of_bool b"] by (cases b) auto
  also have "\<dots> \<longleftrightarrow> sint (lo x) = p" using assms lo by (auto simp: sval128_def)
  finally show ?thesis using long_of_sval [OF assms] top by simp
qed

lemma MUL_8: "acpu_of (MUL_ALEbR i s) = spec_mul (w8 0 False) (w8 4 False) (r8 0 False (acpu_of s)) (r8 (src i) (extend8bitL i) (acpu_of s)) (acpu_of s)"
proof -
  define p where "p = uint (r8 0 False (acpu_of s)) * uint (r8 (src i) (extend8bitL i) (acpu_of s))"
  have p: "0 \<le> p" "p < 2 ^ LENGTH(8) * 2 ^ LENGTH(8)" unfolding p_def by (simp, rule uint_product_less)
  have m: "(ucast (AL s) * ucast (BX_READ_8BIT_REGx (src i) (extend8bitL i) s) :: Bit32u) = of_int p"
    unfolding p_def product_of_int by (simp only: acpu_reads)
  show ?thesis
    unfolding MUL_ALEbR_def spec_mul_def Let_def m p_def [symmetric] using high_nonzero [OF p]
    by (simp add: mult_refine_simps del: lf_flags_acpu)
qed

lemma MUL_16: "acpu_of (MUL_AXEwR i s) = spec_mul (w16 0) (w16 2) (r16 0 (acpu_of s)) (r16 (src i) (acpu_of s)) (acpu_of s)"
proof -
  define p where "p = uint (r16 0 (acpu_of s)) * uint (r16 (src i) (acpu_of s))"
  have p: "0 \<le> p" "p < 2 ^ LENGTH(16) * 2 ^ LENGTH(16)" unfolding p_def by (simp, rule uint_product_less)
  have m: "(ucast (AX s) * ucast (BX_READ_16BIT_REG (src i) s) :: Bit32u) = of_int p"
    unfolding p_def product_of_int by (simp only: acpu_reads)
  show ?thesis
    unfolding MUL_AXEwR_def spec_mul_def Let_def m p_def [symmetric] using high_nonzero [OF p]
    by (simp add: mult_refine_simps del: lf_flags_acpu)
qed

lemma MUL_32: "acpu_of (MUL_EAXEdR i s) = spec_mul (w32 0) (w32 2) (r32 0 (acpu_of s)) (r32 (src i) (acpu_of s)) (acpu_of s)"
proof -
  define p where "p = uint (r32 0 (acpu_of s)) * uint (r32 (src i) (acpu_of s))"
  have p: "0 \<le> p" "p < 2 ^ LENGTH(32) * 2 ^ LENGTH(32)" unfolding p_def by (simp, rule uint_product_less)
  have m: "(ucast (EAX s) * ucast (BX_READ_32BIT_REG (src i) s) :: Bit64u) = of_int p"
    unfolding p_def product_of_int by (simp only: acpu_reads)
  show ?thesis
    unfolding MUL_EAXEdR_def spec_mul_def Let_def m p_def [symmetric] using high_nonzero [OF p]
    by (simp add: mult_refine_simps del: lf_flags_acpu)
qed

lemma MUL_64: "acpu_of (MUL_RAXEqR i s) = spec_mul (w64 0) (w64 2) (r64 0 (acpu_of s)) (r64 (src i) (acpu_of s)) (acpu_of s)"
proof -
  define p where "p = uint (r64 0 (acpu_of s)) * uint (r64 (src i) (acpu_of s))"
  have p: "0 \<le> p" "p < 2 ^ LENGTH(64) * 2 ^ LENGTH(64)" unfolding p_def by (simp, rule uint_product_less)
  have m: "lo (long_mul (RAX s) (BX_READ_64BIT_REG (src i) s)) = of_int p" "hi (long_mul (RAX s) (BX_READ_64BIT_REG (src i) s)) = of_int (p div 2 ^ 64)"
    using long_of_val [OF long_mul_val, of "RAX s" "BX_READ_64BIT_REG (src i) s"] by (simp_all only: p_def acpu_reads)
  show ?thesis
    unfolding MUL_RAXEqR_def spec_mul_def Let_def m p_def [symmetric] using high_nonzero [OF p]
    by (simp add: mult_refine_simps del: lf_flags_acpu)
qed

lemma IMUL_ALEbR_spec: "acpu_of (IMUL_ALEbR i s) = spec_imul (w8 0 False) (w8 4 False) (r8 0 False (acpu_of s)) (r8 (src i) (extend8bitL i) (acpu_of s)) (acpu_of s)"
proof -
  define p where "p = sint (r8 0 False (acpu_of s)) * sint (r8 (src i) (extend8bitL i) (acpu_of s))"
  have m: "(of_int (sint (AL s) * sint (BX_READ_8BIT_REGx (src i) (extend8bitL i) s)) :: Bit16u) = of_int p"
    unfolding p_def by (simp only: acpu_reads)
  have p: "sint (of_int p :: Bit16u) = p" using product_signed_overflow by (simp add: p_def)
  show ?thesis
    unfolding IMUL_ALEbR_def spec_imul_def Let_def m p_def [symmetric]
    by (simp add: p mult_refine_simps del: lf_flags_acpu)
qed

lemma IMUL_AXEwR_spec: "acpu_of (IMUL_AXEwR i s) = spec_imul (w16 0) (w16 2) (r16 0 (acpu_of s)) (r16 (src i) (acpu_of s)) (acpu_of s)"
proof -
  define p where "p = sint (r16 0 (acpu_of s)) * sint (r16 (src i) (acpu_of s))"
  have m: "(of_int (sint (AX s) * sint (BX_READ_16BIT_REG (src i) s)) :: Bit32u) = of_int p"
    unfolding p_def by (simp only: acpu_reads)
  have p: "sint (of_int p :: Bit32u) = p" using product_signed_overflow by (simp add: p_def)
  show ?thesis
    unfolding IMUL_AXEwR_def spec_imul_def Let_def m p_def [symmetric]
    by (simp add: p mult_refine_simps del: lf_flags_acpu)
qed

lemma IMUL_EAXEdR_spec: "acpu_of (IMUL_EAXEdR i s) = spec_imul (w32 0) (w32 2) (r32 0 (acpu_of s)) (r32 (src i) (acpu_of s)) (acpu_of s)"
proof -
  define p where "p = sint (r32 0 (acpu_of s)) * sint (r32 (src i) (acpu_of s))"
  have m: "(scast (EAX s) * scast (BX_READ_32BIT_REG (src i) s) :: Bit64u) = of_int p"
    unfolding p_def product_of_int by (simp only: acpu_reads)
  have p: "sint (of_int p :: Bit64u) = p" using product_signed_overflow by (simp add: p_def)
  show ?thesis
    unfolding IMUL_EAXEdR_def spec_imul_def Let_def m p_def [symmetric]
    by (simp add: p mult_refine_simps del: lf_flags_acpu)
qed

lemma IMUL_RAXEqR_spec: "acpu_of (IMUL_RAXEqR i s) = spec_imul (w64 0) (w64 2) (r64 0 (acpu_of s)) (r64 (src i) (acpu_of s)) (acpu_of s)"
proof -
  define p where "p = sint (r64 0 (acpu_of s)) * sint (r64 (src i) (acpu_of s) :: Bit64u)"
  define r where "r = long_imul (RAX s) (BX_READ_64BIT_REG (src i) s)"
  have v: "sval128 r = p" unfolding r_def long_imul_val p_def by (simp only: acpu_reads)
  note r = long_of_sval [OF v]
  show ?thesis
    unfolding IMUL_RAXEqR_def spec_imul_def Let_def p_def [symmetric] r_def [symmetric] magic_compare [OF v]
    using r by (simp add: mult_refine_simps del: lf_flags_acpu)
qed

lemma IMUL_GwEwR_spec: "acpu_of (IMUL_GwEwR i s) = spec_imul (w16 (dst i)) (\<lambda>_ a. a) (r16 (dst i) (acpu_of s)) (r16 (src i) (acpu_of s)) (acpu_of s)"
proof -
  define p where "p = sint (r16 (dst i) (acpu_of s)) * sint (r16 (src i) (acpu_of s))"
  have m: "(of_int (sint (BX_READ_16BIT_REG (dst i) s) * sint (BX_READ_16BIT_REG (src i) s)) :: Bit32u) = of_int p"
    unfolding p_def by (simp only: acpu_reads)
  have p: "sint (of_int p :: Bit32u) = p" using product_signed_overflow by (simp add: p_def)
  show ?thesis
    unfolding IMUL_GwEwR_def spec_imul_def Let_def m p_def [symmetric]
    by (simp add: p mult_refine_simps del: lf_flags_acpu)
qed

lemma IMUL_GwEwIwR_spec: "acpu_of (IMUL_GwEwIwR i s) = spec_imul (w16 (dst i)) (\<lambda>_ a. a) (r16 (src i) (acpu_of s)) (Iw i) (acpu_of s)"
proof -
  define p where "p = sint (r16 (src i) (acpu_of s)) * sint (Iw i)"
  have m: "(of_int (sint (BX_READ_16BIT_REG (src i) s) * sint (Iw i)) :: Bit32u) = of_int p"
    unfolding p_def by (simp only: acpu_reads)
  have p: "sint (of_int p :: Bit32u) = p" using product_signed_overflow by (simp add: p_def)
  show ?thesis
    unfolding IMUL_GwEwIwR_def spec_imul_def Let_def m p_def [symmetric]
    by (simp add: p mult_refine_simps del: lf_flags_acpu)
qed

lemma IMUL_GdEdR_spec: "acpu_of (IMUL_GdEdR i s) = spec_imul (w32 (dst i)) (\<lambda>_ a. a) (r32 (dst i) (acpu_of s)) (r32 (src i) (acpu_of s)) (acpu_of s)"
proof -
  define p where "p = sint (r32 (dst i) (acpu_of s)) * sint (r32 (src i) (acpu_of s))"
  have m: "(scast (BX_READ_32BIT_REG (dst i) s) * scast (BX_READ_32BIT_REG (src i) s) :: Bit64u) = of_int p"
    unfolding p_def product_of_int by (simp only: acpu_reads)
  have p: "sint (of_int p :: Bit64u) = p" using product_signed_overflow by (simp add: p_def)
  show ?thesis
    unfolding IMUL_GdEdR_def spec_imul_def Let_def m p_def [symmetric]
    by (simp add: p mult_refine_simps del: lf_flags_acpu)
qed

lemma IMUL_GdEdIdR_spec: "acpu_of (IMUL_GdEdIdR i s) = spec_imul (w32 (dst i)) (\<lambda>_ a. a) (r32 (src i) (acpu_of s)) (Id i) (acpu_of s)"
proof -
  define p where "p = sint (r32 (src i) (acpu_of s)) * sint (Id i)"
  have m: "(scast (BX_READ_32BIT_REG (src i) s) * scast (Id i) :: Bit64u) = of_int p"
    unfolding p_def product_of_int by (simp only: acpu_reads)
  have p: "sint (of_int p :: Bit64u) = p" using product_signed_overflow by (simp add: p_def)
  show ?thesis
    unfolding IMUL_GdEdIdR_def spec_imul_def Let_def m p_def [symmetric]
    by (simp add: p mult_refine_simps del: lf_flags_acpu)
qed

lemma IMUL_GqEqR_spec: "acpu_of (IMUL_GqEqR i s) = spec_imul (w64 (dst i)) (\<lambda>_ a. a) (r64 (dst i) (acpu_of s)) (r64 (src i) (acpu_of s)) (acpu_of s)"
proof -
  define p where "p = sint (r64 (dst i) (acpu_of s)) * sint (r64 (src i) (acpu_of s) :: Bit64u)"
  define r where "r = long_imul (BX_READ_64BIT_REG (dst i) s) (BX_READ_64BIT_REG (src i) s)"
  have v: "sval128 r = p" unfolding r_def long_imul_val p_def by (simp only: acpu_reads)
  note r = long_of_sval [OF v]
  show ?thesis
    unfolding IMUL_GqEqR_def spec_imul_def Let_def p_def [symmetric] r_def [symmetric] magic_compare [OF v]
    using r by (simp add: mult_refine_simps del: lf_flags_acpu)
qed

lemma IMUL_GqEqIdR_spec: "acpu_of (IMUL_GqEqIdR i s) = spec_imul (w64 (dst i)) (\<lambda>_ a. a) (r64 (src i) (acpu_of s)) (scast (Id i)) (acpu_of s)"
proof -
  define p where "p = sint (r64 (src i) (acpu_of s)) * sint (scast (Id i) :: Bit64u)"
  define r where "r = long_imul (BX_READ_64BIT_REG (src i) s) (scast (Id i))"
  have v: "sval128 r = p" unfolding r_def long_imul_val p_def by (simp only: acpu_reads)
  note r = long_of_sval [OF v]
  show ?thesis
    unfolding IMUL_GqEqIdR_def spec_imul_def Let_def p_def [symmetric] r_def [symmetric] magic_compare [OF v]
    using r by (simp add: mult_refine_simps del: lf_flags_acpu)
qed

section \<open>Division\<close>

lemma div_of_int:
  assumes "LENGTH('n) \<le> LENGTH('w)"
  shows "(x :: 'w::len word) div ucast (y :: 'n::len word) = of_int (uint x div uint y)" "x mod ucast y = of_int (uint x mod uint y)"
  using assms by (simp_all add: word_div_def word_mod_def uint_up_ucast is_up)

lemma quotient_fits:
  assumes "0 \<le> q" "q < 2 ^ LENGTH('w)" "LENGTH('n) \<le> LENGTH('w)"
  shows "(of_int q :: 'w::len word) \<noteq> ucast (of_int q :: 'n::len word) \<longleftrightarrow> 2 ^ LENGTH('n) \<le> q"
proof -
  have "uint (ucast (of_int q :: 'n word) :: 'w word) = q mod 2 ^ LENGTH('n)"
    using assms(3) by (simp add: uint_up_ucast is_up uint_word_of_int)
  moreover have "uint (of_int q :: 'w word) = q" using assms(1,2) by (simp add: uint_word_of_int)
  moreover have "q = q mod 2 ^ LENGTH('n) \<longleftrightarrow> \<not> 2 ^ LENGTH('n) \<le> q"
    using assms(1) by (metis mod_pos_pos_trivial not_le pos_mod_bound zero_less_numeral zero_less_power)
  ultimately show ?thesis by (simp add: word_uint_eq_iff)
qed

lemma uint_div_bounds: "0 \<le> uint x div uint y" "uint x div uint y < 2 ^ LENGTH('w)" for x :: "'w::len word" and y :: "'n::len word"
proof -
  show "0 \<le> uint x div uint y" by (simp add: div_int_pos_iff)
  have "uint x div uint y \<le> uint x"
    using zdiv_mono2 [of "uint x" 1 "uint y"] uint_pos [of y] by (cases "y = 0") auto
  then show "uint x div uint y < 2 ^ LENGTH('w)" using uint_lt2p [of x] by (rule order_le_less_trans)
qed

text \<open>The dividend in a register pair.\<close>

lemma pair_value:
  "push_bit 16 (ucast h) OR ucast l = (word_cat h l :: Bit32u)" "push_bit 32 (ucast h') OR ucast l' = (word_cat h' l' :: Bit64u)"
  "push_bit 32 (ucast h') + ucast l' = (word_cat h' l' :: Bit64u)"
  for h l :: Bit16u and h' l' :: Bit32u
proof -
  show 1: "push_bit 16 (ucast h) OR ucast l = (word_cat h l :: Bit32u)" and 2: "push_bit 32 (ucast h') OR ucast l' = (word_cat h' l' :: Bit64u)"
    by (rule bit_word_eqI; auto simp: bit_simps bit_word_cat_iff dest: bit_imp_le_length)+
  have "push_bit 32 (ucast h') + ucast l' = (push_bit 32 (ucast h') OR ucast l' :: Bit64u)"
    by (rule disjunctive_add) (auto simp: bit_simps dest: bit_imp_le_length)
  then show "push_bit 32 (ucast h') + ucast l' = (word_cat h' l' :: Bit64u)" using 2 by simp
qed

lemma uint_pair: "LENGTH('w) = 2 * LENGTH('n) \<Longrightarrow> uint (word_cat h l :: 'w::len word) = uint h * 2 ^ LENGTH('n) + uint l"
  for h l :: "'n::len word"
proof -
  assume w: "LENGTH('w) = 2 * LENGTH('n)"
  have "concat_bit LENGTH('n) (uint l) (uint h) = uint h * 2 ^ LENGTH('n) + uint l"
    by (simp add: concat_bit_eq push_bit_eq_mult)
  moreover have "uint h * 2 ^ LENGTH('n) + uint l < 2 ^ LENGTH('n) * 2 ^ LENGTH('n) + 0"
    by (intro digit_less) (auto simp flip: less_iff_succ_less_eq intro: zless_imp_add1_zle)
  moreover have "word_cat h l = (of_int (concat_bit LENGTH('n) (uint l) (uint h)) :: 'w word)" by (rule word_cat_eq')
  ultimately have "word_cat h l = (of_int (uint h * 2 ^ LENGTH('n) + uint l) :: 'w word)"
    "uint h * 2 ^ LENGTH('n) + uint l < 2 ^ LENGTH('w)" by (simp_all only: w mult_2 power_add add_0_right)
  then show ?thesis by (simp only: uint_word_of_int) (simp add: mod_pos_pos_trivial)
qed

lemma sint_pair: "LENGTH('w) = 2 * LENGTH('n) \<Longrightarrow> sint (word_cat h l :: 'w::len word) = sint h * 2 ^ LENGTH('n) + uint l"
  for h l :: "'n::len word"
proof -
  assume w: "LENGTH('w) = 2 * LENGTH('n)"
  obtain k where k: "2 ^ LENGTH('n) = 2 * (2 ^ k :: int)" by (metis len_not_eq_0 not0_implies_Suc power_Suc)
  define m where "m = (2 ^ LENGTH('n) :: int)"
  have l: "0 \<le> uint l" "uint l < m" using uint_lt2p [of l] by (simp_all add: m_def)
  have sq: "(2 ^ LENGTH('w) :: int) = m * m" by (simp add: w mult_2 power_add m_def)
  have "2 * (uint h * m + uint l) < m * m \<longleftrightarrow> 2 * uint h < m"
  proof
    assume "2 * uint h < m"
    then have "uint h + 1 \<le> 2 ^ k" using k m_def by simp
    from digit_less [OF this l(2), of 0] show "2 * (uint h * m + uint l) < m * m" using l k by (simp add: m_def)
  next
    assume lt: "2 * (uint h * m + uint l) < m * m"
    show "2 * uint h < m"
    proof (rule ccontr)
      assume "\<not> ?thesis"
      then have "m * m \<le> 2 * uint h * m" using l by (intro mult_right_mono) (simp_all add: m_def)
      then have "m * m \<le> 2 * (uint h * m)" by (simp only: mult.assoc)
      then show False using lt l(1) unfolding distrib_left by linarith
    qed
  qed
  then show ?thesis
    using uint_pair [OF w, of h l] by (simp add: sint_cases sq m_def [symmetric] algebra_simps)
qed

lemma DIV_8: "map_sum id acpu_of (DIV_ALEbR i s) =
    spec_div (w8 0 False) (w8 4 False) (uint (r16 0 (acpu_of s))) (uint (r8 (src i) (extend8bitL i) (acpu_of s))) (acpu_of s)"
proof -
  define x where "x = (r16 0 (acpu_of s))"
  define y where "y = r8 (src i) (extend8bitL i) (acpu_of s)"
  define q r where "q = uint x div uint y" and "r = uint x mod uint y"
  have d: "x div ucast y = of_int q" "x mod ucast y = of_int r" by (simp_all add: div_of_int q_def r_def)
  have fits: "(of_int q :: Bit16u) \<noteq> ucast (of_int q :: Bit8u) \<longleftrightarrow> 2 ^ 8 \<le> q"
    using quotient_fits [where 'n = 8, OF uint_div_bounds [of x y]] by (simp add: q_def)
  have "DIV_ALEbR i s = (if y = 0 then Inl BX_DE_EXCEPTION
      else if x div ucast y \<noteq> ucast (ucast (x div ucast y AND 0xFF) :: Bit8u) then Inl BX_DE_EXCEPTION
      else Inr (set_AH (ucast (x mod ucast y)) (set_AL (ucast (x div ucast y AND 0xFF)) s)))"
    by (simp only: DIV_ALEbR_def Let_def acpu_reads acpu_pair_reads pair_value x_def y_def)
  moreover have x: "uint (r16 0 (acpu_of s)) = uint x" by (simp add: x_def)
  ultimately show ?thesis
    unfolding d halves_of_int fits spec_div_def y_def [symmetric] x q_def [symmetric] r_def [symmetric]
    by (simp add: ucast_of_int uint_0_iff)
qed

lemma DIV_16: "map_sum id acpu_of (DIV_AXEwR i s) =
    spec_div (w16 0) (w16 2) (uint (r16 2 (acpu_of s)) * 2 ^ 16 + uint (r16 0 (acpu_of s))) (uint (r16 (src i) (acpu_of s))) (acpu_of s)"
proof -
  define x where "x = (word_cat (r16 2 (acpu_of s)) (r16 0 (acpu_of s)) :: Bit32u)"
  define y where "y = r16 (src i) (acpu_of s)"
  define q r where "q = uint x div uint y" and "r = uint x mod uint y"
  have d: "x div ucast y = of_int q" "x mod ucast y = of_int r" by (simp_all add: div_of_int q_def r_def)
  have fits: "(of_int q :: Bit32u) \<noteq> ucast (of_int q :: Bit16u) \<longleftrightarrow> 2 ^ 16 \<le> q"
    using quotient_fits [where 'n = 16, OF uint_div_bounds [of x y]] by (simp add: q_def)
  have "DIV_AXEwR i s = (if y = 0 then Inl BX_DE_EXCEPTION
      else if x div ucast y \<noteq> ucast (ucast (x div ucast y AND 0xFFFF) :: Bit16u) then Inl BX_DE_EXCEPTION
      else Inr (set_DX (ucast (x mod ucast y)) (set_AX (ucast (x div ucast y AND 0xFFFF)) s)))"
    by (simp only: DIV_AXEwR_def Let_def acpu_reads acpu_pair_reads pair_value x_def y_def)
  moreover have x: "uint (r16 2 (acpu_of s)) * 2 ^ 16 + uint (r16 0 (acpu_of s)) = uint x" by (simp add: x_def uint_pair)
  ultimately show ?thesis
    unfolding d halves_of_int fits spec_div_def y_def [symmetric] x q_def [symmetric] r_def [symmetric]
    by (simp add: ucast_of_int uint_0_iff)
qed

lemma DIV_32: "map_sum id acpu_of (DIV_EAXEdR i s) =
    spec_div (w32 0) (w32 2) (uint (r32 2 (acpu_of s)) * 2 ^ 32 + uint (r32 0 (acpu_of s))) (uint (r32 (src i) (acpu_of s))) (acpu_of s)"
proof -
  define x where "x = (word_cat (r32 2 (acpu_of s)) (r32 0 (acpu_of s)) :: Bit64u)"
  define y where "y = r32 (src i) (acpu_of s)"
  define q r where "q = uint x div uint y" and "r = uint x mod uint y"
  have d: "x div ucast y = of_int q" "x mod ucast y = of_int r" by (simp_all add: div_of_int q_def r_def)
  have fits: "(of_int q :: Bit64u) \<noteq> ucast (of_int q :: Bit32u) \<longleftrightarrow> 2 ^ 32 \<le> q"
    using quotient_fits [where 'n = 32, OF uint_div_bounds [of x y]] by (simp add: q_def)
  have "DIV_EAXEdR i s = (if y = 0 then Inl BX_DE_EXCEPTION
      else if x div ucast y \<noteq> ucast (ucast (x div ucast y AND 0xFFFFFFFF) :: Bit32u) then Inl BX_DE_EXCEPTION
      else Inr (set_RDX (ucast (ucast (x mod ucast y) :: Bit32u)) (set_RAX (ucast (ucast (x div ucast y AND 0xFFFFFFFF) :: Bit32u)) s)))"
    by (simp only: DIV_EAXEdR_def Let_def acpu_reads acpu_pair_reads pair_value x_def y_def)
  moreover have x: "uint (r32 2 (acpu_of s)) * 2 ^ 32 + uint (r32 0 (acpu_of s)) = uint x" by (simp add: x_def uint_pair)
  ultimately show ?thesis
    unfolding d halves_of_int fits spec_div_def y_def [symmetric] x q_def [symmetric] r_def [symmetric]
    by (simp add: ucast_of_int uint_0_iff)
qed

text \<open>
  The most negative dividend has no quotient that fits, and every other quotient fits the double
  width.
\<close>

lemma min_dividend:
  fixes y :: int
  assumes "\<bar>y\<bar> \<le> 2 ^ n" "y \<noteq> 0"
  shows "(- (2 ^ (2 * n + 1))) sdiv y < - (2 ^ n) \<or> 2 ^ n \<le> (- (2 ^ (2 * n + 1))) sdiv y"
proof -
  define K where "K = (2 ^ n :: int)"
  define D where "D = (2 ^ (2 * n + 1) :: int)"
  define A where "A = D div \<bar>y\<bar>"
  have K: "0 < K" "\<bar>y\<bar> \<le> K" using assms by (simp_all add: K_def )
  have "2 * n + 1 = Suc (n + n)" by simp
  then have D: "D = 2 * K * K" "0 < D" by (simp_all only: D_def K_def power_Suc power_add mult.assoc zero_less_power zero_less_numeral zero_less_mult_iff simp_thms)
  have "2 * K * K div K \<le> 2 * K * K div \<bar>y\<bar>" using assms(2) K by (intro zdiv_mono2) simp_all
  moreover have "2 * K * K div K = 2 * K" using K(1) by simp
  ultimately have "2 * K \<le> A" by (simp only: A_def D(1))
  moreover have "(- D) sdiv y = A \<or> (- D) sdiv y = - A"
    unfolding A_def sdiv_smod_signs(1) [OF assms(2)] using D(2) by simp
  ultimately show ?thesis unfolding K_def [symmetric] D_def [symmetric] using K(1) by linarith
qed

lemma abs_sdiv_le: "y \<noteq> 0 \<Longrightarrow> \<bar>x sdiv y\<bar> \<le> \<bar>x\<bar>" for x y :: int
  using zdiv_mono2 [of "\<bar>x\<bar>" 1 "\<bar>y\<bar>"] pos_imp_zdiv_nonneg_iff [of "\<bar>y\<bar>" "\<bar>x\<bar>"] by (auto simp: sdiv_smod_signs)

lemma sint_sdiv:
  fixes x :: "'w::len word"
  assumes "y \<noteq> 0" "sint x \<noteq> - (2 ^ (LENGTH('w) - 1))"
  shows "sint (of_int (sint x sdiv y) :: 'w word) = sint x sdiv y"
proof -
  have "\<bar>sint x\<bar> < 2 ^ (LENGTH('w) - 1)" using assms(2) sint_ge [of x] sint_lt [of x] by (simp add: abs_less_iff)
  then show ?thesis using abs_sdiv_le [OF assms(1), of "sint x"] by (intro sint_of_int) linarith+
qed

lemma abs_sint_le_half: "\<bar>sint w\<bar> \<le> 2 ^ (LENGTH('n) - 1)" for w :: "'n::len word"
  using sint_ge [of w] sint_lt [of w] by (simp add: abs_le_iff)

lemma sint_eq_min: "sint x = - (2 ^ (LENGTH('w) - 1)) \<longleftrightarrow> uint x = 2 ^ (LENGTH('w) - 1)" for x :: "'w::len word"
proof -
  obtain k where k: "LENGTH('w) = Suc k" by (metis len_not_eq_0 not0_implies_Suc)
  have "(if 2 * u < 2 * K then u else u - 2 * K) = - K \<longleftrightarrow> u = K" if "0 \<le> u" "0 < K" for u K :: int
    using that by auto
  from this [of "uint x" "2 ^ k"] show ?thesis unfolding sint_cases k power_Suc by (simp split del: if_split)
qed

lemma IDIV_8: "map_sum id acpu_of (IDIV_ALEbR i s) =
    spec_idiv (w8 0 False) (w8 4 False) (sint (r16 0 (acpu_of s))) (sint (r8 (src i) (extend8bitL i) (acpu_of s))) (acpu_of s)"
proof -
  define x where "x = (r16 0 (acpu_of s))"
  define y where "y = r8 (src i) (extend8bitL i) (acpu_of s)"
  define q r where "q = sint x sdiv sint y" and "r = sint x smod sint y"
  have x: "sint (r16 0 (acpu_of s)) = sint x" by (simp add: x_def)
  have min: "x = 0x8000 \<longleftrightarrow> sint x = - (2 ^ 15)"
    using sint_eq_min [of x] by (simp add: word_uint_eq_iff)
  have "IDIV_ALEbR i s = (if x = 0x8000 then Inl BX_DE_EXCEPTION else if y = 0 then Inl BX_DE_EXCEPTION
      else if sint (of_int q :: Bit16u) \<noteq> sint (ucast (of_int q AND 0xFF :: Bit16u) :: Bit8u) then Inl BX_DE_EXCEPTION
      else Inr (set_AH (of_int r) (set_AL (ucast (of_int q AND 0xFF :: Bit16u)) s)))"
    by (simp only: IDIV_ALEbR_def Let_def acpu_reads acpu_pair_reads pair_value x_def y_def q_def r_def)
  note h = this [unfolded halves_of_int]
  show ?thesis
  proof (cases "x = 0x8000 \<or> y = 0")
    case True
    then have "y = 0 \<or> q < - (2 ^ 7) \<or> 2 ^ 7 \<le> q"
      using min_dividend [of "sint y" 7] abs_sint_le_half [of y] min by (auto simp: q_def signed_eq_0_iff)
    then show ?thesis using True h unfolding spec_idiv_def x y_def [symmetric] q_def [symmetric] by auto
  next
    case False
    then have "sint (of_int q :: Bit16u) = q" unfolding q_def using min by (intro sint_sdiv) (simp_all add: signed_eq_0_iff)
    moreover have "q \<noteq> sint (of_int q :: Bit8u) \<longleftrightarrow> q < - (2 ^ 7) \<or> 2 ^ 7 \<le> q"
      using sint_fits [where 'n = 8, of q] by auto
    ultimately show ?thesis
      using False h unfolding spec_idiv_def x y_def [symmetric] q_def [symmetric] r_def [symmetric] by (simp add: signed_eq_0_iff)
  qed
qed

lemma IDIV_16: "map_sum id acpu_of (IDIV_AXEwR i s) =
    spec_idiv (w16 0) (w16 2) (sint (r16 2 (acpu_of s)) * 2 ^ 16 + uint (r16 0 (acpu_of s))) (sint (r16 (src i) (acpu_of s))) (acpu_of s)"
proof -
  define x where "x = (word_cat (r16 2 (acpu_of s)) (r16 0 (acpu_of s)) :: Bit32u)"
  define y where "y = r16 (src i) (acpu_of s)"
  define q r where "q = sint x sdiv sint y" and "r = sint x smod sint y"
  have x: "sint (r16 2 (acpu_of s)) * 2 ^ 16 + uint (r16 0 (acpu_of s)) = sint x" by (simp add: x_def sint_pair)
  have min: "x = 0x80000000 \<longleftrightarrow> sint x = - (2 ^ 31)"
    using sint_eq_min [of x] by (simp add: word_uint_eq_iff)
  have "IDIV_AXEwR i s = (if x = 0x80000000 then Inl BX_DE_EXCEPTION else if y = 0 then Inl BX_DE_EXCEPTION
      else if sint (of_int q :: Bit32u) \<noteq> sint (ucast (of_int q AND 0xFFFF :: Bit32u) :: Bit16u) then Inl BX_DE_EXCEPTION
      else Inr (set_DX (of_int r) (set_AX (ucast (of_int q AND 0xFFFF :: Bit32u)) s)))"
    by (simp only: IDIV_AXEwR_def Let_def acpu_reads acpu_pair_reads pair_value x_def y_def q_def r_def)
  note h = this [unfolded halves_of_int]
  show ?thesis
  proof (cases "x = 0x80000000 \<or> y = 0")
    case True
    then have "y = 0 \<or> q < - (2 ^ 15) \<or> 2 ^ 15 \<le> q"
      using min_dividend [of "sint y" 15] abs_sint_le_half [of y] min by (auto simp: q_def signed_eq_0_iff)
    then show ?thesis using True h unfolding spec_idiv_def x y_def [symmetric] q_def [symmetric] by auto
  next
    case False
    then have "sint (of_int q :: Bit32u) = q" unfolding q_def using min by (intro sint_sdiv) (simp_all add: signed_eq_0_iff)
    moreover have "q \<noteq> sint (of_int q :: Bit16u) \<longleftrightarrow> q < - (2 ^ 15) \<or> 2 ^ 15 \<le> q"
      using sint_fits [where 'n = 16, of q] by auto
    ultimately show ?thesis
      using False h unfolding spec_idiv_def x y_def [symmetric] q_def [symmetric] r_def [symmetric] by (simp add: signed_eq_0_iff)
  qed
qed

lemma IDIV_32: "map_sum id acpu_of (IDIV_EAXEdR i s) =
    spec_idiv (w32 0) (w32 2) (sint (r32 2 (acpu_of s)) * 2 ^ 32 + uint (r32 0 (acpu_of s))) (sint (r32 (src i) (acpu_of s))) (acpu_of s)"
proof -
  define x where "x = (word_cat (r32 2 (acpu_of s)) (r32 0 (acpu_of s)) :: Bit64u)"
  define y where "y = r32 (src i) (acpu_of s)"
  define q r where "q = sint x sdiv sint y" and "r = sint x smod sint y"
  have x: "sint (r32 2 (acpu_of s)) * 2 ^ 32 + uint (r32 0 (acpu_of s)) = sint x" by (simp add: x_def sint_pair)
  have min: "x = 0x8000000000000000 \<longleftrightarrow> sint x = - (2 ^ 63)"
    using sint_eq_min [of x] by (simp add: word_uint_eq_iff)
  have "IDIV_EAXEdR i s = (if x = 0x8000000000000000 then Inl BX_DE_EXCEPTION else if y = 0 then Inl BX_DE_EXCEPTION
      else if sint (of_int q :: Bit64u) \<noteq> sint (ucast (of_int q AND 0xFFFFFFFF :: Bit64u) :: Bit32u) then Inl BX_DE_EXCEPTION
      else Inr (set_RDX (ucast (of_int r :: Bit32u)) (set_RAX (ucast (ucast (of_int q AND 0xFFFFFFFF :: Bit64u) :: Bit32u)) s)))"
    by (simp only: IDIV_EAXEdR_def Let_def acpu_reads acpu_pair_reads pair_value x_def y_def q_def r_def)
  note h = this [unfolded halves_of_int]
  show ?thesis
  proof (cases "x = 0x8000000000000000 \<or> y = 0")
    case True
    then have "y = 0 \<or> q < - (2 ^ 31) \<or> 2 ^ 31 \<le> q"
      using min_dividend [of "sint y" 31] abs_sint_le_half [of y] min by (auto simp: q_def signed_eq_0_iff)
    then show ?thesis using True h unfolding spec_idiv_def x y_def [symmetric] q_def [symmetric] by auto
  next
    case False
    then have "sint (of_int q :: Bit64u) = q" unfolding q_def using min by (intro sint_sdiv) (simp_all add: signed_eq_0_iff)
    moreover have "q \<noteq> sint (of_int q :: Bit32u) \<longleftrightarrow> q < - (2 ^ 31) \<or> 2 ^ 31 \<le> q"
      using sint_fits [where 'n = 32, of q] by auto
    ultimately show ?thesis
      using False h unfolding spec_idiv_def x y_def [symmetric] q_def [symmetric] r_def [symmetric] by (simp add: signed_eq_0_iff)
  qed
qed

lemma DIV_64: "map_sum id acpu_of (DIV_RAXEqR i s) =
    spec_div (w64 0) (w64 2) (uint (r64 2 (acpu_of s)) * 2 ^ 64 + uint (r64 0 (acpu_of s))) (uint (r64 (src i) (acpu_of s))) (acpu_of s)"
proof -
  define x where "x = \<lparr>lo = r64 0 (acpu_of s), hi = r64 2 (acpu_of s)\<rparr>"
  define y where "y = r64 (src i) (acpu_of s)"
  have x: "uint (r64 2 (acpu_of s)) * 2 ^ 64 + uint (r64 0 (acpu_of s)) = val128 x" by (simp add: val128_def x_def)
  have "DIV_RAXEqR i s = (if y = 0 then Inl BX_DE_EXCEPTION else if hi (fst (long_div x y)) \<noteq> 0 then Inl BX_DE_EXCEPTION
      else Inr (set_RDX (snd (long_div x y)) (set_RAX (lo (fst (long_div x y))) s)))"
    by (simp only: DIV_RAXEqR_def Let_def acpu_reads acpu_pair_reads x_def y_def case_prod_unfold)
  moreover have "lo (fst (long_div x y)) = of_int (val128 x div uint y)" "snd (long_div x y) = of_int (val128 x mod uint y)"
    if "y \<noteq> 0" "val128 x div uint y < 2 ^ 64"
    using long_div_fits [OF that] long_of_val [of "fst (long_div x y)"] by (metis, metis word_of_int_uint)
  ultimately show ?thesis
    using long_div_hi [of y x] unfolding spec_div_def x y_def [symmetric] by (auto simp: uint_0_iff)
qed

lemma IDIV_64: "map_sum id acpu_of (IDIV_RAXEqR i s) =
    spec_idiv (w64 0) (w64 2) (sint (r64 2 (acpu_of s)) * 2 ^ 64 + uint (r64 0 (acpu_of s))) (sint (r64 (src i) (acpu_of s))) (acpu_of s)"
proof -
  define x where "x = \<lparr>lo = r64 0 (acpu_of s), hi = r64 2 (acpu_of s)\<rparr>"
  define y where "y = r64 (src i) (acpu_of s)"
  define q where "q = fst (long_idiv x y)"
  have x: "sint (r64 2 (acpu_of s)) * 2 ^ 64 + uint (r64 0 (acpu_of s)) = sval128 x" by (simp add: sval128_def x_def)
  have min: "hi x = 0x8000000000000000 \<and> lo x = 0 \<longleftrightarrow> sval128 x = - (2 ^ 127)"
  proof -
    have "sval128 x = - (2 ^ 127) \<longleftrightarrow> val128 x = 2 ^ 127"
      using val128_bounds [of x] by (auto simp: sval128_val128)
    also have "\<dots> \<longleftrightarrow> val128 x = val128 \<lparr>lo = 0, hi = 0x8000000000000000\<rparr>" by (simp add: val128_def [of "\<lparr>lo = 0, hi = _\<rparr>"])
    also have "\<dots> \<longleftrightarrow> hi x = 0x8000000000000000 \<and> lo x = 0" unfolding val128_inject by (cases x) auto
    finally show ?thesis by simp
  qed
  have bad: "(lo q AND 0x8000000000000000 = 0 \<and> hi q \<noteq> 0 \<or> lo q AND 0x8000000000000000 \<noteq> 0 \<and> hi q \<noteq> 0xffffffffffffffff)
      \<longleftrightarrow> sval128 q < - (2 ^ 63) \<or> 2 ^ 63 \<le> sval128 q"
  proof -
    have "lo q AND 0x8000000000000000 = 0 \<longleftrightarrow> \<not> bit (lo q) 63"
      using and_mask_eq_0_iff [of "lo q" 63] by simp
    moreover have "drop_bit 63 (lo q) = of_bool (bit (lo q) 63)" by (rule drop_bit_63)
    moreover have "hi q + 1 = 0 \<longleftrightarrow> hi q = 0xffffffffffffffff"
    proof -
      have "hi q + 1 = 0 \<longleftrightarrow> hi q = - 1" by (simp only: eq_neg_iff_add_eq_0)
      moreover have "(- 1 :: Bit64u) = 0xffffffffffffffff" by simp
      ultimately show ?thesis by (simp only:)
    qed
    ultimately show ?thesis
      using magic_compare [of q, OF refl] sint_fits [where 'n = 64, of "sval128 q"]
      by (cases "bit (lo q) 63") auto
  qed
  have "IDIV_RAXEqR i s = (if hi x = 0x8000000000000000 \<and> lo x = 0 then Inl BX_DE_EXCEPTION else if y = 0 then Inl BX_DE_EXCEPTION
      else if lo q AND 0x8000000000000000 = 0 \<and> hi q \<noteq> 0 \<or> lo q AND 0x8000000000000000 \<noteq> 0 \<and> hi q \<noteq> 0xffffffffffffffff
      then Inl BX_DE_EXCEPTION else Inr (set_RDX (snd (long_idiv x y)) (set_RAX (lo q) s)))"
    by (simp only: IDIV_RAXEqR_def Let_def acpu_reads acpu_pair_reads x_def y_def q_def case_prod_unfold)
  note h = this [unfolded min bad]
  show ?thesis
  proof (cases "sval128 x = - (2 ^ 127) \<or> y = 0")
    case True
    then have "y = 0 \<or> sval128 x sdiv sint y < - (2 ^ 63) \<or> 2 ^ 63 \<le> sval128 x sdiv sint y"
      using min_dividend [of "sint y" 63] abs_sint_le_half [of y] by (auto simp: signed_eq_0_iff)
    then show ?thesis using True h unfolding spec_idiv_def x y_def [symmetric] by auto
  next
    case False
    then have v: "sval128 q = sval128 x sdiv sint y" "sint (snd (long_idiv x y)) = sval128 x smod sint y"
      using long_idiv_val [of y x] by (auto simp: q_def)
    have "snd (long_idiv x y) = of_int (sval128 x smod sint y)" by (simp flip: v(2))
    then show ?thesis
      using False h v(1) long_of_sval [OF v(1)] unfolding spec_idiv_def x y_def [symmetric] by (simp add: signed_eq_0_iff)
  qed
qed

section \<open>Properties\<close>

text \<open>
  C25: Every register form of MUL and IMUL at 8, 16, 32 and 64 bits writes the exact unsigned or signed
  product to its operands (the two- and three-operand forms its low half), sets OF and CF
  exactly when the low half alone does not hold the product, sets the other flags from the low half,
  and changes nothing else.
\<close>

theorem MUL_IMUL_refine:
  "acpu_of (MUL_ALEbR i s) = spec_mul (w8 0 False) (w8 4 False) (r8 0 False (acpu_of s)) (r8 (src i) (extend8bitL i) (acpu_of s)) (acpu_of s)
    \<and> acpu_of (MUL_AXEwR i s) = spec_mul (w16 0) (w16 2) (r16 0 (acpu_of s)) (r16 (src i) (acpu_of s)) (acpu_of s)
    \<and> acpu_of (MUL_EAXEdR i s) = spec_mul (w32 0) (w32 2) (r32 0 (acpu_of s)) (r32 (src i) (acpu_of s)) (acpu_of s)
    \<and> acpu_of (MUL_RAXEqR i s) = spec_mul (w64 0) (w64 2) (r64 0 (acpu_of s)) (r64 (src i) (acpu_of s)) (acpu_of s)
    \<and> acpu_of (IMUL_ALEbR i s) = spec_imul (w8 0 False) (w8 4 False) (r8 0 False (acpu_of s)) (r8 (src i) (extend8bitL i) (acpu_of s)) (acpu_of s)
    \<and> acpu_of (IMUL_AXEwR i s) = spec_imul (w16 0) (w16 2) (r16 0 (acpu_of s)) (r16 (src i) (acpu_of s)) (acpu_of s)
    \<and> acpu_of (IMUL_EAXEdR i s) = spec_imul (w32 0) (w32 2) (r32 0 (acpu_of s)) (r32 (src i) (acpu_of s)) (acpu_of s)
    \<and> acpu_of (IMUL_RAXEqR i s) = spec_imul (w64 0) (w64 2) (r64 0 (acpu_of s)) (r64 (src i) (acpu_of s)) (acpu_of s)
    \<and> acpu_of (IMUL_GwEwR i s) = spec_imul (w16 (dst i)) (\<lambda>_ a. a) (r16 (dst i) (acpu_of s)) (r16 (src i) (acpu_of s)) (acpu_of s)
    \<and> acpu_of (IMUL_GwEwIwR i s) = spec_imul (w16 (dst i)) (\<lambda>_ a. a) (r16 (src i) (acpu_of s)) (Iw i) (acpu_of s)
    \<and> acpu_of (IMUL_GdEdR i s) = spec_imul (w32 (dst i)) (\<lambda>_ a. a) (r32 (dst i) (acpu_of s)) (r32 (src i) (acpu_of s)) (acpu_of s)
    \<and> acpu_of (IMUL_GdEdIdR i s) = spec_imul (w32 (dst i)) (\<lambda>_ a. a) (r32 (src i) (acpu_of s)) (Id i) (acpu_of s)
    \<and> acpu_of (IMUL_GqEqR i s) = spec_imul (w64 (dst i)) (\<lambda>_ a. a) (r64 (dst i) (acpu_of s)) (r64 (src i) (acpu_of s)) (acpu_of s)
    \<and> acpu_of (IMUL_GqEqIdR i s) = spec_imul (w64 (dst i)) (\<lambda>_ a. a) (r64 (src i) (acpu_of s)) (scast (Id i)) (acpu_of s)"
  by (intro conjI MUL_8 MUL_16 MUL_32 MUL_64 IMUL_ALEbR_spec IMUL_AXEwR_spec IMUL_EAXEdR_spec IMUL_RAXEqR_spec IMUL_GwEwR_spec IMUL_GwEwIwR_spec IMUL_GdEdR_spec IMUL_GdEdIdR_spec IMUL_GqEqR_spec IMUL_GqEqIdR_spec)

text \<open>
  C24: Every register form of DIV and IDIV raises a divide error exactly when the divisor is zero or
  the quotient does not fit its register - the most negative dividend included - and otherwise
  writes the quotient rounded towards zero and the remainder with the sign of the dividend, and
  changes nothing else.
\<close>

theorem DIV_IDIV_refine:
  "map_sum id acpu_of (DIV_ALEbR i s) = spec_div (w8 0 False) (w8 4 False) (uint (r16 0 (acpu_of s))) (uint (r8 (src i) (extend8bitL i) (acpu_of s))) (acpu_of s)
    \<and> map_sum id acpu_of (DIV_AXEwR i s) = spec_div (w16 0) (w16 2) (uint (r16 2 (acpu_of s)) * 2 ^ 16 + uint (r16 0 (acpu_of s))) (uint (r16 (src i) (acpu_of s))) (acpu_of s)
    \<and> map_sum id acpu_of (DIV_EAXEdR i s) = spec_div (w32 0) (w32 2) (uint (r32 2 (acpu_of s)) * 2 ^ 32 + uint (r32 0 (acpu_of s))) (uint (r32 (src i) (acpu_of s))) (acpu_of s)
    \<and> map_sum id acpu_of (DIV_RAXEqR i s) = spec_div (w64 0) (w64 2) (uint (r64 2 (acpu_of s)) * 2 ^ 64 + uint (r64 0 (acpu_of s))) (uint (r64 (src i) (acpu_of s))) (acpu_of s)
    \<and> map_sum id acpu_of (IDIV_ALEbR i s) = spec_idiv (w8 0 False) (w8 4 False) (sint (r16 0 (acpu_of s))) (sint (r8 (src i) (extend8bitL i) (acpu_of s))) (acpu_of s)
    \<and> map_sum id acpu_of (IDIV_AXEwR i s) = spec_idiv (w16 0) (w16 2) (sint (r16 2 (acpu_of s)) * 2 ^ 16 + uint (r16 0 (acpu_of s))) (sint (r16 (src i) (acpu_of s))) (acpu_of s)
    \<and> map_sum id acpu_of (IDIV_EAXEdR i s) = spec_idiv (w32 0) (w32 2) (sint (r32 2 (acpu_of s)) * 2 ^ 32 + uint (r32 0 (acpu_of s))) (sint (r32 (src i) (acpu_of s))) (acpu_of s)
    \<and> map_sum id acpu_of (IDIV_RAXEqR i s) = spec_idiv (w64 0) (w64 2) (sint (r64 2 (acpu_of s)) * 2 ^ 64 + uint (r64 0 (acpu_of s))) (sint (r64 (src i) (acpu_of s))) (acpu_of s)"
  by (intro conjI DIV_8 DIV_16 DIV_32 DIV_64 IDIV_8 IDIV_16 IDIV_32 IDIV_64)

end
