(* ===== verification/Pic.thy ===== *)
theory Pic
  imports Bochs_Prelude
begin

text \<open>
  The pair of 8259A interrupt controllers of \<^verbatim>\<open>iodev/pic.cc\<close> and \<^verbatim>\<open>iodev/pic.h\<close>. The state
  \<open>bx_pic_c\<close> holds the two chips and what the code reaches outside them: the CPU's INTR
  line (\<open>BX_RAISE_INTR\<close>, \<open>BX_CLEAR_INTR\<close>), the calls forwarded to the I/O APIC, and the
  messages of \<open>BX_PANIC\<close>. After a panic the handlers go on, as they do when the log action
  is not fatal. The fields \<open>master\<close> of the chips are written by \<open>init\<close> only, so
  \<open>pic->master\<close> is the identity of the chip a handler was given.
\<close>

unbundle bit_operations_syntax

section \<open>State\<close>

record bx_pic_t =
  master :: bool
  interrupt_offset :: Bit8u
  sfnm :: Bit8u
  buffered_mode :: Bit8u
  master_slave :: Bit8u
  auto_eoi :: Bit8u
  imr :: Bit8u
  isr :: Bit8u
  irr :: Bit8u
  read_reg_select :: Bit8u
  irq :: nat
  lowest_priority :: nat
  INT_pin :: bool
  IRQ_in :: Bit8u
  in_init :: bool
  requires_4 :: bool
  byte_expected :: nat
  special_mask :: bool
  polled :: bool
  rotate_on_autoeoi :: bool
  edge_level :: Bit8u

datatype pic_panic = Single_mode | Level_mode | Bad_write Bit32u Bit32u | Bad_slave_line | Bad_slave_id
  | Not_80x86 | Bad_init_command | Bad_read Bit32u

record bx_pic_c =
  master_pic :: bx_pic_t
  slave_pic :: bx_pic_t
  INTR :: bool
  ioapic_present :: bool
  ioapic_log :: "(nat \<times> bool) list"
  panics :: "pic_panic list"

definition BX_PANIC :: "pic_panic \<Rightarrow> bx_pic_c \<Rightarrow> bx_pic_c" where
  "BX_PANIC p s = s\<lparr>panics := p # panics s\<rparr>"
definition BX_RAISE_INTR :: "bx_pic_c \<Rightarrow> bx_pic_c" where "BX_RAISE_INTR s = s\<lparr>INTR := True\<rparr>"
definition BX_CLEAR_INTR :: "bx_pic_c \<Rightarrow> bx_pic_c" where "BX_CLEAR_INTR s = s\<lparr>INTR := False\<rparr>"

text \<open>A handler works on one chip through a pointer: \<open>True\<close> is the master.\<close>

definition get_pic :: "bool \<Rightarrow> bx_pic_c \<Rightarrow> bx_pic_t" where
  "get_pic m s = (if m then master_pic s else slave_pic s)"
definition upd_pic :: "bool \<Rightarrow> (bx_pic_t \<Rightarrow> bx_pic_t) \<Rightarrow> bx_pic_c \<Rightarrow> bx_pic_c" where
  "upd_pic m f s = (if m then s\<lparr>master_pic := f (master_pic s)\<rparr> else s\<lparr>slave_pic := f (slave_pic s)\<rparr>)"

definition master_init :: bx_pic_t where
  "master_init = \<lparr>master = True, interrupt_offset = 0x08, sfnm = 0, buffered_mode = 0, master_slave = 1,
     auto_eoi = 0, imr = 0xFF, isr = 0x00, irr = 0x00, read_reg_select = 0, irq = 0, lowest_priority = 7,
     INT_pin = False, IRQ_in = 0, in_init = False, requires_4 = False, byte_expected = 0,
     special_mask = False, polled = False, rotate_on_autoeoi = False, edge_level = 0\<rparr>"

definition slave_init :: bx_pic_t where
  "slave_init = \<lparr>master = False, interrupt_offset = 0x70, sfnm = 0, buffered_mode = 0, master_slave = 0,
     auto_eoi = 0, imr = 0xFF, isr = 0x00, irr = 0x00, read_reg_select = 0, irq = 0, lowest_priority = 7,
     INT_pin = False, IRQ_in = 0, in_init = False, requires_4 = False, byte_expected = 0,
     special_mask = False, polled = False, rotate_on_autoeoi = False, edge_level = 0\<rparr>"

text \<open>\<open>init\<close>; whether an I/O APIC is present is the machine's configuration.\<close>

definition pic_init :: "bool \<Rightarrow> bx_pic_c" where
  "pic_init apic = \<lparr>master_pic = master_init, slave_pic = slave_init, INTR = False,
     ioapic_present = apic, ioapic_log = [], panics = []\<rparr>"

section \<open>Priority scans\<close>

text \<open>
  The loops over the eight levels. \<open>next_irq\<close> is the step \<open>irq++; if (irq > 7) irq = 0\<close>, and
  \<open>scan_irq\<close> is \<open>do { if (P irq) \<dots>; irq++; \<dots> } while (irq != stop)\<close> with the level the
  body stops at; eight iterations are always enough (\<open>scan_irq_fuel\<close>).
\<close>

definition next_irq :: "nat \<Rightarrow> nat" where
  "next_irq n = (if n + 1 > 7 then 0 else n + 1)"

fun scan_irq :: "nat \<Rightarrow> (nat \<Rightarrow> bool) \<Rightarrow> nat \<Rightarrow> nat \<Rightarrow> nat option" where
  "scan_irq 0 P stop n = None"
| "scan_irq (Suc fuel) P stop n =
     (if P n then Some n
      else let n' = next_irq n in if n' = stop then None else scan_irq fuel P stop n')"

text \<open>The loop \<open>while ((isr & (1 << max_irq)) == 0) { max_irq++; \<dots> }\<close>.\<close>

fun scan_isr :: "nat \<Rightarrow> Bit8u \<Rightarrow> nat \<Rightarrow> nat" where
  "scan_isr 0 i n = n"
| "scan_isr (Suc fuel) i n = (if bit i n then n else scan_isr fuel i (next_irq n))"

definition highest_priority :: "bx_pic_t \<Rightarrow> nat" where
  "highest_priority p = next_irq (lowest_priority p)"

definition clear_highest_interrupt :: "bx_pic_t \<Rightarrow> bx_pic_t" where
  "clear_highest_interrupt p =
     (let hp = highest_priority p in
      case scan_irq 8 (bit (isr p)) hp hp of
        None \<Rightarrow> p
      | Some n \<Rightarrow> p\<lparr>isr := isr p AND NOT (push_bit n 1)\<rparr>)"

section \<open>Servicing requests\<close>

text \<open>
  \<open>pic_service\<close> up to its calls: the chip after it, and which output it drives
  (\<open>Raise_out\<close>: \<open>BX_RAISE_INTR\<close> or \<open>raise_irq(2)\<close>; \<open>Clear_out\<close>: \<open>BX_CLEAR_INTR\<close> or
  \<open>lower_irq(2)\<close>).
\<close>

datatype pic_output = No_out | Raise_out | Clear_out

definition pic_service_core :: "bx_pic_t \<Rightarrow> bx_pic_t \<times> pic_output" where
  "pic_service_core p =
     (let hp = highest_priority p;
          max_irq = (if special_mask p \<or> isr p = 0 then hp else scan_isr 8 (isr p) hp)
      in if \<not> special_mask p \<and> isr p \<noteq> 0 \<and> max_irq = hp then (p, No_out)
         else
           let unmasked_requests = irr p AND NOT (imr p) in
           if unmasked_requests \<noteq> 0
           then (case scan_irq 8 (\<lambda>n. \<not> (special_mask p \<and> bit (isr p) n)
                                      \<and> \<not> INT_pin p \<and> bit unmasked_requests n) max_irq hp of
                   None \<Rightarrow> (p, No_out)
                 | Some n \<Rightarrow> (p\<lparr>INT_pin := True, irq := n\<rparr>, Raise_out))
           else if INT_pin p then (p\<lparr>INT_pin := False\<rparr>, Clear_out)
           else (p, No_out))"

definition ioapic_set_irq_level :: "nat \<Rightarrow> bool \<Rightarrow> bx_pic_c \<Rightarrow> bx_pic_c" where
  "ioapic_set_irq_level irq_no level s =
     (if ioapic_present s \<and> irq_no \<noteq> 2 then s\<lparr>ioapic_log := (irq_no, level) # ioapic_log s\<rparr> else s)"

definition pic_service_master :: "bx_pic_c \<Rightarrow> bx_pic_c" where
  "pic_service_master s =
     (let (p, out) = pic_service_core (master_pic s); s = s\<lparr>master_pic := p\<rparr>
      in case out of No_out \<Rightarrow> s | Raise_out \<Rightarrow> BX_RAISE_INTR s | Clear_out \<Rightarrow> BX_CLEAR_INTR s)"

definition lower_irq :: "nat \<Rightarrow> bx_pic_c \<Rightarrow> bx_pic_c" where
  "lower_irq irq_no s =
     (let s = ioapic_set_irq_level irq_no False s;
          mask = push_bit (irq_no mod 8) 1
      in if irq_no \<le> 7 \<and> IRQ_in (master_pic s) AND mask \<noteq> 0
         then s\<lparr>master_pic := (master_pic s)\<lparr>IRQ_in := IRQ_in (master_pic s) AND NOT mask,
                                             irr := irr (master_pic s) AND NOT mask\<rparr>\<rparr>
         else if irq_no > 7 \<and> irq_no \<le> 15 \<and> IRQ_in (slave_pic s) AND mask \<noteq> 0
         then s\<lparr>slave_pic := (slave_pic s)\<lparr>IRQ_in := IRQ_in (slave_pic s) AND NOT mask,
                                           irr := irr (slave_pic s) AND NOT mask\<rparr>\<rparr>
         else s)"

text \<open>\<open>raise_irq\<close> on a master line; the call \<open>raise_irq(2)\<close> of the slave is this one.\<close>

definition raise_irq_master :: "nat \<Rightarrow> bx_pic_c \<Rightarrow> bx_pic_c" where
  "raise_irq_master irq_no s =
     (let mask = push_bit (irq_no mod 8) 1
      in if IRQ_in (master_pic s) AND mask = 0
         then pic_service_master
                (s\<lparr>master_pic := (master_pic s)\<lparr>IRQ_in := IRQ_in (master_pic s) OR mask,
                                               irr := irr (master_pic s) OR mask\<rparr>\<rparr>)
         else s)"

definition pic_service_slave :: "bx_pic_c \<Rightarrow> bx_pic_c" where
  "pic_service_slave s =
     (let (p, out) = pic_service_core (slave_pic s); s = s\<lparr>slave_pic := p\<rparr>
      in case out of No_out \<Rightarrow> s | Raise_out \<Rightarrow> raise_irq_master 2 s | Clear_out \<Rightarrow> lower_irq 2 s)"

definition pic_service :: "bool \<Rightarrow> bx_pic_c \<Rightarrow> bx_pic_c" where
  "pic_service m s = (if m then pic_service_master s else pic_service_slave s)"

definition raise_irq :: "nat \<Rightarrow> bx_pic_c \<Rightarrow> bx_pic_c" where
  "raise_irq irq_no s =
     (let s = ioapic_set_irq_level irq_no True s;
          mask = push_bit (irq_no mod 8) 1
      in if irq_no \<le> 7 then raise_irq_master irq_no s
         else if irq_no \<le> 15 \<and> IRQ_in (slave_pic s) AND mask = 0
         then pic_service False
                (s\<lparr>slave_pic := (slave_pic s)\<lparr>IRQ_in := IRQ_in (slave_pic s) OR mask,
                                              irr := irr (slave_pic s) OR mask\<rparr>\<rparr>)
         else s)"

definition set_mode :: "bool \<Rightarrow> Bit8u \<Rightarrow> bx_pic_c \<Rightarrow> bx_pic_c" where
  "set_mode ma_sl mode s = upd_pic ma_sl (\<lambda>p. p\<lparr>edge_level := mode\<rparr>) s"

section \<open>Interrupt acknowledge\<close>

text \<open>What \<open>IAC\<close> does to the chip whose request is taken.\<close>

definition acknowledge :: "bx_pic_t \<Rightarrow> bx_pic_t" where
  "acknowledge p =
     (let p = (if edge_level p AND push_bit (irq p) 1 = 0
               then p\<lparr>irr := irr p AND NOT (push_bit (irq p) 1)\<rparr> else p)
      in if auto_eoi p = 0 then p\<lparr>isr := isr p OR push_bit (irq p) 1\<rparr>
         else if rotate_on_autoeoi p then p\<lparr>lowest_priority := irq p\<rparr>
         else p)"

definition IAC :: "bx_pic_c \<Rightarrow> Bit8u \<times> bx_pic_c" where
  "IAC s =
     (let s = BX_CLEAR_INTR s;
          s = upd_pic True (\<lambda>p. p\<lparr>INT_pin := False\<rparr>) s
      in if irr (master_pic s) AND NOT (imr (master_pic s)) = 0
         then (interrupt_offset (master_pic s) + 7, s)
         else
           let s = upd_pic True acknowledge s in
           if irq (master_pic s) \<noteq> 2
           then (of_nat (irq (master_pic s)) + interrupt_offset (master_pic s), pic_service True s)
           else
             let s = upd_pic False (\<lambda>p. p\<lparr>INT_pin := False\<rparr>) s;
                 s = upd_pic True (\<lambda>p. p\<lparr>IRQ_in := IRQ_in p AND NOT (push_bit 2 1)\<rparr>) s
             in if irr (slave_pic s) AND NOT (imr (slave_pic s)) = 0
                then (interrupt_offset (slave_pic s) + 7, s)
                else
                  let vector = of_nat (irq (slave_pic s)) + interrupt_offset (slave_pic s);
                      s = upd_pic False acknowledge s;
                      s = pic_service False s
                  in (vector, pic_service True s))"

section \<open>Port handlers\<close>

definition poll_read :: "bool \<Rightarrow> nat \<Rightarrow> bx_pic_c \<Rightarrow> Bit32u \<times> bx_pic_c" where
  "poll_read m io_len s =
     (let s = upd_pic m clear_highest_interrupt s;
          s = upd_pic m (\<lambda>p. p\<lparr>polled := False\<rparr>) s;
          s = pic_service m s;
          q = of_nat (irq (get_pic m s))
      in (if io_len = 1 then q else push_bit 8 q OR q, s))"

definition pic_read :: "Bit32u \<Rightarrow> nat \<Rightarrow> bx_pic_c \<Rightarrow> Bit32u \<times> bx_pic_c" where
  "pic_read address io_len s =
     (if (address = 0x20 \<or> address = 0x21) \<and> polled (master_pic s) then poll_read True io_len s
      else if (address = 0xa0 \<or> address = 0xa1) \<and> polled (slave_pic s) then poll_read False io_len s
      else if address = 0x20
      then (ucast (if read_reg_select (master_pic s) \<noteq> 0 then isr (master_pic s) else irr (master_pic s)), s)
      else if address = 0x21 then (ucast (imr (master_pic s)), s)
      else if address = 0xA0
      then (ucast (if read_reg_select (slave_pic s) \<noteq> 0 then isr (slave_pic s) else irr (slave_pic s)), s)
      else if address = 0xA1 then (ucast (imr (slave_pic s)), s)
      else (0, BX_PANIC (Bad_read address) s))"

definition icw1 :: "bool \<Rightarrow> Bit32u \<Rightarrow> bx_pic_c \<Rightarrow> bx_pic_c" where
  "icw1 m value s =
     (let s = (if value AND 0x02 \<noteq> 0 then BX_PANIC Single_mode s else s);
          s = (if value AND 0x08 \<noteq> 0 then BX_PANIC Level_mode s else s);
          s = upd_pic m (\<lambda>p. p\<lparr>in_init := True, requires_4 := (value AND 0x01 \<noteq> 0), byte_expected := 2,
                               imr := 0x00, isr := 0x00, irr := 0x00, lowest_priority := 7,
                               auto_eoi := 0, rotate_on_autoeoi := False, INT_pin := False\<rparr>) s
      in if m then BX_CLEAR_INTR s
         else upd_pic True (\<lambda>p. p\<lparr>IRQ_in := IRQ_in p AND NOT (push_bit 2 1)\<rparr>) s)"

definition ocw3 :: "bool \<Rightarrow> Bit32u \<Rightarrow> bx_pic_c \<Rightarrow> bx_pic_c" where
  "ocw3 m value s =
     (let special = drop_bit 5 (value AND 0x60);
          poll = drop_bit 2 (value AND 0x04);
          read_op = value AND 0x03
      in if poll \<noteq> 0 then upd_pic m (\<lambda>p. p\<lparr>polled := True\<rparr>) s
         else
           let s = (if read_op = 0x02 then upd_pic m (\<lambda>p. p\<lparr>read_reg_select := 0\<rparr>) s
                    else if read_op = 0x03 then upd_pic m (\<lambda>p. p\<lparr>read_reg_select := 1\<rparr>) s
                    else s)
           in if special = 0x02 then upd_pic m (\<lambda>p. p\<lparr>special_mask := False\<rparr>) s
              else if special = 0x03 then pic_service m (upd_pic m (\<lambda>p. p\<lparr>special_mask := True\<rparr>) s)
              else s)"

definition ocw2 :: "bool \<Rightarrow> Bit32u \<Rightarrow> Bit32u \<Rightarrow> bx_pic_c \<Rightarrow> bx_pic_c" where
  "ocw2 m address value s =
     (if value = 0x00 \<or> value = 0x80
      then upd_pic m (\<lambda>p. p\<lparr>rotate_on_autoeoi := (value \<noteq> 0)\<rparr>) s
      else if value = 0xA0 \<or> value = 0x20
      then let s = upd_pic m clear_highest_interrupt s;
               s = (if value = 0xA0
                    then upd_pic m (\<lambda>p. p\<lparr>lowest_priority := next_irq (lowest_priority p)\<rparr>) s else s)
           in pic_service m s
      else if value = 0x40 then s
      else if 0x60 \<le> value \<and> value \<le> 0x67
      then pic_service m (upd_pic m (\<lambda>p. p\<lparr>isr := isr p AND NOT (push_bit (unat (value - 0x60)) 1)\<rparr>) s)
      else if 0xC0 \<le> value \<and> value \<le> 0xC7
      then upd_pic m (\<lambda>p. p\<lparr>lowest_priority := unat (value - 0xC0)\<rparr>) s
      else if 0xE0 \<le> value \<and> value \<le> 0xE7
      then pic_service m (upd_pic m (\<lambda>p. p\<lparr>isr := isr p AND NOT (push_bit (unat (value - 0xE0)) 1),
                                           lowest_priority := unat (value - 0xE0)\<rparr>) s)
      else if value = 0x02 then s
      else BX_PANIC (Bad_write address value) s)"

definition init_command :: "bool \<Rightarrow> Bit32u \<Rightarrow> bx_pic_c \<Rightarrow> bx_pic_c" where
  "init_command m value s =
     (let n = byte_expected (get_pic m s)
      in if n = 2
         then upd_pic m (\<lambda>p. p\<lparr>interrupt_offset := ucast (value AND 0xf8), byte_expected := 3\<rparr>) s
         else if n = 3
         then let s = (if m then (if value = 0x04 then s else BX_PANIC Bad_slave_line s)
                       else if value AND 0x07 = 0x02 then s else BX_PANIC Bad_slave_id s)
              in if requires_4 (get_pic m s) then upd_pic m (\<lambda>p. p\<lparr>byte_expected := 4\<rparr>) s
                 else upd_pic m (\<lambda>p. p\<lparr>in_init := False\<rparr>) s
         else if n = 4
         then let s = upd_pic m (\<lambda>p. p\<lparr>auto_eoi := (if value AND 0x02 \<noteq> 0 then 1 else 0)\<rparr>) s;
                  s = (if value AND 0x01 \<noteq> 0 then s else BX_PANIC Not_80x86 s)
              in upd_pic m (\<lambda>p. p\<lparr>in_init := False\<rparr>) s
         else BX_PANIC Bad_init_command s)"

definition pic_write :: "Bit32u \<Rightarrow> Bit32u \<Rightarrow> nat \<Rightarrow> bx_pic_c \<Rightarrow> bx_pic_c" where
  "pic_write address value io_len s =
     (let m = (address AND 0xA0 = 0x20)
      in if address AND 1 = 0
         then if value AND 0x10 \<noteq> 0 then icw1 m value s
              else if value AND 0x18 = 0x08 then ocw3 m value s
              else ocw2 m address value s
         else if in_init (get_pic m s) then init_command m value s
         else pic_service m (upd_pic m (\<lambda>p. p\<lparr>imr := ucast value\<rparr>) s))"

lemmas pic_env_defs = BX_PANIC_def BX_RAISE_INTR_def BX_CLEAR_INTR_def get_pic_def upd_pic_def
  ioapic_set_irq_level_def

section \<open>Priorities\<close>

text \<open>
  The rotating priority: the level after \<open>lowest_priority\<close> has rank 0, \<open>lowest_priority\<close> has rank 7.
\<close>

definition rank :: "nat \<Rightarrow> nat \<Rightarrow> nat" where
  "rank lp n = (n + 7 - lp) mod 8"

definition level_at :: "nat \<Rightarrow> nat \<Rightarrow> nat" where
  "level_at hp k = (hp + k) mod 8"

lemma next_irq_mod: "n \<le> 7 \<Longrightarrow> next_irq n = (n + 1) mod 8"
  by (auto simp: next_irq_def less_Suc_eq_le mod_if)

lemma next_irq_le [simp]: "next_irq n \<le> 7"
  by (simp add: next_irq_def)

text \<open>The number of iterations of the scan from \<open>n\<close> to \<open>stop\<close>: between one and eight.\<close>

definition span :: "nat \<Rightarrow> nat \<Rightarrow> nat" where
  "span n stop = (if n < stop then stop - n else stop + 8 - n)"

lemma span_bounds: "n \<le> 7 \<Longrightarrow> stop \<le> 7 \<Longrightarrow> 0 < span n stop \<and> span n stop \<le> 8"
  by (auto simp: span_def)

lemma span_next:
  assumes "n \<le> 7" "stop \<le> 7" "next_irq n \<noteq> stop"
  shows "span n stop = Suc (span (next_irq n) stop)"
  using assms by (auto simp: span_def next_irq_def split: if_splits)

lemma span_last: "n \<le> 7 \<Longrightarrow> next_irq n = stop \<Longrightarrow> span n stop = 1"
  by (auto simp: span_def next_irq_def split: if_splits)

lemma level_at_0 [simp]: "n \<le> 7 \<Longrightarrow> level_at n 0 = n"
  by (simp add: level_at_def)

lemma level_at_next: "n \<le> 7 \<Longrightarrow> level_at (next_irq n) k = level_at n (Suc k)"
  by (simp add: level_at_def next_irq_mod mod_simps)

lemma levels_upt_Suc:
  "n \<le> 7 \<Longrightarrow> map (level_at n) [0..<Suc d] = n # map (level_at (next_irq n)) [0..<d]"
  by (simp add: upt_conv_Cons map_Suc_upt [symmetric] level_at_next o_def del: upt_Suc)

text \<open>The \<open>do\<close> loop is a search of the levels in priority order, and eight iterations suffice.\<close>

lemma scan_irq_find:
  assumes "n \<le> 7" "stop \<le> 7" "span n stop \<le> fuel"
  shows "scan_irq fuel P stop n = find P (map (level_at n) [0..<span n stop])"
  using assms
proof (induction fuel arbitrary: n)
  case 0
  then show ?case using span_bounds [of n stop] by simp
next
  case (Suc fuel)
  show ?case
  proof (cases "next_irq n = stop")
    case True
    then show ?thesis using Suc.prems span_last [of n stop] by (simp add: Let_def)
  next
    case False
    then have "span n stop = Suc (span (next_irq n) stop)"
      using Suc.prems span_next by blast
    then show ?thesis
      using Suc False by (simp add: Let_def levels_upt_Suc del: upt_Suc)
  qed
qed

lemma scan_irq_fuel:
  "n \<le> 7 \<Longrightarrow> stop \<le> 7 \<Longrightarrow> 8 \<le> fuel \<Longrightarrow> scan_irq fuel P stop n = scan_irq 8 P stop n"
  using span_bounds [of n stop] by (simp add: scan_irq_find)

lemma scan_isr_first:
  assumes "n \<le> 7" "bit i (level_at n d)" "\<forall>k<d. \<not> bit i (level_at n k)" "d < fuel"
  shows "scan_isr fuel i n = level_at n d"
  using assms
proof (induction fuel arbitrary: n d)
  case (Suc fuel)
  show ?case
  proof (cases d)
    case 0
    then show ?thesis using Suc.prems by simp
  next
    case (Suc e)
    then have "\<not> bit i n" using Suc.prems(1,3) by force
    moreover have "scan_isr fuel i (next_irq n) = level_at (next_irq n) e"
      using Suc.prems Suc by (intro Suc.IH) (auto simp: level_at_next)
    ultimately show ?thesis using Suc Suc.prems(1) by (simp add: level_at_next)
  qed
qed simp

lemma level_at_surj: "n < 8 \<Longrightarrow> hp \<le> 7 \<Longrightarrow> \<exists>k<8. level_at hp k = n"
  by (rule exI [of _ "(n + 8 - hp) mod 8"]) (simp add: level_at_def mod_simps)

lemma byte_nonzero_bit: "(w :: Bit8u) \<noteq> 0 \<longleftrightarrow> (\<exists>n<8. bit w n)"
  by (auto intro: bit_word_eqI dest: bit_imp_le_length)

text \<open>The in-service register seen in priority order.\<close>

lemma first_in_service:
  assumes "i \<noteq> (0 :: Bit8u)" "hp \<le> 7"
  obtains d where "d < 8" "bit i (level_at hp d)" "\<forall>k<d. \<not> bit i (level_at hp k)" "scan_isr 8 i hp = level_at hp d"
proof -
  define d where "d = (LEAST k. bit i (level_at hp k))"
  obtain k where k: "k < 8" "bit i (level_at hp k)"
    using assms byte_nonzero_bit level_at_surj by metis
  then have "d \<le> k" "bit i (level_at hp d)" "\<forall>k<d. \<not> bit i (level_at hp k)"
    unfolding d_def by (auto intro: Least_le LeastI dest: not_less_Least)
  with k assms show thesis
    by (intro that [of d] scan_isr_first) auto
qed

lemma rank_level_at:
  assumes "lp \<le> 7" "k < 8"
  shows "rank lp (level_at (next_irq lp) k) = k"
proof -
  have "(lp + 1 + k) mod 8 + 7 - lp = (lp + 1 + k) mod 8 + (7 - lp)"
    using assms by simp
  then have "rank lp (level_at (next_irq lp) k) = ((lp + 1 + k) mod 8 + (7 - lp)) mod 8"
    using assms by (simp add: rank_def level_at_def next_irq_mod mod_simps)
  also have "\<dots> = (lp + 1 + k + (7 - lp)) mod 8"
    by (rule mod_add_left_eq)
  also have "lp + 1 + k + (7 - lp) = k + 8"
    using assms by simp
  finally show ?thesis
    using assms by simp
qed

lemma level_at_rank: "lp \<le> 7 \<Longrightarrow> n < 8 \<Longrightarrow> level_at (next_irq lp) (rank lp n) = n"
  using rank_level_at level_at_surj next_irq_le by metis

lemma rank_less_8 [simp]: "rank lp n < 8"
  by (simp add: rank_def)

text \<open>
  When a request may be signalled: it is pending and unmasked, and it is not held back by the
  levels in service - in the special mask mode by itself only, otherwise by every level of the
  same or a higher priority.
\<close>

definition eligible :: "bx_pic_t \<Rightarrow> nat \<Rightarrow> bool" where
  "eligible p n \<longleftrightarrow> n < 8 \<and> bit (irr p) n \<and> \<not> bit (imr p) n \<and>
     (if special_mask p then \<not> bit (isr p) n
      else \<forall>m<8. bit (isr p) m \<longrightarrow> rank (lowest_priority p) n < rank (lowest_priority p) m)"

lemma eligible_code [code]: "eligible p n \<longleftrightarrow> n < 8 \<and> bit (irr p) n \<and> \<not> bit (imr p) n \<and>
     (if special_mask p then \<not> bit (isr p) n
      else list_all (\<lambda>m. bit (isr p) m \<longrightarrow> rank (lowest_priority p) n < rank (lowest_priority p) m) [0..<8])"
  by (auto simp: eligible_def list_all_iff)

definition service_choice :: "bx_pic_t \<Rightarrow> nat option" where
  "service_choice p = find (eligible p) (map (level_at (highest_priority p)) [0..<8])"

lemma find_upto_bound:
  assumes "d \<le> e" "\<And>k. k < e \<Longrightarrow> P (f k) \<longleftrightarrow> k < d \<and> Q (f k)"
  shows "find P (map f [0..<e]) = find Q (map f [0..<d])"
proof -
  have "find P (map f [d..<e]) = None"
    using assms by (auto simp: find_None_iff)
  moreover have "find P (map f [0..<d]) = find Q (map f [0..<d])"
    using assms by (intro find_cong) auto
  moreover have "[0..<e] = [0..<d] @ [d..<e]"
    using assms(1) upt_add_eq_append [of 0 d "e - d"] by simp
  moreover have "find P (xs @ ys) = (case find P xs of None \<Rightarrow> find P ys | Some x \<Rightarrow> Some x)" for xs ys
    by (induction xs) auto
  ultimately show ?thesis
    by (auto split: option.splits)
qed

lemma span_level_at: "hp \<le> 7 \<Longrightarrow> 0 < d \<Longrightarrow> d < 8 \<Longrightarrow> span hp (level_at hp d) = d"
  by (auto simp: span_def level_at_def mod_if)

lemma level_at_le [simp]: "level_at hp k \<le> 7" "level_at hp k < 8"
  by (simp_all add: level_at_def less_Suc_eq_le [symmetric])

lemma span_full: "span hp hp = 8"
  by (simp add: span_def)

lemma eligible_level_at:
  assumes "lowest_priority p \<le> 7" "k < 8"
  shows "eligible p (level_at (highest_priority p) k) \<longleftrightarrow>
    bit (irr p AND NOT (imr p)) (level_at (highest_priority p) k) \<and>
     (if special_mask p then \<not> bit (isr p) (level_at (highest_priority p) k)
      else \<forall>j<8. bit (isr p) (level_at (highest_priority p) j) \<longrightarrow> k < j)"
proof -
  have "(\<forall>m<8. bit (isr p) m \<longrightarrow> k < rank (lowest_priority p) m) \<longleftrightarrow>
      (\<forall>j<8. bit (isr p) (level_at (highest_priority p) j) \<longrightarrow> k < j)"
    using assms rank_level_at level_at_rank unfolding highest_priority_def
    by (metis level_at_le(2) rank_less_8)
  then show ?thesis
    using assms by (simp add: eligible_def rank_level_at highest_priority_def bit_and_iff bit_not_iff)
qed

text \<open>The levels above the first one in service: none blocked when nothing is in service.\<close>

lemma eligible_bound:
  assumes "lowest_priority p \<le> 7" "\<not> special_mask p" "isr p \<noteq> 0" "k < 8" "d < 8"
    and "bit (isr p) (level_at (highest_priority p) d)" "\<forall>j<d. \<not> bit (isr p) (level_at (highest_priority p) j)"
  shows "eligible p (level_at (highest_priority p) k) \<longleftrightarrow>
    k < d \<and> bit (irr p AND NOT (imr p)) (level_at (highest_priority p) k)"
proof -
  have "(\<forall>j<8. bit (isr p) (level_at (highest_priority p) j) \<longrightarrow> k < j) \<longleftrightarrow> k < d"
    using assms(5-7) by (meson linorder_not_less order.strict_trans2)
  then show ?thesis
    using assms by (simp add: eligible_level_at conj_commute)
qed

lemma pic_service_core_choice:
  assumes "lowest_priority p \<le> 7" "\<not> INT_pin p"
  shows "pic_service_core p = (case service_choice p of
      None \<Rightarrow> (p, No_out) | Some n \<Rightarrow> (p\<lparr>INT_pin := True, irq := n\<rparr>, Raise_out))"
proof -
  let ?hp = "highest_priority p" and ?u = "irr p AND NOT (imr p)"
  have hp: "?hp \<le> 7" by (simp add: highest_priority_def)
  have no_request: "service_choice p = None" if "?u = 0"
    using assms that by (auto simp: service_choice_def find_None_iff eligible_level_at)
  show ?thesis
  proof (cases "special_mask p \<or> isr p = 0")
    case True
    let ?P = "\<lambda>n. \<not> (special_mask p \<and> bit (isr p) n) \<and> \<not> INT_pin p \<and> bit ?u n"
    have "service_choice p = scan_irq 8 ?P ?hp ?hp"
      unfolding service_choice_def scan_irq_find [OF hp hp order.eq_iff [THEN iffD1, THEN conjunct1, OF span_full]] span_full
      using True assms by (intro find_upto_bound) (auto simp: eligible_level_at)
    then show ?thesis
      using True assms no_request by (auto simp: pic_service_core_def Let_def split: option.split)
  next
    case False
    then obtain d where d: "d < 8" "bit (isr p) (level_at ?hp d)" "\<forall>k<d. \<not> bit (isr p) (level_at ?hp k)"
      and max: "scan_isr 8 (isr p) ?hp = level_at ?hp d"
      using first_in_service [OF _ hp] by blast
    have choice: "service_choice p = find (bit ?u) (map (level_at ?hp) [0..<d])"
      unfolding service_choice_def using False assms d by (intro find_upto_bound) (auto simp: eligible_bound)
    show ?thesis
    proof (cases "d = 0")
      case True
      then show ?thesis
        using False choice max hp by (simp add: pic_service_core_def Let_def)
    next
      case nz: False
      then have "level_at ?hp d \<noteq> ?hp"
        using d hp span_level_at [of ?hp d] span_full [of ?hp] by auto
      moreover have "scan_irq 8 (bit ?u) (level_at ?hp d) ?hp = service_choice p"
        using hp d nz choice by (subst scan_irq_find) (auto simp: span_level_at)
      ultimately show ?thesis
        using False assms max no_request by (auto simp: pic_service_core_def Let_def split: option.split)
    qed
  qed
qed

text \<open>The choice is the eligible request of the highest priority.\<close>

lemma service_choice_Some:
  assumes "lowest_priority p \<le> 7"
  shows "service_choice p = Some n \<longleftrightarrow>
    eligible p n \<and> (\<forall>m. eligible p m \<longrightarrow> rank (lowest_priority p) n \<le> rank (lowest_priority p) m)"
proof -
  let ?lp = "lowest_priority p" and ?hp = "highest_priority p"
  have lev: "level_at ?hp (rank ?lp m) = m" if "eligible p m" for m
    using that assms by (simp add: eligible_def highest_priority_def level_at_rank)
  have rk: "rank ?lp (level_at ?hp k) = k" if "k < 8" for k
    using that assms by (simp add: highest_priority_def rank_level_at)
  show ?thesis (is "_ \<longleftrightarrow> ?R")
  proof
    assume "service_choice p = Some n"
    then obtain k where k: "k < 8" "eligible p (level_at ?hp k)" "n = level_at ?hp k"
        "\<forall>j<k. \<not> eligible p (level_at ?hp j)"
      by (auto simp: service_choice_def find_Some_iff)
    then show ?R using rk lev by (metis not_le_imp_less)
  next
    assume R: ?R
    then have "\<not> eligible p (level_at ?hp j)" if "j < rank ?lp n" for j
      using that rk [of j] rank_less_8 [of ?lp n] by fastforce
    then show "service_choice p = Some n"
      using R lev order.strict_trans [OF _ rank_less_8 [of ?lp n]]
      by (auto simp: service_choice_def find_Some_iff intro!: exI [of _ "rank ?lp n"])
  qed
qed

lemma service_choice_None:
  assumes "lowest_priority p \<le> 7"
  shows "service_choice p = None \<longleftrightarrow> (\<forall>n. \<not> eligible p n)"
proof -
  have "eligible p n \<Longrightarrow> n \<in> level_at (highest_priority p) ` {0..<8}" for n
    using assms by (intro image_eqI [of _ _ "rank (lowest_priority p) n"])
      (auto simp: eligible_def highest_priority_def level_at_rank)
  then show ?thesis by (auto simp: service_choice_def find_None_iff)
qed

section \<open>Invariant\<close>

definition chip_ok :: "bx_pic_t \<Rightarrow> bool" where
  "chip_ok p \<longleftrightarrow> lowest_priority p \<le> 7 \<and> irq p \<le> 7 \<and> interrupt_offset p AND 7 = 0 \<and>
     (in_init p \<longrightarrow> byte_expected p \<in> {2, 3, 4})"

definition pic_ok :: "bx_pic_c \<Rightarrow> bool" where
  "pic_ok s \<longleftrightarrow> chip_ok (master_pic s) \<and> chip_ok (slave_pic s) \<and> master (master_pic s) \<and> \<not> master (slave_pic s) \<and>
     INTR s = INT_pin (master_pic s) \<and> INT_pin (slave_pic s) = bit (IRQ_in (master_pic s)) 2"

inductive pic_step :: "bx_pic_c \<Rightarrow> bx_pic_c \<Rightarrow> bool" where
  step_raise: "n \<noteq> 2 \<Longrightarrow> pic_step s (raise_irq n s)"
| step_lower: "n \<noteq> 2 \<Longrightarrow> pic_step s (lower_irq n s)"
| step_mode: "pic_step s (set_mode m v s)"
| step_IAC: "pic_step s (snd (IAC s))"
| step_read: "pic_step s (snd (pic_read a l s))"
| step_write: "pic_step s (pic_write a v l s)"

inductive_cases pic_stepE: "pic_step s t"

lemma scan_irq_le: "scan_irq fuel P stop n = Some m \<Longrightarrow> n \<le> 7 \<Longrightarrow> m \<le> 7"
  by (induction fuel arbitrary: n) (auto simp: Let_def split: if_splits)

lemma scan_irq_sat: "scan_irq fuel P stop n = Some m \<Longrightarrow> P m"
  by (induction fuel arbitrary: n) (auto simp: Let_def split: if_splits)

text \<open>What \<open>pic_service\<close> does to a chip: only its output and its current request change.\<close>

lemma core_cases:
  assumes "pic_service_core p = (q, out)"
  obtains (no) "out = No_out" "q = p"
  | (raised) n where "out = Raise_out" "\<not> INT_pin p" "q = p\<lparr>INT_pin := True, irq := n\<rparr>" "n \<le> 7"
  | (cleared) "out = Clear_out" "INT_pin p" "q = p\<lparr>INT_pin := False\<rparr>"
proof -
  have hp: "highest_priority p \<le> 7" by (simp add: highest_priority_def)
  show thesis
    using assms that scan_irq_le [OF _ hp] scan_irq_sat unfolding pic_service_core_def Let_def
    by (fastforce split: if_splits option.splits)
qed

definition pic_wf :: "bx_pic_c \<Rightarrow> bool" where
  "pic_wf s \<longleftrightarrow> chip_ok (master_pic s) \<and> chip_ok (slave_pic s) \<and> master (master_pic s) \<and> \<not> master (slave_pic s) \<and>
     INTR s = INT_pin (master_pic s)"

definition cascade :: "bx_pic_c \<Rightarrow> bool" where
  "cascade s \<longleftrightarrow> bit (IRQ_in (master_pic s)) 2"

lemma pic_ok_iff: "pic_ok s \<longleftrightarrow> pic_wf s \<and> INT_pin (slave_pic s) = cascade s"
  by (auto simp: pic_ok_def pic_wf_def cascade_def)

lemma chip_ok_update [simp]:
  "chip_ok (p\<lparr>isr := x\<rparr>) = chip_ok p" "chip_ok (p\<lparr>imr := x\<rparr>) = chip_ok p" "chip_ok (p\<lparr>irr := x\<rparr>) = chip_ok p"
  "chip_ok (p\<lparr>IRQ_in := x\<rparr>) = chip_ok p" "chip_ok (p\<lparr>INT_pin := b\<rparr>) = chip_ok p"
  "chip_ok (p\<lparr>polled := b\<rparr>) = chip_ok p" "chip_ok (p\<lparr>read_reg_select := x\<rparr>) = chip_ok p"
  "chip_ok (p\<lparr>special_mask := b\<rparr>) = chip_ok p" "chip_ok (p\<lparr>auto_eoi := x\<rparr>) = chip_ok p"
  "chip_ok (p\<lparr>rotate_on_autoeoi := b\<rparr>) = chip_ok p" "chip_ok (p\<lparr>edge_level := x\<rparr>) = chip_ok p"
  by (simp_all add: chip_ok_def)

lemma chip_ok_update_le [simp]:
  "chip_ok p \<Longrightarrow> n \<le> 7 \<Longrightarrow> chip_ok (p\<lparr>lowest_priority := n\<rparr>)" "chip_ok p \<Longrightarrow> n \<le> 7 \<Longrightarrow> chip_ok (p\<lparr>irq := n\<rparr>)"
  "chip_ok p \<Longrightarrow> n \<in> {2, 3, 4} \<Longrightarrow> chip_ok (p\<lparr>byte_expected := n\<rparr>)" "chip_ok p \<Longrightarrow> chip_ok (p\<lparr>in_init := False\<rparr>)"
  "chip_ok p \<Longrightarrow> x AND 7 = 0 \<Longrightarrow> chip_ok (p\<lparr>interrupt_offset := x\<rparr>)"
  by (auto simp: chip_ok_def)

lemma service_master:
  assumes "pic_wf s"
  shows "pic_wf (pic_service_master s)" "slave_pic (pic_service_master s) = slave_pic s"
    "cascade (pic_service_master s) = cascade s"
proof -
  obtain q out where c: "pic_service_core (master_pic s) = (q, out)" by force
  then have "pic_wf (pic_service_master s) \<and> slave_pic (pic_service_master s) = slave_pic s \<and>
      cascade (pic_service_master s) = cascade s"
    using assms unfolding pic_service_master_def c
    by (cases rule: core_cases [OF c]) (auto simp: pic_wf_def cascade_def pic_env_defs)
  then show "pic_wf (pic_service_master s)" "slave_pic (pic_service_master s) = slave_pic s"
    "cascade (pic_service_master s) = cascade s" by auto
qed

lemma raise_master:
  assumes "pic_wf s"
  shows "pic_wf (raise_irq_master n s)" "slave_pic (raise_irq_master n s) = slave_pic s"
    "cascade (raise_irq_master n s) = (cascade s \<or> n mod 8 = 2)"
proof -
  let ?t = "s\<lparr>master_pic := (master_pic s)\<lparr>IRQ_in := IRQ_in (master_pic s) OR push_bit (n mod 8) 1,
                                           irr := irr (master_pic s) OR push_bit (n mod 8) 1\<rparr>\<rparr>"
  have t: "pic_wf ?t" "slave_pic ?t = slave_pic s" "cascade ?t = (cascade s \<or> n mod 8 = 2)"
    using assms by (auto simp: pic_wf_def chip_ok_def cascade_def bit_or_iff bit_push_bit_iff bit_1_iff simp del: push_bit_of_1)
  have "raise_irq_master n s = pic_service_master ?t \<or> raise_irq_master n s = s \<and> (n mod 8 = 2 \<longrightarrow> cascade s)"
    unfolding raise_irq_master_def Let_def cascade_def and_mask_eq_0_iff by auto
  then consider "raise_irq_master n s = pic_service_master ?t" | "raise_irq_master n s = s" "n mod 8 = 2 \<longrightarrow> cascade s"
    by blast
  then have "pic_wf (raise_irq_master n s) \<and> slave_pic (raise_irq_master n s) = slave_pic s \<and>
      cascade (raise_irq_master n s) = (cascade s \<or> n mod 8 = 2)"
    using t assms service_master [OF t(1)] by cases auto
  then show "pic_wf (raise_irq_master n s)" "slave_pic (raise_irq_master n s) = slave_pic s"
    "cascade (raise_irq_master n s) = (cascade s \<or> n mod 8 = 2)" by auto
qed

lemma clear_line_bit:
  "bit (w AND NOT (push_bit n 1)) k \<longleftrightarrow> bit w k \<and> k \<noteq> n" for w :: Bit8u
  by (auto simp: bit_and_iff bit_not_iff bit_push_bit_iff bit_1_iff simp del: push_bit_of_1 dest: bit_imp_le_length)

lemma lower_2:
  assumes "pic_wf s"
  shows "pic_wf (lower_irq 2 s)" "slave_pic (lower_irq 2 s) = slave_pic s" "\<not> cascade (lower_irq 2 s)"
  using assms clear_line_bit [of "IRQ_in (master_pic s)" 2 2]
  unfolding lower_irq_def Let_def ioapic_set_irq_level_def cascade_def and_mask_eq_0_iff
  by (auto simp: pic_wf_def chip_ok_def and_mask_eq_0_iff simp del: push_bit_of_1)

lemma service_slave_ok:
  assumes "pic_ok s"
  shows "pic_ok (pic_service_slave s)"
proof -
  obtain q out where c: "pic_service_core (slave_pic s) = (q, out)" by force
  let ?t = "s\<lparr>slave_pic := q\<rparr>"
  have t: "pic_wf ?t" "cascade ?t = cascade s"
    using assms by (cases rule: core_cases [OF c]; auto simp: pic_ok_iff pic_wf_def cascade_def)+
  from c show ?thesis
    using assms t raise_master [OF t(1), of 2] lower_2 [OF t(1)]
    unfolding pic_service_slave_def c
    by (cases rule: core_cases [OF c]) (auto simp: pic_ok_iff)
qed

lemma service_ok: "pic_ok s \<Longrightarrow> pic_ok (pic_service m s)"
  using service_slave_ok service_master by (auto simp: pic_service_def pic_ok_iff)

text \<open>An update of one chip that keeps its lines keeps the invariant.\<close>

lemma upd_ok:
  assumes "pic_ok s" "\<And>p. chip_ok p \<Longrightarrow> chip_ok (f p)"
    "\<And>p. master (f p) = master p" "\<And>p. INT_pin (f p) = INT_pin p" "\<And>p. IRQ_in (f p) = IRQ_in p"
  shows "pic_ok (upd_pic m f s)"
  using assms by (auto simp: pic_ok_def upd_pic_def)

lemma panic_ok [simp]: "pic_ok (BX_PANIC x s) = pic_ok s"
  by (simp add: pic_ok_def BX_PANIC_def)

lemma ioapic_ok [simp]: "pic_ok (ioapic_set_irq_level n b s) = pic_ok s"
  by (simp add: pic_ok_def ioapic_set_irq_level_def)

lemma clear_highest_frame:
  "clear_highest_interrupt p = p\<lparr>isr := isr (clear_highest_interrupt p)\<rparr>"
  by (simp add: clear_highest_interrupt_def Let_def split: option.split)

lemma clear_highest_fields [simp]:
  "chip_ok (clear_highest_interrupt p) = chip_ok p" "master (clear_highest_interrupt p) = master p"
  "INT_pin (clear_highest_interrupt p) = INT_pin p" "IRQ_in (clear_highest_interrupt p) = IRQ_in p"
  "lowest_priority (clear_highest_interrupt p) = lowest_priority p" "irq (clear_highest_interrupt p) = irq p"
  "interrupt_offset (clear_highest_interrupt p) = interrupt_offset p" "in_init (clear_highest_interrupt p) = in_init p"
  "byte_expected (clear_highest_interrupt p) = byte_expected p"
  by (subst clear_highest_frame, simp add: chip_ok_def)+

lemma lower_irq_ok: "pic_ok s \<Longrightarrow> n \<noteq> 2 \<Longrightarrow> pic_ok (lower_irq n s)"
  unfolding lower_irq_def Let_def ioapic_set_irq_level_def
  by (auto simp: pic_ok_def chip_ok_def clear_line_bit simp del: push_bit_of_1)

lemma raise_irq_ok:
  assumes "pic_ok s" "n \<noteq> 2"
  shows "pic_ok (raise_irq n s)"
proof (cases "n \<le> 7")
  case True
  let ?s = "ioapic_set_irq_level n True s"
  have "pic_ok ?s" using assms by simp
  then have "pic_ok (raise_irq_master n ?s)"
    using True assms raise_master [of ?s n] by (auto simp: pic_ok_iff)
  then show ?thesis using True by (simp add: raise_irq_def)
next
  case False
  have "pic_ok (t\<lparr>slave_pic := (slave_pic t)\<lparr>IRQ_in := u, irr := v\<rparr>\<rparr>)" if "pic_ok t" for t u v
    using that by (simp add: pic_ok_def chip_ok_def)
  then show ?thesis using False assms service_ok by (simp add: raise_irq_def Let_def)
qed

lemma irq_le: "pic_ok s \<Longrightarrow> irq (master_pic s) \<le> 7 \<and> irq (slave_pic s) \<le> 7"
  by (simp add: pic_ok_def chip_ok_def)

lemma acknowledge_fields [simp]:
  "chip_ok p \<Longrightarrow> chip_ok (acknowledge p)" "master (acknowledge p) = master p"
  "INT_pin (acknowledge p) = INT_pin p" "IRQ_in (acknowledge p) = IRQ_in p" "irq (acknowledge p) = irq p"
  "interrupt_offset (acknowledge p) = interrupt_offset p"
  by (auto simp: acknowledge_def Let_def chip_ok_def)

lemma IAC_ok:
  assumes "pic_ok s"
  shows "pic_ok (snd (IAC s))"
proof -
  let ?s1 = "upd_pic True (\<lambda>p. p\<lparr>INT_pin := False\<rparr>) (BX_CLEAR_INTR s)"
  let ?s2 = "upd_pic True acknowledge ?s1"
  let ?s3 = "upd_pic True (\<lambda>p. p\<lparr>IRQ_in := IRQ_in p AND NOT (push_bit 2 1)\<rparr>)
               (upd_pic False (\<lambda>p. p\<lparr>INT_pin := False\<rparr>) ?s2)"
  have s1: "pic_ok ?s1" using assms by (simp add: pic_ok_def pic_env_defs)
  then have s2: "pic_ok ?s2" by (rule upd_ok) auto
  then have s3: "pic_ok ?s3"
    using clear_line_bit [of "IRQ_in (master_pic s)" 2 2]
    by (simp add: pic_ok_def pic_env_defs chip_ok_def)
  then have "pic_ok (upd_pic False acknowledge ?s3)" by (rule upd_ok) auto
  then show ?thesis
    unfolding IAC_def Let_def using s1 s2 s3 by (simp add: service_ok split: if_split)
qed

lemma poll_read_ok: "pic_ok s \<Longrightarrow> pic_ok (snd (poll_read m l s))"
  unfolding poll_read_def Let_def snd_conv
  by (intro service_ok upd_ok) auto

lemma pic_read_ok: "pic_ok s \<Longrightarrow> pic_ok (snd (pic_read a l s))"
  using poll_read_ok by (simp add: pic_read_def)

lemma icw1_ok:
  assumes "pic_ok s"
  shows "pic_ok (icw1 m v s)"
proof -
  have "pic_ok t \<Longrightarrow> pic_ok (let s = upd_pic m (\<lambda>p. p\<lparr>in_init := True, requires_4 := r, byte_expected := 2,
         imr := 0x00, isr := 0x00, irr := 0x00, lowest_priority := 7,
         auto_eoi := 0, rotate_on_autoeoi := False, INT_pin := False\<rparr>) t
      in if m then BX_CLEAR_INTR s
         else upd_pic True (\<lambda>p. p\<lparr>IRQ_in := IRQ_in p AND NOT (push_bit 2 1)\<rparr>) s)" for t r
    using clear_line_bit [of "IRQ_in (master_pic t)" 2 2]
    by (auto simp: pic_ok_def chip_ok_def pic_env_defs Let_def)
  then show ?thesis
    unfolding icw1_def Let_def using assms by (simp split: if_split)
qed

lemma ocw3_ok: "pic_ok s \<Longrightarrow> pic_ok (ocw3 m v s)"
  unfolding ocw3_def Let_def by (auto intro!: service_ok upd_ok)

lemma priority_command:
  "0xC0 \<le> v \<Longrightarrow> v \<le> 0xC7 \<Longrightarrow> unat (v - 0xC0) \<le> 7"
  "0xE0 \<le> v \<Longrightarrow> v \<le> 0xE7 \<Longrightarrow> unat (v - 0xE0) \<le> 7" for v :: Bit32u
  by (simp_all add: unat_sub word_le_nat_alt)

lemma pic_ok_if: "(b \<Longrightarrow> pic_ok x) \<Longrightarrow> (\<not> b \<Longrightarrow> pic_ok y) \<Longrightarrow> pic_ok (if b then x else y)"
  by simp

lemma panic_okI: "pic_ok s \<Longrightarrow> pic_ok (BX_PANIC x s)"
  by simp

lemmas pic_ok_intros = pic_ok_if panic_okI service_ok upd_ok

lemma ocw2_ok: "pic_ok s \<Longrightarrow> pic_ok (ocw2 m a v s)"
  unfolding ocw2_def Let_def
  by (intro pic_ok_intros; (elim conjE)?; (assumption | simp add: priority_command))

lemma offset_aligned: "(ucast (v AND 0xf8) :: Bit8u) AND 7 = 0" for v :: Bit32u
proof (rule bit_word_eqI)
  fix n assume "n < LENGTH(8)"
  have "(7 :: Bit8u) = mask 3" by (simp add: mask_numeral)
  moreover have "n < 3 \<Longrightarrow> \<not> bit (0xf8 :: Bit32u) n"
    by (auto simp: numeral_3_eq_3 less_Suc_eq)
  ultimately show "bit ((ucast (v AND 0xf8) :: Bit8u) AND 7) n = bit (0 :: Bit8u) n"
    by (simp only: bit_and_iff bit_ucast_iff bit_mask_iff bit_0_eq bot_fun_def) auto
qed

lemma init_command_ok: "pic_ok s \<Longrightarrow> pic_ok (init_command m v s)"
  unfolding init_command_def Let_def
  by (intro pic_ok_intros; (assumption | simp add: offset_aligned))

lemma pic_write_ok: "pic_ok s \<Longrightarrow> pic_ok (pic_write a v l s)"
  unfolding pic_write_def Let_def
  by (auto intro!: icw1_ok ocw2_ok ocw3_ok init_command_ok service_ok upd_ok)

lemma pic_step_ok: "pic_step s t \<Longrightarrow> pic_ok s \<Longrightarrow> pic_ok t"
  by (erule pic_stepE)
    (auto intro: raise_irq_ok lower_irq_ok IAC_ok pic_read_ok pic_write_ok upd_ok simp: set_mode_def)

section \<open>End of interrupt\<close>

lemma clear_highest_min:
  assumes "lowest_priority p \<le> 7" "n < 8" "bit (isr p) n"
    "\<forall>m<8. bit (isr p) m \<longrightarrow> rank (lowest_priority p) n \<le> rank (lowest_priority p) m"
  shows "isr (clear_highest_interrupt p) = isr p AND NOT (push_bit n 1)"
proof -
  let ?lp = "lowest_priority p" and ?hp = "highest_priority p"
  have hp: "?hp \<le> 7" by (simp add: highest_priority_def)
  have lev: "level_at ?hp (rank ?lp n) = n"
    using assms by (simp add: highest_priority_def level_at_rank)
  have "\<not> bit (isr p) (level_at ?hp j)" if "j < rank ?lp n" for j
    using that assms rank_level_at [of ?lp j] rank_less_8 [of ?lp n] unfolding highest_priority_def
    by (metis level_at_le(2) linorder_not_less order.strict_trans)
  then have "scan_irq 8 (bit (isr p)) ?hp ?hp = Some n"
    using hp assms lev order.strict_trans [OF _ rank_less_8 [of ?lp n]]
    by (auto simp: scan_irq_find span_full find_Some_iff intro!: exI [of _ "rank ?lp n"])
  then show ?thesis
    by (simp add: clear_highest_interrupt_def Let_def)
qed

lemma isr_service [simp]:
  "isr (master_pic (pic_service_master s)) = isr (master_pic s)"
  "isr (slave_pic (pic_service_master s)) = isr (slave_pic s)"
proof -
  obtain q out where c: "pic_service_core (master_pic s) = (q, out)" by force
  show "isr (master_pic (pic_service_master s)) = isr (master_pic s)"
    "isr (slave_pic (pic_service_master s)) = isr (slave_pic s)"
    unfolding pic_service_master_def c
    by (cases rule: core_cases [OF c]; simp add: pic_env_defs)+
qed

lemma set_clear_bit: "\<not> bit w n \<Longrightarrow> n < 8 \<Longrightarrow> (w OR push_bit n 1) AND NOT (push_bit n 1) = w" for w :: Bit8u
  by (rule bit_word_eqI) (auto simp: clear_line_bit bit_or_iff bit_push_bit_iff bit_1_iff simp del: push_bit_of_1)

lemma EOI_undoes_acknowledge:
  assumes "lowest_priority p \<le> 7" "eligible p (irq p)" "auto_eoi p = 0" "\<not> special_mask p"
  shows "isr (clear_highest_interrupt (acknowledge p)) = isr p"
proof -
  let ?n = "irq p"
  have n: "?n < 8" "\<not> bit (isr p) ?n"
    using assms by (auto simp: eligible_def)
  have isr': "isr (acknowledge p) = isr p OR push_bit ?n 1" "lowest_priority (acknowledge p) = lowest_priority p"
    using assms by (simp_all add: acknowledge_def)
  have "isr (clear_highest_interrupt (acknowledge p)) = isr (acknowledge p) AND NOT (push_bit ?n 1)"
    using assms n
    by (intro clear_highest_min)
      (auto simp: isr' eligible_def bit_or_iff bit_push_bit_iff bit_1_iff less_imp_le simp del: push_bit_of_1)
  also have "\<dots> = isr p"
    unfolding isr' using n by (intro set_clear_bit)
  finally show ?thesis .
qed

section \<open>Properties\<close>

text \<open>
  C1: When the chip's output is low, \<open>pic_service\<close> signals the eligible request
  of the best rank under the rotating priority (pending, unmasked, and outranking everything
  in service, or merely not in service itself in special mask mode); it signals nothing when
  there is none, and never a request that is not eligible.
\<close>

theorem pic_service_priority:
  assumes "lowest_priority p \<le> 7" "\<not> INT_pin p"
  shows "(\<forall>n. eligible p n \<and> (\<forall>m. eligible p m \<longrightarrow> rank (lowest_priority p) n \<le> rank (lowest_priority p) m)
           \<longrightarrow> pic_service_core p = (p\<lparr>INT_pin := True, irq := n\<rparr>, Raise_out))
    \<and> ((\<forall>n. \<not> eligible p n) \<longrightarrow> pic_service_core p = (p, No_out))
    \<and> (\<forall>q out. pic_service_core p = (q, out) \<and> INT_pin q \<longrightarrow> eligible p (irq q))"
proof -
  have "eligible p (irq q)" if "pic_service_core p = (q, out)" "INT_pin q" for q out
    using that assms pic_service_core_choice [OF assms] service_choice_Some [OF assms(1), THEN iffD1]
    by (auto split: option.splits)
  then show ?thesis
    using pic_service_core_choice [OF assms] service_choice_Some [OF assms(1)] service_choice_None [OF assms(1)]
    by (metis option.simps(4,5))
qed

text \<open>
  C22: Every state reached from \<open>init\<close> by raising and lowering external lines
  (every line but the cascade line 2), mode changes, port reads and writes and interrupt
  acknowledges is well formed: priorities and current levels are levels, vector bases are
  multiples of eight, an initialization sequence expects ICW2, 3 or 4, the CPU's INTR line
  equals the master's output, and the slave's output equals the master's input line 2.
\<close>

theorem pic_invariant:
  assumes "pic_step\<^sup>*\<^sup>* (pic_init apic) s"
  shows "pic_ok s"
  using assms
proof (induction rule: rtranclp_induct)
  case base
  show ?case by (simp add: pic_ok_def chip_ok_def pic_init_def master_init_def slave_init_def)
next
  case (step s t)
  then show ?case by (blast intro: pic_step_ok)
qed


text \<open>\<open>IAC\<close> when a request of the master itself is taken.\<close>

lemma IAC_master:
  assumes "eligible (master_pic s) (irq (master_pic s))" "irq (master_pic s) \<noteq> 2"
  shows "IAC s = (of_nat (irq (master_pic s)) + interrupt_offset (master_pic s),
    pic_service_master (s\<lparr>INTR := False, master_pic := acknowledge ((master_pic s)\<lparr>INT_pin := False\<rparr>)\<rparr>))"
proof -
  have "bit (irr (master_pic s) AND NOT (imr (master_pic s))) (irq (master_pic s))"
    using assms by (simp add: eligible_def bit_and_iff bit_not_iff)
  then have "irr (master_pic s) AND NOT (imr (master_pic s)) \<noteq> 0"
    by auto
  then show ?thesis
    using assms(2) by (simp add: IAC_def Let_def pic_env_defs pic_service_def)
qed

text \<open>
  An interrupt acknowledge followed by a non-specific end of interrupt leaves the
  master's in-service register as it was: the EOI retires exactly the level that IAC took.
\<close>

lemma IAC_EOI_restores_isr:
  assumes "pic_ok s" "eligible (master_pic s) (irq (master_pic s))" "irq (master_pic s) \<noteq> 2"
    "auto_eoi (master_pic s) = 0" "\<not> special_mask (master_pic s)"
  shows "isr (master_pic (pic_write 0x20 0x20 1 (snd (IAC s)))) = isr (master_pic s)"
proof -
  let ?p = "(master_pic s)\<lparr>INT_pin := False\<rparr>"
  let ?t = "s\<lparr>INTR := False, master_pic := acknowledge ?p\<rparr>"
  have "isr (clear_highest_interrupt (acknowledge ?p)) = isr ?p"
    using assms by (intro EOI_undoes_acknowledge) (auto simp: pic_ok_def chip_ok_def eligible_def)
  moreover have "isr (master_pic (pic_write 0x20 0x20 1 t)) = isr (clear_highest_interrupt (master_pic t))" for t
    by (simp add: pic_write_def ocw2_def pic_service_def upd_pic_def Let_def)
  moreover have "isr (clear_highest_interrupt (master_pic (pic_service_master ?t))) =
      isr (clear_highest_interrupt (acknowledge ?p))"
  proof -
    obtain q out where c: "pic_service_core (acknowledge ?p) = (q, out)" by force
    then have "isr (clear_highest_interrupt q) = isr (clear_highest_interrupt (acknowledge ?p))"
      by (cases rule: core_cases [OF c]) (simp_all add: clear_highest_interrupt_def highest_priority_def Let_def split: option.split)
    then show ?thesis
      unfolding pic_service_master_def using c by (simp add: Let_def pic_env_defs split: pic_output.split)
  qed
  ultimately show ?thesis
    using IAC_master [OF assms(2,3)] by simp
qed

lemma offset_plus:
  assumes "off AND 7 = (0 :: Bit8u)" "n \<le> 7"
  shows "(off + of_nat n) AND 0xF8 = off"
proof -
  have m: "(7 :: Bit8u) = mask 3" by (simp add: mask_numeral)
  have n: "take_bit 3 (of_nat n :: Bit8u) = of_nat n"
    using assms(2) by (simp add: take_bit_of_nat take_bit_nat_eq_self)
  have off: "\<not> bit off k" if "k < 3" for k
  proof -
    have "bit (take_bit 3 off) k = bit (0 :: Bit8u) k"
      using assms(1) by (simp add: m take_bit_eq_mask)
    then show ?thesis using that by (simp add: bit_take_bit_iff)
  qed
  have high: "\<not> bit (of_nat n :: Bit8u) k" if "3 \<le> k" for k
    using n that by (metis bit_take_bit_iff linorder_not_less)
  have "off + of_nat n = off OR of_nat n"
    by (rule disjunctive_add) (use off high not_less in blast)
  moreover have "(off OR of_nat n) AND NOT (mask 3) = off"
  proof (rule bit_word_eqI)
    fix k assume "k < LENGTH(8)"
    then show "bit ((off OR of_nat n) AND NOT (mask 3)) k = bit off k"
      unfolding bit_and_iff bit_or_iff bit_not_iff bit_mask_iff
      using off [of k] high [of k] by (cases "k < 3") simp_all
  qed
  moreover have "(0xF8 :: Bit8u) = NOT (mask 3)" by (simp add: mask_numeral)
  ultimately show ?thesis by simp
qed

text \<open>
  Every vector IAC returns, spurious ones included, lies in the block of eight vectors
  of the master or of the slave.
\<close>

lemma IAC_vector_base:
  assumes "pic_ok s"
  shows "fst (IAC s) AND 0xF8 \<in> {interrupt_offset (master_pic s), interrupt_offset (slave_pic s)}"
  using assms offset_plus [of "interrupt_offset (master_pic s)" 7] offset_plus [of "interrupt_offset (slave_pic s)" 7]
    offset_plus [of "interrupt_offset (master_pic s)" "irq (master_pic s)"]
    offset_plus [of "interrupt_offset (slave_pic s)" "irq (slave_pic s)"]
  by (simp add: IAC_def Let_def pic_ok_def chip_ok_def pic_env_defs add.commute)

text \<open>A chip whose input line \<open>n\<close> has gone high.\<close>

definition raised :: "bx_pic_t \<Rightarrow> nat \<Rightarrow> bx_pic_t" where
  "raised p n = p\<lparr>IRQ_in := IRQ_in p OR push_bit n 1, irr := irr p OR push_bit n 1\<rparr>"

lemma raised_pow: "p\<lparr>IRQ_in := IRQ_in p OR 2 ^ n, irr := irr p OR 2 ^ n\<rparr> = raised p n"
  by (simp add: raised_def)

lemma raised_fields [simp]:
  "lowest_priority (raised p n) = lowest_priority p" "INT_pin (raised p n) = INT_pin p"
  "interrupt_offset (raised p n) = interrupt_offset p"
  by (simp_all add: raised_def)

lemma eligible_output [simp]: "eligible (p\<lparr>INT_pin := b, irq := k\<rparr>) = eligible p" "eligible (p\<lparr>INT_pin := b\<rparr>) = eligible p"
  by (auto simp: eligible_def fun_eq_iff)

lemma raise_master_choice:
  assumes "pic_wf s" "n \<le> 7" "\<not> bit (IRQ_in (master_pic s)) n" "\<not> INT_pin (master_pic s)"
    "service_choice (raised (master_pic s) n) = Some n"
  shows "raise_irq_master n s = s\<lparr>master_pic := (raised (master_pic s) n)\<lparr>INT_pin := True, irq := n\<rparr>, INTR := True\<rparr>"
proof -
  have "pic_service_core (raised (master_pic s) n) = ((raised (master_pic s) n)\<lparr>INT_pin := True, irq := n\<rparr>, Raise_out)"
    using assms by (subst pic_service_core_choice) (simp_all add: pic_wf_def chip_ok_def)
  moreover have "IRQ_in (master_pic s) AND push_bit (n mod 8) 1 = 0"
    using assms(2,3) and_mask_eq_0_iff [of "IRQ_in (master_pic s)" n] by simp
  ultimately show ?thesis
    using assms(2) unfolding raise_irq_master_def pic_service_master_def Let_def
    by (simp add: raised_def BX_RAISE_INTR_def)
qed

text \<open>
  When a master line goes high and its request wins the arbitration, INTR is raised and
  the next acknowledge returns the vector base plus the line.
\<close>

lemma master_delivery:
  assumes "pic_ok s" "n \<le> 7" "n \<noteq> 2" "\<not> bit (IRQ_in (master_pic s)) n" "\<not> INT_pin (master_pic s)"
    "service_choice (raised (master_pic s) n) = Some n"
  shows "INTR (raise_irq n s) \<and> fst (IAC (raise_irq n s)) = of_nat n + interrupt_offset (master_pic s)"
proof -
  let ?s = "ioapic_set_irq_level n True s"
  have fr: "master_pic ?s = master_pic s" by (simp add: ioapic_set_irq_level_def)
  have "pic_wf ?s" using assms ioapic_ok pic_ok_iff by metis
  then have r: "raise_irq n s = ?s\<lparr>master_pic := (raised (master_pic s) n)\<lparr>INT_pin := True, irq := n\<rparr>, INTR := True\<rparr>"
    using assms raise_master_choice [of ?s n] fr by (simp add: raise_irq_def)
  have "eligible (raised (master_pic s) n) n"
    using assms(1,6) service_choice_Some [of "raised (master_pic s) n"] by (simp add: pic_ok_def chip_ok_def)
  then have "fst (IAC (raise_irq n s)) = of_nat n + interrupt_offset (master_pic s)"
    using assms(3) by (subst IAC_master) (simp_all add: r)
  then show ?thesis by (simp add: r)
qed

lemma eligible_requested: "eligible p n \<Longrightarrow> irr p AND NOT (imr p) \<noteq> 0"
proof -
  assume "eligible p n"
  then have "bit (irr p AND NOT (imr p)) n" by (simp add: eligible_def bit_and_iff bit_not_iff)
  then show ?thesis by auto
qed

text \<open>
  C27: In a well-formed state with both outputs low: when a slave line that was low goes high, its request wins on the slave
  and the cascade line wins on the master, INTR is raised and the next acknowledge returns the slave's base plus the
  line's number on the slave.
\<close>

theorem slave_delivery:
  assumes "pic_ok s" "n \<le> 7" "\<not> bit (IRQ_in (slave_pic s)) n" "\<not> INT_pin (slave_pic s)" "\<not> INT_pin (master_pic s)"
    "service_choice (raised (slave_pic s) n) = Some n" "service_choice (raised (master_pic s) 2) = Some 2"
  shows "INTR (raise_irq (n + 8) s) \<and> fst (IAC (raise_irq (n + 8) s)) = of_nat n + interrupt_offset (slave_pic s)"
proof -
  let ?s = "ioapic_set_irq_level (n + 8) True s"
  let ?sl = "(raised (slave_pic s) n)\<lparr>INT_pin := True, irq := n\<rparr>"
  let ?ma = "(raised (master_pic s) 2)\<lparr>INT_pin := True, irq := 2\<rparr>"
  let ?r = "?s\<lparr>slave_pic := ?sl, master_pic := ?ma, INTR := True\<rparr>"
  have fr: "master_pic ?s = master_pic s" "slave_pic ?s = slave_pic s"
    by (simp_all add: ioapic_set_irq_level_def)
  have ok: "lowest_priority (slave_pic s) \<le> 7" "lowest_priority (master_pic s) \<le> 7" "\<not> bit (IRQ_in (master_pic s)) 2"
    using assms(1,4) by (auto simp: pic_ok_def chip_ok_def)
  have "pic_wf (?s\<lparr>slave_pic := ?sl\<rparr>)"
    using assms(1,2) by (simp add: pic_ok_def pic_wf_def ioapic_set_irq_level_def raised_def)
  then have "raise_irq_master 2 (?s\<lparr>slave_pic := ?sl\<rparr>) = ?r"
    using assms ok fr raise_master_choice [of "?s\<lparr>slave_pic := ?sl\<rparr>" 2] by simp
  moreover have "pic_service_core (raised (slave_pic s) n) = (?sl, Raise_out)"
    using assms ok by (subst pic_service_core_choice) simp_all
  moreover have "IRQ_in (slave_pic s) AND push_bit n 1 = 0"
    using assms(3) and_mask_eq_0_iff by blast
  ultimately have r: "raise_irq (n + 8) s = ?r"
    using assms(2) fr
    by (simp add: raise_irq_def pic_service_def pic_service_slave_def Let_def raised_pow)
  have "eligible (raised (master_pic s) 2) 2" "eligible (raised (slave_pic s) n) n"
    using assms(6,7) ok service_choice_Some by simp_all
  then have "fst (IAC ?r) = of_nat n + interrupt_offset (slave_pic s)"
    using eligible_requested [of "raised (master_pic s) 2" 2] eligible_requested [of "raised (slave_pic s) n" n]
    by (simp add: IAC_def Let_def pic_env_defs)
  then show ?thesis by (simp add: r)
qed

text \<open>
  The master's initialization sequence ICW1 (cascade, edge triggered, ICW4 needed),
  ICW2, ICW3 = 4, ICW4 leaves the vector base of ICW2 with its low three bits cleared, the
  EOI mode of ICW4, clear registers, the default priority, no interrupt request and no
  panic, and does not touch the slave.
\<close>

lemma init_sequence:
  fixes icw icw4 off :: Bit32u
  assumes "icw AND 0x02 = 0" "icw AND 0x08 = 0" "icw AND 0x10 \<noteq> 0" "icw AND 0x01 \<noteq> 0" "icw4 AND 0x01 \<noteq> 0"
  shows "(let s' = pic_write 0x21 icw4 1 (pic_write 0x21 0x04 1 (pic_write 0x21 off 1 (pic_write 0x20 icw 1 s)));
              p = master_pic s'
          in interrupt_offset p = ucast (off AND 0xF8) \<and> \<not> in_init p \<and> (auto_eoi p = 0 \<longleftrightarrow> icw4 AND 2 = 0) \<and>
             imr p = 0 \<and> isr p = 0 \<and> irr p = 0 \<and> lowest_priority p = 7 \<and> \<not> INT_pin p \<and> \<not> INTR s' \<and>
             slave_pic s' = slave_pic s \<and> panics s' = panics s)"
  using assms by (simp add: pic_write_def icw1_def init_command_def pic_env_defs Let_def)

lemma get_pic_service: "get_pic m (pic_service m s) = fst (pic_service_core (get_pic m s))"
proof -
  have "slave_pic (pic_service_master t) = slave_pic t" for t
    by (simp add: pic_service_master_def Let_def pic_env_defs split: prod.split pic_output.split)
  then have "slave_pic (raise_irq_master 2 t) = slave_pic t" "slave_pic (lower_irq 2 t) = slave_pic t" for t
    by (simp_all add: raise_irq_master_def lower_irq_def ioapic_set_irq_level_def)
  then show ?thesis
    by (simp add: get_pic_def pic_service_def pic_service_slave_def pic_service_master_def Let_def
        BX_RAISE_INTR_def BX_CLEAR_INTR_def split: prod.split pic_output.split)
qed

lemma get_upd_pic [simp]: "get_pic m (upd_pic m f s) = f (get_pic m s)"
  by (simp add: get_pic_def upd_pic_def)

lemma core_imr: "imr (fst (pic_service_core p)) = imr p" "polled (fst (pic_service_core p)) = polled p"
proof -
  obtain q out where c: "pic_service_core p = (q, out)" by force
  show "imr (fst (pic_service_core p)) = imr p" "polled (fst (pic_service_core p)) = polled p"
    unfolding c by (cases rule: core_cases [OF c]; simp)+
qed

lemma ucast_ucast_byte: "(ucast (ucast v :: Bit8u) :: Bit32u) = v AND 0xFF"
proof -
  have "(ucast (ucast v :: Bit8u) :: Bit32u) = take_bit 8 v"
    by (rule bit_word_eqI) (auto simp: bit_simps)
  then show ?thesis by (simp add: take_bit_eq_mask mask_numeral)
qed

text \<open>
  Outside an initialization sequence and outside poll mode, the mask register written to
  the data port of either chip is read back.
\<close>

lemma imr_roundtrip:
  assumes "\<not> in_init (get_pic m s)" "\<not> polled (get_pic m s)"
  shows "fst (pic_read (if m then 0x21 else 0xA1) 1 (pic_write (if m then 0x21 else 0xA1) v 1 s)) = v AND 0xFF"
proof -
  let ?s = "upd_pic m (\<lambda>p. p\<lparr>imr := ucast v\<rparr>) s"
  have "imr (get_pic m (pic_service m ?s)) = ucast v" "\<not> polled (get_pic m (pic_service m ?s))"
    using assms by (simp_all add: get_pic_service core_imr)
  moreover have "(ucast (ucast v :: Bit8u) :: Bit32u) = v AND 0xFF"
    by (simp add: ucast_ucast_byte)
  ultimately show ?thesis
    using assms by (cases m) (simp_all add: pic_write_def pic_read_def get_pic_def Let_def)
qed

text \<open>The pair of chips after the usual programming sequence, and states derived from it.\<close>

definition programmed :: bx_pic_c where
  "programmed = pic_write 0x21 0x00 1 (pic_write 0x21 0x01 1 (pic_write 0x21 0x04 1
     (pic_write 0x21 0x20 1 (pic_write 0x20 0x11 1 (pic_init False)))))"

text \<open>
  A request that is withdrawn after it was signalled is still acknowledged when another
  request is pending: with lines 3 and 4 raised and line 3 lowered again, IAC returns the
  vector of line 3 and marks it in service, although its request bit is clear.
\<close>

lemma IAC_withdrawn_request:
  "(let s = lower_irq 3 (raise_irq 4 (raise_irq 3 programmed))
    in \<not> bit (IRQ_in (master_pic s)) 3 \<and> \<not> bit (irr (master_pic s)) 3 \<and> bit (irr (master_pic s)) 4
       \<and> fst (IAC s) = 0x23 \<and> bit (isr (master_pic (snd (IAC s)))) 3)"
  by code_simp

text \<open>
  The command 0xA0, rotate on non-specific EOI, retires level 5 but leaves level 0 with
  the lowest priority: the code steps \<open>lowest_priority\<close> by one instead of
  giving the retired level the lowest priority.
\<close>

lemma rotate_on_nonspecific_EOI:
  "(let s = snd (IAC (raise_irq 5 programmed)); t = pic_write 0x20 0xA0 1 s
    in bit (isr (master_pic s)) 5 \<and> isr (master_pic t) = 0 \<and> lowest_priority (master_pic t) = 0)"
  by code_simp


definition two_requests :: bx_pic_t where
  "two_requests = (master_pic programmed)\<lparr>irr := 0x18, isr := 0x40\<rparr>"


theorem pic_service_priority_witness:
  "eligible two_requests 3 \<and> eligible two_requests 4 \<and>
   pic_service_core two_requests = (two_requests\<lparr>INT_pin := True, irq := 3\<rparr>, Raise_out)"
proof -
  have *: "lowest_priority two_requests \<le> 7" "\<not> INT_pin two_requests" by code_simp+
  have "service_choice two_requests = Some 3" by code_simp
  then have "eligible two_requests 3 \<and>
      (\<forall>m. eligible two_requests m \<longrightarrow> rank (lowest_priority two_requests) 3 \<le> rank (lowest_priority two_requests) m)"
    using service_choice_Some [OF *(1)] by blast
  moreover have "eligible two_requests 4" by code_simp
  ultimately show ?thesis
    using pic_service_priority [OF *] by blast
qed

lemma reach_write: "pic_step\<^sup>*\<^sup>* a s \<Longrightarrow> pic_step\<^sup>*\<^sup>* a (pic_write x y l s)"
  by (rule rtranclp.rtrancl_into_rtrancl) (auto intro: step_write)

lemma programmed_reachable: "pic_step\<^sup>*\<^sup>* (pic_init False) programmed"
  unfolding programmed_def by (intro reach_write rtranclp.rtrancl_refl)

theorem pic_invariant_witness:
  "pic_step\<^sup>*\<^sup>* (pic_init False) (raise_irq 3 programmed) \<and> pic_ok (raise_irq 3 programmed)"
proof -
  have "pic_step\<^sup>*\<^sup>* (pic_init False) (raise_irq 3 programmed)"
    using programmed_reachable by (rule rtranclp.rtrancl_into_rtrancl) (simp add: step_raise)
  then show ?thesis using pic_invariant by blast
qed

lemma programmed_ok: "pic_ok programmed" "pic_ok (raise_irq 3 programmed)"
  by code_simp+

definition programmed_both :: bx_pic_c where
  "programmed_both = pic_write 0xA1 0x00 1 (pic_write 0xA1 0x01 1 (pic_write 0xA1 0x02 1
     (pic_write 0xA1 0x28 1 (pic_write 0xA0 0x11 1 programmed))))"

theorem slave_delivery_witness: "fst (IAC (raise_irq 12 programmed_both)) = 0x2C"
proof -
  have "pic_ok programmed_both" "\<not> bit (IRQ_in (slave_pic programmed_both)) 4" "\<not> INT_pin (slave_pic programmed_both)"
    "\<not> INT_pin (master_pic programmed_both)" "service_choice (raised (slave_pic programmed_both) 4) = Some 4"
    "service_choice (raised (master_pic programmed_both) 2) = Some 2" "interrupt_offset (slave_pic programmed_both) = 0x28"
    by code_simp+
  then show ?thesis using slave_delivery [of programmed_both 4] by simp
qed

end
