(* ===== verification/Pit82c54.thy ===== *)
theory Pit82c54
  imports Bochs_Prelude
begin

text \<open>
  The 82C54 interval timer of \<^verbatim>\<open>iodev/pit82c54.cc\<close> and \<^verbatim>\<open>iodev/pit82c54.h\<close>: three counters
  with their modes 0 to 5, latches, gates and outputs, and the event-skipping clock
  \<open>clock_multiple\<close>, which the device layer calls with the number of input clocks that
  have passed. A counter's callback \<open>out_handler\<close> is code of its client: the field
  \<open>out_handler\<close> says whether one is registered and \<open>OUT_calls\<close> collects the values it is
  called with, the latest first. \<open>BX_ERROR\<close> only logs a message and has no effect here.
\<close>

unbundle bit_operations_syntax

section \<open>State\<close>

datatype rw_status = LSByte | MSByte | LSByte_multiple | MSByte_multiple

record counter_type =
  GATE :: bool
  OUTpin :: bool
  count :: Bit32u
  outlatch :: Bit16u
  inlatch :: Bit16u
  status_latch :: Bit8u
  rw_mode :: Bit8u
  mode :: Bit8u
  bcd_mode :: bool
  null_count :: bool
  count_LSB_latched :: bool
  count_MSB_latched :: bool
  status_latched :: bool
  count_binary :: Bit32u
  triggerGATE :: bool
  write_state :: rw_status
  read_state :: rw_status
  count_written :: bool
  first_pass :: bool
  state_bit_1 :: bool
  state_bit_2 :: bool
  next_change_time :: Bit32u
  out_handler :: bool
  OUT_calls :: "bool list"

record pit_82C54 =
  counter :: "nat \<Rightarrow> counter_type"
  controlword :: Bit8u

abbreviation (input) MAX_COUNTER :: nat where "MAX_COUNTER \<equiv> 2"
abbreviation (input) CONTROL_ADDRESS :: nat where "CONTROL_ADDRESS \<equiv> 3"

definition upd_counter :: "nat \<Rightarrow> (counter_type \<Rightarrow> counter_type) \<Rightarrow> pit_82C54 \<Rightarrow> pit_82C54" where
  "upd_counter n f p = p\<lparr>counter := (counter p)(n := f (counter p n))\<rparr>"

section \<open>Counter primitives\<close>

definition latch_counter :: "counter_type \<Rightarrow> counter_type" where
  "latch_counter c =
     (if count_LSB_latched c \<or> count_MSB_latched c then c
      else case read_state c of
        MSByte \<Rightarrow> c\<lparr>outlatch := ucast (count c AND 0xFFFF), count_MSB_latched := True\<rparr>
      | LSByte \<Rightarrow> c\<lparr>outlatch := ucast (count c AND 0xFFFF), count_LSB_latched := True\<rparr>
      | LSByte_multiple \<Rightarrow>
          c\<lparr>outlatch := ucast (count c AND 0xFFFF), count_LSB_latched := True, count_MSB_latched := True\<rparr>
      | MSByte_multiple \<Rightarrow>
          c\<lparr>read_state := LSByte_multiple, outlatch := ucast (count c AND 0xFFFF),
            count_LSB_latched := True, count_MSB_latched := True\<rparr>)"

definition set_OUT :: "bool \<Rightarrow> counter_type \<Rightarrow> counter_type" where
  "set_OUT data c =
     (if OUTpin c \<noteq> data
      then let c = c\<lparr>OUTpin := data\<rparr> in
           if out_handler c then c\<lparr>OUT_calls := data # OUT_calls c\<rparr> else c
      else c)"

definition set_count_to_binary :: "counter_type \<Rightarrow> counter_type" where
  "set_count_to_binary c =
     (if bcd_mode c
      then c\<lparr>count := push_bit 0 ((count_binary c div 1) mod 10) OR
                      push_bit 4 ((count_binary c div 10) mod 10) OR
                      push_bit 8 ((count_binary c div 100) mod 10) OR
                      push_bit 12 ((count_binary c div 1000) mod 10)\<rparr>
      else c\<lparr>count := count_binary c\<rparr>)"

definition set_binary_to_count :: "counter_type \<Rightarrow> counter_type" where
  "set_binary_to_count c =
     (if bcd_mode c
      then c\<lparr>count_binary := 1 * (drop_bit 0 (count c) AND 0xF) +
                             10 * (drop_bit 4 (count c) AND 0xF) +
                             100 * (drop_bit 8 (count c) AND 0xF) +
                             1000 * (drop_bit 12 (count c) AND 0xF)\<rparr>
      else c\<lparr>count_binary := count c\<rparr>)"

definition set_count :: "Bit32u \<Rightarrow> counter_type \<Rightarrow> counter_type" where
  "set_count data c = set_binary_to_count (c\<lparr>count := data AND 0xFFFF\<rparr>)"

definition decrement :: "counter_type \<Rightarrow> counter_type" where
  "decrement c =
     (if count c = 0
      then if bcd_mode c then c\<lparr>count := 0x9999, count_binary := 9999\<rparr>
           else c\<lparr>count := 0xFFFF, count_binary := 0xFFFF\<rparr>
      else set_count_to_binary (c\<lparr>count_binary := count_binary c - 1\<rparr>))"

lemma cycles_decrease:
  fixes cycles n :: "'a::len word"
  assumes "cycles \<noteq> 0" "n \<le> cycles" "0 < n"
  shows "unat (cycles - n) < unat cycles"
  using assms by (simp add: unat_sub word_less_nat_alt word_le_nat_alt unat_gt_0)

lemma succ_no_wrap: "(b :: 'a::len word) < c \<Longrightarrow> b + 1 \<le> c \<and> 0 < b + 1"
  using inc_le [of b c] word_n1_ge [of c] by (metis eq_neg_iff_add_eq_0 not_le word_neq_0_conv)

text \<open>
  The loop of \<open>decrement_multiple\<close> ends for every state: when \<open>cycles\<close> exceeds
  \<open>count_binary\<close>, the subtracted \<open>count_binary + 1\<close> does not wrap and is positive.
\<close>

function decrement_multiple :: "Bit32u \<Rightarrow> counter_type \<Rightarrow> counter_type" where
  "decrement_multiple cycles c =
     (if cycles = 0 then c
      else if cycles \<le> count_binary c
      then decrement_multiple (cycles - cycles)
             (set_count_to_binary (c\<lparr>count_binary := count_binary c - cycles\<rparr>))
      else decrement_multiple (cycles - (count_binary c + 1))
             (decrement (set_count_to_binary (c\<lparr>count_binary := count_binary c - count_binary c\<rparr>))))"
  by pat_completeness auto
termination
  by (relation "measure (unat \<circ> fst)") (auto simp: unat_gt_0 not_le succ_no_wrap intro!: cycles_decrease)

declare decrement_multiple.simps [simp del]

section \<open>Clocking\<close>

text \<open>The time of the next change that a loaded count gives: never 0 for a count of 0.\<close>

definition change_after_count :: "counter_type \<Rightarrow> counter_type" where
  "change_after_count c =
     c\<lparr>next_change_time := if count_binary c = 0 then 1 else count_binary c AND 0xFFFF\<rparr>"

definition clock_mode0 :: "counter_type \<Rightarrow> counter_type" where
  "clock_mode0 c =
     (let c = (if count_written c
               then if null_count c
                    then let c = set_count (ucast (inlatch c)) c;
                             c = (if GATE c then change_after_count c else c\<lparr>next_change_time := 0\<rparr>)
                         in c\<lparr>null_count := False\<rparr>
                    else if GATE c \<and> write_state c \<noteq> MSByte_multiple
                    then let c = decrement c
                         in if \<not> OUTpin c
                            then let c = c\<lparr>next_change_time := count_binary c AND 0xFFFF\<rparr>
                                 in if count c = 0 then set_OUT True c else c
                            else c\<lparr>next_change_time := 0\<rparr>
                    else c\<lparr>next_change_time := 0\<rparr>
               else c\<lparr>next_change_time := 0\<rparr>)
      in c\<lparr>triggerGATE := False\<rparr>)"

definition clock_mode1 :: "counter_type \<Rightarrow> counter_type" where
  "clock_mode1 c =
     (let c = (if count_written c
               then if triggerGATE c
                    then let c = set_count (ucast (inlatch c)) c;
                             c = change_after_count c;
                             c = c\<lparr>null_count := False\<rparr>
                         in set_OUT False c
                    else let c = decrement c
                         in if \<not> OUTpin c
                            then let c = change_after_count c
                                 in if count c = 0 then set_OUT True c else c
                            else c\<lparr>next_change_time := 0\<rparr>
               else c\<lparr>next_change_time := 0\<rparr>)
      in c\<lparr>triggerGATE := False\<rparr>)"

definition clock_mode2 :: "counter_type \<Rightarrow> counter_type" where
  "clock_mode2 c =
     (let c = (if count_written c
               then if triggerGATE c \<or> first_pass c
                    then let c = set_count (ucast (inlatch c)) c;
                             c = c\<lparr>next_change_time := (count_binary c - 1) AND 0xFFFF\<rparr>;
                             c = c\<lparr>null_count := False\<rparr>;
                             c = (if \<not> OUTpin c then set_OUT True c else c)
                         in c\<lparr>first_pass := False\<rparr>
                    else if GATE c
                    then let c = decrement c;
                             c = c\<lparr>next_change_time := (count_binary c - 1) AND 0xFFFF\<rparr>
                         in if count c = 1
                            then (set_OUT False (c\<lparr>next_change_time := 1\<rparr>))\<lparr>first_pass := True\<rparr>
                            else c
                    else c\<lparr>next_change_time := 0\<rparr>
               else c\<lparr>next_change_time := 0\<rparr>)
      in c\<lparr>triggerGATE := False\<rparr>)"

definition clock_mode3 :: "counter_type \<Rightarrow> counter_type" where
  "clock_mode3 c =
     (let c = (if count_written c
               then if (triggerGATE c \<or> first_pass c \<or> state_bit_2 c) \<and> GATE c
                    then let c = set_count (ucast (inlatch c AND 0xFFFE)) c;
                             c = c\<lparr>state_bit_1 := (inlatch c AND 0x1 \<noteq> 0)\<rparr>;
                             c = (if \<not> OUTpin c \<or> \<not> state_bit_1 c
                                  then c\<lparr>next_change_time :=
                                           if (count_binary c div 2) - 1 = 0 then 1
                                           else ((count_binary c div 2) - 1) AND 0xFFFF\<rparr>
                                  else c\<lparr>next_change_time :=
                                           if count_binary c div 2 = 0 then 1
                                           else (count_binary c div 2) AND 0xFFFF\<rparr>);
                             c = c\<lparr>null_count := False\<rparr>;
                             c = (if \<not> OUTpin c then set_OUT True c
                                  else if OUTpin c \<and> \<not> first_pass c then set_OUT False c
                                  else c)
                         in c\<lparr>state_bit_2 := False, first_pass := False\<rparr>
                    else if GATE c
                    then let c = decrement (decrement c);
                             c = (if \<not> OUTpin c \<or> \<not> state_bit_1 c
                                  then c\<lparr>next_change_time := ((count_binary c div 2) - 1) AND 0xFFFF\<rparr>
                                  else c\<lparr>next_change_time := (count_binary c div 2) AND 0xFFFF\<rparr>);
                             c = (if count c = 0 then c\<lparr>state_bit_2 := True, next_change_time := 1\<rparr> else c)
                         in if count c = 2 \<and> (\<not> OUTpin c \<or> \<not> state_bit_1 c)
                            then c\<lparr>state_bit_2 := True, next_change_time := 1\<rparr>
                            else c
                    else c\<lparr>next_change_time := 0\<rparr>
               else c\<lparr>next_change_time := 0\<rparr>)
      in c\<lparr>triggerGATE := False\<rparr>)"

definition clock_mode4 :: "counter_type \<Rightarrow> counter_type" where
  "clock_mode4 c =
     (let c = (if count_written c
               then let c = (if \<not> OUTpin c then set_OUT True c else c)
                    in if null_count c
                       then let c = set_count (ucast (inlatch c)) c;
                                c = (if GATE c then change_after_count c else c\<lparr>next_change_time := 0\<rparr>)
                            in c\<lparr>null_count := False, first_pass := True\<rparr>
                       else if GATE c
                       then let c = decrement c
                            in if first_pass c
                               then let c = c\<lparr>next_change_time := count_binary c AND 0xFFFF\<rparr>
                                    in if count c = 0
                                       then (set_OUT False c)\<lparr>next_change_time := 1, first_pass := False\<rparr>
                                       else c
                               else c\<lparr>next_change_time := 0\<rparr>
                       else c\<lparr>next_change_time := 0\<rparr>
               else c\<lparr>next_change_time := 0\<rparr>)
      in c\<lparr>triggerGATE := False\<rparr>)"

definition clock_mode5 :: "counter_type \<Rightarrow> counter_type" where
  "clock_mode5 c =
     (let c = (if count_written c
               then let c = (if \<not> OUTpin c then set_OUT True c else c)
                    in if triggerGATE c
                       then let c = set_count (ucast (inlatch c)) c;
                                c = change_after_count c
                            in c\<lparr>null_count := False, first_pass := True\<rparr>
                       else let c = decrement c
                            in if first_pass c
                               then let c = c\<lparr>next_change_time := count_binary c AND 0xFFFF\<rparr>
                                    in if count c = 0
                                       then (set_OUT False c)\<lparr>next_change_time := 1, first_pass := False\<rparr>
                                       else c
                               else c\<lparr>next_change_time := 0\<rparr>
               else c\<lparr>next_change_time := 0\<rparr>)
      in c\<lparr>triggerGATE := False\<rparr>)"

text \<open>\<open>clock\<close> on the counter it is given.\<close>

definition clock_counter :: "counter_type \<Rightarrow> counter_type" where
  "clock_counter c =
     (if mode c = 0 then clock_mode0 c
      else if mode c = 1 then clock_mode1 c
      else if mode c = 2 then clock_mode2 c
      else if mode c = 3 then clock_mode3 c
      else if mode c = 4 then clock_mode4 c
      else if mode c = 5 then clock_mode5 c
      else c\<lparr>next_change_time := 0, triggerGATE := False\<rparr>)"

definition clock :: "nat \<Rightarrow> pit_82C54 \<Rightarrow> pit_82C54" where
  "clock cnum p = (if cnum > MAX_COUNTER then p else upd_counter cnum clock_counter p)"

text \<open>
  The branch of \<open>clock_multiple\<close> for a counter whose output does not change any more, and
  the loop. Each round either consumes all the cycles or a positive \<open>next_change_time\<close>
  of them, so the loop ends for every state.
\<close>

definition run_unchanging :: "Bit32u \<Rightarrow> counter_type \<Rightarrow> counter_type" where
  "run_unchanging cycles c =
     (if count_written c
      then if mode c = 0
           then if GATE c \<and> write_state c \<noteq> MSByte_multiple then decrement_multiple cycles c else c
           else if mode c = 1 then decrement_multiple cycles c
           else if mode c = 2 then if \<not> first_pass c \<and> GATE c then decrement_multiple cycles c else c
           else if mode c = 3 then if \<not> first_pass c \<and> GATE c then decrement_multiple (2 * cycles) c else c
           else if mode c = 4 then if GATE c then decrement_multiple cycles c else c
           else if mode c = 5 then decrement_multiple cycles c
           else c
      else c)"

function clock_multiple_counter :: "Bit32u \<Rightarrow> counter_type \<Rightarrow> counter_type" where
  "clock_multiple_counter cycles c =
     (if cycles = 0 then c
      else if next_change_time c = 0
      then clock_multiple_counter (cycles - cycles) (run_unchanging cycles c)
      else if mode c \<in> {0, 1, 2, 4, 5}
      then if next_change_time c > cycles
           then let c = decrement_multiple cycles c
                in clock_multiple_counter (cycles - cycles) (c\<lparr>next_change_time := next_change_time c - cycles\<rparr>)
           else clock_multiple_counter (cycles - next_change_time c)
                  (clock_counter (decrement_multiple (next_change_time c - 1) c))
      else if mode c = 3
      then if next_change_time c > cycles
           then let c = decrement_multiple (cycles * 2) c
                in clock_multiple_counter (cycles - cycles) (c\<lparr>next_change_time := next_change_time c - cycles\<rparr>)
           else clock_multiple_counter (cycles - next_change_time c)
                  (clock_counter (decrement_multiple ((next_change_time c - 1) * 2) c))
      else clock_multiple_counter (cycles - cycles) c)"
  by pat_completeness auto
termination
  by (relation "measure (unat \<circ> fst)")
    (auto simp: unat_gt_0 not_less word_neq_0_conv intro!: cycles_decrease)

declare clock_multiple_counter.simps [simp del]

definition clock_multiple :: "nat \<Rightarrow> Bit32u \<Rightarrow> pit_82C54 \<Rightarrow> pit_82C54" where
  "clock_multiple cnum cycles p =
     (if cnum > MAX_COUNTER then p else upd_counter cnum (clock_multiple_counter cycles) p)"

definition clock_all :: "Bit32u \<Rightarrow> pit_82C54 \<Rightarrow> pit_82C54" where
  "clock_all cycles p = clock_multiple 2 cycles (clock_multiple 1 cycles (clock_multiple 0 cycles p))"

section \<open>Initialization\<close>

text \<open>
  \<open>init\<close> writes every field of the counters but the latches \<open>outlatch\<close>, \<open>inlatch\<close> and
  \<open>status_latch\<close>, which keep what the memory held.
\<close>

definition init_counter :: "counter_type \<Rightarrow> counter_type" where
  "init_counter c =
     c\<lparr>read_state := LSByte, write_state := LSByte, GATE := True, OUTpin := True, triggerGATE := False,
       mode := 4, first_pass := False, bcd_mode := False, count := 0, count_binary := 0,
       state_bit_1 := False, state_bit_2 := False, null_count := False, rw_mode := 1, count_written := True,
       count_LSB_latched := False, count_MSB_latched := False, status_latched := False,
       next_change_time := 0, out_handler := False\<rparr>"

definition pit_init :: "pit_82C54 \<Rightarrow> pit_82C54" where
  "pit_init p = fold (\<lambda>i. upd_counter i init_counter) [0..<3] p"

section \<open>Port reads\<close>

definition read_counter :: "counter_type \<Rightarrow> Bit8u \<times> counter_type" where
  "read_counter c =
     (if status_latched c
      then if count_MSB_latched c \<and> read_state c = MSByte_multiple then (0, c)
           else (status_latch c, c\<lparr>status_latched := False\<rparr>)
      else if count_LSB_latched c
      then let c = (if read_state c = LSByte_multiple then c\<lparr>read_state := MSByte_multiple\<rparr> else c);
               c = c\<lparr>count_LSB_latched := False\<rparr>
           in (ucast (outlatch c AND 0xFF), c)
      else if count_MSB_latched c
      then let c = (if read_state c = MSByte_multiple then c\<lparr>read_state := LSByte_multiple\<rparr> else c);
               c = c\<lparr>count_MSB_latched := False\<rparr>
           in (ucast (drop_bit 8 (outlatch c) AND 0xFF), c)
      else if read_state c = LSByte \<or> read_state c = LSByte_multiple
      then let c = (if read_state c = LSByte_multiple then c\<lparr>read_state := MSByte_multiple\<rparr> else c)
           in (ucast (count c AND 0xFF), c)
      else let c = (if read_state c = MSByte_multiple then c\<lparr>read_state := LSByte_multiple\<rparr> else c)
           in (ucast (drop_bit 8 (count c) AND 0xFF), c))"

definition pit_read :: "nat \<Rightarrow> pit_82C54 \<Rightarrow> Bit8u \<times> pit_82C54" where
  "pit_read address p =
     (if address > 3 then (0, p)
      else if address = CONTROL_ADDRESS then (0, p)
      else let (v, c) = read_counter (counter p address) in (v, upd_counter address (\<lambda>_. c) p))"

section \<open>Port writes\<close>

definition latch_status :: "counter_type \<Rightarrow> counter_type" where
  "latch_status c =
     (if status_latched c then c
      else c\<lparr>status_latch := push_bit 7 (of_bool (OUTpin c)) OR push_bit 6 (of_bool (null_count c)) OR
                             push_bit 4 (rw_mode c AND 0x3) OR push_bit 1 (mode c AND 0x7) OR
                             of_bool (bcd_mode c),
             status_latched := True\<rparr>)"

definition read_back :: "Bit8u \<Rightarrow> counter_type \<Rightarrow> counter_type" where
  "read_back cw c =
     (let c = (if drop_bit 5 cw AND 1 = 0 then latch_counter c else c)
      in if drop_bit 4 cw AND 1 = 0 then latch_status c else c)"

definition program_counter :: "Bit8u \<Rightarrow> Bit8u \<Rightarrow> Bit8u \<Rightarrow> counter_type \<Rightarrow> counter_type" where
  "program_counter RW M BCD c =
     (let c = c\<lparr>null_count := True, count_LSB_latched := False, count_MSB_latched := False,
                status_latched := False, inlatch := 0, count_written := False, first_pass := True,
                rw_mode := RW, bcd_mode := (BCD > 0), mode := M\<rparr>;
          c = (if RW = 1 then c\<lparr>read_state := LSByte, write_state := LSByte\<rparr>
               else if RW = 2 then c\<lparr>read_state := MSByte, write_state := MSByte\<rparr>
               else if RW = 3 then c\<lparr>read_state := LSByte_multiple, write_state := LSByte_multiple\<rparr>
               else c);
          c = (if M \<noteq> 0 then set_OUT True c else set_OUT False c)
      in c\<lparr>next_change_time := 0\<rparr>)"

definition write_initial_count :: "Bit8u \<Rightarrow> counter_type \<Rightarrow> counter_type" where
  "write_initial_count data c =
     (let c = (case write_state c of
                 LSByte_multiple \<Rightarrow> c\<lparr>inlatch := ucast data, write_state := MSByte_multiple\<rparr>
               | LSByte \<Rightarrow> c\<lparr>inlatch := ucast data, count_written := True\<rparr>
               | MSByte_multiple \<Rightarrow> c\<lparr>write_state := LSByte_multiple,
                                     inlatch := inlatch c OR push_bit 8 (ucast data), count_written := True\<rparr>
               | MSByte \<Rightarrow> c\<lparr>inlatch := push_bit 8 (ucast data), count_written := True\<rparr>);
          c = (if count_written c \<and> write_state c \<noteq> MSByte_multiple
               then set_count (ucast (inlatch c)) (c\<lparr>null_count := True\<rparr>) else c)
      in if mode c = 0
         then let c = (if write_state c = MSByte_multiple then set_OUT False c else c)
              in c\<lparr>next_change_time := 1\<rparr>
         else if mode c = 1 then if triggerGATE c then c\<lparr>next_change_time := 1\<rparr> else c
         else if mode c = 6 \<or> mode c = 2 then c\<lparr>next_change_time := 1\<rparr>
         else if mode c = 7 \<or> mode c = 3 then c\<lparr>next_change_time := 1\<rparr>
         else if mode c = 4 then c\<lparr>next_change_time := 1\<rparr>
         else if mode c = 5 then if triggerGATE c then c\<lparr>next_change_time := 1\<rparr> else c
         else c)"

definition control_write :: "Bit8u \<Rightarrow> pit_82C54 \<Rightarrow> pit_82C54" where
  "control_write data p =
     (let p = p\<lparr>controlword := data\<rparr>;
          SC = drop_bit 6 data AND 0x3;
          RW = drop_bit 4 data AND 0x3;
          M = drop_bit 1 data AND 0x7;
          BCD = data AND 0x1
      in if SC = 3
         then fold (\<lambda>i p. if drop_bit i M AND 1 \<noteq> 0 then upd_counter i (read_back data) p else p) [0..<3] p
         else if RW = 0 then upd_counter (unat SC) latch_counter p
         else upd_counter (unat SC) (program_counter RW M BCD) p)"

definition pit_write :: "nat \<Rightarrow> Bit8u \<Rightarrow> pit_82C54 \<Rightarrow> pit_82C54" where
  "pit_write address data p =
     (if address > 3 then p
      else if address = CONTROL_ADDRESS then control_write data p
      else upd_counter address (write_initial_count data) p)"

section \<open>Gates, outputs and event times\<close>

definition set_GATE_counter :: "bool \<Rightarrow> counter_type \<Rightarrow> counter_type" where
  "set_GATE_counter data c =
     (if GATE c = data then c
      else
        let c = c\<lparr>GATE := data\<rparr>;
            c = (if GATE c then c\<lparr>triggerGATE := True\<rparr> else c)
        in if mode c = 0
           then if data \<and> count_written c
                then if null_count c then c\<lparr>next_change_time := 1\<rparr>
                     else if \<not> OUTpin c \<and> write_state c \<noteq> MSByte_multiple then change_after_count c
                     else c\<lparr>next_change_time := 0\<rparr>
                else if null_count c then c\<lparr>next_change_time := 1\<rparr>
                else c\<lparr>next_change_time := 0\<rparr>
           else if mode c = 1
           then if data \<and> count_written c then c\<lparr>next_change_time := 1\<rparr> else c
           else if mode c = 2
           then if \<not> data then (set_OUT True c)\<lparr>next_change_time := 0\<rparr>
                else if count_written c then c\<lparr>next_change_time := 1\<rparr>
                else c\<lparr>next_change_time := 0\<rparr>
           else if mode c = 3
           then if \<not> data then (set_OUT True c)\<lparr>first_pass := True, next_change_time := 0\<rparr>
                else if count_written c then c\<lparr>next_change_time := 1\<rparr>
                else c\<lparr>next_change_time := 0\<rparr>
           else if mode c = 4
           then if \<not> OUTpin c \<or> null_count c then c\<lparr>next_change_time := 1\<rparr>
                else if data \<and> count_written c
                then if first_pass c then change_after_count c else c\<lparr>next_change_time := 0\<rparr>
                else c\<lparr>next_change_time := 0\<rparr>
           else if mode c = 5
           then if data \<and> count_written c then c\<lparr>next_change_time := 1\<rparr> else c
           else c)"

definition set_GATE :: "nat \<Rightarrow> bool \<Rightarrow> pit_82C54 \<Rightarrow> pit_82C54" where
  "set_GATE cnum data p = (if cnum > MAX_COUNTER then p else upd_counter cnum (set_GATE_counter data) p)"

definition read_OUT :: "nat \<Rightarrow> pit_82C54 \<Rightarrow> bool" where
  "read_OUT cnum p = (if cnum > MAX_COUNTER then False else OUTpin (counter p cnum))"

definition read_GATE :: "nat \<Rightarrow> pit_82C54 \<Rightarrow> bool" where
  "read_GATE cnum p = (if cnum > MAX_COUNTER then False else GATE (counter p cnum))"

definition get_clock_event_time :: "nat \<Rightarrow> pit_82C54 \<Rightarrow> Bit32u" where
  "get_clock_event_time cnum p = (if cnum > MAX_COUNTER then 0 else next_change_time (counter p cnum))"

definition get_next_event_time :: "pit_82C54 \<Rightarrow> Bit32u" where
  "get_next_event_time p =
     (let time0 = get_clock_event_time 0 p; time1 = get_clock_event_time 1 p; time2 = get_clock_event_time 2 p;
          out = time0;
          out = (if time1 \<noteq> 0 \<and> time1 < out then time1 else out)
      in if time2 \<noteq> 0 \<and> time2 < out then time2 else out)"

definition get_inlatch :: "nat \<Rightarrow> pit_82C54 \<Rightarrow> Bit16u" where
  "get_inlatch n p = inlatch (counter p n)"
definition new_count_ready :: "nat \<Rightarrow> pit_82C54 \<Rightarrow> bool" where
  "new_count_ready n p = (write_state (counter p n) \<noteq> MSByte_multiple)"
definition get_mode :: "nat \<Rightarrow> pit_82C54 \<Rightarrow> Bit8u" where
  "get_mode n p = mode (counter p n)"
definition set_OUT_handler :: "nat \<Rightarrow> bool \<Rightarrow> pit_82C54 \<Rightarrow> pit_82C54" where
  "set_OUT_handler n h p = upd_counter n (\<lambda>c. c\<lparr>out_handler := h\<rparr>) p"

section \<open>The value of a counter\<close>

text \<open>
  \<open>count\<close> and \<open>count_binary\<close> are two encodings of one value below the period of the
  counter, 65536 or 10000 in BCD mode.
\<close>

definition period :: "counter_type \<Rightarrow> int" where
  "period c = (if bcd_mode c then 10000 else 65536)"

definition encode :: "bool \<Rightarrow> Bit32u \<Rightarrow> Bit32u" where
  "encode bcd v = (if bcd then v mod 10 OR push_bit 4 (v div 10 mod 10) OR
                              push_bit 8 (v div 100 mod 10) OR push_bit 12 (v div 1000 mod 10) else v)"

definition with_value :: "counter_type \<Rightarrow> int \<Rightarrow> counter_type" where
  "with_value c v = c\<lparr>count_binary := of_int v, count := encode (bcd_mode c) (of_int v)\<rparr>"

definition count_ok :: "counter_type \<Rightarrow> bool" where
  "count_ok c \<longleftrightarrow> uint (count_binary c) < period c \<and> count c = encode (bcd_mode c) (count_binary c)"

lemma period_pos [simp]: "0 < period c"
  by (simp add: period_def)

lemma with_value_fields [simp]:
  "bcd_mode (with_value c v) = bcd_mode c" "period (with_value c v) = period c"
  "with_value (with_value c u) v = with_value c v" "next_change_time (with_value c v) = next_change_time c"
  by (simp_all add: with_value_def period_def)

lemma count_ok_value: "count_ok c \<Longrightarrow> with_value c (uint (count_binary c)) = c"
  by (simp add: with_value_def count_ok_def)

lemma set_count_value: "set_count_to_binary (c\<lparr>count_binary := v\<rparr>) = with_value c (uint v)"
  by (simp add: set_count_to_binary_def with_value_def encode_def)

lemma set_count_with_value: "set_count_to_binary ((with_value c u)\<lparr>count_binary := v\<rparr>) = with_value c (uint v)"
  by (simp add: set_count_to_binary_def with_value_def encode_def)

lemma uint_small: "0 \<le> v \<Longrightarrow> v < 65536 \<Longrightarrow> uint (of_int v :: Bit32u) = v"
  by (simp add: unsigned_of_int take_bit_int_eq_self)

lemma period_le: "period c \<le> 65536"
  by (simp add: period_def)

text \<open>The encoding of a value is 0 only for the value 0.\<close>

lemma digit_nibble: "d < 16 \<Longrightarrow> take_bit 4 d = d" for d :: Bit32u
  by (simp add: word_unat_eq_iff unsigned_take_bit_eq word_less_nat_alt take_bit_nat_eq_self)

lemma push_digit_0:
  fixes d :: Bit32u
  assumes "d < 16" "k \<le> 12" "push_bit k d = 0"
  shows "d = 0"
proof (rule ccontr)
  assume "d \<noteq> 0"
  then obtain n where n: "bit d n"
    by (auto simp: bit_eq_iff)
  then have "n < 4"
    using digit_nibble [OF assms(1)] by (metis bit_take_bit_iff)
  then have "bit (push_bit k d) (n + k)"
    using n assms(2) by (simp add: bit_push_bit_iff)
  then show False using assms(3) by simp
qed

lemma mod_10_less: "v mod 10 < (16 :: Bit32u)"
proof -
  have "v mod 10 < 10" by (rule word_mod_less_divisor) simp
  also have "(10 :: Bit32u) < 16" by simp
  finally show ?thesis .
qed

lemma decimal_digits_nat:
  assumes "n < (10000 :: nat)"
  shows "n = n mod 10 + 10 * (n div 10 mod 10) + 100 * (n div 100 mod 10) + 1000 * (n div 1000 mod 10)"
proof -
  have "n div 1000 < 10" using assms by (simp add: less_mult_imp_div_less)
  then have "n div 1000 mod 10 = n div 1000" by simp
  moreover have "n = n mod 10 + 10 * (n div 10)" by simp
  moreover have "n div 10 = n div 10 mod 10 + 10 * (n div 100)"
    using mod_div_mult_eq [of "n div 10" 10] by (simp flip: div_mult2_eq)
  moreover have "n div 100 = n div 100 mod 10 + 10 * (n div 1000)"
    using mod_div_mult_eq [of "n div 100" 10] by (simp flip: div_mult2_eq)
  ultimately show ?thesis by linarith
qed

lemma decimal_digits:
  fixes v :: Bit32u
  assumes "v < 10000"
  shows "v = v mod 10 + 10 * (v div 10 mod 10) + 100 * (v div 100 mod 10) + 1000 * (v div 1000 mod 10)"
proof -
  have u: "unat v < 10000" using assms by (simp add: word_less_nat_alt)
  have "v = of_nat (unat v)" by simp
  also have "\<dots> = of_nat (unat v mod 10 + 10 * (unat v div 10 mod 10) + 100 * (unat v div 100 mod 10)
      + 1000 * (unat v div 1000 mod 10))" by (rule arg_cong [OF decimal_digits_nat [OF u]])
  also have "\<dots> = of_nat (unat (v mod 10)) + 10 * of_nat (unat (v div 10 mod 10)) +
      100 * of_nat (unat (v div 100 mod 10)) + 1000 * of_nat (unat (v div 1000 mod 10))"
    by (simp only: unat_mod unat_div of_nat_add of_nat_mult of_nat_numeral unat_numeral) simp
  finally show ?thesis by simp
qed

lemma encode_0_iff: "v < 10000 \<or> \<not> bcd \<Longrightarrow> encode bcd v = 0 \<longleftrightarrow> v = 0"
proof (cases bcd)
  case True
  assume *: "v < 10000 \<or> \<not> bcd"
  have "v = 0" if "encode bcd v = 0"
  proof -
    have "v mod 10 = 0" "v div 10 mod 10 = 0" "v div 100 mod 10 = 0" "v div 1000 mod 10 = 0"
      using that True push_digit_0 [OF mod_10_less, of 4 "v div 10"] push_digit_0 [OF mod_10_less, of 8 "v div 100"]
        push_digit_0 [OF mod_10_less, of 12 "v div 1000"]
      by (auto simp: encode_def or_eq_0_iff)
    then show ?thesis using decimal_digits [of v] * True by simp
  qed
  moreover have "encode bcd 0 = 0" by (simp add: encode_def)
  ultimately show ?thesis by blast
qed (simp add: encode_def)

lemma decrement_value:
  assumes "0 \<le> v" "v < period c"
  shows "decrement (with_value c v) = with_value c ((v - 1) mod period c)"
proof -
  have u: "uint (of_int v :: Bit32u) = v"
    using assms period_le [of c] by (intro uint_small) auto
  have "(of_int v :: Bit32u) < 10000 \<or> \<not> bcd_mode c"
    using assms u by (auto simp: period_def word_less_def split: if_splits)
  then have z: "count (with_value c v) = 0 \<longleftrightarrow> v = 0"
    using encode_0_iff u by (fastforce simp: with_value_def)
  show ?thesis
  proof (cases "v = 0")
    case True
    have "encode True 9999 = 0x9999" by code_simp
    moreover have "(0 - 1) mod period c = (if bcd_mode c then 9999 else 65535)"
      by (simp add: period_def)
    ultimately show ?thesis
      using True z by (simp add: decrement_def) (simp add: with_value_def encode_def)
  next
    case False
    then have "uint (of_int v - 1 :: Bit32u) = v - 1"
      using u assms uint_minus_simple_alt [of 1 "of_int v :: Bit32u"] by (simp add: word_le_def)
    moreover have "(v - 1) mod period c = v - 1" using assms False by simp
    ultimately show ?thesis
      using False z set_count_with_value [of "of_int v - 1" c v] by (simp add: decrement_def) (simp add: with_value_def)
  qed
qed
lemma decrement_iterate:
  assumes "0 \<le> v" "v < period c"
  shows "(decrement ^^ n) (with_value c v) = with_value c ((v - int n) mod period c)"
proof (induction n)
  case (Suc n)
  have "(decrement ^^ Suc n) (with_value c v) = with_value c (((v - int n) mod period c - 1) mod period c)"
    using Suc.IH by (simp add: decrement_value)
  also have "((v - int n) mod period c - 1) mod period c = (v - int (Suc n)) mod period c"
    by (simp add: mod_diff_left_eq algebra_simps)
  finally show ?case .
qed (use assms in simp)

lemma decrement_multiple_value:
  assumes "0 \<le> v" "v < period c"
  shows "decrement_multiple n (with_value c v) = with_value c ((v - uint n) mod period c)"
  using assms
proof (induction "unat n" arbitrary: n v rule: less_induct)
  case less
  have u: "uint (of_int v :: Bit32u) = v"
    using less.prems period_le [of c] by (intro uint_small) auto
  have cb: "count_binary (with_value c v) = of_int v" by (simp add: with_value_def)
  have zero: "decrement_multiple 0 d = d" for d
    by (simp add: decrement_multiple.simps)
  consider "n = 0" | "n \<noteq> 0" "n \<le> of_int v" | "n \<noteq> 0" "of_int v < n" by fastforce
  then show ?case
  proof cases
    case 1
    then show ?thesis using less.prems by (simp add: zero)
  next
    case 2
    then have "uint (of_int v - n) = v - uint n" "uint n \<le> v"
      using u uint_minus_simple_alt [of n "of_int v :: Bit32u"] by (simp_all add: word_le_def)
    moreover have "(v - uint n) mod period c = v - uint n"
      using less.prems calculation(2) uint_ge_0 [of n] by (intro mod_pos_pos_trivial) linarith+
    ultimately show ?thesis
      using 2 set_count_with_value [of "of_int v - n" c v]
      by (subst decrement_multiple.simps) (simp add: cb zero)
  next
    case 3
    have less': "unat (n - (of_int v + 1)) < unat n"
      using 3 succ_no_wrap [of "of_int v" n] by (intro cycles_decrease) auto
    have "uint (of_int (v + 1) :: Bit32u) = v + 1"
      using less.prems period_le [of c] by (simp add: unsigned_of_int take_bit_int_eq_self del: of_int_add)
    then have "uint (n - (of_int v + 1)) = uint n - (v + 1)"
      using 3 succ_no_wrap [of "of_int v" n] uint_minus_simple_alt [of "of_int v + 1" n] by simp
    then have "period c - 1 - uint (n - (of_int v + 1)) = (v - uint n) + period c"
      by simp
    then have "(period c - 1 - uint (n - (of_int v + 1))) mod period c = (v - uint n) mod period c"
      by (simp only: mod_add_self2)
    moreover have "decrement (set_count_to_binary ((with_value c v)\<lparr>count_binary := 0\<rparr>)) = with_value c (period c - 1)"
      using set_count_with_value [of 0 c v] decrement_value [of 0 c] by (simp add: zmod_minus1)
    ultimately show ?thesis
      using 3 less.hyps [OF less', of "period c - 1"] period_pos [of c]
      by (subst decrement_multiple.simps) (simp add: cb not_le)
  qed
qed

lemma count_ok_with_value: "0 \<le> v \<Longrightarrow> v < period c \<Longrightarrow> count_ok (with_value c v)"
  using period_le [of c] uint_small [of v] by (simp add: count_ok_def with_value_def) (simp add: period_def)

lemma decrement_multiple_ok:
  assumes "count_ok c"
  shows "decrement_multiple n c = with_value c ((uint (count_binary c) - uint n) mod period c)"
  using decrement_multiple_value [of "uint (count_binary c)" c n] assms
  by (simp add: count_ok_value) (simp add: count_ok_def)

lemma decrement_iterate_ok:
  assumes "count_ok c"
  shows "(decrement ^^ n) c = with_value c ((uint (count_binary c) - int n) mod period c)"
  using decrement_iterate [of "uint (count_binary c)" c n] assms
  by (simp add: count_ok_value) (simp add: count_ok_def)

end
