(* ===== verification/Pit_Clock.thy ===== *)
theory Pit_Clock
  imports Pit82c54
begin

text \<open>
  The event-skipping clock of the 82C54 against its reference. \<open>clock_multiple\<close> advances a
  counter by many input clocks at once: it trusts \<open>next_change_time\<close> to say when anything
  besides the count changes next, and only then runs \<open>clock\<close>. The locale
  \<open>clock_invariant\<close> states what makes that sound - an invariant of \<open>clock\<close> under which
  \<open>next_change_time\<close> is honest - and proves once that \<open>clock_multiple\<close> equals the iterated
  \<open>clock\<close>; \<open>event_ok\<close> is such an invariant for the modes 0 to 5.
\<close>

unbundle bit_operations_syntax

section \<open>One clock of an undisturbed counter\<close>

definition ticks :: "counter_type \<Rightarrow> nat" where
  "ticks c = (if mode c = 3 then 2 else 1)"

definition step_dec :: "counter_type \<Rightarrow> counter_type" where
  "step_dec c = (decrement ^^ ticks c) c"

text \<open>When \<open>clock_multiple\<close> counts although no change is scheduled.\<close>

definition counts :: "counter_type \<Rightarrow> bool" where
  "counts c \<longleftrightarrow> count_written c \<and>
     (mode c = 0 \<and> GATE c \<and> write_state c \<noteq> MSByte_multiple \<or> mode c = 1 \<or>
      mode c \<in> {2, 3} \<and> \<not> first_pass c \<and> GATE c \<or> mode c = 4 \<and> GATE c \<or> mode c = 5)"

lemma run_unchanging_counts:
  "run_unchanging n c = (if counts c then decrement_multiple (of_nat (ticks c) * n) c else c)"
  by (auto simp: run_unchanging_def counts_def ticks_def)

lemma with_value_frame [simp]:
  "mode (with_value c v) = mode c" "ticks (with_value c v) = ticks c" "counts (with_value c v) = counts c"
  "(with_value c v)\<lparr>next_change_time := t\<rparr> = with_value (c\<lparr>next_change_time := t\<rparr>) v"
  "count_ok (c\<lparr>next_change_time := t\<rparr>) = count_ok c" "count_binary (c\<lparr>next_change_time := t\<rparr>) = count_binary c"
  "period (c\<lparr>next_change_time := t\<rparr>) = period c" "ticks (c\<lparr>next_change_time := t\<rparr>) = ticks c"
  by (simp_all add: with_value_def ticks_def counts_def count_ok_def period_def)

lemma step_dec_ok:
  assumes "count_ok c"
  shows "step_dec c = with_value c ((uint (count_binary c) - int (ticks c)) mod period c)"
  using decrement_iterate_ok [OF assms] by (simp add: step_dec_def)

lemma count_binary_with_value:
  "0 \<le> v \<Longrightarrow> v < period c \<Longrightarrow> uint (count_binary (with_value c v)) = v"
  using period_le [of c] uint_small [of v] by (simp add: with_value_def)

lemma step_dec_iterate:
  assumes "count_ok c"
  shows "(step_dec ^^ k) c = with_value c ((uint (count_binary c) - int (ticks c * k)) mod period c)"
proof (induction k)
  case 0
  then show ?case
    using assms count_ok_value [OF assms] by (simp add: count_ok_def)
next
  case (Suc k)
  let ?v = "(uint (count_binary c) - int (ticks c * k)) mod period c"
  have v: "0 \<le> ?v" "?v < period c" by simp_all
  have "(step_dec ^^ Suc k) c = with_value c ((?v - int (ticks c)) mod period c)"
    using Suc.IH v by (simp add: step_dec_ok count_ok_with_value count_binary_with_value)
  also have "(?v - int (ticks c)) mod period c = (uint (count_binary c) - int (ticks c * Suc k)) mod period c"
    by (simp add: mod_diff_left_eq algebra_simps)
  finally show ?case .
qed

lemma uint_mult_mod:
  fixes n :: Bit32u
  assumes "\<not> bcd_mode c"
  shows "(a - uint (of_nat m * n)) mod period c = (a - int (m * unat n)) mod period c"
proof -
  have p: "period c = 2 ^ 16" using assms by (simp add: period_def)
  have "uint (of_nat (m * unat n) :: Bit32u) = int (m * unat n) mod 2 ^ 32"
    by (simp only: unsigned_of_nat take_bit_eq_mod of_nat_mod of_nat_power) simp
  moreover have "(int (m * unat n) mod 2 ^ 32) mod 2 ^ 16 = int (m * unat n) mod 2 ^ 16"
    by (rule mod_mod_cancel) (rule le_imp_power_dvd, simp)
  moreover have "of_nat m * n = of_nat (m * unat n)" by simp
  ultimately show ?thesis
    unfolding p by (metis mod_diff_cong)
qed

lemma unat_minus_of_nat: "k \<le> unat t \<Longrightarrow> unat (t - of_nat k) = unat t - k" for t :: Bit32u
proof -
  assume k: "k \<le> unat t"
  then have "unat (of_nat k :: Bit32u) = k"
    using order.strict_trans1 [OF k unsigned_less] by (simp add: unsigned_of_nat take_bit_nat_eq_self)
  then show ?thesis
    using k by (simp add: unat_sub word_le_nat_alt)
qed

lemma decrement_multiple_steps:
  assumes "count_ok c" "\<not> bcd_mode c"
  shows "decrement_multiple (of_nat (ticks c) * n) c = (step_dec ^^ unat n) c"
  using assms by (simp add: decrement_multiple_ok step_dec_iterate uint_mult_mod del: of_nat_mult)

section \<open>\<open>clock\<close> does not read the scheduled time\<close>

lemma prims_next:
  "decrement (c\<lparr>next_change_time := t\<rparr>) = (decrement c)\<lparr>next_change_time := t\<rparr>"
  "set_count d (c\<lparr>next_change_time := t\<rparr>) = (set_count d c)\<lparr>next_change_time := t\<rparr>"
  "set_OUT b (c\<lparr>next_change_time := t\<rparr>) = (set_OUT b c)\<lparr>next_change_time := t\<rparr>"
  by (simp_all add: decrement_def set_count_def set_count_to_binary_def set_binary_to_count_def set_OUT_def Let_def)

lemma prims_frame [simp]:
  "GATE (decrement c) = GATE c" "OUTpin (decrement c) = OUTpin c" "mode (decrement c) = mode c"
  "count_written (decrement c) = count_written c" "write_state (decrement c) = write_state c"
  "null_count (decrement c) = null_count c" "first_pass (decrement c) = first_pass c"
  "triggerGATE (decrement c) = triggerGATE c" "inlatch (decrement c) = inlatch c"
  "bcd_mode (decrement c) = bcd_mode c" "state_bit_1 (decrement c) = state_bit_1 c"
  "state_bit_2 (decrement c) = state_bit_2 c" "next_change_time (decrement c) = next_change_time c"
  "GATE (set_count d c) = GATE c" "OUTpin (set_count d c) = OUTpin c" "mode (set_count d c) = mode c"
  "count_written (set_count d c) = count_written c" "write_state (set_count d c) = write_state c"
  "null_count (set_count d c) = null_count c" "first_pass (set_count d c) = first_pass c"
  "triggerGATE (set_count d c) = triggerGATE c" "inlatch (set_count d c) = inlatch c"
  "bcd_mode (set_count d c) = bcd_mode c" "state_bit_1 (set_count d c) = state_bit_1 c"
  "state_bit_2 (set_count d c) = state_bit_2 c" "next_change_time (set_count d c) = next_change_time c"
  "GATE (set_OUT b c) = GATE c" "OUTpin (set_OUT b c) = b" "mode (set_OUT b c) = mode c"
  "count_written (set_OUT b c) = count_written c" "write_state (set_OUT b c) = write_state c"
  "null_count (set_OUT b c) = null_count c" "first_pass (set_OUT b c) = first_pass c"
  "triggerGATE (set_OUT b c) = triggerGATE c" "inlatch (set_OUT b c) = inlatch c"
  "bcd_mode (set_OUT b c) = bcd_mode c" "state_bit_1 (set_OUT b c) = state_bit_1 c"
  "state_bit_2 (set_OUT b c) = state_bit_2 c" "next_change_time (set_OUT b c) = next_change_time c"
  "count (set_OUT b c) = count c" "count_binary (set_OUT b c) = count_binary c"
  by (simp_all add: decrement_def set_count_def set_count_to_binary_def set_binary_to_count_def set_OUT_def Let_def)

lemma clock_next_0: "clock_mode0 (c\<lparr>next_change_time := t\<rparr>) = clock_mode0 c"
  unfolding clock_mode0_def change_after_count_def
  by (cases "count_written c"; cases "null_count c"; cases "GATE c"; cases "OUTpin c"; cases "write_state c = MSByte_multiple") (simp_all add: prims_next Let_def)
lemma clock_next_1: "clock_mode1 (c\<lparr>next_change_time := t\<rparr>) = clock_mode1 c"
  unfolding clock_mode1_def change_after_count_def
  by (cases "count_written c"; cases "triggerGATE c"; cases "OUTpin c") (simp_all add: prims_next Let_def)
lemma clock_next_2: "clock_mode2 (c\<lparr>next_change_time := t\<rparr>) = clock_mode2 c"
  unfolding clock_mode2_def
  by (cases "count_written c"; cases "triggerGATE c \<or> first_pass c"; cases "GATE c"; cases "OUTpin c") (simp_all add: prims_next Let_def)
lemma clock_next_4: "clock_mode4 (c\<lparr>next_change_time := t\<rparr>) = clock_mode4 c"
  unfolding clock_mode4_def change_after_count_def
  by (cases "count_written c"; cases "null_count c"; cases "GATE c"; cases "OUTpin c"; cases "first_pass c") (simp_all add: prims_next Let_def)
lemma clock_next_5: "clock_mode5 (c\<lparr>next_change_time := t\<rparr>) = clock_mode5 c"
  unfolding clock_mode5_def change_after_count_def
  by (cases "count_written c"; cases "triggerGATE c"; cases "OUTpin c"; cases "first_pass c") (simp_all add: prims_next Let_def)
lemma clock_next_3: "clock_mode3 (c\<lparr>next_change_time := t\<rparr>) = clock_mode3 c"
proof (cases "(triggerGATE c \<or> first_pass c \<or> state_bit_2 c) \<and> GATE c")
  case True
  then show ?thesis
    unfolding clock_mode3_def by (cases "OUTpin c"; cases "first_pass c") (simp_all add: prims_next Let_def)
next
  case False
  then show ?thesis
    unfolding clock_mode3_def by (cases "GATE c"; cases "OUTpin c") (simp_all add: prims_next Let_def)
qed

lemmas clock_next = clock_next_0 clock_next_1 clock_next_2 clock_next_3 clock_next_4 clock_next_5

lemma clock_ignores_next: "clock_counter (c\<lparr>next_change_time := t\<rparr>) = clock_counter c"
  by (simp add: clock_counter_def clock_next)

section \<open>The contract of the scheduled time\<close>

locale clock_invariant =
  fixes E :: "counter_type \<Rightarrow> bool"
  assumes E_count: "E c \<Longrightarrow> count_ok c \<and> \<not> bcd_mode c \<and> mode c \<in> {0, 1, 2, 3, 4, 5}"
    and E_clock: "E c \<Longrightarrow> E (clock_counter c)"
    and never: "E c \<Longrightarrow> next_change_time c = 0 \<Longrightarrow> clock_counter c = (if counts c then step_dec c else c)"
    and later: "E c \<Longrightarrow> 1 < next_change_time c \<Longrightarrow>
      clock_counter c = (step_dec c)\<lparr>next_change_time := next_change_time c - 1\<rparr>"
begin

lemma E_iterate: "E c \<Longrightarrow> E ((clock_counter ^^ k) c)"
  by (induction k) (auto intro: E_clock)

lemma never_iterate:
  assumes "E c" "next_change_time c = 0"
  shows "(clock_counter ^^ k) c = (if counts c then (step_dec ^^ k) c else c)"
proof (induction k)
  case (Suc k)
  let ?d = "(clock_counter ^^ k) c"
  have d: "next_change_time ?d = 0 \<and> counts ?d = counts c"
    using Suc.IH assms E_count by (simp add: step_dec_iterate)
  have "clock_counter ?d = (if counts ?d then step_dec ?d else ?d)"
    using never [OF E_iterate [OF assms(1)]] d by blast
  then show ?case using Suc.IH d by simp
qed simp

lemma later_iterate:
  assumes "E c" "k < unat (next_change_time c)"
  shows "(clock_counter ^^ k) c = ((step_dec ^^ k) c)\<lparr>next_change_time := next_change_time c - of_nat k\<rparr>"
  using assms(2)
proof (induction k)
  case (Suc k)
  let ?d = "(clock_counter ^^ k) c" and ?t = "next_change_time c"
  have c: "count_ok c" using E_count assms(1) by blast
  have d: "?d = ((step_dec ^^ k) c)\<lparr>next_change_time := ?t - of_nat k\<rparr>"
    using Suc by simp
  have "unat (?t - of_nat k) = unat ?t - k"
    using Suc.prems by (simp add: unat_minus_of_nat)
  then have "1 < ?t - of_nat k"
    using Suc.prems by (simp add: word_less_nat_alt)
  then have "clock_counter ?d = (step_dec ?d)\<lparr>next_change_time := ?t - of_nat k - 1\<rparr>"
    using later [OF E_iterate [OF assms(1), of k]] d by simp
  also have "step_dec ?d = (step_dec ((step_dec ^^ k) c))\<lparr>next_change_time := ?t - of_nat k\<rparr>"
    unfolding d using c by (simp add: step_dec_ok step_dec_iterate count_ok_with_value count_binary_with_value)
  finally show ?case by (simp add: algebra_simps)
qed simp

text \<open>The two ways a round of \<open>clock_multiple\<close> uses the scheduled time.\<close>

lemma skip_all:
  assumes "E c" "n < next_change_time c"
  shows "(decrement_multiple (of_nat (ticks c) * n) c)\<lparr>next_change_time := next_change_time c - n\<rparr> =
    (clock_counter ^^ unat n) c"
proof -
  have "unat n < unat (next_change_time c)" using assms(2) by (simp add: word_less_nat_alt)
  then show ?thesis
    using later_iterate [OF assms(1), of "unat n"] decrement_multiple_steps E_count [OF assms(1)] by simp
qed

lemma skip_to_change:
  assumes "E c" "next_change_time c \<noteq> 0"
  shows "clock_counter (decrement_multiple (of_nat (ticks c) * (next_change_time c - 1)) c) =
    (clock_counter ^^ unat (next_change_time c)) c"
proof -
  let ?t = "next_change_time c" and ?k = "unat (next_change_time c) - 1"
  have k: "?k < unat ?t" "unat (?t - 1) = ?k" "Suc ?k = unat ?t"
    using assms(2) unat_minus_of_nat [of 1 ?t] unat_gt_0 [of ?t] by (simp_all add: Suc_le_eq)
  have "decrement_multiple (of_nat (ticks c) * (?t - 1)) c = (step_dec ^^ ?k) c"
    using decrement_multiple_steps E_count [OF assms(1)] k(2) by metis
  then have "clock_counter (decrement_multiple (of_nat (ticks c) * (?t - 1)) c) = clock_counter ((clock_counter ^^ ?k) c)"
    using later_iterate [OF assms(1) k(1)] clock_ignores_next by metis
  also have "\<dots> = (clock_counter ^^ Suc ?k) c" by simp
  finally show ?thesis using k(3) by metis
qed

lemma clock_multiple_round:
  assumes "E c" "n \<noteq> 0"
  shows "clock_multiple_counter n c =
    (if next_change_time c = 0 then run_unchanging n c
     else if n < next_change_time c
     then (decrement_multiple (of_nat (ticks c) * n) c)\<lparr>next_change_time := next_change_time c - n\<rparr>
     else clock_multiple_counter (n - next_change_time c)
            (clock_counter (decrement_multiple (of_nat (ticks c) * (next_change_time c - 1)) c)))"
proof -
  have zero: "clock_multiple_counter 0 d = d" for d
    by (simp add: clock_multiple_counter.simps)
  have m: "mode c \<in> {0, 1, 2, 4, 5} \<or> mode c = 3"
    using E_count [OF assms(1)] by auto
  have nx: "next_change_time (decrement_multiple x c) = next_change_time c" for x
    using E_count [OF assms(1)] by (simp add: decrement_multiple_ok)
  show ?thesis
    using assms m
    by (subst clock_multiple_counter.simps) (auto simp: zero nx ticks_def mult.commute Let_def)
qed

theorem clock_multiple_iterates:
  "E c \<Longrightarrow> clock_multiple_counter n c = (clock_counter ^^ unat n) c"
proof (induction "unat n" arbitrary: n c rule: less_induct)
  case less
  let ?t = "next_change_time c"
  have c: "count_ok c" "\<not> bcd_mode c" using E_count less.prems by auto
  consider "n = 0" | "n \<noteq> 0" "?t = 0" | "n \<noteq> 0" "?t \<noteq> 0" "n < ?t" | "n \<noteq> 0" "?t \<noteq> 0" "?t \<le> n"
    by fastforce
  then show ?case
  proof cases
    case 1
    then show ?thesis by (simp add: clock_multiple_counter.simps)
  next
    case 2
    then show ?thesis
      using less.prems c by (simp add: clock_multiple_round never_iterate run_unchanging_counts decrement_multiple_steps)
  next
    case 3
    then show ?thesis using less.prems by (simp add: clock_multiple_round skip_all)
  next
    case 4
    then have "unat (n - ?t) < unat n"
      by (intro cycles_decrease) (auto simp: word_neq_0_conv)
    then have "clock_multiple_counter (n - ?t) ((clock_counter ^^ unat ?t) c) =
        (clock_counter ^^ unat (n - ?t)) ((clock_counter ^^ unat ?t) c)"
      using less E_iterate by blast
    also have "\<dots> = (clock_counter ^^ unat n) c"
      using 4(3) by (simp add: unat_sub word_le_nat_alt flip: funpow_add [unfolded o_def, THEN fun_cong])
    finally show ?thesis
      using 4 less.prems by (simp add: clock_multiple_round skip_to_change)
  qed
qed

end
section \<open>The invariant of the six modes\<close>

definition bin_ok :: "counter_type \<Rightarrow> bool" where
  "bin_ok c \<longleftrightarrow> \<not> bcd_mode c \<and> count c = count_binary c \<and> count_binary c \<le> 0xFFFF"

definition dec16 :: "Bit32u \<Rightarrow> Bit32u" where
  "dec16 b = (if b = 0 then 0xFFFF else b - 1)"

lemma bin_ok_count: "bin_ok c \<Longrightarrow> count_ok c \<and> \<not> bcd_mode c"
  by (simp add: bin_ok_def count_ok_def encode_def period_def word_le_def)

lemma dec16_le: "b \<le> 0xFFFF \<Longrightarrow> dec16 b \<le> 0xFFFF"
  using unat_minus_of_nat [of 1 b] unat_gt_0 [of b] by (auto simp: dec16_def word_le_nat_alt Suc_le_eq)

lemma dec_bin: "bin_ok c \<Longrightarrow> decrement c = c\<lparr>count := dec16 (count_binary c), count_binary := dec16 (count_binary c)\<rparr>"
  by (simp add: bin_ok_def decrement_def set_count_to_binary_def dec16_def)

lemma low16: "b \<le> 0xFFFF \<Longrightarrow> b AND 0xFFFF = b" for b :: Bit32u
proof -
  assume "b \<le> 0xFFFF"
  then have "unat b < 2 ^ 16" by (simp add: word_le_nat_alt)
  then have "take_bit 16 b = b"
    by (simp add: word_unat_eq_iff unsigned_take_bit_eq take_bit_nat_eq_self)
  then show ?thesis by (simp add: take_bit_eq_mask mask_numeral)
qed

lemma ucast_le_16: "(ucast (l :: Bit16u) :: Bit32u) \<le> 0xFFFF"
proof -
  have "(ucast l :: Bit32u) = take_bit 16 (ucast l)"
    by (rule bit_word_eqI) (auto simp: bit_simps dest: bit_imp_le_length)
  also have "\<dots> = ucast l AND 0xFFFF" by (simp add: take_bit_eq_mask mask_numeral)
  finally show ?thesis by (metis word_and_le1)
qed

lemma set_count_bin: "\<not> bcd_mode c \<Longrightarrow> set_count (ucast (l :: Bit16u)) c = c\<lparr>count := ucast l, count_binary := ucast l\<rparr>"
  by (simp add: set_count_def set_binary_to_count_def low16 ucast_le_16)

text \<open>
  Per mode: a pending change is due at the next clock, or no change is due and the counter
  only counts, or the change is due when the count reaches its end. The hypotheses leave out
  the states in which the code schedules the wrong time: a half written count in mode 0, a
  closed gate or a count of 1 in mode 2, and an odd or zero count or a closed gate in mode 3.
\<close>

definition E0 :: "counter_type \<Rightarrow> bool" where
  "E0 c \<longleftrightarrow> mode c = 0 \<and> write_state c \<noteq> MSByte_multiple \<and>
     (next_change_time c = 1 \<and> (count_written c \<and> null_count c \<and> GATE c \<longrightarrow> \<not> OUTpin c) \<or>
      \<not> triggerGATE c \<and> next_change_time c = 0 \<and> (\<not> count_written c \<or> \<not> null_count c \<and> (\<not> GATE c \<or> OUTpin c)) \<or>
      \<not> triggerGATE c \<and> count_written c \<and> \<not> null_count c \<and> GATE c \<and> \<not> OUTpin c \<and>
      next_change_time c = count_binary c \<and> count_binary c \<noteq> 0)"

definition E1 :: "counter_type \<Rightarrow> bool" where
  "E1 c \<longleftrightarrow> mode c = 1 \<and>
     (next_change_time c = 1 \<or>
      \<not> triggerGATE c \<and> next_change_time c = 0 \<and> (\<not> count_written c \<or> OUTpin c) \<or>
      \<not> triggerGATE c \<and> count_written c \<and> \<not> OUTpin c \<and> next_change_time c = count_binary c \<and> count_binary c \<noteq> 0)"

definition E2 :: "counter_type \<Rightarrow> bool" where
  "E2 c \<longleftrightarrow> mode c = 2 \<and> GATE c \<and> inlatch c \<noteq> 1 \<and>
     (next_change_time c = 1 \<and> (count_written c \<longrightarrow> triggerGATE c \<or> first_pass c \<or> count_binary c \<noteq> 1) \<or>
      \<not> triggerGATE c \<and> next_change_time c = 0 \<and> \<not> count_written c \<or>
      \<not> triggerGATE c \<and> count_written c \<and> \<not> first_pass c \<and> count_binary c \<noteq> 1 \<and>
      next_change_time c = (count_binary c - 1) AND 0xFFFF)"

definition E4 :: "counter_type \<Rightarrow> bool" where
  "E4 c \<longleftrightarrow> mode c = 4 \<and>
     (next_change_time c = 1 \<or>
      \<not> triggerGATE c \<and> next_change_time c = 0 \<and>
        (\<not> count_written c \<or> OUTpin c \<and> \<not> null_count c \<and> (\<not> GATE c \<or> \<not> first_pass c)) \<or>
      \<not> triggerGATE c \<and> count_written c \<and> OUTpin c \<and> \<not> null_count c \<and> GATE c \<and> first_pass c \<and>
      next_change_time c = count_binary c \<and> count_binary c \<noteq> 0)"

definition E5 :: "counter_type \<Rightarrow> bool" where
  "E5 c \<longleftrightarrow> mode c = 5 \<and>
     (next_change_time c = 1 \<or>
      \<not> triggerGATE c \<and> next_change_time c = 0 \<and> (\<not> count_written c \<or> OUTpin c \<and> \<not> first_pass c) \<or>
      \<not> triggerGATE c \<and> count_written c \<and> OUTpin c \<and> first_pass c \<and>
      next_change_time c = count_binary c \<and> count_binary c \<noteq> 0)"

lemma bin_ok_frame [simp]:
  "bin_ok (c\<lparr>next_change_time := t\<rparr>) = bin_ok c" "bin_ok (c\<lparr>triggerGATE := b\<rparr>) = bin_ok c"
  "bin_ok (c\<lparr>null_count := b\<rparr>) = bin_ok c" "bin_ok (c\<lparr>first_pass := b\<rparr>) = bin_ok c"
  "bin_ok (set_OUT b c) = bin_ok c"
  by (simp_all add: bin_ok_def)

lemma bin_ok_not_bcd: "bin_ok c \<Longrightarrow> \<not> bcd_mode c"
  by (simp add: bin_ok_def)

lemma bin_low16: "bin_ok c \<Longrightarrow> count_binary c AND 0xFFFF = count_binary c" "bin_ok c \<Longrightarrow> dec16 (count_binary c) AND 0xFFFF = dec16 (count_binary c)"
  by (simp_all add: bin_ok_def low16 dec16_le)

lemma bin_load_low16: "ucast (l :: Bit16u) AND 0xFFFF = (ucast l :: Bit32u)"
  by (simp add: low16 ucast_le_16)

lemma dec16_0: "dec16 b = 0 \<longleftrightarrow> b = 1"
  by (auto simp: dec16_def)

lemma dec16_later: "1 < b \<Longrightarrow> dec16 b = b - 1"
  by (auto simp: dec16_def)

lemma dec16_1 [simp]: "dec16 1 = 0" "dec16 0 = 0xFFFF"
  by (simp_all add: dec16_def)

lemma bin_ok_value: "\<not> bcd_mode c \<Longrightarrow> bin_ok (c\<lparr>count := v, count_binary := v\<rparr>) \<longleftrightarrow> v \<le> 0xFFFF"
  by (simp add: bin_ok_def)

lemma bin_dec16_le: "bin_ok c \<Longrightarrow> dec16 (count_binary c) \<le> 0xFFFF"
  by (simp add: bin_ok_def dec16_le)

lemma ucast_16_eq_1: "(ucast (l :: Bit16u) :: Bit32u) = 1 \<longleftrightarrow> l = 1"
  using ucast_up_ucast_id [where 'a = 16 and 'b = 32, of l] by (auto simp: is_up)

lemmas clock_bin = bin_ok_value bin_dec16_le ucast_le_16 ucast_16_eq_1 dec_bin set_count_bin bin_ok_not_bcd bin_low16 bin_load_low16 dec16_0 change_after_count_def Let_def

lemma E0_clock: "bin_ok c \<Longrightarrow> E0 c \<Longrightarrow> bin_ok (clock_mode0 c) \<and> E0 (clock_mode0 c)"
  unfolding clock_mode0_def
  by (cases "count_written c"; cases "null_count c"; cases "GATE c"; cases "OUTpin c")
    (simp_all add: clock_bin E0_def)

lemma E1_clock: "bin_ok c \<Longrightarrow> E1 c \<Longrightarrow> bin_ok (clock_mode1 c) \<and> E1 (clock_mode1 c)"
  unfolding clock_mode1_def
  by (cases "count_written c"; cases "triggerGATE c"; cases "OUTpin c")
    (simp_all add: clock_bin E1_def)

lemma E4_clock: "bin_ok c \<Longrightarrow> E4 c \<Longrightarrow> bin_ok (clock_mode4 c) \<and> E4 (clock_mode4 c)"
  unfolding clock_mode4_def
  by (cases "count_written c"; cases "null_count c"; cases "GATE c"; cases "OUTpin c"; cases "first_pass c")
    (simp_all add: clock_bin E4_def)

lemma E5_clock: "bin_ok c \<Longrightarrow> E5 c \<Longrightarrow> bin_ok (clock_mode5 c) \<and> E5 (clock_mode5 c)"
  unfolding clock_mode5_def
  by (cases "count_written c"; cases "triggerGATE c"; cases "OUTpin c"; cases "first_pass c")
    (simp_all add: clock_bin E5_def)

lemma E2_clock: "bin_ok c \<Longrightarrow> E2 c \<Longrightarrow> bin_ok (clock_mode2 c) \<and> E2 (clock_mode2 c)"
  unfolding clock_mode2_def
  by (cases "count_written c"; cases "triggerGATE c"; cases "OUTpin c"; cases "first_pass c")
    (simp_all add: clock_bin E2_def)


definition E3 :: "counter_type \<Rightarrow> bool" where
  "E3 c \<longleftrightarrow> mode c = 3 \<and> GATE c \<and> even (inlatch c) \<and> inlatch c \<noteq> 0 \<and>
     (next_change_time c = 1 \<and>
        (count_written c \<longrightarrow> triggerGATE c \<or> first_pass c \<or> state_bit_2 c \<or> even (count_binary c) \<and> \<not> state_bit_1 c) \<or>
      \<not> triggerGATE c \<and> next_change_time c = 0 \<and> \<not> count_written c \<or>
      \<not> triggerGATE c \<and> count_written c \<and> \<not> first_pass c \<and> \<not> state_bit_2 c \<and> \<not> state_bit_1 c \<and>
      even (count_binary c) \<and> 4 \<le> count_binary c \<and> next_change_time c = count_binary c div 2 - 1)"

lemma same_update:
  "next_change_time c = t \<Longrightarrow> c\<lparr>next_change_time := t\<rparr> = c" "\<not> triggerGATE c \<Longrightarrow> c\<lparr>triggerGATE := False\<rparr> = c"
  by simp_all

lemma E0_never: "bin_ok c \<Longrightarrow> E0 c \<Longrightarrow> next_change_time c = 0 \<Longrightarrow> clock_mode0 c = (if counts c then decrement c else c)"
  unfolding clock_mode0_def counts_def
  by (cases "count_written c"; cases "null_count c"; cases "GATE c"; cases "OUTpin c")
    (simp_all add: clock_bin E0_def same_update)

lemma E1_never: "bin_ok c \<Longrightarrow> E1 c \<Longrightarrow> next_change_time c = 0 \<Longrightarrow> clock_mode1 c = (if counts c then decrement c else c)"
  unfolding clock_mode1_def counts_def
  by (cases "count_written c"; cases "triggerGATE c"; cases "OUTpin c") (simp_all add: clock_bin E1_def same_update)

lemma E4_never: "bin_ok c \<Longrightarrow> E4 c \<Longrightarrow> next_change_time c = 0 \<Longrightarrow> clock_mode4 c = (if counts c then decrement c else c)"
  unfolding clock_mode4_def counts_def
  by (cases "count_written c"; cases "null_count c"; cases "GATE c"; cases "OUTpin c"; cases "first_pass c")
    (simp_all add: clock_bin E4_def same_update)

lemma E5_never: "bin_ok c \<Longrightarrow> E5 c \<Longrightarrow> next_change_time c = 0 \<Longrightarrow> clock_mode5 c = (if counts c then decrement c else c)"
  unfolding clock_mode5_def counts_def
  by (cases "count_written c"; cases "triggerGATE c"; cases "OUTpin c"; cases "first_pass c")
    (simp_all add: clock_bin E5_def same_update)

lemma E0_later:
  assumes "bin_ok c" "E0 c" "1 < next_change_time c"
  shows "clock_mode0 c = (decrement c)\<lparr>next_change_time := next_change_time c - 1\<rparr>"
proof -
  have f: "\<not> triggerGATE c" "count_written c" "\<not> null_count c" "GATE c" "\<not> OUTpin c" "write_state c \<noteq> MSByte_multiple"
    and t: "next_change_time c = count_binary c"
    using assms by (auto simp: E0_def)
  have "dec16 (count_binary c) \<noteq> 0" "next_change_time c - 1 = dec16 (count_binary c)"
    using assms(3) unfolding t by (auto simp: dec16_0 dec16_later)
  then show ?thesis
    unfolding clock_mode0_def using assms(1) f by (simp add: clock_bin same_update)
qed

lemma E1_later:
  assumes "bin_ok c" "E1 c" "1 < next_change_time c"
  shows "clock_mode1 c = (decrement c)\<lparr>next_change_time := next_change_time c - 1\<rparr>"
proof -
  have f: "\<not> triggerGATE c" "count_written c" "\<not> OUTpin c"
    and t: "next_change_time c = count_binary c"
    using assms by (auto simp: E1_def)
  have "dec16 (count_binary c) \<noteq> 0" "next_change_time c - 1 = dec16 (count_binary c)"
    using assms(3) unfolding t by (auto simp: dec16_0 dec16_later)
  then show ?thesis
    unfolding clock_mode1_def using assms(1) f by (simp add: clock_bin same_update)
qed

lemma E4_later:
  assumes "bin_ok c" "E4 c" "1 < next_change_time c"
  shows "clock_mode4 c = (decrement c)\<lparr>next_change_time := next_change_time c - 1\<rparr>"
proof -
  have f: "\<not> triggerGATE c" "count_written c" "\<not> null_count c" "GATE c" "OUTpin c" "first_pass c"
    and t: "next_change_time c = count_binary c"
    using assms by (auto simp: E4_def)
  have "dec16 (count_binary c) \<noteq> 0" "next_change_time c - 1 = dec16 (count_binary c)"
    using assms(3) unfolding t by (auto simp: dec16_0 dec16_later)
  then show ?thesis
    unfolding clock_mode4_def using assms(1) f by (simp add: clock_bin same_update)
qed

lemma E5_later:
  assumes "bin_ok c" "E5 c" "1 < next_change_time c"
  shows "clock_mode5 c = (decrement c)\<lparr>next_change_time := next_change_time c - 1\<rparr>"
proof -
  have f: "\<not> triggerGATE c" "count_written c" "OUTpin c" "first_pass c"
    and t: "next_change_time c = count_binary c"
    using assms by (auto simp: E5_def)
  have "dec16 (count_binary c) \<noteq> 0" "next_change_time c - 1 = dec16 (count_binary c)"
    using assms(3) unfolding t by (auto simp: dec16_0 dec16_later)
  then show ?thesis
    unfolding clock_mode5_def using assms(1) f by (simp add: clock_bin same_update)
qed

lemma dec16_mask: "b \<le> 0xFFFF \<Longrightarrow> (b - 1) AND 0xFFFF = dec16 b"
  using low16 [of "b - 1"] dec16_le [of b] by (auto simp: dec16_def)

lemma E2_never: "bin_ok c \<Longrightarrow> E2 c \<Longrightarrow> next_change_time c = 0 \<Longrightarrow> clock_mode2 c = (if counts c then decrement c else c)"
proof -
  assume "bin_ok c" "E2 c" "next_change_time c = 0"
  moreover from this have "\<not> count_written c" "\<not> triggerGATE c"
    by (auto simp: E2_def bin_ok_def dec16_mask dec16_0)
  ultimately show ?thesis
    unfolding clock_mode2_def counts_def by (simp add: same_update)
qed

lemma E2_later:
  assumes "bin_ok c" "E2 c" "1 < next_change_time c"
  shows "clock_mode2 c = (decrement c)\<lparr>next_change_time := next_change_time c - 1\<rparr>"
proof -
  have f: "\<not> triggerGATE c" "count_written c" "\<not> first_pass c" "GATE c" "next_change_time c = dec16 (count_binary c)"
    using assms by (auto simp: E2_def bin_ok_def dec16_mask)
  then have "dec16 (count_binary c) \<noteq> 1" "(dec16 (count_binary c) - 1) AND 0xFFFF = dec16 (count_binary c) - 1"
    using assms dec16_mask [OF bin_dec16_le [OF assms(1)]] by (auto simp: dec16_later)
  then show ?thesis
    unfolding clock_mode2_def using assms(1) f by (simp add: clock_bin same_update)
qed

subsection \<open>Mode 3 counts by two\<close>

lemma even_unat: "even b \<longleftrightarrow> even (unat b)" for b :: Bit32u
  by (simp add: even_iff_mod_2_eq_zero word_unat_eq_iff unat_mod)

lemma even_dec2:
  assumes "even b" "b \<le> 0xFFFF"
  shows "even (dec16 (dec16 b))" "dec16 (dec16 b) \<le> 0xFFFF" "2 \<le> b \<Longrightarrow> dec16 (dec16 b) = b - 2"
proof -
  show "dec16 (dec16 b) \<le> 0xFFFF" by (intro dec16_le assms)
  have "b \<noteq> 1" using assms by auto
  then have eq: "dec16 (dec16 b) = (if b = 0 then 0xFFFE else b - 2)"
    by (auto simp: dec16_def diff_diff_eq)
  show "even (dec16 (dec16 b))" unfolding eq using assms by simp
  show "2 \<le> b \<Longrightarrow> dec16 (dec16 b) = b - 2" unfolding eq by auto
qed

lemma half_schedule:
  fixes b :: Bit32u
  assumes "even b" "4 \<le> b" "b \<le> 0xFFFF"
  shows "(b div 2 - 1) AND 0xFFFF = b div 2 - 1" "b div 2 - 1 \<noteq> 0"
proof -
  obtain m where m: "unat b = 2 * m" using assms(1) even_unat by (auto elim: evenE)
  then have bounds: "2 \<le> m" "m \<le> 32767" using assms by (auto simp: word_le_nat_alt)
  have h: "unat (b div 2) = m" using m by (simp add: unat_div)
  then have u: "unat (b div 2 - 1) = m - 1" using bounds unat_minus_of_nat [of 1 "b div 2"] by simp
  then show "(b div 2 - 1) AND 0xFFFF = b div 2 - 1" using bounds by (intro low16) (simp add: word_le_nat_alt)
  have "unat (b div 2 - 1) \<noteq> 0" using u bounds by simp
  then show "b div 2 - 1 \<noteq> 0" by (metis unsigned_0)
qed

lemma half_later:
  fixes b :: Bit32u
  assumes "even b" "4 \<le> b" "b \<le> 0xFFFF" "1 < b div 2 - 1"
  shows "dec16 (dec16 b) \<noteq> 0" "dec16 (dec16 b) \<noteq> 2"
    "(dec16 (dec16 b) div 2 - 1) AND 0xFFFF = b div 2 - 1 - 1"
proof -
  obtain m where m: "unat b = 2 * m" using assms(1) even_unat by (auto elim: evenE)
  then have bounds: "2 \<le> m" "m \<le> 32767" using assms by (auto simp: word_le_nat_alt)
  have h: "unat (b div 2) = m" using m by (simp add: unat_div)
  then have u: "unat (b div 2 - 1) = m - 1" using bounds unat_minus_of_nat [of 1 "b div 2"] by simp
  then have m3: "3 \<le> m" using assms(4) by (simp add: word_less_nat_alt)
  have eq: "dec16 (dec16 b) = b - 2"
    using even_dec2(3) assms by (simp add: word_le_nat_alt)
  have u2: "unat (b - 2) = 2 * m - 2" using m m3 unat_minus_of_nat [of 2 b] by simp
  show "dec16 (dec16 b) \<noteq> 0" "dec16 (dec16 b) \<noteq> 2"
    unfolding eq word_unat_eq_iff u2 using m3 by simp_all
  have "4 \<le> b - 2" using u2 m3 by (simp add: word_le_nat_alt)
  moreover have "even (b - 2)" "b - 2 \<le> 0xFFFF" using even_dec2 [OF assms(1,3)] eq by simp_all
  moreover have "(b - 2) div 2 - 1 = b div 2 - 1 - 1"
  proof -
    have "unat ((b - 2) div 2) = m - 1" using u2 by (simp add: unat_div)
    then have "unat ((b - 2) div 2 - 1) = m - 2" using m3 unat_minus_of_nat [of 1 "(b - 2) div 2"] by simp
    moreover have "unat (b div 2 - 1 - 1) = m - 2" using u m3 unat_minus_of_nat [of 1 "b div 2 - 1"] by simp
    ultimately show ?thesis by (simp add: word_unat_eq_iff)
  qed
  ultimately show "(dec16 (dec16 b) div 2 - 1) AND 0xFFFF = b div 2 - 1 - 1"
    unfolding eq using half_schedule(1) by metis
qed

lemma even_16: "even (ucast (l :: Bit16u) :: Bit32u) \<longleftrightarrow> even l"
  using bit_0 [of l] bit_0 [of "ucast l :: Bit32u"] by (simp add: bit_ucast_iff)

lemma even_mask: "even l \<Longrightarrow> l AND 0xFFFE = l" "even l \<Longrightarrow> l AND 1 = 0" for l :: Bit16u
proof -
  assume "even l"
  then have l0: "\<not> bit l 0" by (simp add: bit_0)
  have m: "(0xFFFE :: Bit16u) = NOT 1" by simp
  show "l AND 0xFFFE = l" unfolding m
    by (rule bit_word_eqI) (use l0 in \<open>auto simp: bit_and_iff bit_not_iff bit_1_iff intro!: gr0I\<close>)
  show "l AND 1 = 0" using l0 by (simp add: and_1_bit)
qed

lemma half_load:
  fixes b :: Bit32u
  assumes "even b" "b \<noteq> 0" "b \<le> 0xFFFF"
  shows "b div 2 - 1 = 0 \<or> 4 \<le> b"
proof -
  obtain m where m: "unat b = 2 * m" using assms(1) even_unat by (auto elim: evenE)
  have "unat (b div 2) = m" using m by (simp add: unat_div)
  then have "m = 1 \<Longrightarrow> b div 2 = 1" by (simp add: word_unat_eq_iff)
  moreover have "m \<noteq> 0" using m assms(2) by (auto simp: word_unat_eq_iff)
  ultimately show ?thesis using m by (auto simp: word_le_nat_alt)
qed

lemma half_dec:
  fixes b :: Bit32u
  assumes "even b" "b \<le> 0xFFFF" "b \<noteq> 0" "b \<noteq> 2"
  shows "4 \<le> b"
proof -
  obtain m where m: "unat b = 2 * m" using assms(1) even_unat by (auto elim: evenE)
  have "m \<noteq> 0" "m \<noteq> 1" using m assms(3,4) by (auto simp: word_unat_eq_iff)
  then show ?thesis using m by (auto simp: word_le_nat_alt)
qed

lemma dec2_bin: "bin_ok c \<Longrightarrow> decrement (decrement c) =
    c\<lparr>count := dec16 (dec16 (count_binary c)), count_binary := dec16 (dec16 (count_binary c))\<rparr>"
  by (simp add: dec_bin bin_ok_def dec16_le)

lemma E3_never: "bin_ok c \<Longrightarrow> E3 c \<Longrightarrow> next_change_time c = 0 \<Longrightarrow> clock_mode3 c = (if counts c then decrement (decrement c) else c)"
proof -
  assume "bin_ok c" "E3 c" "next_change_time c = 0"
  moreover from this have "\<not> count_written c" "\<not> triggerGATE c"
    using half_schedule(2) [of "count_binary c"] by (auto simp: E3_def bin_ok_def)
  ultimately show ?thesis
    unfolding clock_mode3_def counts_def by (simp add: same_update)
qed

lemma E3_later:
  assumes "bin_ok c" "E3 c" "1 < next_change_time c"
  shows "clock_mode3 c = (decrement (decrement c))\<lparr>next_change_time := next_change_time c - 1\<rparr>"
proof -
  let ?b = "count_binary c"
  have f: "\<not> triggerGATE c" "count_written c" "\<not> first_pass c" "\<not> state_bit_2 c" "\<not> state_bit_1 c" "GATE c"
    and b: "even ?b" "4 \<le> ?b" "next_change_time c = ?b div 2 - 1"
    using assms by (auto simp: E3_def)
  have "?b \<le> 0xFFFF" using assms(1) by (simp add: bin_ok_def)
  note h = half_later [OF b(1,2) this assms(3) [unfolded b(3)]]
  show ?thesis
    unfolding clock_mode3_def b(3) using f by (simp add: dec2_bin [OF assms(1)] h same_update Let_def)
qed

lemma E3_load:
  assumes "bin_ok c" "E3 c" "count_written c" "triggerGATE c \<or> first_pass c \<or> state_bit_2 c"
  shows "bin_ok (clock_mode3 c) \<and> E3 (clock_mode3 c)"
proof -
  let ?b = "ucast (inlatch c) :: Bit32u"
  have f: "GATE c" "even (inlatch c)" "inlatch c \<noteq> 0" "mode c = 3" "\<not> bcd_mode c"
    using assms by (auto simp: E3_def bin_ok_def)
  have b: "even ?b" "?b \<noteq> 0" "?b \<le> 0xFFFF"
    using f(2,3) ucast_up_ucast_id [where 'a = 16 and 'b = 32, of "inlatch c"]
    by (auto simp: even_16 ucast_le_16 is_up)
  then have "?b div 2 - 1 = 0 \<or> 4 \<le> ?b \<and> (?b div 2 - 1) AND 0xFFFF = ?b div 2 - 1"
    using half_load half_schedule(1) by blast
  then show ?thesis
    using assms(3,4) f b(1)
    unfolding clock_mode3_def E3_def
    by (simp add: set_count_bin even_mask bin_ok_value ucast_le_16 Let_def) (auto simp: set_OUT_def Let_def bin_ok_def ucast_le_16)
qed

lemma E3_count:
  assumes "bin_ok c" "E3 c" "count_written c" "\<not> (triggerGATE c \<or> first_pass c \<or> state_bit_2 c)"
  shows "bin_ok (clock_mode3 c) \<and> E3 (clock_mode3 c)"
proof -
  let ?b = "count_binary c"
  let ?d = "dec16 (dec16 ?b)"
  have f: "GATE c" "even (inlatch c)" "inlatch c \<noteq> 0" "mode c = 3" "\<not> bcd_mode c" "\<not> state_bit_1 c" "even ?b" "?b \<le> 0xFFFF"
    using assms by (auto simp: E3_def bin_ok_def)
  note d = even_dec2(1,2) [OF f(7,8)]
  consider "?d = 0" | "?d = 2" | "4 \<le> ?d" "(?d div 2 - 1) AND 0xFFFF = ?d div 2 - 1" "?d \<noteq> 0" "?d \<noteq> 2"
    using half_dec [OF d] half_schedule(1) [OF d(1) _ d(2)] by auto
  then show ?thesis
    using assms(3,4) f(1-6) d unfolding clock_mode3_def E3_def
    by cases (simp_all add: dec2_bin [OF assms(1)] bin_ok_def same_update Let_def)
qed

lemma E3_clock: "bin_ok c \<Longrightarrow> E3 c \<Longrightarrow> bin_ok (clock_mode3 c) \<and> E3 (clock_mode3 c)"
proof (cases "count_written c")
  case False
  moreover assume "bin_ok c" "E3 c"
  ultimately show ?thesis unfolding clock_mode3_def by (simp add: E3_def)
qed (use E3_load E3_count in blast)

definition event_ok :: "counter_type \<Rightarrow> bool" where
  "event_ok c \<longleftrightarrow> bin_ok c \<and> (E0 c \<or> E1 c \<or> E2 c \<or> E3 c \<or> E4 c \<or> E5 c)"

lemma step_dec_mode: "mode c \<noteq> 3 \<Longrightarrow> step_dec c = decrement c" "mode c = 3 \<Longrightarrow> step_dec c = decrement (decrement c)"
  by (simp_all add: step_dec_def ticks_def numeral_2_eq_2)

lemma E_modes: "E0 c \<Longrightarrow> mode c = 0" "E1 c \<Longrightarrow> mode c = 1" "E2 c \<Longrightarrow> mode c = 2" "E3 c \<Longrightarrow> mode c = 3"
  "E4 c \<Longrightarrow> mode c = 4" "E5 c \<Longrightarrow> mode c = 5"
  by (simp_all add: E0_def E1_def E2_def E3_def E4_def E5_def)

interpretation pit_clock: clock_invariant event_ok
proof
  fix c assume e: "event_ok c"
  show "count_ok c \<and> \<not> bcd_mode c \<and> mode c \<in> {0, 1, 2, 3, 4, 5}"
    using e E_modes [of c] bin_ok_count [of c] by (auto simp: event_ok_def)
  show "event_ok (clock_counter c)"
    using e E0_clock E1_clock E2_clock E3_clock E4_clock E5_clock unfolding event_ok_def
    by (elim conjE disjE) (simp_all add: E_modes clock_counter_def)
  show "clock_counter c = (if counts c then step_dec c else c)" if "next_change_time c = 0"
    using e that E0_never E1_never E2_never E3_never E4_never E5_never unfolding event_ok_def
    by (elim conjE disjE) (simp_all add: E_modes clock_counter_def step_dec_mode)
  show "clock_counter c = (step_dec c)\<lparr>next_change_time := next_change_time c - 1\<rparr>" if "1 < next_change_time c"
    using e that E0_later E1_later E2_later E3_later E4_later E5_later unfolding event_ok_def
    by (elim conjE disjE) (simp_all add: E_modes clock_counter_def step_dec_mode)
qed

lemma clock_multiple_is_iterated_clock:
  "event_ok c \<Longrightarrow> clock_multiple_counter n c = (clock_counter ^^ unat n) c"
  by (rule pit_clock.clock_multiple_iterates)

end
