(* ===== verification/Pit_Props.thy ===== *)
theory Pit_Props
  imports Pit_Clock
begin

text \<open>
  What the client of the 82C54 (\<^verbatim>\<open>iodev/pit.cc\<close>) relies on: the rate generator divides the
  input clock by the programmed count, latched counts and status are read back unchanged,
  and the next event time tells when to call \<open>clock_all\<close> again.
\<close>

unbundle bit_operations_syntax

section \<open>Counting\<close>

text \<open>
  \<open>decrement_multiple\<close> subtracts any number of clocks, in binary and in BCD, exactly as the
  same number of single decrements: it takes the value modulo the period, keeps the two
  encodings of the value consistent, and always ends.
\<close>

lemma decrement_multiple_iterates:
  assumes "count_ok c"
  shows "decrement_multiple n c = (decrement ^^ unat n) c \<and> count_ok (decrement_multiple n c) \<and>
    uint (count_binary (decrement_multiple n c)) = (uint (count_binary c) - uint n) mod period c"
proof -
  have "uint (of_int ((uint (count_binary c) - uint n) mod period c) :: Bit32u) = (uint (count_binary c) - uint n) mod period c"
    by (intro uint_small pos_mod_sign order.strict_trans2 [OF pos_mod_bound period_le]) simp_all
  then show ?thesis
    using assms decrement_iterate_ok [OF assms, of "unat n"] count_ok_with_value
    by (simp add: decrement_multiple_ok) (simp add: with_value_def)
qed

section \<open>The rate generator\<close>

text \<open>A counter in mode 2 that has just loaded its count.\<close>

definition loaded2 :: "counter_type \<Rightarrow> bool" where
  "loaded2 c \<longleftrightarrow> mode c = 2 \<and> GATE c \<and> \<not> triggerGATE c \<and> count_written c \<and> \<not> first_pass c \<and> \<not> null_count c \<and>
     OUTpin c \<and> \<not> bcd_mode c \<and> inlatch c \<noteq> 1 \<and> count c = ucast (inlatch c) \<and> count_binary c = ucast (inlatch c) \<and>
     next_change_time c = (count_binary c - 1) AND 0xFFFF"

definition divisor :: "counter_type \<Rightarrow> nat" where
  "divisor c = (if inlatch c = 0 then 65536 else unat (inlatch c))"

lemma loaded2_event_ok: "loaded2 c \<Longrightarrow> event_ok c"
  by (auto simp: loaded2_def event_ok_def E2_def bin_ok_def ucast_le_16 ucast_16_eq_1)

lemma divisor_ge_2: "loaded2 c \<Longrightarrow> 2 \<le> divisor c"
proof -
  assume "loaded2 c"
  then have "inlatch c \<noteq> 1" by (simp add: loaded2_def)
  then have "inlatch c = 0 \<or> 2 \<le> unat (inlatch c)"
    by (metis One_nat_def Suc_leI less_one linorder_neqE_nat nat_less_le numeral_2_eq_2 unat_1 unat_eq_zero word_unat_eq_iff not_less_eq_eq)
  then show ?thesis by (auto simp: divisor_def)
qed

lemma unat_ucast_16: "unat (ucast (l :: Bit16u) :: Bit32u) = unat l"
proof -
  have "unat l < 2 ^ 16" using unsigned_less [of l] by simp
  then have "unat l < 2 ^ 32" by simp
  then show ?thesis by (simp only: unsigned_ucast_eq take_bit_nat_eq_self) (simp add: take_bit_nat_eq_self)
qed

lemma loaded2_next:
  assumes "loaded2 c"
  shows "unat (next_change_time c) = divisor c - 1"
proof (cases "inlatch c = 0")
  case True
  then show ?thesis using assms by (simp add: loaded2_def divisor_def)
next
  case False
  let ?b = "ucast (inlatch c) :: Bit32u"
  have n: "next_change_time c = dec16 ?b"
    using assms dec16_mask [of ?b] ucast_le_16 by (simp add: loaded2_def)
  have "?b \<noteq> 0" using False unat_ucast_16 [of "inlatch c"] by (metis unat_eq_zero unsigned_0)
  then show ?thesis
    using n False unat_minus_of_nat [of 1 ?b] unat_gt_0 [of ?b] unat_ucast_16 [of "inlatch c"]
    by (simp add: divisor_def dec16_def Suc_le_eq)
qed

lemma OUTpin_with_value [simp]: "OUTpin (with_value c v) = OUTpin c"
  by (simp add: with_value_def)

text \<open>One clock before the pulse the count is 2.\<close>

lemma rate_before_pulse:
  assumes "loaded2 c"
  shows "(clock_counter ^^ (divisor c - 2)) c = (with_value c 2)\<lparr>next_change_time := 1\<rparr>"
proof -
  let ?k = "divisor c - 2"
  have b: "uint (count_binary c) = int (unat (inlatch c))"
    using assms unat_ucast_16 [of "inlatch c"] uint_nat [of "ucast (inlatch c) :: Bit32u"] by (simp add: loaded2_def)
  have "inlatch c \<noteq> 0 \<Longrightarrow> 2 \<le> unat (inlatch c)"
    using divisor_ge_2 [OF assms] by (simp add: divisor_def)
  then have v: "(uint (count_binary c) - int ?k) mod 65536 = 2"
    unfolding b by (auto simp: divisor_def)
  have m: "ticks c = 1" "period c = 65536" "count_ok c"
    using assms loaded2_event_ok [OF assms] by (auto simp: loaded2_def ticks_def period_def event_ok_def dest: bin_ok_count)
  have k: "?k < unat (next_change_time c)"
    using divisor_ge_2 [OF assms] by (simp add: loaded2_next [OF assms])
  have "unat (next_change_time c - of_nat ?k) = 1"
    using divisor_ge_2 [OF assms] k by (subst unat_minus_of_nat) (auto simp: loaded2_next [OF assms])
  then have "next_change_time c - of_nat ?k = 1" by (simp add: word_unat_eq_iff)
  then show ?thesis
    using pit_clock.later_iterate [OF loaded2_event_ok [OF assms] k] v m by (simp add: step_dec_iterate)
qed

lemma rate_pulse:
  assumes "loaded2 c"
  shows "clock_counter ((with_value c 2)\<lparr>next_change_time := 1\<rparr>) =
    (set_OUT False (with_value c 1))\<lparr>next_change_time := 1, first_pass := True\<rparr>"
  using assms
  by (simp add: clock_counter_def clock_mode2_def with_value_def loaded2_def decrement_def encode_def
      set_count_to_binary_def set_OUT_def Let_def)

lemma rate_reload:
  assumes "loaded2 c"
  shows "clock_counter ((set_OUT False (with_value c 1))\<lparr>next_change_time := 1, first_pass := True\<rparr>) =
    c\<lparr>OUT_calls := (if out_handler c then [True, False] else []) @ OUT_calls c\<rparr>"
  using assms unfolding clock_counter_def clock_mode2_def
  by (cases c) (simp add: loaded2_def with_value_def set_OUT_def set_count_bin Let_def)

text \<open>
  C10: The rate generator (mode 2, counting in binary with the gate open, at the start of a period, with a count other than
  1) divides its input clock by the programmed count, 65536 for a count of 0: the output stays high for all but the
  last clock of a period, is low for that one, and after a whole period the counter is back in the state it started
  from, with one low and one high call of the output handler if one is connected.
\<close>

theorem rate_generator_period:
  assumes "loaded2 c"
  shows "(\<forall>k < divisor c - 1. OUTpin ((clock_counter ^^ k) c)) \<and> \<not> OUTpin ((clock_counter ^^ (divisor c - 1)) c) \<and>
    (clock_counter ^^ divisor c) c = c\<lparr>OUT_calls := (if out_handler c then [True, False] else []) @ OUT_calls c\<rparr>"
proof -
  let ?N = "divisor c"
  have N: "?N - 1 = Suc (?N - 2)" "?N = Suc (?N - 1)" using divisor_ge_2 [OF assms] by auto
  have pulse: "(clock_counter ^^ (?N - 1)) c = (set_OUT False (with_value c 1))\<lparr>next_change_time := 1, first_pass := True\<rparr>"
    unfolding N(1) using rate_before_pulse [OF assms] rate_pulse [OF assms] by simp
  then have "(clock_counter ^^ Suc (?N - 1)) c = c\<lparr>OUT_calls := (if out_handler c then [True, False] else []) @ OUT_calls c\<rparr>"
    using rate_reload [OF assms] by simp
  moreover have "OUTpin ((clock_counter ^^ k) c)" if "k < ?N - 1" for k
  proof -
    have "OUTpin c" "count_ok c"
      using assms loaded2_event_ok [OF assms] by (auto simp: loaded2_def event_ok_def dest: bin_ok_count)
    then show ?thesis
      using pit_clock.later_iterate [OF loaded2_event_ok [OF assms], of k] that
      by (simp add: loaded2_next [OF assms] step_dec_iterate)
  qed
  ultimately show ?thesis using pulse N(2) by simp
qed
section \<open>Clocking the chip\<close>

text \<open>
  C3: Clocking the chip by \<open>n\<close> input clocks at once leaves each counter in the state it
  reaches in \<open>n\<close> single clocks, outputs and handler calls included, for counters whose
  scheduled time is honest (\<open>event_ok\<close>), which holds again afterwards.
\<close>

theorem clock_all_is_iterated_clock:
  assumes "\<forall>i\<le>2. event_ok (counter p i)"
  shows "counter (clock_all n p) = (\<lambda>i. if i \<le> 2 then (clock_counter ^^ unat n) (counter p i) else counter p i)
    \<and> (\<forall>i\<le>2. event_ok (counter (clock_all n p) i))"
proof -
  have "counter (clock_all n p) = (\<lambda>i. if i \<le> 2 then clock_multiple_counter n (counter p i) else counter p i)"
    by (auto simp: clock_all_def clock_multiple_def upd_counter_def fun_eq_iff le_Suc_eq numeral_2_eq_2)
  then show ?thesis
    using assms clock_multiple_is_iterated_clock pit_clock.E_iterate by (auto simp: fun_eq_iff)
qed

section \<open>Programming\<close>

lemma word_cat_bytes: "(ucast lo OR push_bit 8 (ucast hi) :: Bit16u) = word_cat (hi :: Bit8u) (lo :: Bit8u)"
  by (rule bit_word_eqI) (auto simp: bit_simps bit_word_cat_iff dest: bit_imp_le_length)

lemma program_mode2:
  assumes "GATE c" "\<not> triggerGATE c" "word_cat hi lo \<noteq> (1 :: Bit16u)"
    and c': "c' = write_initial_count hi (write_initial_count lo (program_counter 3 2 0 c))"
  shows "inlatch c' = word_cat hi lo" "event_ok c'" "loaded2 (clock_counter c')"
proof -
  let ?l = "word_cat hi lo :: Bit16u"
  have e: "c' = (set_OUT True (c\<lparr>null_count := True, count_LSB_latched := False, count_MSB_latched := False,
      status_latched := False, inlatch := ?l, count_written := True, first_pass := True, rw_mode := 3,
      bcd_mode := False, mode := 2, read_state := LSByte_multiple, write_state := LSByte_multiple\<rparr>))
      \<lparr>count := ucast ?l, count_binary := ucast ?l, next_change_time := 1\<rparr>"
    unfolding c' program_counter_def write_initial_count_def
    by (cases "OUTpin c"; cases "out_handler c") (simp_all add: Let_def set_OUT_def set_count_bin word_cat_bytes)
  have f: "inlatch c' = ?l" "mode c' = 2" "GATE c'" "\<not> triggerGATE c'" "count_written c'" "first_pass c'" "OUTpin c'"
    "\<not> bcd_mode c'" "count c' = ucast ?l" "count_binary c' = ucast ?l" "next_change_time c' = 1"
    using assms(1,2) by (simp_all add: e)
  then show "inlatch c' = word_cat hi lo" by simp
  show "event_ok c'" using f assms(3) by (simp add: event_ok_def bin_ok_def E2_def ucast_le_16)
  have "clock_counter c' = c'\<lparr>next_change_time := (ucast ?l - 1) AND 0xFFFF, null_count := False, first_pass := False\<rparr>"
    using f by (simp add: clock_counter_def clock_mode2_def set_count_bin Let_def)
  then show "loaded2 (clock_counter c')"
    using f assms(3) by (simp add: loaded2_def)
qed

text \<open>
  Programming counter 0 as a binary rate generator - control word 0x34, then the low and
  the high byte of the count - stores the count, leaves the scheduled time honest, and the
  next clock loads the count with the output high; the other counters are not touched.
\<close>

lemma program_rate_generator:
  assumes "GATE (counter p 0)" "\<not> triggerGATE (counter p 0)" "word_cat hi lo \<noteq> (1 :: Bit16u)"
  shows "(let p' = pit_write 0 hi (pit_write 0 lo (pit_write 3 0x34 p))
          in get_inlatch 0 p' = word_cat hi lo \<and> event_ok (counter p' 0) \<and> loaded2 (counter (clock 0 p') 0)
             \<and> counter p' 1 = counter p 1 \<and> counter p' 2 = counter p 2)"
proof -
  have "counter (pit_write 3 0x34 p) = (counter p)(0 := program_counter 3 2 0 (counter p 0))"
    by (simp add: pit_write_def control_write_def upd_counter_def Let_def)
  then show ?thesis
    using program_mode2 [OF assms refl]
    by (simp add: pit_write_def upd_counter_def get_inlatch_def clock_def Let_def)
qed

section \<open>Latches\<close>

definition latches :: "counter_type \<Rightarrow> Bit16u \<times> bool \<times> bool \<times> Bit8u \<times> bool \<times> rw_status" where
  "latches c = (outlatch c, count_LSB_latched c, count_MSB_latched c, status_latch c, status_latched c, read_state c)"

lemma latches_prims [simp]:
  "latches (decrement c) = latches c" "latches (set_count d c) = latches c" "latches (set_OUT b c) = latches c"
  "latches (set_count_to_binary c) = latches c" "latches (c\<lparr>count_binary := v\<rparr>) = latches c"
  "latches (c\<lparr>next_change_time := t\<rparr>) = latches c" "latches (c\<lparr>triggerGATE := b\<rparr>) = latches c"
  "latches (c\<lparr>null_count := b\<rparr>) = latches c" "latches (c\<lparr>first_pass := b\<rparr>) = latches c"
  "latches (c\<lparr>state_bit_1 := b\<rparr>) = latches c" "latches (c\<lparr>state_bit_2 := b\<rparr>) = latches c"
  by (simp_all add: latches_def decrement_def set_count_def set_count_to_binary_def set_binary_to_count_def set_OUT_def Let_def)

lemma latches_decrement_multiple [simp]: "latches (decrement_multiple n c) = latches c"
  by (induction n c rule: decrement_multiple.induct) (subst decrement_multiple.simps, simp)

lemma latches_clock [simp]: "latches (clock_counter c) = latches c"
  by (simp add: clock_counter_def clock_mode0_def clock_mode1_def clock_mode2_def clock_mode4_def clock_mode5_def clock_mode3_def change_after_count_def Let_def)

lemma latches_clock_multiple [simp]: "latches (clock_multiple_counter n c) = latches c"
  by (induction n c rule: clock_multiple_counter.induct)
    (subst clock_multiple_counter.simps, simp add: run_unchanging_counts Let_def)
lemma bit_FFFF: "n < 16 \<Longrightarrow> bit (0xFFFF :: Bit32u) n"
proof -
  have "(0xFFFF :: Bit32u) = mask 16" by (simp add: mask_numeral)
  then show "n < 16 \<Longrightarrow> ?thesis" by (simp only: bit_mask_iff) simp
qed

lemma byte_halves: "word_cat (ucast (drop_bit 8 w AND 0xFF) :: Bit8u) (ucast (w AND 0xFF) :: Bit8u) = (w :: Bit16u)"
proof -
  have m: "(0xFF :: Bit16u) = mask 8" by (simp add: mask_numeral)
  show ?thesis unfolding m
    by (rule bit_word_eqI) (auto simp: bit_word_cat_iff bit_ucast_iff bit_and_iff bit_mask_iff bit_drop_bit_eq)
qed

text \<open>
  A latched 16-bit count is read back unchanged, low byte first, however many clocks pass
  after the latch command and between the two reads, and the latch is free again afterwards.
\<close>

lemma latched_count_read:
  assumes "\<not> status_latched c" "\<not> count_LSB_latched c" "\<not> count_MSB_latched c" "read_state c = LSByte_multiple"
  shows "(let (lo, c2) = read_counter (clock_multiple_counter n (latch_counter c));
              (hi, c3) = read_counter (clock_multiple_counter m c2)
          in word_cat hi lo = (ucast (count c) :: Bit16u) \<and> read_state c3 = LSByte_multiple \<and>
             \<not> count_LSB_latched c3 \<and> \<not> count_MSB_latched c3)"
proof -
  let ?w = "ucast (count c AND 0xFFFF) :: Bit16u"
  let ?c1 = "clock_multiple_counter n (latch_counter c)"
  have "latches ?c1 = latches (latch_counter c)" by simp
  then have c1: "outlatch ?c1 = ?w" "count_LSB_latched ?c1" "count_MSB_latched ?c1" "\<not> status_latched ?c1"
    "read_state ?c1 = LSByte_multiple"
    using assms by (simp_all add: latches_def latch_counter_def)
  define c2 where "c2 = ?c1\<lparr>read_state := MSByte_multiple, count_LSB_latched := False\<rparr>"
  have r1: "read_counter ?c1 = (ucast (?w AND 0xFF), c2)"
    using c1 by (simp add: read_counter_def c2_def)
  have "latches (clock_multiple_counter m c2) = latches c2" by simp
  then have c2': "outlatch (clock_multiple_counter m c2) = ?w" "\<not> count_LSB_latched (clock_multiple_counter m c2)"
    "count_MSB_latched (clock_multiple_counter m c2)" "\<not> status_latched (clock_multiple_counter m c2)"
    "read_state (clock_multiple_counter m c2) = MSByte_multiple"
    using c1 by (simp_all add: latches_def c2_def)
  have "?w = ucast (count c)"
    by (rule bit_word_eqI) (simp only: bit_ucast_iff bit_and_iff, use bit_FFFF in auto)
  then show ?thesis
    using r1 c2' byte_halves [of ?w] by (simp add: read_counter_def Let_def)
qed

text \<open>
  The next event time is the earliest scheduled change of the three counters, unless
  counter 0 has none: then the code answers 0, never, although counter 1 or 2 may have one.
\<close>

lemma next_event_time:
  "get_next_event_time p =
     (if next_change_time (counter p 0) = 0 then 0
      else Min {t \<in> {next_change_time (counter p 0), next_change_time (counter p 1), next_change_time (counter p 2)}. t \<noteq> 0})"
  unfolding get_next_event_time_def get_clock_event_time_def Let_def
  by (auto intro!: Min_eqI [symmetric])

section \<open>The square wave\<close>

text \<open>A running counter in mode 3 with the count 5 programmed.\<close>

definition square5 :: "Bit32u \<Rightarrow> bool \<Rightarrow> bool \<Rightarrow> bool \<Rightarrow> Bit32u \<Rightarrow> counter_type" where
  "square5 v out odd_count reload t =
     \<lparr>GATE = True, OUTpin = out, count = v, outlatch = 0, inlatch = 5, status_latch = 0, rw_mode = 3,
      mode = 3, bcd_mode = False, null_count = False, count_LSB_latched = False, count_MSB_latched = False,
      status_latched = False, count_binary = v, triggerGATE = False, write_state = LSByte_multiple,
      read_state = LSByte_multiple, count_written = True, first_pass = False, state_bit_1 = odd_count,
      state_bit_2 = reload, next_change_time = t, out_handler = False, OUT_calls = []\<rparr>"

lemma square5_reload:
  "clock_counter (square5 v True b True t) = square5 4 False True False 2"
  "clock_counter (square5 v False b True t) = square5 4 True True False 1"
  by (simp_all add: clock_counter_def clock_mode3_def square5_def set_count_def set_binary_to_count_def set_OUT_def Let_def)

lemma square5_dec2:
  "decrement (decrement (square5 4 out b r t)) = square5 2 out b r t"
  "decrement (decrement (square5 2 out b r t)) = square5 0 out b r t"
  by (simp_all add: square5_def decrement_def set_count_to_binary_def)

lemma square5_fields [simp]:
  "mode (square5 v out b r t) = 3" "GATE (square5 v out b r t)" "\<not> triggerGATE (square5 v out b r t)"
  "\<not> first_pass (square5 v out b r t)" "count_written (square5 v out b r t)" "\<not> bcd_mode (square5 v out b r t)"
  "OUTpin (square5 v out b r t) = out" "state_bit_1 (square5 v out b r t) = b" "state_bit_2 (square5 v out b r t) = r"
  "count (square5 v out b r t) = v" "count_binary (square5 v out b r t) = v" "next_change_time (square5 v out b r t) = t"
  "(square5 v out b r t)\<lparr>next_change_time := u\<rparr> = square5 v out b r u"
  "(square5 v out b r t)\<lparr>state_bit_2 := q, next_change_time := u\<rparr> = square5 v out b q u"
  "(square5 v out b r t)\<lparr>state_bit_2 := q\<rparr> = square5 v out b q t"
  "(square5 v out b r t)\<lparr>triggerGATE := False\<rparr> = square5 v out b r t"
  by (simp_all add: square5_def)

lemma square5_count:
  "clock_counter (square5 4 False True False t) = square5 2 False True True 1"
  "clock_counter (square5 2 False True False t) = square5 0 False True True 1"
  unfolding clock_counter_def clock_mode3_def by (simp_all add: square5_dec2 Let_def)

lemma square5_skip: "decrement_multiple 2 (square5 4 out b r t) = square5 2 out b r t"
  by (simp add: decrement_multiple.simps) (simp add: square5_def set_count_to_binary_def)

text \<open>
  In mode 3 the scheduled time is wrong after the output has gone low with an odd count:
  it is computed from the level before the change. With a count of 5 the single clocks keep
  the output low for two clocks, and \<open>clock_multiple\<close> keeps it low for three.
\<close>

lemma square_wave_odd_count:
  "\<not> OUTpin (clock_counter (square5 v True b True 1)) \<and>
   OUTpin ((clock_counter ^^ 3) (square5 v True b True 1)) \<and>
   \<not> OUTpin (clock_multiple_counter 3 (square5 v True b True 1))"
proof -
  have z: "decrement_multiple 0 c = c" "clock_multiple_counter 0 c = c" for c
    by (simp_all add: decrement_multiple.simps clock_multiple_counter.simps)
  have "clock_multiple_counter 3 (square5 v True b True 1) = clock_multiple_counter 2 (square5 4 False True False 2)"
    by (subst clock_multiple_counter.simps) (simp add: z square5_reload)
  also have "\<dots> = square5 0 False True True 1"
    by (subst clock_multiple_counter.simps) (simp add: z square5_skip square5_count)
  finally have "\<not> OUTpin (clock_multiple_counter 3 (square5 v True b True 1))" by simp
  then show ?thesis
    by (simp add: numeral_3_eq_3 square5_reload square5_count)
qed

text \<open>
  In mode 3 a count of 0, which stands for 65536, should give half periods of 32768 clocks;
  the scheduled time wraps to 65535, so \<open>clock_multiple\<close> holds the output for every smaller
  number of clocks.
\<close>

lemma square_wave_zero_count:
  assumes "mode c = 3" "GATE c" "count_written c" "first_pass c" "inlatch c = 0" "\<not> bcd_mode c" "n < 0xFFFF"
  shows "next_change_time (clock_counter c) = 0xFFFF \<and> OUTpin (clock_multiple_counter n (clock_counter c))"
proof -
  let ?d = "clock_counter c"
  have d: "next_change_time ?d = 0xFFFF" "OUTpin ?d" "mode ?d = 3" "count ?d = 0" "count_binary ?d = 0" "\<not> bcd_mode ?d"
    using assms set_count_bin [of c 0]
    by (simp_all add: clock_counter_def clock_mode3_def Let_def)
  then have "count_ok ?d" by (simp add: count_ok_def encode_def period_def)
  then have "OUTpin (decrement_multiple k ?d)" for k
    using d(2) by (simp add: decrement_multiple_ok)
  then have "OUTpin (clock_multiple_counter n ?d)"
    using d assms(7) by (subst clock_multiple_counter.simps) (simp add: Let_def clock_multiple_counter.simps)
  then show ?thesis using d(1) by simp
qed
section \<open>Witnesses\<close>

definition pit_fresh :: pit_82C54 where
  "pit_fresh = pit_init \<lparr>counter = (\<lambda>_. square5 0 True False False 0), controlword = 0\<rparr>"

lemma pit_fresh_counter: "i \<le> 2 \<Longrightarrow> counter pit_fresh i = init_counter (square5 0 True False False 0)"
  by (auto simp: pit_fresh_def pit_init_def upd_counter_def numeral_3_eq_3 numeral_2_eq_2 le_Suc_eq)

lemma pit_fresh_ok: "i \<le> 2 \<Longrightarrow> event_ok (counter pit_fresh i)"
  by (simp add: pit_fresh_counter event_ok_def bin_ok_def E4_def init_counter_def)

theorem clock_all_is_iterated_clock_witness:
  "counter (clock_all 100 pit_fresh) 1 = (clock_counter ^^ 100) (counter pit_fresh 1)"
  using clock_all_is_iterated_clock [of pit_fresh 100] pit_fresh_ok by simp

definition rate3 :: counter_type where
  "rate3 = (square5 3 True False False 2)\<lparr>mode := 2, inlatch := 3, out_handler := True\<rparr>"

theorem rate_generator_period_witness:
  "\<not> OUTpin ((clock_counter ^^ 2) rate3) \<and>
   OUT_calls ((clock_counter ^^ 3) rate3) = [True, False]"
proof -
  have l: "loaded2 rate3" by (simp add: loaded2_def rate3_def square5_def)
  have d: "divisor rate3 = 3" by (simp add: divisor_def rate3_def)
  have "out_handler rate3" "OUT_calls rate3 = []" by (simp_all add: rate3_def square5_def)
  then show ?thesis
    using rate_generator_period [OF l] unfolding d by simp
qed

end
