(* ===== verification/Pit_Device.thy ===== *)
theory Pit_Device
  imports Pit_Props Pic
begin

text \<open>
  The timer device of \<^verbatim>\<open>iodev/pit.cc\<close> and \<^verbatim>\<open>iodev/pit.h\<close>, which drives the 82C54 of \<open>Pit82c54\<close>
  from the virtual time and wires its outputs: counter 0 to line 0 of the interrupt controllers of
  \<open>Pic\<close> and counter 2 to the speaker. An operation takes the value of \<open>bx_virt_timer.time_usec\<close>
  it works with as its argument \<open>my_time_usec\<close>; \<open>pit_timer\<close> is what the virtual timer holds for
  \<open>timer_handle[0]\<close>, the one-shot interval it was activated with or \<open>None\<close> after
  \<open>deactivate_timer\<close>; \<open>speaker\<close> collects the calls of the speaker device, the latest first. The
  standard clock (\<open>is_realtime = 0\<close>) is modelled, where virtual time stands still during an
  access, so that a second \<open>time_usec\<close> in one access returns the same value.
\<close>

unbundle bit_operations_syntax

section \<open>State\<close>

text \<open>\<open>Beep_on\<close> carries the divisor of the frequency \<open>1193180.0 / value32\<close>.\<close>

datatype speaker_call = Beep_on Bit32u | Beep_off | Set_line bool

record bx_pit_c =
  timer :: pit_82C54
  speaker_data_on :: bool
  speaker_active :: bool
  speaker_level :: bool
  last_usec :: Bit64u
  last_next_event_time :: Bit32u
  total_ticks :: Bit64u
  total_usec :: Bit64u
  irq_enabled :: bool
  pit_timer :: "Bit32u option"
  pic :: bx_pic_c
  speaker :: "speaker_call list"
  pit_panics :: "Bit32u list"

abbreviation (input) USEC_PER_SECOND :: "'a::len word" where "USEC_PER_SECOND \<equiv> 1000000"
abbreviation (input) TICKS_PER_SECOND :: "'a::len word" where "TICKS_PER_SECOND \<equiv> 1193181"

text \<open>The conversions, in the width of their argument.\<close>

definition TICKS_TO_USEC :: "'a::len word \<Rightarrow> 'a word" where
  "TICKS_TO_USEC a = (a * USEC_PER_SECOND) div TICKS_PER_SECOND"
definition USEC_TO_TICKS :: "'a::len word \<Rightarrow> 'a word" where
  "USEC_TO_TICKS a = (a * TICKS_PER_SECOND) div USEC_PER_SECOND"

section \<open>Outputs\<close>

definition irq_handler :: "bool \<Rightarrow> bx_pit_c \<Rightarrow> bx_pit_c" where
  "irq_handler value s =
     (if irq_enabled s
      then if value then s\<lparr>pic := raise_irq 0 (pic s)\<rparr> else s\<lparr>pic := lower_irq 0 (pic s)\<rparr>
      else s)"

definition speaker_handler :: "bool \<Rightarrow> bx_pit_c \<Rightarrow> bx_pit_c" where
  "speaker_handler value s =
     (if get_mode 2 (timer s) \<noteq> 3 then s\<lparr>speaker := Set_line (value \<and> speaker_data_on s) # speaker s\<rparr> else s)"

text \<open>
  A call of the 82C54 with the output handlers it calls back: the handlers see the mode the call
  has set, and those of different counters act on different devices.
\<close>

definition clear_calls :: "pit_82C54 \<Rightarrow> pit_82C54" where
  "clear_calls p = p\<lparr>counter := (\<lambda>i. (counter p i)\<lparr>OUT_calls := []\<rparr>)\<rparr>"

definition with_timer :: "(pit_82C54 \<Rightarrow> pit_82C54) \<Rightarrow> bx_pit_c \<Rightarrow> bx_pit_c" where
  "with_timer f s =
     (let p = f (timer s);
          s = s\<lparr>timer := clear_calls p\<rparr>;
          s = fold irq_handler (rev (OUT_calls (counter p 0))) s
      in fold speaker_handler (rev (OUT_calls (counter p 2))) s)"

definition get_timer :: "nat \<Rightarrow> bx_pit_c \<Rightarrow> Bit16u" where
  "get_timer n s = get_inlatch n (timer s)"
definition new_timer_count :: "nat \<Rightarrow> bx_pit_c \<Rightarrow> bool" where
  "new_timer_count n s = new_count_ready n (timer s)"

definition beep_on :: "bx_pit_c \<Rightarrow> bx_pit_c" where
  "beep_on s =
     (let value32 = ucast (get_timer 2 s) :: Bit32u;
          value32 = (if value32 = 0 then 0x10000 else value32)
      in s\<lparr>speaker := Beep_on value32 # speaker s\<rparr>)"

definition enable_irq :: "bool \<Rightarrow> bx_pit_c \<Rightarrow> bx_pit_c" where
  "enable_irq enabled s = s\<lparr>irq_enabled := enabled\<rparr>"

section \<open>Passing time\<close>

text \<open>The two loops of \<open>periodic\<close>; both end for every state.\<close>

function reduce_totals :: "Bit64u \<Rightarrow> Bit64u \<Rightarrow> Bit64u \<times> Bit64u" where
  "reduce_totals t u =
     (if t \<ge> TICKS_PER_SECOND \<and> u \<ge> USEC_PER_SECOND
      then reduce_totals (t - TICKS_PER_SECOND) (u - USEC_PER_SECOND)
      else (t, u))"
  by pat_completeness auto
termination
  by (relation "measure (unat \<circ> fst)") (auto intro!: cycles_decrease simp: word_le_nat_alt)

declare reduce_totals.simps [simp del]

function periodic_clock :: "Bit32u \<Rightarrow> bx_pit_c \<Rightarrow> bx_pit_c" where
  "periodic_clock ticks_delta s =
     (if ticks_delta > 0
      then let maxchange = get_next_event_time (timer s);
               timedelta = (if maxchange = 0 \<or> maxchange > ticks_delta then ticks_delta else maxchange)
           in periodic_clock (ticks_delta - timedelta) (with_timer (clock_all timedelta) s)
      else s)"
  by pat_completeness auto
termination
  by (relation "measure (unat \<circ> fst)")
    (auto simp: unat_gt_0 not_less word_neq_0_conv intro!: cycles_decrease)

declare periodic_clock.simps [simp del]

definition periodic :: "Bit32u \<Rightarrow> bx_pit_c \<Rightarrow> bx_pit_c" where
  "periodic usec_delta s =
     (let s = s\<lparr>total_usec := total_usec s + ucast usec_delta\<rparr>;
          ticks_delta = ucast (USEC_TO_TICKS (total_usec s) - total_ticks s) :: Bit32u;
          s = s\<lparr>total_ticks := total_ticks s + ucast ticks_delta\<rparr>;
          (t, u) = reduce_totals (total_ticks s) (total_usec s);
          s = s\<lparr>total_ticks := t, total_usec := u\<rparr>
      in periodic_clock ticks_delta s)"

definition advance_time :: "Bit64u \<Rightarrow> bx_pit_c \<Rightarrow> Bit64u \<times> bx_pit_c" where
  "advance_time my_time_usec s =
     (let time_passed = my_time_usec - last_usec s;
          time_passed32 = ucast time_passed :: Bit32u;
          s = (if time_passed32 \<noteq> 0 then periodic time_passed32 s else s)
      in (time_passed, s\<lparr>last_usec := last_usec s + time_passed\<rparr>))"

definition activate_next :: "bx_pit_c \<Rightarrow> bx_pit_c" where
  "activate_next s =
     (let s = s\<lparr>pit_timer := None\<rparr>;
          s = (if get_next_event_time (timer s) \<noteq> 0
               then s\<lparr>pit_timer := Some (max 1 (TICKS_TO_USEC (get_next_event_time (timer s))))\<rparr> else s)
      in s\<lparr>last_next_event_time := get_next_event_time (timer s)\<rparr>)"

definition handle_timer :: "Bit64u \<Rightarrow> bx_pit_c \<Rightarrow> bx_pit_c" where
  "handle_timer my_time_usec s =
     (let (time_passed, s) = advance_time my_time_usec s
      in if time_passed \<noteq> 0 \<or> last_next_event_time s \<noteq> get_next_event_time (timer s)
         then activate_next s else s)"

section \<open>Initialization\<close>

definition bx_pit_init :: "Bit64u \<Rightarrow> bx_pit_c \<Rightarrow> bx_pit_c" where
  "bx_pit_init my_time_usec s =
     (let s = s\<lparr>irq_enabled := True, speaker_data_on := False, speaker_active := False, speaker_level := False\<rparr>;
          s = with_timer pit_init s;
          s = with_timer (set_OUT_handler 0 True) s;
          s = with_timer (set_OUT_handler 2 True) s;
          s = activate_next s
      in s\<lparr>last_usec := my_time_usec, total_ticks := 0, total_usec := 0\<rparr>)"

definition after_restore_state :: "bx_pit_c \<Rightarrow> bx_pit_c" where
  "after_restore_state s = (if speaker_active s \<and> get_mode 2 (timer s) = 3 then beep_on s else s)"

section \<open>Ports\<close>

definition bx_pit_read :: "Bit64u \<Rightarrow> Bit32u \<Rightarrow> bx_pit_c \<Rightarrow> Bit8u \<times> bx_pit_c" where
  "bx_pit_read my_time_usec address s =
     (let s = handle_timer my_time_usec s
      in if address = 0x40 then (fst (pit_read 0 (timer s)), with_timer (snd \<circ> pit_read 0) s)
         else if address = 0x41 then (fst (pit_read 1 (timer s)), with_timer (snd \<circ> pit_read 1) s)
         else if address = 0x42 then (fst (pit_read 2 (timer s)), with_timer (snd \<circ> pit_read 2) s)
         else if address = 0x43 then (fst (pit_read 3 (timer s)), with_timer (snd \<circ> pit_read 3) s)
         else if address = 0x61
         then let refresh_clock_div2 = ((my_time_usec div 15) AND 1 \<noteq> 0)
              in (push_bit 5 (of_bool (read_OUT 2 (timer s))) OR push_bit 4 (of_bool refresh_clock_div2) OR
                  push_bit 1 (of_bool (speaker_data_on s)) OR of_bool (read_GATE 2 (timer s)), s)
         else (0, s\<lparr>pit_panics := address # pit_panics s\<rparr>))"

definition write_61 :: "Bit8u \<Rightarrow> bx_pit_c \<Rightarrow> bx_pit_c" where
  "write_61 value s =
     (let s = with_timer (set_GATE 2 (value AND 0x01 \<noteq> 0)) s;
          s = s\<lparr>speaker_data_on := (drop_bit 1 value AND 0x01 \<noteq> 0)\<rparr>;
          new_speaker_active = (value AND 3 = 3)
      in if get_mode 2 (timer s) = 3
         then if speaker_active s \<noteq> new_speaker_active
              then let s = (if new_speaker_active then beep_on s else s\<lparr>speaker := Beep_off # speaker s\<rparr>)
                   in s\<lparr>speaker_active := new_speaker_active\<rparr>
              else s
         else let new_speaker_level = (speaker_data_on s \<and> read_OUT 2 (timer s))
              in if speaker_level s \<noteq> new_speaker_level
                 then s\<lparr>speaker := Set_line new_speaker_level # speaker s, speaker_level := new_speaker_level\<rparr>
                 else s)"

definition bx_pit_write :: "Bit64u \<Rightarrow> Bit32u \<Rightarrow> Bit32u \<Rightarrow> bx_pit_c \<Rightarrow> bx_pit_c" where
  "bx_pit_write my_time_usec address dvalue s =
     (let (time_passed, s) = advance_time my_time_usec s;
          value = ucast dvalue :: Bit8u;
          s = (if address = 0x40 then with_timer (pit_write 0 value) s
               else if address = 0x41 then with_timer (pit_write 1 value) s
               else if address = 0x42
               then let s = with_timer (pit_write 2 value) s
                    in if speaker_active s \<and> get_mode 2 (timer s) = 3 \<and> new_timer_count 2 s then beep_on s else s
               else if address = 0x43 then with_timer (pit_write 3 value) s
               else if address = 0x61 then write_61 value s
               else s\<lparr>pit_panics := address # pit_panics s\<rparr>)
      in if time_passed \<noteq> 0 \<or> last_next_event_time s \<noteq> get_next_event_time (timer s)
         then activate_next s else s)"

section \<open>Output calls are only added\<close>

definition add_calls :: "bool list \<Rightarrow> counter_type \<Rightarrow> counter_type" where
  "add_calls xs c = c\<lparr>OUT_calls := OUT_calls c @ xs\<rparr>"

lemma add_calls_reads [simp]:
  "GATE (add_calls xs c) = GATE c" "OUTpin (add_calls xs c) = OUTpin c" "mode (add_calls xs c) = mode c"
  "count_written (add_calls xs c) = count_written c" "write_state (add_calls xs c) = write_state c"
  "null_count (add_calls xs c) = null_count c" "first_pass (add_calls xs c) = first_pass c"
  "triggerGATE (add_calls xs c) = triggerGATE c" "inlatch (add_calls xs c) = inlatch c"
  "bcd_mode (add_calls xs c) = bcd_mode c" "state_bit_1 (add_calls xs c) = state_bit_1 c"
  "state_bit_2 (add_calls xs c) = state_bit_2 c" "next_change_time (add_calls xs c) = next_change_time c"
  "count (add_calls xs c) = count c" "count_binary (add_calls xs c) = count_binary c"
  "out_handler (add_calls xs c) = out_handler c"
  by (simp_all add: add_calls_def)

lemma add_calls_writes [simp]:
  "(add_calls xs c)\<lparr>next_change_time := t\<rparr> = add_calls xs (c\<lparr>next_change_time := t\<rparr>)"
  "(add_calls xs c)\<lparr>null_count := b\<rparr> = add_calls xs (c\<lparr>null_count := b\<rparr>)"
  "(add_calls xs c)\<lparr>first_pass := b\<rparr> = add_calls xs (c\<lparr>first_pass := b\<rparr>)"
  "(add_calls xs c)\<lparr>triggerGATE := b\<rparr> = add_calls xs (c\<lparr>triggerGATE := b\<rparr>)"
  "(add_calls xs c)\<lparr>state_bit_1 := b\<rparr> = add_calls xs (c\<lparr>state_bit_1 := b\<rparr>)"
  "(add_calls xs c)\<lparr>state_bit_2 := b\<rparr> = add_calls xs (c\<lparr>state_bit_2 := b\<rparr>)"
  "decrement (add_calls xs c) = add_calls xs (decrement c)"
  "set_count d (add_calls xs c) = add_calls xs (set_count d c)"
  "set_OUT b (add_calls xs c) = add_calls xs (set_OUT b c)"
  "change_after_count (add_calls xs c) = add_calls xs (change_after_count c)"
  by (simp_all add: add_calls_def decrement_def set_count_def set_count_to_binary_def set_binary_to_count_def
      set_OUT_def change_after_count_def Let_def)

lemma add_calls_clock_0: "clock_mode0 (add_calls xs c) = add_calls xs (clock_mode0 c)"
  unfolding clock_mode0_def
  by (cases "count_written c"; cases "null_count c"; cases "GATE c"; cases "OUTpin c"; cases "write_state c = MSByte_multiple")
    (simp_all add: Let_def)
lemma add_calls_clock_1: "clock_mode1 (add_calls xs c) = add_calls xs (clock_mode1 c)"
  unfolding clock_mode1_def by (cases "count_written c"; cases "triggerGATE c"; cases "OUTpin c") (simp_all add: Let_def)
lemma add_calls_clock_2: "clock_mode2 (add_calls xs c) = add_calls xs (clock_mode2 c)"
  unfolding clock_mode2_def
  by (cases "count_written c"; cases "triggerGATE c \<or> first_pass c"; cases "GATE c"; cases "OUTpin c") (simp_all add: Let_def)
lemma add_calls_clock_3: "clock_mode3 (add_calls xs c) = add_calls xs (clock_mode3 c)"
proof (cases "(triggerGATE c \<or> first_pass c \<or> state_bit_2 c) \<and> GATE c")
  case True
  then show ?thesis
    unfolding clock_mode3_def by (cases "OUTpin c"; cases "first_pass c") (simp_all add: Let_def)
next
  case False
  then show ?thesis
    unfolding clock_mode3_def by (cases "GATE c"; cases "OUTpin c") (simp_all add: Let_def)
qed
lemma add_calls_clock_4: "clock_mode4 (add_calls xs c) = add_calls xs (clock_mode4 c)"
  unfolding clock_mode4_def
  by (cases "count_written c"; cases "null_count c"; cases "GATE c"; cases "OUTpin c"; cases "first_pass c") (simp_all add: Let_def)
lemma add_calls_clock_5: "clock_mode5 (add_calls xs c) = add_calls xs (clock_mode5 c)"
  unfolding clock_mode5_def
  by (cases "count_written c"; cases "triggerGATE c"; cases "OUTpin c"; cases "first_pass c") (simp_all add: Let_def)

lemma clock_add_calls: "clock_counter (add_calls xs c) = add_calls xs (clock_counter c)"
  by (simp add: clock_counter_def add_calls_clock_0 add_calls_clock_1 add_calls_clock_2 add_calls_clock_3
      add_calls_clock_4 add_calls_clock_5)

lemma set_OUT_frame [simp]: "out_handler (set_OUT b c) = out_handler c" "out_handler (decrement c) = out_handler c"
  "out_handler (set_count d c) = out_handler c" "mode (change_after_count c) = mode c" 
  by (simp_all add: set_OUT_def decrement_def set_count_def set_count_to_binary_def set_binary_to_count_def change_after_count_def Let_def)

lemma clock_mode_frame: "mode (clock_counter c) = mode c"
  by (simp add: clock_counter_def clock_mode0_def clock_mode1_def clock_mode2_def clock_mode3_def clock_mode4_def clock_mode5_def Let_def)

section \<open>One input clock at a time\<close>

text \<open>
  The reference: every counter is clocked once and the handlers of the outputs that changed are
  called, before the next clock.
\<close>

definition clock_each :: "pit_82C54 \<Rightarrow> pit_82C54" where
  "clock_each p = p\<lparr>counter := (\<lambda>i. if i \<le> 2 then clock_counter (counter p i) else counter p i)\<rparr>"

definition clock_tick :: "bx_pit_c \<Rightarrow> bx_pit_c" where
  "clock_tick = with_timer clock_each"

definition irq_line :: "bool \<Rightarrow> bx_pic_c \<Rightarrow> bx_pic_c" where
  "irq_line value = (if value then raise_irq 0 else lower_irq 0)"

lemma fold_irq_handler:
  "fold irq_handler xs s = s\<lparr>pic := if irq_enabled s then fold irq_line xs (pic s) else pic s\<rparr>"
  by (induction xs arbitrary: s) (simp_all add: irq_handler_def irq_line_def)

lemma fold_speaker_handler:
  "fold speaker_handler xs s = s\<lparr>speaker := (if get_mode 2 (timer s) \<noteq> 3
     then rev (map (\<lambda>v. Set_line (v \<and> speaker_data_on s)) xs) @ speaker s else speaker s)\<rparr>"
  by (induction xs arbitrary: s) (simp_all add: speaker_handler_def)

lemma get_mode_clear [simp]: "get_mode n (clear_calls p) = get_mode n p"
  by (simp add: get_mode_def clear_calls_def)

lemma with_timer_eq:
  "with_timer f s = (let p = f (timer s) in
     s\<lparr>timer := clear_calls p,
       pic := (if irq_enabled s then fold irq_line (rev (OUT_calls (counter p 0))) (pic s) else pic s),
       speaker := (if get_mode 2 p \<noteq> 3 then map (\<lambda>v. Set_line (v \<and> speaker_data_on s)) (OUT_calls (counter p 2)) @ speaker s
                   else speaker s)\<rparr>)"
  by (simp add: with_timer_def Let_def fold_irq_handler fold_speaker_handler rev_map [symmetric])

lemma with_timer_fields [simp]:
  "timer (with_timer f s) = clear_calls (f (timer s))" "irq_enabled (with_timer f s) = irq_enabled s"
  "speaker_data_on (with_timer f s) = speaker_data_on s" "last_usec (with_timer f s) = last_usec s"
  "total_usec (with_timer f s) = total_usec s" "total_ticks (with_timer f s) = total_ticks s"
  by (simp_all add: with_timer_eq Let_def)

lemma counter_clock_each_iterate:
  "counter ((clock_each ^^ n) p) i = (if i \<le> 2 then (clock_counter ^^ n) (counter p i) else counter p i)"
  by (induction n) (simp_all add: clock_each_def)

lemma controlword_clock_each [simp]: "controlword ((clock_each ^^ n) p) = controlword p"
  by (induction n) (simp_all add: clock_each_def)

lemma mode_clock_iterate [simp]: "mode ((clock_counter ^^ n) c) = mode c"
  by (induction n) (simp_all add: clock_mode_frame)

lemma calls_split: "c = add_calls (OUT_calls c) (c\<lparr>OUT_calls := []\<rparr>)"
  by (simp add: add_calls_def)

lemma clock_each_clear:
  "counter (clock_each q) i = add_calls (OUT_calls (counter q i)) (counter (clock_each (clear_calls q)) i)"
  using clock_add_calls [of "OUT_calls (counter q i)" "(counter q i)\<lparr>OUT_calls := []\<rparr>"]
  by (simp add: clock_each_def clear_calls_def flip: calls_split)

lemma OUT_calls_add [simp]: "OUT_calls (add_calls xs c) = OUT_calls c @ xs" "(add_calls xs c)\<lparr>OUT_calls := []\<rparr> = c\<lparr>OUT_calls := []\<rparr>"
  by (simp_all add: add_calls_def)

lemma clear_clock_each: "clear_calls (clock_each q) = clear_calls (clock_each (clear_calls q))"
proof -
  have "(counter (clock_each q) i)\<lparr>OUT_calls := []\<rparr> = (counter (clock_each (clear_calls q)) i)\<lparr>OUT_calls := []\<rparr>" for i
    by (subst clock_each_clear) simp
  moreover have "controlword (clock_each q) = controlword (clock_each (clear_calls q))"
    by (simp add: clock_each_def clear_calls_def)
  ultimately show ?thesis by (simp add: clear_calls_def)
qed

lemma get_mode_clock_each [simp]: "get_mode n (clock_each p) = get_mode n p"
  by (simp add: get_mode_def clock_each_def clock_mode_frame)

lemma clock_tick_after:
  "clock_tick (with_timer f s) = with_timer (clock_each \<circ> f) s"
proof -
  let ?q = "f (timer s)"
  have c: "OUT_calls (counter (clock_each ?q) i) = OUT_calls (counter (clock_each (clear_calls ?q)) i) @ OUT_calls (counter ?q i)" for i
    using arg_cong [OF clock_each_clear [of ?q i], of OUT_calls] by simp
  show ?thesis
    unfolding clock_tick_def with_timer_eq [of clock_each] with_timer_eq [of "clock_each \<circ> f"] Let_def
    by (simp add: c clear_clock_each [of ?q]) (simp add: with_timer_eq Let_def)
qed

lemma clock_tick_iterate: "with_timer (clock_each ^^ n) s = (clock_tick ^^ n) (with_timer id s)"
proof (induction n)
  case (Suc n)
  then show ?case using clock_tick_after [of "clock_each ^^ n" s] by (simp add: comp_def)
qed (simp add: id_def [symmetric])

text \<open>Between the accesses no call is left to deliver and the scheduled times are right.\<close>

definition pit_ok :: "bx_pit_c \<Rightarrow> bool" where
  "pit_ok s \<longleftrightarrow> (\<forall>i. OUT_calls (counter (timer s) i) = []) \<and> (\<forall>i\<le>2. event_ok (counter (timer s) i))"

lemma event_ok_calls [simp]: "event_ok (c\<lparr>OUT_calls := xs\<rparr>) = event_ok c"
  by (simp add: event_ok_def bin_ok_def E0_def E1_def E2_def E3_def E4_def E5_def)

lemma no_calls: "OUT_calls c = [] \<Longrightarrow> c\<lparr>OUT_calls := []\<rparr> = c"
  by (rule counter_type.equality) simp_all

lemma clear_calls_id: "\<forall>i. OUT_calls (counter p i) = [] \<Longrightarrow> clear_calls p = p"
  by (rule pit_82C54.equality) (simp_all add: clear_calls_def no_calls)

lemma with_timer_id: "pit_ok s \<Longrightarrow> with_timer id s = s"
  by (simp add: with_timer_eq Let_def pit_ok_def clear_calls_id)

lemma pit_ok_clear: "\<forall>i\<le>2. event_ok (counter (f (timer s)) i) \<Longrightarrow> pit_ok (with_timer f s)"
  by (simp add: pit_ok_def clear_calls_def)

lemma pit_ok_ticks: "pit_ok s \<Longrightarrow> pit_ok ((clock_tick ^^ n) s)"
proof -
  assume s: "pit_ok s"
  then have "event_ok (counter ((clock_each ^^ n) (timer s)) i)" if "i \<le> 2" for i
    using that pit_clock.E_iterate by (simp add: counter_clock_each_iterate pit_ok_def)
  then show ?thesis
    using pit_ok_clear [of "clock_each ^^ n" s] clock_tick_iterate [of n s] by (simp add: with_timer_id [OF s])
qed

lemma clock_all_each:
  assumes "\<forall>i\<le>2. event_ok (counter p i)"
  shows "clock_all n p = (clock_each ^^ unat n) p"
proof -
  have "counter (clock_all n p) i = counter ((clock_each ^^ unat n) p) i" for i
    using assms clock_multiple_is_iterated_clock
    by (auto simp: clock_all_def clock_multiple_def upd_counter_def counter_clock_each_iterate le_Suc_eq numeral_2_eq_2)
  moreover have "controlword (clock_all n p) = controlword p"
    by (simp add: clock_all_def clock_multiple_def upd_counter_def)
  ultimately show ?thesis by (intro pit_82C54.equality) (auto simp: fun_eq_iff)
qed

lemma with_timer_clock_all: "pit_ok s \<Longrightarrow> with_timer (clock_all n) s = (clock_tick ^^ unat n) s"
  using clock_tick_iterate [of "unat n" s] clock_all_each [of "timer s" n]
  by (simp add: with_timer_id) (simp add: pit_ok_def with_timer_eq)

lemma periodic_clock_ticks: "pit_ok s \<Longrightarrow> periodic_clock d s = (clock_tick ^^ unat d) s"
proof (induction d s rule: periodic_clock.induct)
  case (1 d s)
  let ?m = "get_next_event_time (timer s)"
  let ?t = "if ?m = 0 \<or> ?m > d then d else ?m"
  show ?case
  proof (cases "d > 0")
    case True
    have t: "unat (d - ?t) + unat ?t = unat d" by (auto simp: unat_sub word_le_nat_alt not_less)
    have "periodic_clock d s = periodic_clock (d - ?t) (with_timer (clock_all ?t) s)"
      using True by (subst periodic_clock.simps) (simp add: Let_def)
    also have "\<dots> = (clock_tick ^^ unat (d - ?t)) ((clock_tick ^^ unat ?t) s)"
      using 1 True pit_ok_ticks by (simp add: with_timer_clock_all [OF 1(2)] Let_def)
    also have "\<dots> = (clock_tick ^^ unat d) s" unfolding t [symmetric] by (simp only: funpow_add comp_apply)
    finally show ?thesis .
  next
    case False
    then have "d = 0" by (simp flip: word_neq_0_conv)
    then show ?thesis by (simp add: periodic_clock.simps)
  qed
qed

section \<open>No drift\<close>

text \<open>The whole input clocks in an interval that starts at the last time the totals were both zero.\<close>

definition ticks_in :: "nat \<Rightarrow> nat" where
  "ticks_in usec = usec * 1193181 div 1000000"

definition totals_ok :: "bx_pit_c \<Rightarrow> bool" where
  "totals_ok s \<longleftrightarrow> unat (total_usec s) < 1000000 \<and> unat (total_ticks s) = ticks_in (unat (total_usec s))"

lemma ticks_in_mono: "u \<le> v \<Longrightarrow> ticks_in u \<le> ticks_in v"
  by (simp add: ticks_in_def div_le_mono)

lemma ticks_in_second: "ticks_in (1000000 + u) = 1193181 + ticks_in u"
proof -
  have "(1000000 + u) * 1193181 = u * 1193181 + 1193181 * 1000000" by simp
  then show ?thesis unfolding ticks_in_def by simp
qed

lemma ticks_in_seconds: "ticks_in (1000000 * k + u) = 1193181 * k + ticks_in u"
proof (induction k)
  case (Suc k)
  have "1000000 * Suc k + u = 1000000 + (1000000 * k + u)" by simp
  then show ?case using Suc by (simp only: ticks_in_second)
qed simp

lemma reduce_totals_mod:
  assumes "unat t = ticks_in (unat u)"
  shows "unat (snd (reduce_totals t u)) = unat u mod 1000000 \<and>
    unat (fst (reduce_totals t u)) = ticks_in (unat u mod 1000000)"
  using assms
proof (induction t u rule: reduce_totals.induct)
  case (1 t u)
  show ?case
  proof (cases "t \<ge> 1193181 \<and> u \<ge> 1000000")
    case True
    then have le: "1193181 \<le> unat t" "1000000 \<le> unat u" by (simp_all add: word_le_nat_alt)
    then obtain v where v: "unat u = 1000000 + v" using le_Suc_ex by blast
    have "unat (t - 1193181) = unat t - 1193181" "unat (u - 1000000) = unat u - 1000000"
      using True by (simp_all add: unat_sub)
    then have "unat (t - 1193181) = ticks_in (unat (u - 1000000))" "unat (u - 1000000) = v"
      using 1(2) v by (simp_all add: ticks_in_second)
    then show ?thesis
      using 1(1) True v by (subst (1 2) reduce_totals.simps) simp
  next
    case False
    have "unat u < 1000000"
    proof (rule ccontr)
      assume "\<not> unat u < 1000000"
      then have "1193181 \<le> unat t" using 1(2) ticks_in_mono [of 1000000 "unat u"] by (simp add: ticks_in_def)
      then show False using False \<open>\<not> unat u < 1000000\<close> by (simp add: word_le_nat_alt)
    qed
    then show ?thesis
      using 1(2) False by (subst (1 2) reduce_totals.simps) auto
  qed
qed

lemma ticks_between_mod:
  "ticks_in (u mod 1000000 + d) - ticks_in (u mod 1000000) = ticks_in (u + d) - ticks_in u"
proof -
  let ?k = "u div 1000000"
  have "u + d = 1000000 * ?k + (u mod 1000000 + d)" "u = 1000000 * ?k + u mod 1000000" by simp_all
  then have "ticks_in (u + d) = 1193181 * ?k + ticks_in (u mod 1000000 + d)" "ticks_in u = 1193181 * ?k + ticks_in (u mod 1000000)"
    by (metis ticks_in_seconds)+
  then show ?thesis by simp
qed

lemma unat_plus_small: "unat a + unat b < 2 ^ LENGTH('n) \<Longrightarrow> unat (a + b) = unat a + unat b" for a b :: "'n::len word"
  by (simp add: unat_word_ariths)

lemma unat_ucast_up32: "unat (ucast (u :: Bit32u) :: Bit64u) = unat u"
  by (simp add: unsigned_ucast_eq take_bit_nat_eq_self order.strict_trans [OF unsigned_less])

lemma USEC_TO_TICKS_exact:
  fixes u :: Bit64u
  assumes "unat u \<le> 4000000000"
  shows "unat (USEC_TO_TICKS u) = ticks_in (unat u)"
proof -
  have "unat u * 1193181 \<le> 4000000000 * 1193181" using assms by simp
  then have "unat (u * 1193181) = unat u * 1193181" by (simp add: unat_word_ariths)
  then show ?thesis by (simp add: USEC_TO_TICKS_def ticks_in_def unat_div)
qed

text \<open>The state of the device without the bookkeeping of the time.\<close>

definition dev :: "bx_pit_c \<Rightarrow> bx_pit_c" where
  "dev s = s\<lparr>last_usec := 0, last_next_event_time := 0, total_ticks := 0, total_usec := 0, pit_timer := None\<rparr>"

lemma dev_updates [simp]:
  "dev (s\<lparr>total_ticks := t\<rparr>) = dev s" "dev (s\<lparr>total_usec := u\<rparr>) = dev s" "dev (s\<lparr>last_usec := u\<rparr>) = dev s"
  "dev (s\<lparr>last_next_event_time := n\<rparr>) = dev s" "dev (s\<lparr>pit_timer := p\<rparr>) = dev s" "dev (activate_next s) = dev s"
  "timer (dev s) = timer s" "pic (dev s) = pic s" "irq_enabled (dev s) = irq_enabled s" "pit_ok (dev s) = pit_ok s"
  by (simp_all add: dev_def activate_next_def pit_ok_def Let_def)

lemma clock_tick_dev: "dev ((clock_tick ^^ n) s) = (clock_tick ^^ n) (dev s)"
proof (induction n)
  case (Suc n)
  have "dev (clock_tick t) = clock_tick (dev t)" for t
    by (simp add: clock_tick_def with_timer_eq Let_def dev_def)
  then show ?case using Suc by simp
qed simp

lemma clock_tick_fields [simp]:
  "last_usec ((clock_tick ^^ n) s) = last_usec s" "total_usec ((clock_tick ^^ n) s) = total_usec s"
  "total_ticks ((clock_tick ^^ n) s) = total_ticks s"
  by (induction n) (simp_all add: clock_tick_def)

lemma periodic_ticks:
  assumes "pit_ok s" "totals_ok s" "unat u \<le> 3000000000"
  shows "dev (periodic u s) = (clock_tick ^^ (ticks_in (unat (total_usec s) + unat u) - ticks_in (unat (total_usec s)))) (dev s)"
    "totals_ok (periodic u s)" "unat (total_usec (periodic u s)) = (unat (total_usec s) + unat u) mod 1000000"
    "last_usec (periodic u s) = last_usec s"
proof -
  let ?U = "unat (total_usec s)" and ?v = "total_usec s + ucast u"
  let ?n = "ticks_in (?U + unat u) - ticks_in ?U"
  have U: "?U < 1000000" "unat (total_ticks s) = ticks_in ?U" using assms(2) by (simp_all add: totals_ok_def)
  have v: "unat ?v = ?U + unat u" using U assms(3) by (subst unat_plus_small) (simp_all add: unat_ucast_up32)
  have T: "unat (USEC_TO_TICKS ?v) = ticks_in (?U + unat u)" using v U assms(3) by (simp add: USEC_TO_TICKS_exact)
  have n: "?n < 2 ^ 32" using ticks_in_mono [of "?U + unat u" 3001000000] U assms(3) by (simp add: ticks_in_def)
  let ?w = "USEC_TO_TICKS ?v - total_ticks s" and ?d = "ucast (USEC_TO_TICKS ?v - total_ticks s) :: Bit32u"
  have w: "unat ?w = ?n" using T U ticks_in_mono [of ?U "?U + unat u"] by (simp add: unat_sub word_le_nat_alt)
  then have d: "unat ?d = ?n" using n by (simp add: unsigned_ucast_eq take_bit_nat_eq_self)
  let ?t = "total_ticks s + ucast ?d"
  have "unat ?t = ticks_in ?U + ?n"
    using U d ticks_in_mono [of ?U "?U + unat u"] ticks_in_mono [of "?U + unat u" 3001000000] assms(3)
    by (subst unat_plus_small) (simp_all add: unat_ucast_up32 ticks_in_def [of 3001000000])
  then have t: "unat ?t = ticks_in (unat ?v)" using v ticks_in_mono [of ?U "?U + unat u"] by simp
  note r = reduce_totals_mod [OF t]
  let ?s = "s\<lparr>total_ticks := fst (reduce_totals ?t ?v), total_usec := snd (reduce_totals ?t ?v)\<rparr>"
  have "periodic u s = periodic_clock ?d ?s" by (simp add: periodic_def Let_def case_prod_unfold)
  also have "\<dots> = (clock_tick ^^ ?n) ?s"
    using periodic_clock_ticks [of ?s ?d] assms(1) d by (simp add: pit_ok_def)
  finally have p: "periodic u s = (clock_tick ^^ ?n) ?s" .
  show "dev (periodic u s) = (clock_tick ^^ ?n) (dev s)" "last_usec (periodic u s) = last_usec s"
    "unat (total_usec (periodic u s)) = (?U + unat u) mod 1000000" "totals_ok (periodic u s)"
    using r v by (simp_all add: p clock_tick_dev totals_ok_def)
qed

text \<open>Times at which the handler is called: not decreasing, less than fifty minutes apart.\<close>

fun paced :: "Bit64u \<Rightarrow> Bit64u list \<Rightarrow> bool" where
  "paced t [] \<longleftrightarrow> True"
| "paced t (u # us) \<longleftrightarrow> t \<le> u \<and> u - t \<le> 3000000000 \<and> paced u us"

lemma advance_time_ticks:
  assumes "pit_ok s" "totals_ok s" "last_usec s \<le> t" "t - last_usec s \<le> 3000000000"
  defines "s' \<equiv> snd (advance_time t s)" and "d \<equiv> unat (t - last_usec s)"
  shows "dev s' = (clock_tick ^^ (ticks_in (unat (total_usec s) + d) - ticks_in (unat (total_usec s)))) (dev s)"
    "totals_ok s'" "unat (total_usec s') = (unat (total_usec s) + d) mod 1000000" "last_usec s' = t"
    "fst (advance_time t s) = t - last_usec s"
proof -
  let ?u = "ucast (t - last_usec s) :: Bit32u"
  have d: "d \<le> 3000000000" using assms(4) by (simp add: d_def word_le_nat_alt)
  then have u: "unat ?u = d" by (simp add: d_def unsigned_ucast_eq take_bit_nat_eq_self)
  have z: "?u = 0 \<longleftrightarrow> d = 0" using u by (metis unat_eq_zero)
  have s': "s' = (if d = 0 then s else periodic ?u s)\<lparr>last_usec := t\<rparr>"
    using periodic_ticks(4) [OF assms(1,2), of ?u] u d by (simp add: s'_def advance_time_def Let_def z)
  show "dev s' = (clock_tick ^^ (ticks_in (unat (total_usec s) + d) - ticks_in (unat (total_usec s)))) (dev s)"
    "totals_ok s'" "unat (total_usec s') = (unat (total_usec s) + d) mod 1000000" "last_usec s' = t"
    "fst (advance_time t s) = t - last_usec s"
    using periodic_ticks [OF assms(1,2), of ?u] u d assms(2)
    by (simp_all add: s' totals_ok_def) (simp add: advance_time_def Let_def)
qed

lemma handle_timer_ticks:
  assumes "pit_ok s" "totals_ok s" "last_usec s \<le> t" "t - last_usec s \<le> 3000000000"
  defines "s' \<equiv> handle_timer t s" and "d \<equiv> unat (t - last_usec s)"
  shows "dev s' = (clock_tick ^^ (ticks_in (unat (total_usec s) + d) - ticks_in (unat (total_usec s)))) (dev s)"
    "totals_ok s'" "unat (total_usec s') = (unat (total_usec s) + d) mod 1000000" "last_usec s' = t" "pit_ok s'"
proof -
  let ?a = "snd (advance_time t s)"
  have "s' = activate_next ?a \<or> s' = ?a"
    by (simp add: s'_def handle_timer_def case_prod_unfold Let_def)
  then have f: "dev s' = dev ?a" "total_usec s' = total_usec ?a" "total_ticks s' = total_ticks ?a" "last_usec s' = last_usec ?a"
    by (auto simp: activate_next_def Let_def)
  show D: "dev s' = (clock_tick ^^ (ticks_in (unat (total_usec s) + d) - ticks_in (unat (total_usec s)))) (dev s)"
    and "totals_ok s'" "unat (total_usec s') = (unat (total_usec s) + d) mod 1000000" "last_usec s' = t"
    using advance_time_ticks [OF assms(1-4)] unfolding f totals_ok_def d_def by blast+
  have "pit_ok (dev s')" unfolding D using assms(1) by (intro pit_ok_ticks) simp
  then show "pit_ok s'" by simp
qed

lemma handle_timer_sequence:
  assumes "pit_ok s" "totals_ok s" "paced (last_usec s) ts"
  defines "U \<equiv> unat (total_usec s)" and "d \<equiv> unat (last (last_usec s # ts)) - unat (last_usec s)"
  shows "dev (fold handle_timer ts s) = (clock_tick ^^ (ticks_in (U + d) - ticks_in U)) (dev s) \<and>
    pit_ok (fold handle_timer ts s) \<and> totals_ok (fold handle_timer ts s) \<and> last_usec s \<le> last (last_usec s # ts)"
  using assms(1-3) unfolding U_def d_def
proof (induction ts arbitrary: s)
  case (Cons t ts)
  let ?s = "handle_timer t s" and ?U = "unat (total_usec s)" and ?d = "unat (t - last_usec s)"
  have p: "last_usec s \<le> t" "t - last_usec s \<le> 3000000000" "paced t ts" using Cons.prems(3) by simp_all
  note h = handle_timer_ticks [OF Cons.prems(1,2) p(1,2)]
  have "paced (last_usec ?s) ts" using p(3) h(4) by simp
  note IH = Cons.IH [OF h(5,2) this, unfolded h(3,4)]
  let ?l = "last (t # ts)"
  let ?e = "unat ?l - unat t"
  have le: "t \<le> ?l" using IH by blast
  have sum: "?U + ?d + ?e = ?U + (unat ?l - unat (last_usec s))"
    using p(1) le by (simp add: unat_sub word_le_nat_alt)
  have "dev (fold handle_timer ts ?s) = (clock_tick ^^ (ticks_in (?U + ?d + ?e) - ticks_in (?U + ?d))) (dev ?s)"
    using IH unfolding ticks_between_mod by blast
  also have "\<dots> = (clock_tick ^^ ((ticks_in (?U + ?d + ?e) - ticks_in (?U + ?d)) + (ticks_in (?U + ?d) - ticks_in ?U))) (dev s)"
    unfolding h(1) by (simp only: funpow_add comp_apply)
  also have "(ticks_in (?U + ?d + ?e) - ticks_in (?U + ?d)) + (ticks_in (?U + ?d) - ticks_in ?U) =
      ticks_in (?U + ?d + ?e) - ticks_in ?U"
    using ticks_in_mono [of "?U + ?d" "?U + ?d + ?e"] ticks_in_mono [of ?U "?U + ?d"] by simp
  finally show ?case using IH order.trans [OF p(1) le] unfolding sum by simp
qed simp

section \<open>The timer interrupt\<close>

text \<open>Line 0 has the highest priority, is unmasked, and no level is in service.\<close>

definition tick_ready :: "bx_pic_c \<Rightarrow> bool" where
  "tick_ready q \<longleftrightarrow> pic_wf q \<and> lowest_priority (master_pic q) = 7 \<and> isr (master_pic q) = 0 \<and>
     \<not> bit (imr (master_pic q)) 0 \<and> (INT_pin (master_pic q) \<longrightarrow> irq (master_pic q) = 0)"

lemma scan_irq_none: "(\<And>n. \<not> P n) \<Longrightarrow> scan_irq fuel P stop n = None"
  by (induction fuel arbitrary: n) (simp_all add: Let_def)

lemma first_eligible:
  assumes "lowest_priority p = 7" "isr p = 0" "bit (irr p) 0" "\<not> bit (imr p) 0"
  shows "eligible p 0" "service_choice p = Some 0"
proof -
  show "eligible p 0" using assms by (simp add: eligible_def)
  moreover have "rank 7 0 = 0" by (simp add: rank_def)
  ultimately show "service_choice p = Some 0"
    using assms(1) by (subst service_choice_Some) simp_all
qed

lemma core_INT_pin:
  assumes "INT_pin p" "isr p = 0" "irr p AND NOT (imr p) \<noteq> 0"
  shows "pic_service_core p = (p, No_out)"
  using assms by (simp add: pic_service_core_def scan_irq_none Let_def)

lemma lower_0:
  assumes "tick_ready q"
  shows "tick_ready (lower_irq 0 q)" "\<not> bit (IRQ_in (master_pic (lower_irq 0 q))) 0"
    "interrupt_offset (master_pic (lower_irq 0 q)) = interrupt_offset (master_pic q)"
  using assms and_mask_eq_0_iff [of "IRQ_in (master_pic q)" 0] clear_line_bit [of "IRQ_in (master_pic q)" 0 0]
  by (auto simp: tick_ready_def lower_irq_def ioapic_set_irq_level_def pic_wf_def chip_ok_def Let_def)

lemma raise_0:
  assumes "tick_ready q" "\<not> bit (IRQ_in (master_pic q)) 0"
  defines "r \<equiv> raise_irq 0 q"
  shows "tick_ready r" "INTR r" "eligible (master_pic r) 0" "irq (master_pic r) = 0"
    "interrupt_offset (master_pic r) = interrupt_offset (master_pic q)"
proof -
  let ?q = "ioapic_set_irq_level 0 True q"
  let ?p = "raised (master_pic q) 0"
  have q: "pic_wf ?q" "master_pic ?q = master_pic q" "INTR ?q = INTR q"
    using assms(1) by (auto simp: ioapic_set_irq_level_def pic_wf_def tick_ready_def)
  have e: "eligible ?p 0" "service_choice ?p = Some 0"
    using assms(1) by (intro first_eligible; simp add: tick_ready_def raised_def bit_simps)+
  have "r = ?q\<lparr>master_pic := ?p\<lparr>INT_pin := True, irq := 0\<rparr>, INTR := True\<rparr>"
  proof (cases "INT_pin (master_pic q)")
    case True
    then have i: "INTR q" "irq (master_pic q) = 0" "isr (master_pic q) = 0"
      using assms(1) by (auto simp: tick_ready_def pic_wf_def)
    have c: "pic_service_core ?p = (?p, No_out)"
      using True i eligible_requested [OF e(1)] by (intro core_INT_pin) (simp_all add: raised_def)
    have m: "IRQ_in (master_pic q) AND 1 = 0" using assms(2) and_mask_eq_0_iff [of "IRQ_in (master_pic q)" 0] by simp
    have "r = pic_service_master (?q\<lparr>master_pic := ?p\<rparr>)"
      using m by (simp add: r_def raise_irq_def raise_irq_master_def q(2) raised_def Let_def)
    also have "\<dots> = ?q\<lparr>master_pic := ?p\<rparr>" by (simp add: pic_service_master_def c)
    also have "\<dots> = ?q\<lparr>master_pic := ?p\<lparr>INT_pin := True, irq := 0\<rparr>, INTR := True\<rparr>"
      using True i q by (intro bx_pic_c.equality bx_pic_t.equality) (simp_all add: raised_def)
    finally show ?thesis .
  next
    case False
    then show ?thesis
      using raise_master_choice [of ?q 0] q e(2) assms(2) by (simp add: r_def raise_irq_def)
  qed
  then show "tick_ready r" "INTR r" "eligible (master_pic r) 0" "irq (master_pic r) = 0"
    "interrupt_offset (master_pic r) = interrupt_offset (master_pic q)"
    using assms(1) e(1) by (simp_all add: tick_ready_def raised_def pic_wf_def chip_ok_def ioapic_set_irq_level_def)
qed

lemma pulses:
  fixes k :: nat
  assumes "tick_ready q"
  defines "r \<equiv> fold irq_line (concat (replicate (Suc k) [False, True])) q"
  shows "tick_ready r \<and> INTR r \<and> eligible (master_pic r) 0 \<and> irq (master_pic r) = 0 \<and>
    interrupt_offset (master_pic r) = interrupt_offset (master_pic q)"
  unfolding r_def using assms(1)
proof (induction k arbitrary: q)
  case 0
  then show ?case using lower_0 [of q] raise_0 [of "lower_irq 0 q"] by (simp add: irq_line_def)
next
  case (Suc k)
  let ?q = "raise_irq 0 (lower_irq 0 q)"
  have "tick_ready ?q" "interrupt_offset (master_pic ?q) = interrupt_offset (master_pic q)"
    using lower_0 [OF Suc.prems] raise_0 [of "lower_irq 0 q"] by simp_all
  then show ?case using Suc.IH [of ?q] by (simp add: irq_line_def)
qed

lemma IAC_pulse:
  "eligible (master_pic q) 0 \<Longrightarrow> irq (master_pic q) = 0 \<Longrightarrow> fst (IAC q) = interrupt_offset (master_pic q)"
  using IAC_master [of q] by simp

text \<open>The edges of the rate generator.\<close>

lemma rate_period:
  assumes "loaded2 c"
  shows "(clock_counter ^^ divisor c) c = c\<lparr>OUT_calls := (if out_handler c then [True, False] else []) @ OUT_calls c\<rparr>"
proof -
  have "divisor c = Suc (Suc (divisor c - 2))" using divisor_ge_2 [OF assms] by simp
  then have "(clock_counter ^^ divisor c) c = clock_counter (clock_counter ((clock_counter ^^ (divisor c - 2)) c))"
    by (metis comp_apply funpow.simps(2))
  then show ?thesis by (simp only: rate_before_pulse [OF assms] rate_pulse [OF assms] rate_reload [OF assms])
qed

lemma loaded2_calls [simp]: "loaded2 (c\<lparr>OUT_calls := xs\<rparr>) = loaded2 c" "divisor (c\<lparr>OUT_calls := xs\<rparr>) = divisor c"
  by (simp_all add: loaded2_def divisor_def)

lemma rate_periods:
  assumes "loaded2 c" "out_handler c"
  shows "(clock_counter ^^ (k * divisor c)) c = c\<lparr>OUT_calls := concat (replicate k [True, False]) @ OUT_calls c\<rparr>"
proof (induction k)
  case (Suc k)
  let ?d = "c\<lparr>OUT_calls := concat (replicate k [True, False]) @ OUT_calls c\<rparr>"
  have "(clock_counter ^^ (Suc k * divisor c)) c = (clock_counter ^^ divisor c) ((clock_counter ^^ (k * divisor c)) c)"
    by (simp only: mult_Suc funpow_add comp_apply)
  also have "\<dots> = (clock_counter ^^ divisor ?d) ?d" using Suc.IH by simp
  also have "\<dots> = ?d\<lparr>OUT_calls := [True, False] @ OUT_calls ?d\<rparr>"
    using rate_period [of ?d] assms by simp
  finally show ?case by simp
qed (simp add: no_calls)

lemma step_dec_calls: "OUT_calls (with_value c v) = OUT_calls c"
  by (simp add: with_value_def)

lemma rate_calls:
  assumes "loaded2 c" "out_handler c" "r < divisor c - 1"
  shows "OUT_calls ((clock_counter ^^ (k * divisor c + r)) c) = concat (replicate k [True, False]) @ OUT_calls c"
proof -
  let ?d = "c\<lparr>OUT_calls := concat (replicate k [True, False]) @ OUT_calls c\<rparr>"
  have l: "loaded2 ?d" "r < unat (next_change_time ?d)" using assms loaded2_next [of c] by simp_all
  have "OUT_calls ((clock_counter ^^ r) ?d) = OUT_calls ?d"
    using pit_clock.later_iterate [OF loaded2_event_ok [OF l(1)] l(2)] loaded2_event_ok [OF l(1)] pit_clock.E_count [of ?d]
    by (simp add: step_dec_iterate step_dec_calls)
  moreover have "(clock_counter ^^ (k * divisor c + r)) c = (clock_counter ^^ r) ?d"
    using rate_periods [OF assms(1,2), of k] by (simp only: add.commute [of _ r] funpow_add comp_apply)
  ultimately show ?thesis by simp
qed

lemma pic_after_ticks:
  assumes "pit_ok s" "irq_enabled s"
  shows "pic ((clock_tick ^^ n) s) = fold irq_line (rev (OUT_calls ((clock_counter ^^ n) (counter (timer s) 0)))) (pic s)"
proof -
  have "(clock_tick ^^ n) s = with_timer (clock_each ^^ n) s"
    using clock_tick_iterate [of n s] with_timer_id [OF assms(1)] by simp
  then show ?thesis using assms(2) by (simp add: with_timer_eq Let_def counter_clock_each_iterate)
qed

lemma concat_replicate_shift: "concat (replicate k xs) @ xs = xs @ concat (replicate k xs)"
  by (induction k) simp_all

lemma rev_pulses: "rev (concat (replicate k [True, False])) = concat (replicate k [False, True])"
  by (induction k) (simp_all add: concat_replicate_shift)

lemma uint_TICKS_TO_USEC: "uint (TICKS_TO_USEC (t :: Bit32u)) = uint t * 1000000 mod 2 ^ 32 div 1193181"
  by (simp add: TICKS_TO_USEC_def uint_div uint_word_ariths)

lemma uint_max: "uint (max a b) = max (uint a) (uint b)"
  by (simp add: max_def word_le_def)

text \<open>\<open>init\<close> establishes what the handlers keep.\<close>

lemma event_ok_init: "event_ok (init_counter c)" "event_ok ((init_counter c)\<lparr>OUT_calls := xs, out_handler := b\<rparr>)"
  by (simp_all add: event_ok_def bin_ok_def E4_def init_counter_def)

lemma bx_pit_init_ok: "pit_ok (bx_pit_init t s)" "totals_ok (bx_pit_init t s)" "last_usec (bx_pit_init t s) = t"
proof -
  let ?p = "timer (bx_pit_init t s)"
  have f: "timer (activate_next x) = timer x" for x by (simp add: activate_next_def Let_def)
  have "event_ok (counter ?p i)" if "i \<le> 2" for i
    using that by (auto simp: bx_pit_init_def f Let_def clear_calls_def set_OUT_handler_def upd_counter_def pit_init_def
        numeral_3_eq_3 numeral_2_eq_2 le_Suc_eq event_ok_init)
  moreover have "OUT_calls (counter ?p i) = []" for i by (simp add: bx_pit_init_def f Let_def clear_calls_def)
  ultimately show "pit_ok (bx_pit_init t s)" by (simp add: pit_ok_def)
  show "totals_ok (bx_pit_init t s)" "last_usec (bx_pit_init t s) = t"
    by (simp_all add: bx_pit_init_def Let_def totals_ok_def ticks_in_def)
qed

section \<open>The virtual timer\<close>

text \<open>
  What the virtual timer may hold when the 82C54 reports \<open>t\<close> input clocks to its next output change: nothing
  exactly when \<open>t\<close> is 0; otherwise a positive interval that does not run beyond the change unless it is the least
  possible one, and is the exact conversion when the product fits into 32 bits.
\<close>

definition armed_for :: "Bit32u \<Rightarrow> Bit32u option \<Rightarrow> bool" where
  "armed_for t p \<longleftrightarrow> (p = None \<longleftrightarrow> t = 0)
     \<and> (\<forall>u. p = Some u \<longrightarrow> 0 < u \<and> (u = 1 \<or> uint u * 1193181 \<le> uint t * 1000000)
          \<and> (t < 4295 \<longrightarrow> uint u = max 1 (uint t * 1000000 div 1193181)))"

text \<open>The calls of the device after its initialization.\<close>

inductive pit_step :: "bx_pit_c \<Rightarrow> bx_pit_c \<Rightarrow> bool" where
  handler: "pit_step s (handle_timer t s)"
| port_read: "pit_step s (snd (bx_pit_read t a s))"
| port_write: "pit_step s (bx_pit_write t a v s)"
| gated: "pit_step s (enable_irq b s)"
| restored: "pit_step s (after_restore_state s)"

text \<open>The interval that is set: beyond 4294 clocks the product wraps, and the interval is too short.\<close>

lemma interval_wraps: "uint (max 1 (TICKS_TO_USEC t)) = max 1 (uint t * 1000000 mod 2 ^ 32 div 1193181)" for t :: Bit32u
  by (simp only: uint_max uint_TICKS_TO_USEC) simp

lemma armed_for_interval: "armed_for t (if t = 0 then None else Some (max 1 (TICKS_TO_USEC t)))"
proof -
  let ?u = "max 1 (TICKS_TO_USEC t)"
  note u = interval_wraps [of t]
  have "uint t * 1000000 mod 2 ^ 32 div 1193181 * 1193181 \<le> uint t * 1000000 mod 2 ^ 32"
    by (simp add: minus_mod_eq_div_mult [symmetric] del: minus_mod_eq_div_mult)
  also have "\<dots> \<le> uint t * 1000000" by (intro zmod_le_nonneg_dividend) simp
  finally have le: "?u = 1 \<or> uint ?u * 1193181 \<le> uint t * 1000000"
    using u by (auto simp: max_def word_uint_eq_iff split: if_splits)
  have pos: "0 < ?u" using u by (simp add: word_less_def)
  have small: "uint t * 1000000 mod 2 ^ 32 = uint t * 1000000" if "t < 4295"
    using that uint_ge_0 [of t] by (intro mod_pos_pos_trivial) (simp_all add: word_less_def)
  show ?thesis unfolding armed_for_def using u le pos small by auto
qed

lemma activate_next_armed [simp]:
  "armed_for (get_next_event_time (timer s)) (pit_timer (activate_next s))" "timer (activate_next s) = timer s"
  "last_next_event_time (activate_next s) = get_next_event_time (timer s)"
proof -
  have "pit_timer (activate_next s) = (if get_next_event_time (timer s) = 0 then None
      else Some (max 1 (TICKS_TO_USEC (get_next_event_time (timer s)))))"
    by (simp add: activate_next_def Let_def)
  then show "armed_for (get_next_event_time (timer s)) (pit_timer (activate_next s))" by (simp only: armed_for_interval)
qed (simp_all add: activate_next_def Let_def)

text \<open>Clocking the counters leaves the virtual timer and the time it was set for alone.\<close>

abbreviation (input) schedule :: "bx_pit_c \<Rightarrow> Bit32u \<times> Bit32u option" where
  "schedule s \<equiv> (last_next_event_time s, pit_timer s)"

lemma schedule_with_timer [simp]: "last_next_event_time (with_timer f s) = last_next_event_time s" "pit_timer (with_timer f s) = pit_timer s"
  by (simp_all add: with_timer_eq Let_def)

lemma schedule_periodic_clock: "schedule (periodic_clock d s) = schedule s"
proof (induction d s rule: periodic_clock.induct)
  case (1 d s)
  then show ?case unfolding periodic_clock.simps [of d s] by (simp add: Let_def)
qed

lemma schedule_advance: "schedule (snd (advance_time t s)) = schedule s"
  using schedule_periodic_clock by (simp add: advance_time_def periodic_def Let_def split: prod.split)

lemma schedule_write_61: "schedule (write_61 v s) = schedule s"
  by (simp add: write_61_def Let_def beep_on_def)

lemma handle_timer_armed:
  assumes "armed_for (last_next_event_time s) (pit_timer s)"
  shows "last_next_event_time (handle_timer t s) = get_next_event_time (timer (handle_timer t s))"
    "armed_for (get_next_event_time (timer (handle_timer t s))) (pit_timer (handle_timer t s))"
  using assms schedule_advance [of t s] by (auto simp: handle_timer_def split: prod.splits)

lemma bx_pit_write_armed:
  assumes "armed_for (last_next_event_time s) (pit_timer s)"
  shows "last_next_event_time (bx_pit_write t a v s) = get_next_event_time (timer (bx_pit_write t a v s))"
    "armed_for (get_next_event_time (timer (bx_pit_write t a v s))) (pit_timer (bx_pit_write t a v s))"
proof -
  define r where "r = snd (advance_time t s)"
  define q where "q = (let value = ucast v :: Bit8u in
      if a = 0x40 then with_timer (pit_write 0 value) r
      else if a = 0x41 then with_timer (pit_write 1 value) r
      else if a = 0x42
      then let s = with_timer (pit_write 2 value) r
           in if speaker_active s \<and> get_mode 2 (timer s) = 3 \<and> new_timer_count 2 s then beep_on s else s
      else if a = 0x43 then with_timer (pit_write 3 value) r
      else if a = 0x61 then write_61 value r
      else r\<lparr>pit_panics := a # pit_panics r\<rparr>)"
  have "bx_pit_write t a v s = (if fst (advance_time t s) \<noteq> 0 \<or> last_next_event_time q \<noteq> get_next_event_time (timer q)
      then activate_next q else q)"
    unfolding bx_pit_write_def q_def r_def Let_def case_prod_unfold by (rule refl)
  moreover have "schedule q = schedule r"
    using schedule_write_61 [of "ucast v" r] by (simp add: q_def Let_def beep_on_def)
  ultimately show "last_next_event_time (bx_pit_write t a v s) = get_next_event_time (timer (bx_pit_write t a v s))"
    "armed_for (get_next_event_time (timer (bx_pit_write t a v s))) (pit_timer (bx_pit_write t a v s))"
    using assms schedule_advance [of t s] by (auto simp: r_def)
qed

lemma bx_pit_read_schedule: "schedule (snd (bx_pit_read t a s)) = schedule (handle_timer t s)"
  by (simp add: bx_pit_read_def Let_def)

lemma steps_armed:
  assumes "pit_step\<^sup>*\<^sup>* (bx_pit_init t s0) s"
  shows "armed_for (last_next_event_time s) (pit_timer s)"
  using assms
proof induction
  case base
  show ?case by (simp add: bx_pit_init_def Let_def del: with_timer_fields)
next
  case (step y z)
  show ?case
    using step.hyps(2) step.IH handle_timer_armed [OF step.IH] bx_pit_write_armed [OF step.IH] bx_pit_read_schedule
    by (cases rule: pit_step.cases) (simp_all add: enable_irq_def after_restore_state_def beep_on_def Let_def)
qed

section \<open>Properties\<close>

text \<open>
  C8: Let the timer handler be called at non-decreasing times, each at most 3000 seconds after the one before (the code cuts
  the time passed to 32 bits), let the totals of clocks and microseconds be in step (\<open>totals_ok\<close>, as \<open>init\<close> leaves
  them), and let each of the three counters have an honest scheduled time (\<open>pit_ok\<close>: \<open>event_ok\<close>, which asks for binary
  counting, in mode 0 for no count half written, in mode 2 for an open gate and a count other than 1, in mode 3 for an
  open gate and an even non-zero count). Then the device is in the state it would be in if every 82C54 input clock of
  1193181 Hz up to the last of these times had been given to it one by one, with its outputs wired to the interrupt
  controller and the speaker: no clock is lost or added by the conversion between microseconds and clocks; and
  the conditions on the totals and the counters hold again for the next call.
\<close>

theorem device_follows_time:
  assumes "pit_ok s" "totals_ok s" "paced (last_usec s) ts"
  shows "(let U = unat (total_usec s); d = unat (last (last_usec s # ts)) - unat (last_usec s)
          in dev (fold handle_timer ts s) = (clock_tick ^^ (ticks_in (U + d) - ticks_in U)) (dev s)
             \<and> pit_ok (fold handle_timer ts s) \<and> totals_ok (fold handle_timer ts s))"
  using handle_timer_sequence [OF assms] by (simp add: Let_def)

text \<open>
  C4: Let counter 0 be at the start of a period of the rate generator (mode 2, binary, gate open, a count other than 1) that
  divides by \<open>N\<close>, with its output handler connected and its interrupt enabled. Let all counters have an honest
  scheduled time (\<open>pit_ok\<close>), the totals be in step (\<open>totals_ok\<close>) and the handler be called at non-decreasing times
  at most 3000 seconds apart. Let the interrupt controllers be well-formed, with line 0 of the master unmasked and of
  the highest priority (the lowest is 7), nothing in service at the master, and no request other than line 0 already
  signalled (\<open>tick_ready\<close>). Once the handler has seen at least \<open>N\<close> input clocks, the CPU's INTR is raised and the
  acknowledge returns the base vector of the master, unless the handler stops on the one clock of a period where the
  output is low.
\<close>

theorem timer_interrupt:
  assumes "pit_ok s" "totals_ok s" "paced (last_usec s) ts" "irq_enabled s" "tick_ready (pic s)"
    and "loaded2 (counter (timer s) 0)" "out_handler (counter (timer s) 0)"
    and n: "n = ticks_in (unat (total_usec s) + (unat (last (last_usec s # ts)) - unat (last_usec s)))
      - ticks_in (unat (total_usec s))"
    and "divisor (counter (timer s) 0) \<le> n" "n mod divisor (counter (timer s) 0) \<noteq> divisor (counter (timer s) 0) - 1"
  shows "INTR (pic (fold handle_timer ts s)) \<and>
    fst (IAC (pic (fold handle_timer ts s))) = interrupt_offset (master_pic (pic s))"
proof -
  let ?c = "counter (timer s) 0"
  let ?N = "divisor ?c"
  have N: "2 \<le> ?N" using divisor_ge_2 assms(6) by blast
  then obtain k where k: "n div ?N = Suc k" using assms(9) by (metis div_greater_zero_iff gr0_conv_Suc not_numeral_le_zero gr0I)
  have "n mod ?N < ?N" using N by simp
  then have r: "n mod ?N < ?N - 1" using assms(10) by simp
  have "OUT_calls ((clock_counter ^^ (n div ?N * ?N + n mod ?N)) ?c) = concat (replicate (Suc k) [True, False])"
    using rate_calls [OF assms(6,7) r, of "n div ?N"] assms(1) by (simp add: k pit_ok_def)
  then have "pic ((clock_tick ^^ n) (dev s)) = fold irq_line (concat (replicate (Suc k) [False, True])) (pic s)"
    using pic_after_ticks [of "dev s" n] assms(1,4) by (simp add: rev_pulses del: replicate.simps)
  moreover have "pic (fold handle_timer ts s) = pic ((clock_tick ^^ n) (dev s))"
    using handle_timer_sequence [OF assms(1-3)] unfolding n by (metis dev_updates(8))
  ultimately show ?thesis
    using pulses [OF assms(5), of k] IAC_pulse by simp
qed

text \<open>
  C39: After \<open>init\<close> and any calls of the timer handler and the ports, a further run of the handler or a write to a port
  leaves the virtual timer armed for the time the 82C54 now reports for its next output change, whether it was armed
  again or left alone: it is not armed exactly when no change is reported; otherwise for at least one microsecond and,
  if for more than that, not beyond the change, and with the exact conversion for changes less than 4295 clocks away.
\<close>

theorem armed_not_late:
  assumes "pit_step\<^sup>*\<^sup>* (bx_pit_init t0 s0) s" "s' = handle_timer t s \<or> s' = bx_pit_write t a v s"
  shows "armed_for (get_next_event_time (timer s')) (pit_timer s') \<and> last_next_event_time s' = get_next_event_time (timer s')"
  using handle_timer_armed [OF steps_armed [OF assms(1)], of t] bx_pit_write_armed [OF steps_armed [OF assms(1)], of t a v] assms(2)
  by auto

section \<open>Witnesses\<close>

definition pit_sample :: bx_pit_c where
  "pit_sample = \<lparr>timer = pit_fresh\<lparr>counter := (counter pit_fresh)(0 := rate3)\<rparr>, speaker_data_on = False,
     speaker_active = False, speaker_level = False, last_usec = 100, last_next_event_time = 2, total_ticks = 0,
     total_usec = 0, irq_enabled = True, pit_timer = Some 1, pic = programmed, speaker = [], pit_panics = []\<rparr>"

lemma pit_sample_ok: "pit_ok pit_sample" "totals_ok pit_sample" "paced (last_usec pit_sample) [104, 109]"
proof -
  have l: "loaded2 rate3" by (simp add: loaded2_def rate3_def square5_def)
  have c: "OUT_calls (counter pit_fresh i) = []" for i
    by (simp add: pit_fresh_def pit_init_def upd_counter_def init_counter_def square5_def numeral_3_eq_3)
  show "pit_ok pit_sample"
    using c pit_fresh_ok loaded2_event_ok [OF l] by (auto simp: pit_ok_def pit_sample_def rate3_def square5_def)
  show "totals_ok pit_sample" by (simp add: totals_ok_def pit_sample_def ticks_in_def)
  show "paced (last_usec pit_sample) [104, 109]" by (simp add: pit_sample_def)
qed

theorem device_follows_time_witness:
  "dev (handle_timer 109 (handle_timer 104 pit_sample)) = (clock_tick ^^ 10) (dev pit_sample)"
  using device_follows_time [OF pit_sample_ok] by (simp add: Let_def pit_sample_def ticks_in_def)

theorem timer_interrupt_witness:
  "INTR (pic (handle_timer 109 (handle_timer 104 pit_sample))) \<and> fst (IAC (pic (handle_timer 109 (handle_timer 104 pit_sample)))) = 0x20"
proof -
  have l: "loaded2 (counter (timer pit_sample) 0)" "out_handler (counter (timer pit_sample) 0)" "irq_enabled pit_sample"
    by (simp_all add: pit_sample_def loaded2_def rate3_def square5_def)
  have d: "divisor (counter (timer pit_sample) 0) = 3" by (simp add: pit_sample_def divisor_def rate3_def)
  have "tick_ready programmed" by code_simp
  then have t: "tick_ready (pic pit_sample)" by (simp add: pit_sample_def)
  have n: "10 = ticks_in (unat (total_usec pit_sample) + (unat (last (last_usec pit_sample # [104, 109])) - unat (last_usec pit_sample)))
      - ticks_in (unat (total_usec pit_sample))" by (simp add: pit_sample_def ticks_in_def)
  have o: "interrupt_offset (master_pic programmed) = 0x20" by code_simp
  have "INTR (pic (fold handle_timer [104, 109] pit_sample)) \<and>
      fst (IAC (pic (fold handle_timer [104, 109] pit_sample))) = interrupt_offset (master_pic (pic pit_sample))"
    by (rule timer_interrupt [OF pit_sample_ok l(3) t l(1,2) n]) (simp_all add: d)
  then show ?thesis using o by (simp add: pit_sample_def)
qed

text \<open>Programming counter 0 as a rate generator that divides by 3: the timer is armed for the clock that loads the count.\<close>

lemma activate_if: "timer (if b then activate_next x else x) = timer x" "last_usec (if b then activate_next x else x) = last_usec x"
  by (simp_all add: activate_next_def Let_def)

lemma write_now:
  assumes "last_usec s = t"
  shows "timer (bx_pit_write t 0x40 v s) = clear_calls (pit_write 0 (ucast v) (timer s))" "last_usec (bx_pit_write t 0x40 v s) = t"
    "timer (bx_pit_write t 0x43 v s) = clear_calls (pit_write 3 (ucast v) (timer s))" "last_usec (bx_pit_write t 0x43 v s) = t"
proof -
  have a: "advance_time t s = (0, s)" using assms by (simp add: advance_time_def)
  show "timer (bx_pit_write t 0x40 v s) = clear_calls (pit_write 0 (ucast v) (timer s))" "last_usec (bx_pit_write t 0x40 v s) = t"
    "timer (bx_pit_write t 0x43 v s) = clear_calls (pit_write 3 (ucast v) (timer s))" "last_usec (bx_pit_write t 0x43 v s) = t"
    unfolding bx_pit_write_def a Let_def prod.case activate_if by (simp_all add: assms)
qed

theorem armed_not_late_witness:
  "pit_timer (bx_pit_write 100 0x40 3 (bx_pit_write 100 0x43 0x14 (bx_pit_init 100 pit_sample))) = Some 1"
proof -
  let ?i = "bx_pit_init 100 pit_sample"
  let ?s = "bx_pit_write 100 0x43 0x14 ?i"
  let ?p = "pit_timer (bx_pit_write 100 0x40 3 ?s)"
  have "pit_step\<^sup>*\<^sup>* ?i ?s" by (meson r_into_rtranclp pit_step.port_write)
  from armed_not_late [OF this disjI2 [OF refl], of 100 "0x40" 3]
  have a: "armed_for (get_next_event_time (timer (bx_pit_write 100 0x40 3 ?s))) ?p" by simp
  have "timer (bx_pit_write 100 0x40 3 ?s) = clear_calls (pit_write 0 3 (clear_calls (pit_write 3 0x14 (timer ?i))))"
    by (simp add: write_now bx_pit_init_ok)
  moreover have "get_next_event_time (clear_calls (pit_write 0 3 (clear_calls (pit_write 3 0x14 (timer ?i))))) = 1" by code_simp
  ultimately obtain u where u: "?p = Some u" "uint u = 1" using a by (auto simp: armed_for_def)
  then show ?thesis by (simp add: word_uint_eq_iff)
qed

end
