(* ===== verification/Pc_System.thy ===== *)
theory Pc_System
  imports Bochs_Prelude
begin

text \<open>
  The timer framework, the A20 line and the hold request of \<^verbatim>\<open>pc_system.cc\<close> and
  \<^verbatim>\<open>pc_system.h\<close>. Time advances by \<open>tick1\<close> and \<open>tickn\<close>; when the 32-bit countdown reaches zero,
  \<open>countdownEvent\<close> services the timers and calls the handlers of those that are due. Handlers
  may use the timer interface themselves: a handler is a function on the whole state, whose
  extension is the rest of the machine, and the locale \<open>timer_callbacks\<close> is their contract.
\<close>

unbundle bit_operations_syntax

section \<open>State\<close>

text \<open>The code address of a timer handler: the handlers of this file, or one of a device.\<close>

datatype bx_timer_handler_t = nullTimer | benchmarkTimer | deviceTimer nat

record bx_timer =
  inUse :: bool
  period :: Bit64u
  timeToFire :: Bit64u
  active :: bool
  continuous :: bool
  funct :: "bx_timer_handler_t option"
  this_ptr :: nat
  timer_id :: string
  param :: Bit32u

record bx_pc_system_c =
  timer :: "nat \<Rightarrow> bx_timer"
  numTimers :: nat
  triggeredTimer :: nat
  currCountdown :: Bit32u
  currCountdownPeriod :: Bit32u
  ticksTotal :: Bit64u
  lastTimeUsec :: Bit64u
  usecSinceLast :: Bit64u
  HRQ :: bool
  async_event :: bool
  enable_a20 :: bool
  a20_mask :: Bit64u
  kill_bochs_request :: bool
  bx_user_quit :: bool

abbreviation (input) BX_MAX_TIMERS :: nat where "BX_MAX_TIMERS \<equiv> 64"
abbreviation (input) BxMaxTimerIDLen :: nat where "BxMaxTimerIDLen \<equiv> 32"
abbreviation (input) MinAllowableTimerPeriod :: Bit64u where "MinAllowableTimerPeriod \<equiv> 1"
abbreviation (input) NullTimerInterval :: Bit64u where "NullTimerInterval \<equiv> 0xffffffff"
abbreviation (input) BX_MAX_BIT64S :: Bit64u where "BX_MAX_BIT64S \<equiv> 0x7fffffffffffffff"

text \<open>An assignment to fields of \<open>timer[i]\<close>.\<close>

definition upd_timer :: "nat \<Rightarrow> (bx_timer \<Rightarrow> bx_timer) \<Rightarrow> 'a bx_pc_system_c_scheme \<Rightarrow> 'a bx_pc_system_c_scheme" where
  "upd_timer i f s = s\<lparr>timer := (timer s)(i := f (timer s i))\<rparr>"

section \<open>Start-up\<close>

definition pc_system_new :: "'a bx_pc_system_c_scheme \<Rightarrow> 'a bx_pc_system_c_scheme" where
  "pc_system_new s =
     (let s = s\<lparr>ticksTotal := 0\<rparr>;
          s = upd_timer 0 (\<lambda>t. t\<lparr>inUse := True, period := NullTimerInterval, active := True, continuous := True,
                                  funct := Some nullTimer\<rparr>) s
      in s\<lparr>numTimers := 1\<rparr>)"

definition pc_initialize :: "'a bx_pc_system_c_scheme \<Rightarrow> 'a bx_pc_system_c_scheme" where
  "pc_initialize s =
     (let s = s\<lparr>ticksTotal := 0\<rparr>;
          s = upd_timer 0 (\<lambda>t. t\<lparr>timeToFire := NullTimerInterval\<rparr>) s
      in s\<lparr>currCountdown := ucast NullTimerInterval, currCountdownPeriod := ucast NullTimerInterval,
           lastTimeUsec := 0, usecSinceLast := 0, triggeredTimer := 0, HRQ := False, kill_bochs_request := False\<rparr>)"

section \<open>Timer interface\<close>

definition time_ticks :: "'a bx_pc_system_c_scheme \<Rightarrow> Bit64u" where
  "time_ticks s = ticksTotal s + ucast (currCountdownPeriod s - currCountdown s)"

definition getNumCpuTicksLeftNextEvent :: "'a bx_pc_system_c_scheme \<Rightarrow> Bit32u" where
  "getNumCpuTicksLeftNextEvent s = currCountdown s"

definition triggeredTimerParam :: "'a bx_pc_system_c_scheme \<Rightarrow> Bit32u" where
  "triggeredTimerParam s = param (timer s (triggeredTimer s))"

text \<open>The search for a free slot: the first unused one from 1 on, \<open>numTimers\<close> when there is none.\<close>

fun free_slot :: "(nat \<Rightarrow> bx_timer) \<Rightarrow> nat list \<Rightarrow> nat \<Rightarrow> nat" where
  "free_slot t [] n = n"
| "free_slot t (i # is) n = (if \<not> inUse (t i) then i else free_slot t is n)"

text \<open>Shortening the current countdown for a timer that fires before its end.\<close>

definition skew_countdown :: "Bit64u \<Rightarrow> 'a bx_pc_system_c_scheme \<Rightarrow> 'a bx_pc_system_c_scheme" where
  "skew_countdown ticks s =
     (if ticks < ucast (currCountdown s)
      then s\<lparr>currCountdownPeriod := currCountdownPeriod s - (currCountdown s - ucast ticks), currCountdown := ucast ticks\<rparr>
      else s)"

definition register_timer_ticks ::
    "nat \<Rightarrow> bx_timer_handler_t option \<Rightarrow> Bit64u \<Rightarrow> bool \<Rightarrow> bool \<Rightarrow> string \<Rightarrow>
     'a bx_pc_system_c_scheme \<Rightarrow> int \<times> 'a bx_pc_system_c_scheme" where
  "register_timer_ticks ptr f ticks cont act name s =
     (let ticks = (if ticks < MinAllowableTimerPeriod then MinAllowableTimerPeriod else ticks);
          i = free_slot (timer s) [1..<numTimers s] (numTimers s)
      in if numTimers s \<ge> BX_MAX_TIMERS then (-1, s)
         else
           let s = upd_timer i (\<lambda>t. t\<lparr>inUse := True, period := ticks, timeToFire := time_ticks s + ticks,
                     active := act, continuous := cont, funct := f, this_ptr := ptr,
                     timer_id := take (BxMaxTimerIDLen - 1) name, param := 0\<rparr>) s;
               s = (if act then skew_countdown ticks s else s);
               s = (if i = numTimers s then s\<lparr>numTimers := numTimers s + 1\<rparr> else s)
           in (int i, s))"

definition activate_timer_ticks :: "nat \<Rightarrow> Bit64u \<Rightarrow> bool \<Rightarrow> 'a bx_pc_system_c_scheme \<Rightarrow> 'a bx_pc_system_c_scheme" where
  "activate_timer_ticks i ticks cont s =
     (let ticks = (if ticks < MinAllowableTimerPeriod then MinAllowableTimerPeriod else ticks);
          s = upd_timer i (\<lambda>t. t\<lparr>period := ticks, timeToFire := time_ticks s + ticks, active := True, continuous := cont\<rparr>) s
      in skew_countdown ticks s)"

text \<open>
  The microsecond variants convert with \<open>double\<close> arithmetic; \<open>to_ticks\<close> is that conversion,
  \<open>(Bit64u)(double(useconds) * m_ips)\<close>.
\<close>

definition register_timer ::
    "(Bit32u \<Rightarrow> Bit64u) \<Rightarrow> nat \<Rightarrow> bx_timer_handler_t option \<Rightarrow> Bit32u \<Rightarrow> bool \<Rightarrow> bool \<Rightarrow> string \<Rightarrow>
     'a bx_pc_system_c_scheme \<Rightarrow> int \<times> 'a bx_pc_system_c_scheme" where
  "register_timer to_ticks ptr f useconds cont act name s =
     register_timer_ticks ptr f (to_ticks useconds) cont act name s"

definition activate_timer ::
    "(Bit32u \<Rightarrow> Bit64u) \<Rightarrow> nat \<Rightarrow> Bit32u \<Rightarrow> bool \<Rightarrow> 'a bx_pc_system_c_scheme \<Rightarrow> 'a bx_pc_system_c_scheme" where
  "activate_timer to_ticks i useconds cont s =
     (if useconds = 0 then activate_timer_ticks i (period (timer s i)) cont s
      else
        let ticks = to_ticks useconds;
            ticks = (if ticks < MinAllowableTimerPeriod then MinAllowableTimerPeriod else ticks);
            s = upd_timer i (\<lambda>t. t\<lparr>period := ticks\<rparr>) s
        in activate_timer_ticks i ticks cont s)"

definition activate_timer_nsec ::
    "(Bit64u \<Rightarrow> Bit64u) \<Rightarrow> nat \<Rightarrow> Bit64u \<Rightarrow> bool \<Rightarrow> 'a bx_pc_system_c_scheme \<Rightarrow> 'a bx_pc_system_c_scheme" where
  "activate_timer_nsec nsec_to_ticks i nseconds cont s =
     (if nseconds = 0 then activate_timer_ticks i (period (timer s i)) cont s
      else
        let ticks = nsec_to_ticks nseconds;
            ticks = (if ticks < MinAllowableTimerPeriod then MinAllowableTimerPeriod else ticks);
            s = upd_timer i (\<lambda>t. t\<lparr>period := ticks\<rparr>) s
        in activate_timer_ticks i ticks cont s)"

definition deactivate_timer :: "nat \<Rightarrow> 'a bx_pc_system_c_scheme \<Rightarrow> 'a bx_pc_system_c_scheme" where
  "deactivate_timer i s = upd_timer i (\<lambda>t. t\<lparr>active := False\<rparr>) s"

definition unregisterTimer :: "nat \<Rightarrow> 'a bx_pc_system_c_scheme \<Rightarrow> bool \<times> 'a bx_pc_system_c_scheme" where
  "unregisterTimer i s =
     (if active (timer s i) then (False, s)
      else
        let s = upd_timer i (\<lambda>t. t\<lparr>inUse := False, period := BX_MAX_BIT64S, timeToFire := BX_MAX_BIT64S,
                  continuous := False, funct := None, this_ptr := 0, timer_id := []\<rparr>) s
        in (True, if i = numTimers s - 1 then s\<lparr>numTimers := numTimers s - 1\<rparr> else s))"

definition setTimerParam :: "nat \<Rightarrow> Bit32u \<Rightarrow> 'a bx_pc_system_c_scheme \<Rightarrow> 'a bx_pc_system_c_scheme" where
  "setTimerParam i v s = upd_timer i (\<lambda>t. t\<lparr>param := v\<rparr>) s"

section \<open>The countdown event\<close>

text \<open>The variables of the scan over the timers.\<close>

record timer_scan =
  sc_timer :: "nat \<Rightarrow> bx_timer"
  triggered :: "nat \<Rightarrow> bool"
  sc_first :: nat
  sc_last :: nat
  minTimeToFire :: Bit64u

definition scan_timer :: "Bit64u \<Rightarrow> nat \<Rightarrow> timer_scan \<Rightarrow> timer_scan" where
  "scan_timer now i c =
     (let c = c\<lparr>triggered := (triggered c)(i := False)\<rparr>; t = sc_timer c i
      in if active t then
           if now = timeToFire t then
             let c = c\<lparr>triggered := (triggered c)(i := True)\<rparr>;
                 c = (if \<not> continuous t then c\<lparr>sc_timer := (sc_timer c)(i := t\<lparr>active := False\<rparr>)\<rparr>
                      else
                        let t = t\<lparr>timeToFire := timeToFire t + period t\<rparr>;
                            c = c\<lparr>sc_timer := (sc_timer c)(i := t)\<rparr>
                        in if timeToFire t < minTimeToFire c then c\<lparr>minTimeToFire := timeToFire t\<rparr> else c);
                 c = (if i < sc_first c then c\<lparr>sc_first := i\<rparr> else c)
             in c\<lparr>sc_last := i\<rparr>
           else if timeToFire t < minTimeToFire c then c\<lparr>minTimeToFire := timeToFire t\<rparr> else c
         else c)"

type_synonym 'a timer_call = "bx_timer_handler_t \<Rightarrow> nat \<Rightarrow> 'a bx_pc_system_c_scheme \<Rightarrow> 'a bx_pc_system_c_scheme"

definition fire_timer :: "'a timer_call \<Rightarrow> (nat \<Rightarrow> bool) \<Rightarrow> nat \<Rightarrow> 'a bx_pc_system_c_scheme \<Rightarrow> 'a bx_pc_system_c_scheme" where
  "fire_timer call trig i s =
     (case funct (timer s i) of
        None \<Rightarrow> s
      | Some f \<Rightarrow>
          if trig i then (call f (this_ptr (timer s i)) (s\<lparr>triggeredTimer := i\<rparr>))\<lparr>triggeredTimer := 0\<rparr> else s)"

definition countdownEvent :: "'a timer_call \<Rightarrow> 'a bx_pc_system_c_scheme \<Rightarrow> 'a bx_pc_system_c_scheme" where
  "countdownEvent call s =
     (let s = s\<lparr>ticksTotal := ticksTotal s + ucast (currCountdownPeriod s)\<rparr>;
          c = \<lparr>sc_timer = timer s, triggered = (\<lambda>_. False), sc_first = numTimers s, sc_last = 0, minTimeToFire = -1\<rparr>;
          c = fold (scan_timer (ticksTotal s)) [0..<numTimers s] c;
          d = ucast (minTimeToFire c - ticksTotal s);
          s = s\<lparr>timer := sc_timer c, currCountdown := d, currCountdownPeriod := d\<rparr>
      in fold (fire_timer call (triggered c)) [sc_first c..<Suc (sc_last c)] s)"

definition tick1 :: "'a timer_call \<Rightarrow> 'a bx_pc_system_c_scheme \<Rightarrow> 'a bx_pc_system_c_scheme" where
  "tick1 call s =
     (let s = s\<lparr>currCountdown := currCountdown s - 1\<rparr>
      in if currCountdown s = 0 then countdownEvent call s else s)"

partial_function (option) tickn :: "'a timer_call \<Rightarrow> Bit32u \<Rightarrow> 'a bx_pc_system_c_scheme \<Rightarrow> 'a bx_pc_system_c_scheme option" where
  "tickn call n s =
     (if n \<ge> currCountdown s
      then tickn call (n - currCountdown s) (countdownEvent call (s\<lparr>currCountdown := 0\<rparr>))
      else Some (s\<lparr>currCountdown := currCountdown s - n\<rparr>))"

section \<open>Sequential time, A20 and the hold request\<close>

text \<open>\<open>time_usec\<close> divides by \<open>m_ips\<close> in \<open>double\<close> arithmetic; its value is an argument.\<close>

definition time_usec_sequential :: "Bit64u \<Rightarrow> 'a bx_pc_system_c_scheme \<Rightarrow> Bit64u \<times> 'a bx_pc_system_c_scheme" where
  "time_usec_sequential this_time_usec s =
     (let s = (if this_time_usec \<noteq> lastTimeUsec s then
                 let diff_usec = this_time_usec - lastTimeUsec s;
                     s = s\<lparr>lastTimeUsec := this_time_usec\<rparr>
                 in if diff_usec \<ge> usecSinceLast s then s\<lparr>usecSinceLast := 0\<rparr>
                    else s\<lparr>usecSinceLast := usecSinceLast s - diff_usec\<rparr>
               else s);
          s = s\<lparr>usecSinceLast := usecSinceLast s + 1\<rparr>
      in (this_time_usec + usecSinceLast s, s))"

definition set_HRQ :: "bool \<Rightarrow> 'a bx_pc_system_c_scheme \<Rightarrow> 'a bx_pc_system_c_scheme" where
  "set_HRQ val s = (let s = s\<lparr>HRQ := val\<rparr> in if val then s\<lparr>async_event := True\<rparr> else s)"

text \<open>\<open>set_enable_a20\<close> also tells whether \<open>MemoryMappingChanged\<close> is called.\<close>

definition set_enable_a20 :: "bool \<Rightarrow> 'a bx_pc_system_c_scheme \<Rightarrow> bool \<times> 'a bx_pc_system_c_scheme" where
  "set_enable_a20 value s =
     (let old_enable_a20 = enable_a20 s;
          s = (if value then s\<lparr>enable_a20 := True, a20_mask := 0xffffffffffffffff\<rparr>
               else s\<lparr>enable_a20 := False, a20_mask := 0xffffffffffefffff\<rparr>)
      in (old_enable_a20 \<noteq> enable_a20 s, s))"

definition get_enable_a20 :: "'a bx_pc_system_c_scheme \<Rightarrow> bool" where
  "get_enable_a20 s = enable_a20 s"

definition A20ADDR :: "Bit64u \<Rightarrow> 'a bx_pc_system_c_scheme \<Rightarrow> Bit64u" where
  "A20ADDR x s = x AND a20_mask s"

text \<open>The handlers of this file.\<close>

definition nullTimer_call :: "'a bx_pc_system_c_scheme \<Rightarrow> 'a bx_pc_system_c_scheme" where
  "nullTimer_call s = s"

definition benchmarkTimer_call :: "'a bx_pc_system_c_scheme \<Rightarrow> 'a bx_pc_system_c_scheme" where
  "benchmarkTimer_call s = s\<lparr>kill_bochs_request := True, bx_user_quit := True\<rparr>"

text \<open>The call through the function pointer, for device handlers that work on the rest of the machine.\<close>

definition pc_call :: "(nat \<Rightarrow> nat \<Rightarrow> 'a \<Rightarrow> 'a) \<Rightarrow> 'a timer_call" where
  "pc_call dev f p s =
     (case f of
        nullTimer \<Rightarrow> nullTimer_call s
      | benchmarkTimer \<Rightarrow> benchmarkTimer_call s
      | deviceTimer d \<Rightarrow> bx_pc_system_c.more_update (dev d p) s)"

section \<open>Countdown and time\<close>

text \<open>
  The current time and the time of the next countdown event, as natural numbers. An active timer
  never lies before the next event, and no further than its period from now.
\<close>

definition event_time :: "'a bx_pc_system_c_scheme \<Rightarrow> nat" where
  "event_time s = unat (ticksTotal s) + unat (currCountdownPeriod s)"

definition now :: "'a bx_pc_system_c_scheme \<Rightarrow> nat" where
  "now s = event_time s - unat (currCountdown s)"

definition timer_ok :: "nat \<Rightarrow> nat \<Rightarrow> bx_timer \<Rightarrow> bool" where
  "timer_ok ev nw t \<longleftrightarrow> 0 < unat (period t) \<and> unat (period t) < 2 ^ 63
     \<and> (active t \<longrightarrow> ev \<le> unat (timeToFire t) \<and> unat (timeToFire t) \<le> nw + unat (period t))"

definition null_timer_ok :: "bx_timer \<Rightarrow> bool" where
  "null_timer_ok t \<longleftrightarrow> inUse t \<and> active t \<and> continuous t \<and> period t = NullTimerInterval \<and> funct t = Some nullTimer"

definition pc_ok :: "'a bx_pc_system_c_scheme \<Rightarrow> bool" where
  "pc_ok s \<longleftrightarrow> 0 < numTimers s \<and> numTimers s \<le> 64 \<and> null_timer_ok (timer s 0)
     \<and> unat (currCountdown s) \<le> unat (currCountdownPeriod s) \<and> now s < 2 ^ 63
     \<and> (\<forall>i<numTimers s. timer_ok (event_time s) (now s) (timer s i))"

definition pc_inv :: "'a bx_pc_system_c_scheme \<Rightarrow> bool" where
  "pc_inv s \<longleftrightarrow> pc_ok s \<and> currCountdown s \<noteq> 0"

lemma unat_less_32: "unat w < 2 ^ 32" for w :: Bit32u
  by (rule order_less_le_trans, rule unsigned_less) simp

lemma unat_less_64: "unat w < 2 ^ 64" for w :: Bit64u
  by (rule order_less_le_trans, rule unsigned_less) simp

lemma unat_widen: "unat (ucast w :: Bit64u) = unat w" for w :: Bit32u
  using unat_less_32 [of w] by (simp add: unsigned_ucast_eq take_bit_nat_eq_self)

lemma unat_narrow: "unat w < 2 ^ 32 \<Longrightarrow> unat (ucast w :: Bit32u) = unat w" for w :: Bit64u
  by (simp add: unsigned_ucast_eq take_bit_nat_eq_self)

lemma unat_add_64: "unat a + unat b < 2 ^ 64 \<Longrightarrow> unat (a + b) = unat a + unat b" for a b :: Bit64u
  by (simp add: unat_word_ariths)

lemma unat_diff: "unat b \<le> unat a \<Longrightarrow> unat (a - b) = unat a - unat b" for a b :: "'a::len word"
  by (simp add: unat_sub_if')

lemma pc_okD:
  assumes "pc_ok s"
  shows "0 < numTimers s" "numTimers s \<le> 64" "null_timer_ok (timer s 0)"
    "unat (currCountdown s) \<le> unat (currCountdownPeriod s)" "now s < 2 ^ 63"
    "i < numTimers s \<Longrightarrow> timer_ok (event_time s) (now s) (timer s i)"
  using assms by (simp_all add: pc_ok_def)

lemma unat_time_ticks:
  assumes "pc_ok s" shows "unat (time_ticks s) = now s"
proof -
  have le: "unat (currCountdown s) \<le> unat (currCountdownPeriod s)" and "now s < 2 ^ 63"
    using pc_okD [OF assms] by auto
  then have "unat (ticksTotal s) + unat (currCountdownPeriod s - currCountdown s) = now s"
    by (simp add: now_def event_time_def unat_diff)
  then show ?thesis
    using \<open>now s < 2 ^ 63\<close> by (simp add: time_ticks_def unat_add_64 unat_widen)
qed

lemma skew_countdown:
  assumes "unat (currCountdown s) \<le> unat (currCountdownPeriod s)"
  shows "unat (currCountdown (skew_countdown ticks s)) = min (unat (currCountdown s)) (unat ticks)"
    "unat (currCountdown (skew_countdown ticks s)) \<le> unat (currCountdownPeriod (skew_countdown ticks s))"
    "now (skew_countdown ticks s) = now s"
    "event_time (skew_countdown ticks s) = min (event_time s) (now s + unat ticks)"
    "timer (skew_countdown ticks s) = timer s" "numTimers (skew_countdown ticks s) = numTimers s"
proof -
  show "timer (skew_countdown ticks s) = timer s" "numTimers (skew_countdown ticks s) = numTimers s"
    by (simp_all add: skew_countdown_def)
  show cd: "unat (currCountdown (skew_countdown ticks s)) = min (unat (currCountdown s)) (unat ticks)"
  proof (cases "ticks < ucast (currCountdown s)")
    case True
    then have "unat ticks < unat (currCountdown s)" by (simp add: word_less_nat_alt unat_widen)
    moreover from this have "unat ticks < 2 ^ 32" using unat_less_32 [of "currCountdown s"] by simp
    ultimately show ?thesis using True by (simp add: skew_countdown_def unat_narrow)
  next
    case False
    then show ?thesis by (simp add: skew_countdown_def word_less_nat_alt unat_widen)
  qed
  have p: "unat (currCountdownPeriod (skew_countdown ticks s)) = unat (currCountdownPeriod s) - (unat (currCountdown s) - unat (currCountdown (skew_countdown ticks s)))"
  proof (cases "ticks < ucast (currCountdown s)")
    case True
    then have "unat ticks < unat (currCountdown s)" by (simp add: word_less_nat_alt unat_widen)
    moreover from this have "unat ticks < 2 ^ 32" using unat_less_32 [of "currCountdown s"] by simp
    ultimately show ?thesis using True assms by (simp add: skew_countdown_def unat_narrow unat_diff)
  qed (simp add: skew_countdown_def)
  have t: "ticksTotal (skew_countdown ticks s) = ticksTotal s"
    by (simp add: skew_countdown_def)
  show "unat (currCountdown (skew_countdown ticks s)) \<le> unat (currCountdownPeriod (skew_countdown ticks s))"
    "now (skew_countdown ticks s) = now s"
    "event_time (skew_countdown ticks s) = min (event_time s) (now s + unat ticks)"
    using assms by (auto simp: now_def event_time_def p cd t)
qed

lemma skew_countdown_nonzero:
  assumes "currCountdown s \<noteq> 0" "0 < unat ticks"
  shows "currCountdown (skew_countdown ticks s) \<noteq> 0"
proof (cases "ticks < ucast (currCountdown s)")
  case True
  then have "unat ticks < unat (currCountdown s)" by (simp add: word_less_nat_alt unat_widen)
  then have "unat (ucast ticks :: Bit32u) = unat ticks"
    using unat_less_32 [of "currCountdown s"] by (simp add: unat_narrow)
  then have "unat (ucast ticks :: Bit32u) \<noteq> 0" using assms(2) by simp
  then show ?thesis using True by (auto simp: skew_countdown_def)
qed (simp add: skew_countdown_def assms(1))

section \<open>Steps of the timer interface\<close>

text \<open>
  A step of the timer interface: a call with the arguments that the checks under
  \<open>BX_TIMER_DEBUG\<close> ask for and a period that fits a signed 64-bit number, or a change of
  anything but the timers.
\<close>

definition timer_view :: "'a bx_pc_system_c_scheme \<Rightarrow> (nat \<Rightarrow> bx_timer) \<times> nat \<times> Bit32u \<times> Bit32u \<times> Bit64u" where
  "timer_view s = (timer s, numTimers s, currCountdown s, currCountdownPeriod s, ticksTotal s)"

inductive timer_step :: "'a bx_pc_system_c_scheme \<Rightarrow> 'a bx_pc_system_c_scheme \<Rightarrow> bool" where
  activate: "\<lbrakk>0 < i; i < numTimers s; unat ticks < 2 ^ 63\<rbrakk> \<Longrightarrow> timer_step s (activate_timer_ticks i ticks cont s)"
| deactivate: "\<lbrakk>0 < i; i < numTimers s\<rbrakk> \<Longrightarrow> timer_step s (deactivate_timer i s)"
| register: "unat ticks < 2 ^ 63 \<Longrightarrow> timer_step s (snd (register_timer_ticks ptr f ticks cont act name s))"
| unregister: "\<lbrakk>0 < i; i < numTimers s\<rbrakk> \<Longrightarrow> timer_step s (snd (unregisterTimer i s))"
| set_param: "i < numTimers s \<Longrightarrow> timer_step s (setTimerParam i v s)"
| other: "timer_view s' = timer_view s \<Longrightarrow> timer_step s s'"

inductive_cases timer_stepE: "timer_step s s'"

lemma pc_inv_upd:
  assumes inv: "pc_inv s" and t: "timer s' = (timer s)(i := t)" and n: "numTimers s' = numTimers s \<or> i = numTimers s \<and> numTimers s' = numTimers s + 1"
    and "0 < i" "numTimers s' \<le> 64" and cd: "unat (currCountdown s') \<le> unat (currCountdownPeriod s')" "currCountdown s' \<noteq> 0"
    and ev: "event_time s' \<le> event_time s" and nw: "now s' = now s" and ok: "timer_ok (event_time s') (now s) t"
  shows "pc_inv s'"
proof -
  have "pc_ok s" using inv by (simp add: pc_inv_def)
  note D = pc_okD [OF this]
  have "timer_ok (event_time s') (now s') (timer s' j)" if "j < numTimers s'" for j
    using that ok n ev D(6) [of j] by (cases "j = i") (auto simp: nw t timer_ok_def)
  then show ?thesis
    using D(1-5) n cd \<open>0 < i\<close> \<open>numTimers s' \<le> 64\<close> by (auto simp: pc_inv_def pc_ok_def nw t)
qed

lemma free_slot_bounds: "free_slot t [a..<n] n \<in> {a..n}" if "a \<le> n"
proof -
  have "free_slot t is n \<in> set is \<union> {n}" for "is"
    by (induction "is") auto
  from this [of "[a..<n]"] show ?thesis using that by auto
qed

lemma timer_ok_new:
  assumes "pc_ok s" "0 < unat ticks" "unat ticks < 2 ^ 63" "ev \<le> now s + unat ticks"
    "period t = ticks" "timeToFire t = time_ticks s + ticks"
  shows "timer_ok ev (now s) t"
  using assms pc_okD(5) [OF assms(1)] by (simp add: timer_ok_def unat_add_64 unat_time_ticks)

lemma unat_min_period:
  "unat ticks < 2 ^ 63 \<Longrightarrow> 0 < unat (if ticks < 1 then 1 else ticks) \<and> unat (if ticks < 1 then 1 else ticks) < 2 ^ 63" for ticks :: Bit64u
  by (auto simp: word_less_nat_alt)

lemma pc_inv_activate:
  assumes "pc_inv s" "0 < i" "i < numTimers s" "unat ticks < 2 ^ 63"
  shows "pc_inv (activate_timer_ticks i ticks cont s) \<and> now (activate_timer_ticks i ticks cont s) = now s"
proof -
  define tk where "tk = (if ticks < 1 then 1 else ticks)"
  define t where "t = (timer s i)\<lparr>period := tk, timeToFire := time_ticks s + tk, active := True, continuous := cont\<rparr>"
  define u where "u = s\<lparr>timer := (timer s)(i := t)\<rparr>"
  have a: "activate_timer_ticks i ticks cont s = skew_countdown tk u"
    by (simp add: activate_timer_ticks_def upd_timer_def Let_def tk_def t_def u_def)
  have ok: "pc_ok s" "currCountdown s \<noteq> 0" using assms(1) by (simp_all add: pc_inv_def)
  have tk: "0 < unat tk" "unat tk < 2 ^ 63" using unat_min_period [OF assms(4)] by (simp_all add: tk_def)
  have u: "unat (currCountdown u) \<le> unat (currCountdownPeriod u)" "now u = now s" "event_time u = event_time s"
    using pc_okD(4) [OF ok(1)] by (simp_all add: u_def now_def event_time_def)
  note sk = skew_countdown [OF u(1), of tk]
  have "currCountdown (skew_countdown tk u) \<noteq> 0"
    using tk(1) ok(2) by (intro skew_countdown_nonzero) (simp_all add: u_def)
  moreover have "timer_ok (event_time (skew_countdown tk u)) (now s) t"
    using timer_ok_new [OF ok(1) tk] sk(4) u(2) by (simp add: t_def)
  ultimately have "pc_inv (skew_countdown tk u)"
    using sk u assms(2,3) pc_okD(2) [OF ok(1)]
    by (intro pc_inv_upd [OF assms(1), of _ i t]) (simp_all add: u_def)
  then show ?thesis using a sk(3) u(2) by simp
qed

lemma pc_inv_register:
  assumes "pc_inv s" "unat ticks < 2 ^ 63"
  shows "pc_inv (snd (register_timer_ticks ptr f ticks cont act name s))
    \<and> now (snd (register_timer_ticks ptr f ticks cont act name s)) = now s"
proof (cases "numTimers s \<ge> 64")
  case True
  then show ?thesis using assms(1) by (simp add: register_timer_ticks_def Let_def)
next
  case False
  define tk where "tk = (if ticks < 1 then 1 else ticks)"
  define i where "i = free_slot (timer s) [1..<numTimers s] (numTimers s)"
  define t where "t = (timer s i)\<lparr>inUse := True, period := tk, timeToFire := time_ticks s + tk, active := act, continuous := cont,
    funct := f, this_ptr := ptr, timer_id := take 31 name, param := 0\<rparr>"
  define u where "u = (if act then skew_countdown tk (s\<lparr>timer := (timer s)(i := t)\<rparr>) else s\<lparr>timer := (timer s)(i := t)\<rparr>)"
  define v where "v = (if i = numTimers u then u\<lparr>numTimers := numTimers u + 1\<rparr> else u)"
  have r: "snd (register_timer_ticks ptr f ticks cont act name s) = v"
    using False by (simp add: register_timer_ticks_def upd_timer_def Let_def tk_def t_def u_def v_def i_def)
  have ok: "pc_ok s" "currCountdown s \<noteq> 0" using assms(1) by (simp_all add: pc_inv_def)
  have tk: "0 < unat tk" "unat tk < 2 ^ 63" using unat_min_period [OF assms(2)] by (simp_all add: tk_def)
  have i: "0 < i" "i \<le> numTimers s"
    using free_slot_bounds [of 1 "numTimers s" "timer s"] pc_okD(1) [OF ok(1)] by (auto simp: i_def)
  have le: "unat (currCountdown (s\<lparr>timer := (timer s)(i := t)\<rparr>)) \<le> unat (currCountdownPeriod (s\<lparr>timer := (timer s)(i := t)\<rparr>))"
    using pc_okD(4) [OF ok(1)] by simp
  have fld: "now (s\<lparr>timer := (timer s)(i := t)\<rparr>) = now s" "event_time (s\<lparr>timer := (timer s)(i := t)\<rparr>) = event_time s"
    by (simp_all add: now_def event_time_def)
  have u: "timer u = (timer s)(i := t)" "numTimers u = numTimers s" "unat (currCountdown u) \<le> unat (currCountdownPeriod u)"
    "event_time u \<le> event_time s" "now u = now s" "currCountdown u \<noteq> 0" "act \<Longrightarrow> event_time u \<le> now s + unat tk"
    using skew_countdown [OF le, of tk] fld le ok(2) tk(1) by (simp_all add: u_def skew_countdown_nonzero)
  have okt: "timer_ok (event_time u) (now s) t"
    using timer_ok_new [OF ok(1) tk, of "event_time u" t] u(7) tk by (cases act) (simp_all add: t_def timer_ok_def)
  have v: "timer v = timer u" "currCountdown v = currCountdown u" "currCountdownPeriod v = currCountdownPeriod u"
    "event_time v = event_time u" "now v = now u"
    by (simp_all add: v_def event_time_def now_def)
  have "pc_inv v"
    using u okt i False by (intro pc_inv_upd [OF assms(1), of _ i t]) (simp_all add: v, auto simp: v_def)
  then show ?thesis using r v(5) u(5) by simp
qed

lemma pc_inv_unregister:
  assumes "pc_inv s" "0 < i" "i < numTimers s"
  shows "pc_inv (snd (unregisterTimer i s)) \<and> now (snd (unregisterTimer i s)) = now s"
proof (cases "active (timer s i)")
  case True
  then show ?thesis using assms(1) by (simp add: unregisterTimer_def)
next
  case False
  define t where "t = (timer s i)\<lparr>inUse := False, period := 0x7fffffffffffffff, timeToFire := 0x7fffffffffffffff,
    continuous := False, funct := None, this_ptr := 0, timer_id := []\<rparr>"
  define u where "u = s\<lparr>timer := (timer s)(i := t)\<rparr>"
  have r: "snd (unregisterTimer i s) = (if i = numTimers s - 1 then u\<lparr>numTimers := numTimers s - 1\<rparr> else u)"
    using False by (simp add: unregisterTimer_def upd_timer_def Let_def t_def u_def)
  have "timer_ok (event_time u) (now s) t" using False by (simp add: timer_ok_def t_def)
  moreover have nw: "now u = now s" "event_time u = event_time s" by (simp_all add: u_def now_def event_time_def)
  ultimately have inv: "pc_inv u"
    using assms(1) by (intro pc_inv_upd [OF assms(1), of _ i t]) (simp_all add: assms(2) u_def pc_inv_def pc_ok_def)
  then have "pc_inv (u\<lparr>numTimers := numTimers s - 1\<rparr>)"
    using assms(2,3) by (auto simp: pc_inv_def pc_ok_def now_def event_time_def u_def)
  then show ?thesis using inv nw(1) by (auto simp: r now_def event_time_def)
qed

lemma pc_inv_deactivate:
  assumes "pc_inv s" "0 < i" "i < numTimers s"
  shows "pc_inv (deactivate_timer i s) \<and> now (deactivate_timer i s) = now s"
proof -
  have nw: "now (deactivate_timer i s) = now s" "event_time (deactivate_timer i s) = event_time s"
    by (simp_all add: deactivate_timer_def upd_timer_def now_def event_time_def)
  have "pc_ok s" using assms(1) by (simp add: pc_inv_def)
  from pc_okD(6) [OF this assms(3)] have "timer_ok (event_time s) (now s) ((timer s i)\<lparr>active := False\<rparr>)"
    by (simp add: timer_ok_def)
  then have "pc_inv (deactivate_timer i s)"
    using assms(1) nw by (intro pc_inv_upd [OF assms(1), of _ i "(timer s i)\<lparr>active := False\<rparr>"])
      (simp_all add: assms(2) pc_inv_def pc_ok_def deactivate_timer_def upd_timer_def)
  then show ?thesis using nw(1) by simp
qed

lemma pc_inv_view:
  "timer_view s' = timer_view s \<Longrightarrow> pc_inv s' = pc_inv s \<and> now s' = now s \<and> event_time s' = event_time s"
  by (simp add: timer_view_def pc_inv_def pc_ok_def now_def event_time_def)

lemma pc_inv_set_param:
  assumes "pc_inv s" shows "pc_inv (setTimerParam i v s) \<and> now (setTimerParam i v s) = now s"
  using assms
  by (auto simp: setTimerParam_def upd_timer_def pc_inv_def pc_ok_def now_def event_time_def timer_ok_def null_timer_ok_def)

lemma timer_step_inv:
  assumes "timer_step s s'" "pc_inv s" shows "pc_inv s' \<and> now s' = now s"
  using assms
proof (cases rule: timer_step.cases)
  case (other)
  then show ?thesis using assms(2) pc_inv_view by blast
qed (use assms(2) pc_inv_activate pc_inv_deactivate pc_inv_register pc_inv_unregister pc_inv_set_param in simp_all)

lemma timer_steps_inv:
  assumes "timer_step\<^sup>*\<^sup>* s s'" "pc_inv s" shows "pc_inv s' \<and> now s' = now s"
  using assms by (induction rule: rtranclp_induct) (auto dest: timer_step_inv)

section \<open>What a countdown event does\<close>

definition due :: "Bit64u \<Rightarrow> bx_timer \<Rightarrow> bool" where
  "due time t \<longleftrightarrow> active t \<and> time = timeToFire t"

text \<open>A due timer is rescheduled one period later when it is continuous, and stopped otherwise.\<close>

definition advance :: "Bit64u \<Rightarrow> bx_timer \<Rightarrow> bx_timer" where
  "advance time t =
     (if due time t then if continuous t then t\<lparr>timeToFire := timeToFire t + period t\<rparr> else t\<lparr>active := False\<rparr> else t)"

definition scan_inv :: "Bit64u \<Rightarrow> (nat \<Rightarrow> bx_timer) \<Rightarrow> nat \<Rightarrow> timer_scan \<Rightarrow> bool" where
  "scan_inv time T k c \<longleftrightarrow>
     sc_timer c = (\<lambda>i. if i < k then advance time (T i) else T i) \<and>
     triggered c = (\<lambda>i. i < k \<and> due time (T i)) \<and>
     (\<forall>i<k. due time (T i) \<longrightarrow> sc_first c \<le> i \<and> i \<le> sc_last c) \<and>
     (\<forall>i<k. active (advance time (T i)) \<longrightarrow> minTimeToFire c \<le> timeToFire (advance time (T i))) \<and>
     (minTimeToFire c = -1 \<or> (\<exists>i<k. active (advance time (T i)) \<and> minTimeToFire c = timeToFire (advance time (T i))))"

lemma scan_inv_0: "scan_inv time T 0 \<lparr>sc_timer = T, triggered = (\<lambda>_. False), sc_first = n, sc_last = 0, minTimeToFire = -1\<rparr>"
  by (simp add: scan_inv_def)

lemma scan_timer_cases:
  "scan_timer time i c =
     (let t = sc_timer c i; t' = advance time t in
      c\<lparr>sc_timer := (sc_timer c)(i := t'), triggered := (triggered c)(i := due time t),
        sc_first := (if due time t then min i (sc_first c) else sc_first c),
        sc_last := (if due time t then i else sc_last c),
        minTimeToFire := (if active t' \<and> timeToFire t' < minTimeToFire c then timeToFire t' else minTimeToFire c)\<rparr>)"
  by (cases c) (auto simp: scan_timer_def advance_def due_def Let_def min_def)

lemma scan_inv_step:
  assumes "scan_inv time T k c" shows "scan_inv time T (Suc k) (scan_timer time k c)"
proof -
  have c: "sc_timer c = (\<lambda>i. if i < k then advance time (T i) else T i)" "triggered c = (\<lambda>i. i < k \<and> due time (T i))"
    "\<And>i. i < k \<Longrightarrow> due time (T i) \<Longrightarrow> sc_first c \<le> i \<and> i \<le> sc_last c"
    "\<And>i. i < k \<Longrightarrow> active (advance time (T i)) \<Longrightarrow> minTimeToFire c \<le> timeToFire (advance time (T i))"
    "minTimeToFire c = -1 \<or> (\<exists>i<k. active (advance time (T i)) \<and> minTimeToFire c = timeToFire (advance time (T i)))"
    using assms by (auto simp: scan_inv_def)
  define c' where "c' = scan_timer time k c"
  have c': "sc_timer c' = (sc_timer c)(k := advance time (T k))" "triggered c' = (triggered c)(k := due time (T k))"
    "sc_first c' = (if due time (T k) then min k (sc_first c) else sc_first c)"
    "sc_last c' = (if due time (T k) then k else sc_last c)"
    "minTimeToFire c' = (if active (advance time (T k)) \<and> timeToFire (advance time (T k)) < minTimeToFire c
       then timeToFire (advance time (T k)) else minTimeToFire c)"
    using c(1) by (simp_all add: c'_def scan_timer_cases Let_def)
  have "sc_timer c' = (\<lambda>i. if i < Suc k then advance time (T i) else T i)"
    unfolding c'(1) c(1) by (auto simp: fun_eq_iff less_Suc_eq)
  moreover have "triggered c' = (\<lambda>i. i < Suc k \<and> due time (T i))"
    unfolding c'(2) c(2) by (auto simp: fun_eq_iff less_Suc_eq)
  moreover have "\<forall>i<Suc k. due time (T i) \<longrightarrow> sc_first c' \<le> i \<and> i \<le> sc_last c'"
    using c(3) by (force simp: c'(3,4) less_Suc_eq)
  moreover have "\<forall>i<Suc k. active (advance time (T i)) \<longrightarrow> minTimeToFire c' \<le> timeToFire (advance time (T i))"
    using c(4) by (fastforce simp: c'(5) less_Suc_eq)
  moreover have "minTimeToFire c' = -1 \<or> (\<exists>i<Suc k. active (advance time (T i)) \<and> minTimeToFire c' = timeToFire (advance time (T i)))"
    using c(5) by (auto simp: c'(5) less_Suc_eq)
  ultimately show ?thesis by (simp add: scan_inv_def c'_def)
qed

lemma scan_inv_fold:
  "scan_inv time T k (fold (scan_timer time) [0..<k] \<lparr>sc_timer = T, triggered = (\<lambda>_. False), sc_first = n, sc_last = 0, minTimeToFire = -1\<rparr>)"
  by (induction k) (simp_all add: scan_inv_0 scan_inv_step)

lemma fold_skip: "(\<And>i. i \<in> set xs \<Longrightarrow> \<not> P i \<Longrightarrow> f i = id) \<Longrightarrow> fold f xs s = fold f (filter P xs) s"
  by (induction xs arbitrary: s) auto

text \<open>The state after the scan, before the handlers run.\<close>

definition next_timers :: "'a bx_pc_system_c_scheme \<Rightarrow> nat \<Rightarrow> bx_timer" where
  "next_timers s i =
     (if i < numTimers s then advance (ticksTotal s + ucast (currCountdownPeriod s)) (timer s i) else timer s i)"

definition next_times :: "'a bx_pc_system_c_scheme \<Rightarrow> nat set" where
  "next_times s = {unat (timeToFire (next_timers s i)) |i. i < numTimers s \<and> active (next_timers s i)}"

definition next_period :: "'a bx_pc_system_c_scheme \<Rightarrow> 'a bx_pc_system_c_scheme" where
  "next_period s =
     (let time = ticksTotal s + ucast (currCountdownPeriod s); d = of_nat (Min (next_times s) - unat time)
      in s\<lparr>ticksTotal := time, timer := next_timers s, currCountdown := d, currCountdownPeriod := d\<rparr>)"

abbreviation (input) due_timers :: "'a bx_pc_system_c_scheme \<Rightarrow> nat list" where
  "due_timers s \<equiv> filter (\<lambda>i. due (ticksTotal s + ucast (currCountdownPeriod s)) (timer s i)) [0..<numTimers s]"

lemma advance_ok:
  assumes "pc_ok s" "currCountdown s = 0" "i < numTimers s"
  defines "time \<equiv> ticksTotal s + ucast (currCountdownPeriod s)"
  defines "t \<equiv> advance time (timer s i)"
  shows "unat time = now s" "0 < unat (period t)" "unat (period t) < 2 ^ 63"
    "active t \<Longrightarrow> now s < unat (timeToFire t)" "active t \<Longrightarrow> unat (timeToFire t) \<le> now s + unat (period t)"
proof -
  have E: "event_time s = now s" "now s < 2 ^ 63"
    using pc_okD(5) [OF assms(1)] assms(2) by (simp_all add: now_def)
  then show time: "unat time = now s"
    by (simp add: time_def unat_add_64 unat_widen event_time_def)
  have ok: "timer_ok (now s) (now s) (timer s i)"
    using pc_okD(6) [OF assms(1,3)] E(1) by simp
  then show p: "0 < unat (period t)" "unat (period t) < 2 ^ 63"
    by (auto simp: t_def timer_ok_def advance_def)
  have "now s < unat (timeToFire t) \<and> unat (timeToFire t) \<le> now s + unat (period t)" if "active t"
  proof (cases "due time (timer s i)")
    case True
    with that have "timeToFire t = time + period t" by (auto simp: t_def advance_def due_def split: if_splits)
    then show ?thesis using p E(2) by (simp add: unat_add_64 time)
  next
    case False
    with that have t: "t = timer s i" "timeToFire t \<noteq> time" "active (timer s i)"
      by (auto simp: t_def advance_def due_def split: if_splits)
    then have "unat (timeToFire t) \<noteq> now s" unfolding time [symmetric] word_unat_eq_iff by simp
    then show ?thesis using ok t by (simp add: timer_ok_def)
  qed
  then show "active t \<Longrightarrow> now s < unat (timeToFire t)" "active t \<Longrightarrow> unat (timeToFire t) \<le> now s + unat (period t)"
    by auto
qed

lemma next_times:
  assumes "pc_ok s" "currCountdown s = 0"
  shows "finite (next_times s)" "next_times s \<noteq> {}" "now s < Min (next_times s)" "Min (next_times s) - now s < 2 ^ 32"
proof -
  have "next_times s = (\<lambda>i. unat (timeToFire (next_timers s i))) ` {i. i < numTimers s \<and> active (next_timers s i)}"
    by (auto simp: next_times_def)
  then show fin: "finite (next_times s)" by simp
  have null: "null_timer_ok (timer s 0)" "0 < numTimers s" using pc_okD [OF assms(1)] by auto
  then have T0: "active (next_timers s 0)" "period (next_timers s 0) = 0xffffffff"
    by (auto simp: next_timers_def advance_def null_timer_ok_def)
  then have in_A: "unat (timeToFire (next_timers s 0)) \<in> next_times s" using null(2) by (auto simp: next_times_def)
  then show "next_times s \<noteq> {}" by blast
  have "a > now s" if "a \<in> next_times s" for a
    using that advance_ok(4) [OF assms(1,2)] by (auto simp: next_times_def next_timers_def)
  then show lower: "now s < Min (next_times s)" using Min_in [OF fin] in_A by auto
  have "unat (timeToFire (next_timers s 0)) \<le> now s + unat (period (next_timers s 0))"
    using advance_ok(5) [OF assms(1,2), of 0] T0(1) null(2) by (simp add: next_timers_def)
  moreover have "Min (next_times s) \<le> unat (timeToFire (next_timers s 0))" using fin in_A by simp
  ultimately show "Min (next_times s) - now s < 2 ^ 32" using T0(2) by simp
qed

lemma scan_result:
  assumes "pc_ok s" "currCountdown s = 0"
  defines "time \<equiv> ticksTotal s + ucast (currCountdownPeriod s)"
  assumes scan: "scan_inv time (timer s) (numTimers s) c"
  shows "s\<lparr>ticksTotal := time, timer := sc_timer c, currCountdown := ucast (minTimeToFire c - time),
     currCountdownPeriod := ucast (minTimeToFire c - time)\<rparr> = next_period s"
proof -
  note M = next_times [OF assms(1,2)]
  have time: "unat time = now s" "now s < 2 ^ 63"
    using advance_ok(1) [OF assms(1,2)] pc_okD [OF assms(1)] by (auto simp: time_def)
  have lb: "\<And>i. i < numTimers s \<Longrightarrow> active (next_timers s i) \<Longrightarrow> minTimeToFire c \<le> timeToFire (next_timers s i)"
    and ex: "minTimeToFire c = -1 \<or> (\<exists>i<numTimers s. active (next_timers s i) \<and> minTimeToFire c = timeToFire (next_timers s i))"
    and sc: "sc_timer c = next_timers s"
    using scan by (auto simp: scan_inv_def next_timers_def time_def)
  have le: "a \<in> next_times s \<Longrightarrow> unat (minTimeToFire c) \<le> a" for a
    using lb by (auto simp: next_times_def word_le_nat_alt)
  have "Min (next_times s) < 2 ^ 63 + 2 ^ 32" using M(3,4) time(2) by simp
  moreover have "unat (minTimeToFire c) \<le> Min (next_times s)" using le [OF Min_in] M(1,2) by blast
  moreover have "unat (-1 :: Bit64u) = 2 ^ 64 - 1" by (simp add: unsigned_minus_1_eq_mask mask_eq_exp_minus_1)
  ultimately have "minTimeToFire c \<noteq> -1" by auto
  with ex have "unat (minTimeToFire c) \<in> next_times s" by (auto simp: next_times_def)
  then have m: "unat (minTimeToFire c) = Min (next_times s)" using le by (intro Min_eqI [symmetric] M(1)) auto
  then have "unat (minTimeToFire c - time) = Min (next_times s) - now s" using M(3) time(1) by (simp add: unat_diff)
  then have "(ucast (minTimeToFire c - time) :: Bit32u) = of_nat (Min (next_times s) - now s)"
    by (metis of_nat_unat)
  then show ?thesis
    by (simp add: next_period_def Let_def sc time(1) flip: time_def)
qed

lemma fire_timer_triggered: "trig i \<Longrightarrow> fire_timer call trig i = fire_timer call (\<lambda>_. True) i"
  "\<not> trig i \<Longrightarrow> fire_timer call trig i = id"
  by (simp_all add: fire_timer_def fun_eq_iff split: option.split)

lemma countdownEvent_spec:
  assumes "pc_ok s" "currCountdown s = 0"
  shows "countdownEvent call s = fold (fire_timer call (\<lambda>_. True)) (due_timers s) (next_period s)"
proof -
  define time where "time = ticksTotal s + ucast (currCountdownPeriod s)"
  define c where "c = fold (scan_timer time) [0..<numTimers s]
    \<lparr>sc_timer = timer s, triggered = (\<lambda>_. False), sc_first = numTimers s, sc_last = 0, minTimeToFire = -1\<rparr>"
  have scan: "scan_inv time (timer s) (numTimers s) c" unfolding c_def by (rule scan_inv_fold)
  then have trig: "triggered c = (\<lambda>i. i < numTimers s \<and> due time (timer s i))"
    and range: "\<And>i. i < numTimers s \<Longrightarrow> due time (timer s i) \<Longrightarrow> sc_first c \<le> i \<and> i \<le> sc_last c"
    by (auto simp: scan_inv_def)
  have "countdownEvent call s = fold (fire_timer call (triggered c)) [sc_first c..<Suc (sc_last c)] (next_period s)"
    unfolding scan_result [OF assms, folded time_def, OF scan, symmetric]
    by (simp add: countdownEvent_def Let_def c_def time_def del: upt_Suc)
  also have "\<dots> = fold (fire_timer call (triggered c)) (filter (triggered c) [sc_first c..<Suc (sc_last c)]) (next_period s)"
    by (rule fold_skip) (rule fire_timer_triggered)
  also have "filter (triggered c) [sc_first c..<Suc (sc_last c)] = due_timers s"
    using range by (intro sorted_distinct_set_unique) (auto simp: trig time_def sorted_wrt_filter less_Suc_eq_le simp del: upt_Suc)
  also have "fold (fire_timer call (triggered c)) (due_timers s) (next_period s) =
      fold (fire_timer call (\<lambda>_. True)) (due_timers s) (next_period s)"
    by (intro fold_cong refl fire_timer_triggered) (auto simp: trig time_def)
  finally show ?thesis .
qed

lemma next_period_inv:
  assumes "pc_ok s" "currCountdown s = 0"
  shows "pc_inv (next_period s)" "now (next_period s) = now s" "event_time (next_period s) = Min (next_times s)"
proof -
  note M = next_times [OF assms]
  define time where "time = ticksTotal s + ucast (currCountdownPeriod s)"
  have time: "unat time = now s"
    using advance_ok(1) [OF assms] pc_okD [OF assms(1)] by (auto simp: time_def)
  define d where "d = Min (next_times s) - now s"
  have "d < 2 ^ 32" "0 < d" using M(3,4) by (simp_all add: d_def)
  then have d: "unat (of_nat d :: Bit32u) = d" "0 < d" by (simp_all add: unat_of_nat)
  have np: "next_period s = s\<lparr>ticksTotal := time, timer := next_timers s, currCountdown := of_nat d, currCountdownPeriod := of_nat d\<rparr>"
    by (simp add: next_period_def Let_def time d_def flip: time_def)
  show nw: "now (next_period s) = now s"
    by (simp add: np now_def [of "_\<lparr>currCountdownPeriod := _\<rparr>"] event_time_def d time)
  show ev: "event_time (next_period s) = Min (next_times s)"
    using M(3) by (simp add: np event_time_def d time) (simp add: d_def)
  have "timer_ok (Min (next_times s)) (now s) (next_timers s i)" if "i < numTimers s" for i
  proof -
    have "Min (next_times s) \<le> unat (timeToFire (next_timers s i))" if "active (next_timers s i)"
      using M(1) that \<open>i < numTimers s\<close> by (intro Min_le) (auto simp: next_times_def)
    then show ?thesis
      using advance_ok(2-) [OF assms that] that by (simp add: timer_ok_def next_timers_def)
  qed
  moreover have "null_timer_ok (next_timers s 0)"
    using pc_okD(1,3) [OF assms(1)] by (auto simp: null_timer_ok_def next_timers_def advance_def)
  moreover have "(of_nat d :: Bit32u) \<noteq> 0" using d by (metis unat_0 less_irrefl)
  ultimately show "pc_inv (next_period s)"
    using pc_okD [OF assms(1)] nw ev by (simp add: pc_inv_def pc_ok_def) (simp add: np)
qed

section \<open>Handlers under contract\<close>

text \<open>
  The contract of the timer handlers: whatever they do to the timers they do through the timer
  interface.
\<close>

locale timer_callbacks =
  fixes call :: "'a timer_call"
  assumes callback_steps: "pc_inv s \<Longrightarrow> timer_step\<^sup>*\<^sup>* s (call f p s)"
begin

lemma fire_timer_inv:
  assumes "pc_inv s" shows "pc_inv (fire_timer call trig i s)" "now (fire_timer call trig i s) = now s"
proof -
  have view: "timer_view (t\<lparr>triggeredTimer := j\<rparr>) = timer_view t" for t :: "'a bx_pc_system_c_scheme" and j
    by (simp add: timer_view_def)
  have "pc_inv (call f p (s\<lparr>triggeredTimer := i\<rparr>)) \<and> now (call f p (s\<lparr>triggeredTimer := i\<rparr>)) = now s" for f p
    using timer_steps_inv [OF callback_steps] pc_inv_view [OF view [of i s]] assms by auto
  then show "pc_inv (fire_timer call trig i s)" "now (fire_timer call trig i s) = now s"
    using assms pc_inv_view [OF view] by (auto simp: fire_timer_def split: option.split)
qed

lemma fire_timers_inv:
  "pc_inv s \<Longrightarrow> pc_inv (fold (fire_timer call trig) is s) \<and> now (fold (fire_timer call trig) is s) = now s"
  by (induction "is" arbitrary: s) (simp_all add: fire_timer_inv)

lemma countdownEvent_inv:
  assumes "pc_ok s" "currCountdown s = 0"
  shows "pc_inv (countdownEvent call s)" "now (countdownEvent call s) = now s"
  using fire_timers_inv [OF next_period_inv(1) [OF assms]] next_period_inv(2) [OF assms]
  by (simp_all add: countdownEvent_spec [OF assms])

lemma countdown_elapse:
  assumes "pc_inv s" "unat n \<le> unat (currCountdown s)" "now s + unat n < 2 ^ 63"
  shows "pc_ok (s\<lparr>currCountdown := currCountdown s - n\<rparr>)" "now (s\<lparr>currCountdown := currCountdown s - n\<rparr>) = now s + unat n"
proof -
  let ?s = "s\<lparr>currCountdown := currCountdown s - n\<rparr>"
  have ok: "pc_ok s" using assms(1) by (simp add: pc_inv_def)
  note D = pc_okD [OF ok]
  have cd: "unat (currCountdown ?s) = unat (currCountdown s) - unat n" using assms(2) by (simp add: unat_diff)
  then show nw: "now ?s = now s + unat n" using assms(2) D(4) by (simp add: now_def event_time_def)
  have "timer_ok (event_time ?s) (now ?s) (timer ?s i)" if "i < numTimers s" for i
    using D(6) [OF that] by (auto simp: nw timer_ok_def event_time_def)
  then show "pc_ok ?s"
    using D cd nw assms(3) by (simp add: pc_ok_def)
qed

lemma tick1_inv:
  assumes "pc_inv s" "now s + 1 < 2 ^ 63"
  shows "pc_inv (tick1 call s) \<and> now (tick1 call s) = now s + 1"
proof -
  have "unat (currCountdown s) \<noteq> 0" using assms(1) by (simp add: pc_inv_def unat_eq_zero)
  then have "1 \<le> unat (currCountdown s)" by simp
  then have s: "pc_ok (s\<lparr>currCountdown := currCountdown s - 1\<rparr>)" "now (s\<lparr>currCountdown := currCountdown s - 1\<rparr>) = now s + 1"
    using countdown_elapse [OF assms(1), of 1] assms(2) by simp_all
  then show ?thesis
    using countdownEvent_inv [OF s(1)] by (auto simp: tick1_def Let_def pc_inv_def)
qed

lemma tickn_inv:
  assumes "pc_inv s" "now s + unat n < 2 ^ 63"
  shows "\<exists>s'. tickn call n s = Some s' \<and> pc_inv s' \<and> now s' = now s + unat n"
  using assms
proof (induction "unat n" arbitrary: n s rule: less_induct)
  case less
  have cd: "0 < unat (currCountdown s)"
    using less.prems(1) by (simp add: pc_inv_def unat_gt_0)
  show ?case
  proof (cases "n \<ge> currCountdown s")
    case True
    then have le: "unat (currCountdown s) \<le> unat n" by (simp add: word_le_nat_alt)
    define s0 where "s0 = s\<lparr>currCountdown := 0\<rparr>"
    define s1 where "s1 = countdownEvent call s0"
    have s0: "pc_ok s0" "currCountdown s0 = 0" "now s0 = now s + unat (currCountdown s)"
      using countdown_elapse [OF less.prems(1), of "currCountdown s"] less.prems(2) le by (simp_all add: s0_def)
    have s1: "pc_inv s1" "now s1 = now s + unat (currCountdown s)"
      using countdownEvent_inv [OF s0(1,2)] s0(3) by (simp_all add: s1_def)
    have n': "unat (n - currCountdown s) = unat n - unat (currCountdown s)" using le by (simp add: unat_diff)
    obtain s' where "tickn call (n - currCountdown s) s1 = Some s'" "pc_inv s'" "now s' = now s1 + unat (n - currCountdown s)"
      using less.hyps [of "n - currCountdown s" s1] less.prems(2) cd le n' s1 by auto
    then show ?thesis
      using True n' s1(2) le by (subst tickn.simps) (simp add: s0_def s1_def)
  next
    case False
    then have lt: "unat n < unat (currCountdown s)" by (simp add: word_le_nat_alt)
    then have "unat (currCountdown s - n) \<noteq> 0" by (simp add: unat_diff)
    then have "pc_inv (s\<lparr>currCountdown := currCountdown s - n\<rparr>)"
      using countdown_elapse(1) [OF less.prems(1), of n] less.prems(2) lt by (auto simp: pc_inv_def)
    moreover have "now (s\<lparr>currCountdown := currCountdown s - n\<rparr>) = now s + unat n"
      using countdown_elapse(2) [OF less.prems(1), of n] less.prems(2) lt by simp
    ultimately show ?thesis
      using False by (subst tickn.simps) simp
  qed
qed

end

section \<open>A timer the handlers leave alone\<close>

text \<open>What becomes of a timer that only the passage of time until \<open>till\<close> changes.\<close>

definition timer_at :: "nat \<Rightarrow> bx_timer \<Rightarrow> bx_timer" where
  "timer_at till t =
     (let ttf = unat (timeToFire t); p = unat (period t)
      in if \<not> active t \<or> till < ttf then t
         else if continuous t then t\<lparr>timeToFire := of_nat (ttf + p * ((till - ttf) div p + 1))\<rparr>
         else t\<lparr>active := False\<rparr>)"

locale undisturbed_timer = timer_callbacks call for call :: "'a timer_call" +
  fixes i :: nat
  assumes callback_frame: "i < numTimers s \<Longrightarrow> timer (call f p s) i = timer s i \<and> i < numTimers (call f p s)"
begin

lemma fire_timer_frame:
  "i < numTimers s \<Longrightarrow> timer (fire_timer call trig j s) i = timer s i \<and> i < numTimers (fire_timer call trig j s)"
  using callback_frame [of "s\<lparr>triggeredTimer := j\<rparr>"] by (simp add: fire_timer_def split: option.split)

lemma fire_timers_frame:
  "i < numTimers s \<Longrightarrow> timer (fold (fire_timer call trig) is s) i = timer s i \<and> i < numTimers (fold (fire_timer call trig) is s)"
  by (induction "is" arbitrary: s) (simp_all add: fire_timer_frame)

lemma countdownEvent_frame:
  assumes "pc_ok s" "currCountdown s = 0" "i < numTimers s"
  shows "timer (countdownEvent call s) i = advance (ticksTotal s + ucast (currCountdownPeriod s)) (timer s i)"
    "i < numTimers (countdownEvent call s)"
proof -
  have "numTimers (next_period s) = numTimers s" "timer (next_period s) i = advance (ticksTotal s + ucast (currCountdownPeriod s)) (timer s i)"
    using assms(3) by (simp_all add: next_period_def Let_def next_timers_def)
  then show "timer (countdownEvent call s) i = advance (ticksTotal s + ucast (currCountdownPeriod s)) (timer s i)"
    "i < numTimers (countdownEvent call s)"
    using fire_timers_frame [of "next_period s"] assms(3) by (simp_all add: countdownEvent_spec [OF assms(1,2)])
qed

lemma timer_at_advance:
  assumes "pc_ok s" "currCountdown s = 0" "i < numTimers s" "now s \<le> till" "till < 2 ^ 63"
  shows "timer_at till (advance (ticksTotal s + ucast (currCountdownPeriod s)) (timer s i)) = timer_at till (timer s i)"
proof (cases "due (ticksTotal s + ucast (currCountdownPeriod s)) (timer s i)")
  case True
  define t where "t = timer s i"
  define t' where "t' = advance (ticksTotal s + ucast (currCountdownPeriod s)) t"
  define E P where "E = unat (timeToFire t)" and "P = unat (period t)"
  have E: "E = now s" and a: "active t"
    using True advance_ok(1) [OF assms(1-3)] by (auto simp: E_def t_def due_def)
  show ?thesis
  proof (cases "continuous t")
    case False
    then show ?thesis using True a assms(4) E by (simp add: timer_at_def advance_def Let_def flip: t_def E_def)
  next
    case True
    have t': "t' = t\<lparr>timeToFire := timeToFire t + period t\<rparr>" "active t'" "continuous t'" "period t' = period t"
      using True \<open>due _ _\<close> a by (simp_all add: t'_def t_def advance_def)
    have P: "0 < P" "P < 2 ^ 63" using advance_ok(2,3) [OF assms(1-3)] t'(4) by (simp_all add: P_def t'_def t_def)
    have ttf: "unat (timeToFire t') = E + P"
      using P(2) pc_okD(5) [OF assms(1)] E by (simp add: t'(1) unat_add_64 E_def P_def)
    have "timer_at till t' = t\<lparr>timeToFire := of_nat (E + P * ((till - E) div P + 1))\<rparr>"
    proof (cases "till < E + P")
      case True
      then have "(till - E) div P = 0" using assms(4) E by simp
      moreover have "timeToFire t' = of_nat (E + P)" by (simp flip: ttf)
      ultimately show ?thesis using True ttf t' by (simp add: timer_at_def Let_def)
    next
      case False
      then have "(till - E) div P = Suc ((till - (E + P)) div P)" using P(1) by (simp add: le_div_geq)
      then show ?thesis using False ttf t' by (simp add: timer_at_def Let_def algebra_simps flip: P_def)
    qed
    moreover have "timer_at till t = t\<lparr>timeToFire := of_nat (E + P * ((till - E) div P + 1))\<rparr>"
      using a True assms(4) E by (simp add: timer_at_def Let_def flip: E_def P_def)
    ultimately show ?thesis by (simp add: t'_def t_def)
  qed
qed (simp add: advance_def)

lemma timer_at_pending:
  assumes "pc_ok s" "i < numTimers s" "till < event_time s" shows "timer_at till (timer s i) = timer s i"
  using pc_okD(6) [OF assms(1,2)] assms(3) by (auto simp: timer_at_def timer_ok_def Let_def)

lemma tickn_timer:
  assumes "pc_inv s" "i < numTimers s" "now s + unat n < 2 ^ 63" "tickn call n s = Some s'"
  shows "timer s' i = timer_at (now s + unat n) (timer s i)"
  using assms
proof (induction "unat n" arbitrary: n s rule: less_induct)
  case less
  have cd: "0 < unat (currCountdown s)" and ok: "pc_ok s"
    using less.prems(1) by (simp_all add: pc_inv_def unat_gt_0)
  note step = tickn.simps [of call n s]
  show ?case
  proof (cases "n \<ge> currCountdown s")
    case True
    then have le: "unat (currCountdown s) \<le> unat n" by (simp add: word_le_nat_alt)
    define s0 where "s0 = s\<lparr>currCountdown := 0\<rparr>"
    define s1 where "s1 = countdownEvent call s0"
    have s0: "pc_ok s0" "currCountdown s0 = 0" "now s0 = now s + unat (currCountdown s)" "i < numTimers s0" "timer s0 = timer s"
      using countdown_elapse [OF less.prems(1), of "currCountdown s"] less.prems(2,3) le by (simp_all add: s0_def)
    have s1: "pc_inv s1" "now s1 = now s0" using countdownEvent_inv [OF s0(1,2)] by (simp_all add: s1_def)
    note fr = countdownEvent_frame [OF s0(1,2,4), folded s1_def]
    have n': "unat (n - currCountdown s) = unat n - unat (currCountdown s)" using le by (simp add: unat_diff)
    have "tickn call (n - currCountdown s) s1 = Some s'"
      using less.prems(4) True unfolding step by (simp add: s0_def s1_def)
    then have "timer s' i = timer_at (now s1 + unat (n - currCountdown s)) (timer s1 i)"
      using less.hyps [of "n - currCountdown s" s1] less.prems(3) cd le n' s1 fr(2) s0(3) by auto
    then show ?thesis
      using timer_at_advance [OF s0(1,2,4), of "now s + unat n"] less.prems(3) le s0 s1 n' by (simp add: fr(1))
  next
    case False
    then have "unat n < unat (currCountdown s)" by (simp add: word_le_nat_alt)
    then have "now s + unat n < event_time s" using pc_okD(4) [OF ok] by (simp add: now_def event_time_def)
    moreover have "timer s' = timer s"
      using less.prems(4) False unfolding step by auto
    ultimately show ?thesis using timer_at_pending [OF ok less.prems(2)] by simp
  qed
qed

end

section \<open>The handlers of the system meet the contract\<close>

lemma pc_call_view: "timer_view (pc_call dev f p s) = timer_view s"
  by (cases f) (simp_all add: pc_call_def nullTimer_call_def benchmarkTimer_call_def timer_view_def)

interpretation pcs: timer_callbacks "pc_call dev" for dev :: "nat \<Rightarrow> nat \<Rightarrow> 'a \<Rightarrow> 'a"
  by unfold_locales (rule r_into_rtranclp, rule timer_step.other, rule pc_call_view)

lemma pc_call_frame: "timer (pc_call dev f p s) = timer s" "numTimers (pc_call dev f p s) = numTimers s"
  using pc_call_view [of dev f p s] by (simp_all add: timer_view_def)

interpretation pct: undisturbed_timer "pc_call dev" i for dev :: "nat \<Rightarrow> nat \<Rightarrow> 'a \<Rightarrow> 'a" and i
  by unfold_locales (simp_all add: pc_call_frame)

text \<open>\<open>activate_timer\<close> and \<open>activate_timer_nsec\<close> reduce to \<open>activate_timer_ticks\<close>.\<close>

lemma activate_timer_ticks_of:
  "activate_timer to_ticks i useconds cont s = activate_timer_ticks i (if useconds = 0 then period (timer s i) else to_ticks useconds) cont s"
  "activate_timer_nsec to_ticks' i nseconds cont s = activate_timer_ticks i (if nseconds = 0 then period (timer s i) else to_ticks' nseconds) cont s"
  by (simp_all add: activate_timer_def activate_timer_nsec_def activate_timer_ticks_def upd_timer_def Let_def time_ticks_def)

lemma timer_step_activate_usec:
  assumes "pc_inv s" "0 < i" "i < numTimers s" "unat (to_ticks useconds) < 2 ^ 63"
  shows "timer_step s (activate_timer to_ticks i useconds cont s)"
  using assms pc_okD(6) [of s i] unfolding activate_timer_ticks_of
  by (intro timer_step.activate) (auto simp: pc_inv_def timer_ok_def)

lemma pc_inv_init: "pc_inv (pc_initialize (pc_system_new z))"
  by (simp add: pc_initialize_def pc_system_new_def upd_timer_def Let_def pc_inv_def pc_ok_def now_def event_time_def
      timer_ok_def null_timer_ok_def)

section \<open>Properties\<close>

text \<open>
  C33: After start-up the timer framework is well formed: the countdown is positive and no active timer lies before the
  next countdown event or more than its period ahead. Every call of the timer interface with valid arguments keeps
  this and the current time, and a clock tick, while the time is below \<open>2 ^ 63\<close>, keeps it and advances the time by
  one, whatever handlers run that only use the timer interface (\<open>timer_callbacks\<close>).
\<close>

theorem pc_system_invariant:
  assumes "timer_callbacks call" "pc_inv s" "timer_step s s'" "unat (time_ticks s') + 1 < 2 ^ 63"
  shows "pc_inv (pc_initialize (pc_system_new z))
    \<and> pc_inv s' \<and> time_ticks s' = time_ticks s
    \<and> pc_inv (tick1 call s') \<and> time_ticks (tick1 call s') = time_ticks s' + 1"
proof -
  have s': "pc_inv s'" "now s' = now s" using timer_step_inv [OF assms(3,2)] by auto
  have t: "unat (time_ticks u) = now u" if "pc_inv u" for u :: "'a bx_pc_system_c_scheme"
    using that by (simp add: unat_time_ticks pc_inv_def)
  have tick: "pc_inv (tick1 call s')" "now (tick1 call s') = now s' + 1"
    using timer_callbacks.tick1_inv [OF assms(1) s'(1)] assms(4) t [OF s'(1)] by auto
  have "unat (time_ticks (tick1 call s')) = unat (time_ticks s' + 1)"
    using assms(4) t [OF tick(1)] t [OF s'(1)] tick(2) by (simp add: unat_add_64)
  then have "time_ticks (tick1 call s') = time_ticks s' + 1" by (simp only: word_unat_eq_iff)
  moreover have "unat (time_ticks s') = unat (time_ticks s)"
    using t [OF assms(2)] t [OF s'(1)] s'(2) by simp
  then have "time_ticks s' = time_ticks s" by (simp only: word_unat_eq_iff)
  ultimately show ?thesis using s'(1) tick(1) pc_inv_init by simp
qed

text \<open>The state after start-up with two timers: a one-shot one and a periodic one.\<close>

definition sample_system :: "nat bx_pc_system_c_scheme" where
  "sample_system =
     (let z = \<lparr>timer = (\<lambda>_. \<lparr>inUse = False, period = 0, timeToFire = 0, active = False, continuous = False, funct = None,
                 this_ptr = 0, timer_id = [], param = 0\<rparr>), numTimers = 0, triggeredTimer = 0, currCountdown = 0,
               currCountdownPeriod = 0, ticksTotal = 0, lastTimeUsec = 0, usecSinceLast = 0, HRQ = False, async_event = False,
               enable_a20 = True, a20_mask = 0, kill_bochs_request = False, bx_user_quit = False, \<dots> = 0\<rparr>;
          s = pc_initialize (pc_system_new z);
          s = snd (register_timer_ticks 0 (Some benchmarkTimer) 50 False True ''bench'' s)
      in snd (register_timer_ticks 0 (Some (deviceTimer 1)) 30 True True ''dev'' s))"

lemma sample_system_inv: "pc_inv sample_system"
  unfolding sample_system_def Let_def by (intro pc_inv_register [THEN conjunct1] pc_inv_init) simp_all

theorem pc_system_invariant_witness:
  "pc_inv (tick1 (pc_call (\<lambda>_ _ n. n + 1)) (deactivate_timer 1 sample_system))
    \<and> time_ticks (tick1 (pc_call (\<lambda>_ _ n. n + 1)) (deactivate_timer 1 sample_system)) = 1"
proof -
  let ?s = "deactivate_timer 1 sample_system"
  have "1 < numTimers sample_system" by code_simp
  then have step: "timer_step sample_system ?s" by (intro timer_step.deactivate) simp_all
  have time: "time_ticks ?s = 0" by code_simp
  then have "unat (time_ticks ?s) + 1 < 2 ^ 63" by simp
  from pc_system_invariant [OF pcs.timer_callbacks_axioms sample_system_inv step this, where dev1 = "\<lambda>_ _ n. n + 1" and z = sample_system]
  show ?thesis using time by simp
qed

text \<open>
  C34: From a state that satisfies the timer invariant, with timer handlers that obey the contract \<open>timer_callbacks\<close>, and for
  every positive \<open>n\<close> that keeps the time below \<open>2 ^ 63\<close>, the loop of \<open>tickn\<close> ends, in a state that satisfies the
  invariant again and with the time advanced by exactly \<open>n\<close>; and ticking once is \<open>tick1\<close>.
\<close>

theorem tickn_returns:
  assumes "timer_callbacks call" "pc_inv s" "unat (time_ticks s) + unat n < 2 ^ 63" "0 < n"
  shows "(\<exists>s'. tickn call n s = Some s' \<and> pc_inv s' \<and> time_ticks s' = time_ticks s + ucast n) \<and> tickn call 1 s = Some (tick1 call s)"
proof -
  have ok: "pc_ok s" "currCountdown s \<noteq> 0" using assms(2) by (simp_all add: pc_inv_def)
  have nw: "now s = unat (time_ticks s)" using unat_time_ticks [OF ok(1)] by simp
  obtain s' where s': "tickn call n s = Some s'" "pc_inv s'" "now s' = now s + unat n"
    using timer_callbacks.tickn_inv [OF assms(1,2)] assms(3) nw by auto
  have "unat (time_ticks s') = unat (time_ticks s + ucast n)"
    using unat_time_ticks [of s'] s'(2,3) assms(3) nw by (simp add: pc_inv_def unat_add_64 unat_widen)
  then have t: "time_ticks s' = time_ticks s + ucast n" by (simp only: word_unat_eq_iff)
  have "unat n \<noteq> 0" using assms(4) by (simp add: unat_gt_0 word_gt_0)
  then have one: "now s + 1 < 2 ^ 63" using assms(3) nw by simp
  have "currCountdown (tick1 call s) \<noteq> 0"
    using timer_callbacks.tick1_inv [OF assms(1,2) one] by (simp add: pc_inv_def)
  then have zero: "tickn call 0 (tick1 call s) = Some (tick1 call s)"
    by (subst tickn.simps) simp
  have "tickn call 1 s = Some (tick1 call s)"
  proof (cases "currCountdown s = 1")
    case True
    then show ?thesis using zero by (subst tickn.simps) (simp add: tick1_def Let_def)
  next
    case False
    then have "\<not> 1 \<ge> currCountdown s" using ok(2) by (metis word_le_sub1 word_less_1 linorder_not_le order_le_imp_less_or_eq)
    then show ?thesis using False by (subst tickn.simps) (simp add: tick1_def Let_def)
  qed
  then show ?thesis using s' t by blast
qed

theorem tickn_returns_witness:
  "\<exists>s'. tickn (pc_call (\<lambda>_ _ n. n + 1)) 100 sample_system = Some s' \<and> pc_inv s' \<and> time_ticks s' = 100"
proof -
  have "time_ticks sample_system = 0" by code_simp
  then show ?thesis
    using tickn_returns [OF pcs.timer_callbacks_axioms sample_system_inv, of 100] by fastforce
qed

text \<open>
  C36: When the countdown of a well-formed timer framework (\<open>pc_ok\<close>) has run to 0, a countdown event moves the clock to the
  event time, stops every due one-shot timer, moves every due continuous timer one period on, sets the countdown to
  the earliest remaining time to fire, and then runs the handlers of exactly the due timers, in the order of their
  numbers.
\<close>

theorem countdownEvent_refine:
  assumes "pc_ok s" "currCountdown s = 0"
  shows "countdownEvent call s = fold (fire_timer call (\<lambda>_. True)) (due_timers s) (next_period s)
    \<and> pc_inv (next_period s) \<and> event_time (next_period s) = Min (next_times s) \<and> now (next_period s) = now s"
  using countdownEvent_spec [OF assms] next_period_inv [OF assms] by simp

theorem countdownEvent_refine_witness:
  "let s = sample_system\<lparr>currCountdown := 0\<rparr>
   in due_timers s = [2] \<and>
      countdownEvent (pc_call (\<lambda>_ _ n. n + 1)) s = fire_timer (pc_call (\<lambda>_ _ n. n + 1)) (\<lambda>_. True) 2 (next_period s)"
proof -
  let ?s = "sample_system\<lparr>currCountdown := 0\<rparr>"
  have cd: "currCountdown sample_system = 30" "time_ticks sample_system = 0" by code_simp+
  have "now sample_system = 0"
    using unat_time_ticks [of sample_system] sample_system_inv cd(2) by (simp add: pc_inv_def)
  then have "pc_ok ?s"
    using pcs.countdown_elapse(1) [OF sample_system_inv, of 30] cd(1) by simp
  moreover have "due_timers ?s = [2]" by code_simp
  ultimately show ?thesis
    using countdownEvent_refine [of ?s "pc_call (\<lambda>_ _ n. n + 1)"] by (simp add: Let_def)
qed

text \<open>
  C35: Timers fire on time. From a state that satisfies the timer invariant, with handlers that obey the contract and leave
  timer \<open>i\<close> alone (\<open>undisturbed_timer\<close>), and while the time stays below \<open>2 ^ 63\<close>: ticking returns, the timer keeps its
  state while the clock has not reached its time to fire; once the clock has, a one-shot timer is stopped, and a
  continuous timer has been advanced by as many periods as fit, so its next time to fire is the first multiple that is
  still ahead.
\<close>

theorem timers_fire_on_time:
  assumes "undisturbed_timer call i" "pc_inv s" "i < numTimers s" "unat (time_ticks s) + unat n < 2 ^ 63"
  shows "\<exists>s'. tickn call n s = Some s' \<and> timer s' i = timer_at (unat (time_ticks s) + unat n) (timer s i)"
proof -
  note cb = undisturbed_timer.axioms(1) [OF assms(1)]
  have "now s = unat (time_ticks s)" using assms(2) by (simp add: unat_time_ticks pc_inv_def)
  then show ?thesis
    using timer_callbacks.tickn_inv [OF cb assms(2)] undisturbed_timer.tickn_timer [OF assms(1-3)] assms(4) by fastforce
qed

theorem timers_fire_on_time_witness:
  "\<exists>s'. tickn (pc_call (\<lambda>_ _ n. n + 1)) 100 sample_system = Some s' \<and> active (timer s' 2) \<and> timeToFire (timer s' 2) = 120"
proof -
  have t: "time_ticks sample_system = 0" "active (timer sample_system 2)" "continuous (timer sample_system 2)"
    "timeToFire (timer sample_system 2) = 30" "period (timer sample_system 2) = 30" and n: "2 < numTimers sample_system"
    by code_simp+
  have "timer_at 100 (timer sample_system 2) = (timer sample_system 2)\<lparr>timeToFire := 120\<rparr>"
    by (simp add: timer_at_def Let_def t)
  then show ?thesis
    using timers_fire_on_time [OF pct.undisturbed_timer_axioms sample_system_inv n, of 100, where dev1 = "\<lambda>_ _ n. n + 1"] t
    by auto
qed

lemma free_slot_first: "i \<in> set is \<Longrightarrow> sorted is \<Longrightarrow> i < free_slot t is n \<Longrightarrow> inUse (t i)"
  by (induction "is") (auto split: if_splits)

lemma free_slot_unused: "\<not> inUse (t (free_slot t is n)) \<or> free_slot t is n = n"
  by (induction "is") auto

lemma timer_assigned:
  "t\<lparr>inUse := a, period := b, timeToFire := c, active := d, continuous := e, funct := f, this_ptr := g, timer_id := h, param := k\<rparr>
   = \<lparr>inUse = a, period = b, timeToFire = c, active = d, continuous = e, funct = f, this_ptr = g, timer_id = h, param = k\<rparr>"
  for t :: bx_timer
  by (cases t) simp

lemma register_result:
  assumes "\<not> 64 \<le> numTimers s"
  defines "i \<equiv> free_slot (timer s) [1..<numTimers s] (numTimers s)"
  shows "fst (register_timer_ticks ptr f ticks cont act name s) = int i"
    "timer (snd (register_timer_ticks ptr f ticks cont act name s)) =
       (timer s)(i := \<lparr>inUse = True, period = max 1 ticks, timeToFire = time_ticks s + max 1 ticks, active = act, continuous = cont,
         funct = f, this_ptr = ptr, timer_id = take 31 name, param = 0\<rparr>)"
    "numTimers (snd (register_timer_ticks ptr f ticks cont act name s)) = (if i = numTimers s then numTimers s + 1 else numTimers s)"
proof -
  have "(if ticks < 1 then 1 else ticks) = max 1 ticks" by (auto simp: max_def word_less_nat_alt word_le_nat_alt)
  then show "fst (register_timer_ticks ptr f ticks cont act name s) = int i"
    "timer (snd (register_timer_ticks ptr f ticks cont act name s)) =
       (timer s)(i := \<lparr>inUse = True, period = max 1 ticks, timeToFire = time_ticks s + max 1 ticks, active = act, continuous = cont,
         funct = f, this_ptr = ptr, timer_id = take 31 name, param = 0\<rparr>)"
    "numTimers (snd (register_timer_ticks ptr f ticks cont act name s)) = (if i = numTimers s then numTimers s + 1 else numTimers s)"
    using assms(1) unfolding register_timer_ticks_def
    by (simp_all only: Let_def i_def) (simp_all add: upd_timer_def skew_countdown_def timer_assigned)
qed

text \<open>
  Registering a timer fails with -1 and no effect exactly when the bound on timers has been reached
  (even if a slot below it is free). Otherwise it returns the lowest free slot, sets it up to fire after
  the given ticks (at least 1), marks it in use, and leaves every other timer alone; the timer can be
  given back only while it is inactive, and then the slot is free again.
\<close>

lemma register_unregister:
  assumes "0 < numTimers s"
  shows "case register_timer_ticks ptr f ticks cont act name s of (r, s') \<Rightarrow>
     if 64 \<le> numTimers s then r = -1 \<and> s' = s
     else (\<exists>i. r = int i \<and> 0 < i \<and> i \<le> numTimers s \<and> (i = numTimers s \<or> \<not> inUse (timer s i))
        \<and> list_all (\<lambda>j. inUse (timer s j)) [1..<i] \<and> i < numTimers s'
        \<and> inUse (timer s' i) \<and> active (timer s' i) = act \<and> continuous (timer s' i) = cont \<and> funct (timer s' i) = f
        \<and> period (timer s' i) = max 1 ticks \<and> timeToFire (timer s' i) = time_ticks s + max 1 ticks
        \<and> (timer s')(i := timer s i) = timer s
        \<and> (case unregisterTimer i s' of (ok, s'') \<Rightarrow> ok = (\<not> act) \<and> inUse (timer s'' i) = act \<and> (ok \<or> s'' = s')))"
proof (cases "64 \<le> numTimers s")
  case True
  then show ?thesis by (simp add: register_timer_ticks_def Let_def)
next
  case False
  define i where "i = free_slot (timer s) [1..<numTimers s] (numTimers s)"
  define s' where "s' = snd (register_timer_ticks ptr f ticks cont act name s)"
  have i: "0 < i" "i \<le> numTimers s" using free_slot_bounds [of 1 "numTimers s" "timer s"] assms by (auto simp: i_def)
  have used: "inUse (timer s j)" if "1 \<le> j" "j < i" for j
    using free_slot_first [of j "[1..<numTimers s]"] that i by (auto simp: i_def)
  have free: "i = numTimers s \<or> \<not> inUse (timer s i)" using free_slot_unused [of "timer s"] by (auto simp: i_def)
  note r = register_result [OF False, of ptr f ticks cont act name, folded i_def s'_def]
  have "case unregisterTimer i s' of (ok, s'') \<Rightarrow> ok = (\<not> act) \<and> inUse (timer s'' i) = act \<and> (ok \<or> s'' = s')"
    using r(2) by (simp add: unregisterTimer_def upd_timer_def Let_def)
  moreover have "list_all (\<lambda>j. inUse (timer s j)) [1..<i]" using used by (simp add: list_all_iff)
  ultimately show ?thesis
    using False i free r by (auto simp: case_prod_unfold simp flip: s'_def intro!: exI [of _ i])
qed

text \<open>
  \<open>time_usec_sequential\<close> returns strictly increasing values, as long as the clock it reads does
  not go back and the 64-bit sum does not overflow; it is never behind that clock.
\<close>

lemma time_usec_sequential_increasing:
  assumes "time_usec_sequential t1 s = (r1, s1)" "time_usec_sequential t2 s1 = (r2, s2)" "t1 \<le> t2"
    and "unat t2 + unat (usecSinceLast s1) < 2 ^ 64 - 1"
  shows "r1 < r2 \<and> t2 < r2"
proof -
  define u where "u = usecSinceLast s1"
  have s1: "lastTimeUsec s1 = t1" "r1 = t1 + u"
    using assms(1) by (auto simp: time_usec_sequential_def Let_def u_def split: if_splits)
  define v where "v = (if t2 = t1 then u else if u \<le> t2 - t1 then 0 else u - (t2 - t1))"
  have r2: "r2 = t2 + (v + 1)"
    using assms(2) s1(1) by (auto simp: time_usec_sequential_def Let_def u_def v_def split: if_splits)
  have d: "unat (t2 - t1) = unat t2 - unat t1" "unat t1 \<le> unat t2"
    using assms(3) by (simp_all add: unat_diff word_le_nat_alt)
  have v: "unat v = (if t2 = t1 then unat u else unat u - (unat t2 - unat t1))"
    using d by (simp add: v_def word_le_nat_alt unat_diff)
  have bound: "unat t2 + unat u < 2 ^ 64 - 1" using assms(4) by (simp add: u_def)
  have "unat v \<le> unat u" using v by simp
  then have "unat r2 = unat t2 + (unat v + 1)"
    using bound by (simp add: r2 unat_add_64)
  moreover have "unat r1 = unat t1 + unat u" using bound d(2) by (simp add: s1(2) unat_add_64)
  ultimately show ?thesis
    using d(2) v by (auto simp: word_less_nat_alt)
qed

text \<open>
  With the A20 line disabled bit 20 of every physical address reads as 0 and no other bit changes;
  enabled, addresses are unchanged. The CPUs are told to flush exactly when the line changes.
\<close>

lemma a20_line:
  "A20ADDR x (snd (set_enable_a20 v s)) = (if v then x else x AND NOT (push_bit 20 1))
    \<and> get_enable_a20 (snd (set_enable_a20 v s)) = v
    \<and> fst (set_enable_a20 v s) = (enable_a20 s \<noteq> v)"
proof -
  have "0xffffffffffefffff = (NOT (push_bit 20 1) :: Bit64u)" "0xffffffffffffffff = (-1 :: Bit64u)" by simp_all
  then have "x AND 0xffffffffffefffff = x AND NOT (push_bit 20 1)" "x AND 0xffffffffffffffff = x AND -1"
    by (simp_all only:)
  then show ?thesis by (simp add: set_enable_a20_def Let_def A20ADDR_def get_enable_a20_def)
qed

end
