(* ===== verification/Memory.thy ===== *)
theory Memory
  imports Pc_System
begin

text \<open>
  The physical memory of \<^verbatim>\<open>memory/memory.cc\<close> and \<^verbatim>\<open>memory/misc_mem.cc\<close>: RAM, BIOS and expansion ROM with the
  flash commands, the areas below 1 MB, SMRAM, the handlers devices register for memory-mapped I/O, direct
  host pointers, and the accesses of DMA; with the write stamps of \<^verbatim>\<open>cpu/icache.h\<close> that every write clears.
  The address space goes through the A20 mask of the PC system, whose record the memory extends.

  RAM is the array \<open>vector\<close> indexed by the physical address, which is what \<open>get_vector\<close> gives access to; the
  blocks behind it are the theory \<^theory_text>\<open>Mem_Blocks\<close>. The host is little-endian, so the word-wise copies move the bytes in
  order. What devices do when a handler of theirs is called, and what the CPUs monitor, are arguments.
\<close>

unbundle bit_operations_syntax

section \<open>State\<close>

text \<open>A host pointer: into the RAM behind \<open>get_vector\<close>, \<open>rom\<close>, \<open>bogus\<close>, or memory of a device.\<close>

datatype host_ptr = Ram Bit64u | Rom Bit32u | Bogus Bit64u | Device nat Bit64u

text \<open>Function pointers are numbers; a null pointer is \<open>None\<close>. The field \<open>next\<close> is the order of the list.\<close>

record memory_handler_struct =
  h_param :: nat
  h_begin :: Bit64u
  h_end :: Bit64u
  h_bitmap :: Bit16u
  read_handler :: nat
  write_handler :: "nat option"
  da_handler :: "nat option"

record BX_MEM_C = bx_pc_system_c +
  memory_handlers :: "nat \<Rightarrow> memory_handler_struct list"
  pci_enabled :: bool
  bios_write_enabled :: bool
  smram_available :: bool
  smram_enable :: bool
  smram_restricted :: bool
  mem_len :: Bit64u
  vector :: "Bit64u \<Rightarrow> Bit8u"
  rom :: "Bit32u \<Rightarrow> Bit8u"
  bogus :: "Bit64u \<Rightarrow> Bit8u"
  dev_mem :: "nat \<Rightarrow> Bit64u \<Rightarrow> Bit8u"
  memory_type :: "nat \<Rightarrow> bool \<Rightarrow> bool"
  bios_rom_addr :: Bit32u
  bios_rom_access :: Bit8u
  flash_type :: Bit8u
  flash_status :: Bit8u
  flash_wsm_state :: Bit8u
  fineGranularityMapping :: "Bit32u \<Rightarrow> Bit32u"
  smc_calls :: "(Bit64u \<times> Bit32u) list"
  mem_panics :: nat

text \<open>
  The environment: the handlers of the devices, by function and parameter; the monitored ranges of
  the CPUs; and the bytes behind the buffer of a caller. Handlers work on the rest of the machine.
\<close>

record 'm mem_env =
  call_read :: "nat \<Rightarrow> nat \<Rightarrow> Bit64u \<Rightarrow> Bit8u list \<Rightarrow> 'm \<Rightarrow> (bool \<times> Bit8u list) \<times> 'm"
  call_write :: "nat \<Rightarrow> nat \<Rightarrow> Bit64u \<Rightarrow> Bit8u list \<Rightarrow> 'm \<Rightarrow> bool \<times> 'm"
  call_da :: "nat \<Rightarrow> nat \<Rightarrow> Bit64u \<Rightarrow> nat \<Rightarrow> 'm \<Rightarrow> host_ptr option"
  is_monitor :: "Bit64u \<Rightarrow> nat \<Rightarrow> 'm \<Rightarrow> bool"
  check_monitor :: "Bit64u \<Rightarrow> nat \<Rightarrow> 'm \<Rightarrow> 'm"
  overrun :: "nat \<Rightarrow> Bit8u"

text \<open>The CPU argument of an access: none for a device, otherwise whether that CPU is in SMM.\<close>

type_synonym cpu_arg = "bool option"

abbreviation (input) BX_READ :: nat where "BX_READ \<equiv> 0"
abbreviation (input) BX_WRITE :: nat where "BX_WRITE \<equiv> 1"
abbreviation (input) BX_EXECUTE :: nat where "BX_EXECUTE \<equiv> 2"
abbreviation (input) BX_RW :: nat where "BX_RW \<equiv> 3"
abbreviation (input) BIOSROMSZ :: Bit32u where "BIOSROMSZ \<equiv> 0x200000"
abbreviation (input) BIOS_MASK :: Bit32u where "BIOS_MASK \<equiv> 0x1fffff"
abbreviation (input) EXROM_MASK :: Bit32u where "EXROM_MASK \<equiv> 0x1ffff"
abbreviation (input) BX_MEM_AREA_E0000 :: nat where "BX_MEM_AREA_E0000 \<equiv> 8"
abbreviation (input) BX_MEM_AREA_F0000 :: nat where "BX_MEM_AREA_F0000 \<equiv> 12"
abbreviation (input) FLASH_READ_ARRAY :: Bit8u where "FLASH_READ_ARRAY \<equiv> 0xff"
abbreviation (input) FLASH_INT_ID :: Bit8u where "FLASH_INT_ID \<equiv> 0x90"
abbreviation (input) FLASH_READ_STATUS :: Bit8u where "FLASH_READ_STATUS \<equiv> 0x70"
abbreviation (input) FLASH_CLR_STATUS :: Bit8u where "FLASH_CLR_STATUS \<equiv> 0x50"
abbreviation (input) FLASH_ERASE_SETUP :: Bit8u where "FLASH_ERASE_SETUP \<equiv> 0x20"
abbreviation (input) FLASH_ERASE_SUSP :: Bit8u where "FLASH_ERASE_SUSP \<equiv> 0xb0"
abbreviation (input) FLASH_PROG_SETUP :: Bit8u where "FLASH_PROG_SETUP \<equiv> 0x40"
abbreviation (input) FLASH_ERASE :: Bit8u where "FLASH_ERASE \<equiv> 0xd0"

definition BIOS_MAP_LAST128K :: "Bit64u \<Rightarrow> Bit32u" where
  "BIOS_MAP_LAST128K a = ucast ((a OR 0xfff00000) AND ucast BIOS_MASK)"

section \<open>Write stamps\<close>

definition hash :: "Bit64u \<Rightarrow> Bit32u" where
  "hash pAddr = drop_bit 12 (ucast pAddr)"

definition PAGE_OFFSET :: "Bit32u \<Rightarrow> Bit32u" where
  "PAGE_OFFSET laddr = laddr AND 0xfff"

definition stamp_mask :: "Bit64u \<Rightarrow> nat \<Rightarrow> Bit32u" where
  "stamp_mask pAddr len =
     push_bit (unat (drop_bit 7 (PAGE_OFFSET (ucast pAddr)))) 1 OR
     push_bit (unat (drop_bit 7 (PAGE_OFFSET (ucast pAddr + of_nat len - 1)))) 1"

definition handleSMC :: "Bit64u \<Rightarrow> Bit32u \<Rightarrow> 'a BX_MEM_C_scheme \<Rightarrow> 'a BX_MEM_C_scheme" where
  "handleSMC pAddr msk s = s\<lparr>smc_calls := (pAddr, msk) # smc_calls s\<rparr>"

definition markICache :: "Bit64u \<Rightarrow> nat \<Rightarrow> 'a BX_MEM_C_scheme \<Rightarrow> 'a BX_MEM_C_scheme" where
  "markICache pAddr len s =
     (let m = fineGranularityMapping s
      in s\<lparr>fineGranularityMapping := m(hash pAddr := m (hash pAddr) OR stamp_mask pAddr len)\<rparr>)"

definition decWriteStamp :: "Bit64u \<Rightarrow> 'a BX_MEM_C_scheme \<Rightarrow> 'a BX_MEM_C_scheme" where
  "decWriteStamp pAddr s =
     (let index = hash pAddr
      in if fineGranularityMapping s index \<noteq> 0
         then let s = handleSMC pAddr 0xffffffff s
              in s\<lparr>fineGranularityMapping := (fineGranularityMapping s)(index := 0)\<rparr>
         else s)"

definition decWriteStamp_len :: "Bit64u \<Rightarrow> nat \<Rightarrow> 'a BX_MEM_C_scheme \<Rightarrow> 'a BX_MEM_C_scheme" where
  "decWriteStamp_len pAddr len s =
     (let index = hash pAddr
      in if fineGranularityMapping s index \<noteq> 0
         then let msk = stamp_mask pAddr len
              in if fineGranularityMapping s index AND msk \<noteq> 0
                 then let s = handleSMC pAddr msk s; m = fineGranularityMapping s
                      in s\<lparr>fineGranularityMapping := m(index := m index AND NOT msk)\<rparr>
                 else s
         else s)"

section \<open>Flash commands\<close>

primrec erase_rom :: "Bit32u \<Rightarrow> nat \<Rightarrow> (Bit32u \<Rightarrow> Bit8u) \<Rightarrow> (Bit32u \<Rightarrow> Bit8u)" where
  "erase_rom addr 0 r = r"
| "erase_rom addr (Suc n) r = (erase_rom addr n r)(addr + of_nat n := 0xff)"

definition flash_read :: "Bit32u \<Rightarrow> 'a BX_MEM_C_scheme \<Rightarrow> Bit8u \<times> 'a BX_MEM_C_scheme" where
  "flash_read addr s =
     (if flash_wsm_state s = FLASH_INT_ID
      then (if addr AND 1 \<noteq> 0 then (if flash_type s = 2 then 0x7c else 0x94) else 0x89, s)
      else if flash_wsm_state s = FLASH_READ_ARRAY then (rom s addr, s)
      else (flash_status s,
            if flash_wsm_state s = FLASH_ERASE then s\<lparr>flash_status := flash_status s OR 0x80\<rparr> else s))"

text \<open>
  The conditions on \<open>flash_addr\<close> in the erase command are assignments in the source: they hold
  whatever the address is.
\<close>

definition flash_erase :: "Bit32u \<Rightarrow> 'a BX_MEM_C_scheme \<Rightarrow> 'a BX_MEM_C_scheme" where
  "flash_erase addr s =
     (if flash_wsm_state s = FLASH_ERASE_SETUP
      then let s = s\<lparr>flash_status := flash_status s AND NOT 0xc0, flash_wsm_state := FLASH_ERASE\<rparr>
           in if flash_type s = 1 \<and> ((0x1c000 :: Bit32u) \<noteq> 0 \<or> (0x1d000 :: Bit32u) \<noteq> 0)
              then s\<lparr>rom := erase_rom addr 0x1000 (rom s)\<rparr>
              else if flash_type s = 2 \<and> ((0x38000 :: Bit32u) \<noteq> 0 \<or> (0x3a000 :: Bit32u) \<noteq> 0)
              then s\<lparr>rom := erase_rom addr 0x2000 (rom s)\<rparr>
              else s
      else if flash_wsm_state s = FLASH_ERASE_SUSP
      then s\<lparr>flash_status := flash_status s AND NOT 0x40, flash_wsm_state := FLASH_ERASE\<rparr>
      else s)"

definition flash_write :: "Bit32u \<Rightarrow> Bit8u \<Rightarrow> 'a BX_MEM_C_scheme \<Rightarrow> 'a BX_MEM_C_scheme" where
  "flash_write addr data s =
     (if flash_wsm_state s = FLASH_PROG_SETUP
      then s\<lparr>rom := (rom s)(addr := rom s addr AND data), flash_wsm_state := FLASH_READ_STATUS\<rparr>
      else if data \<in> {FLASH_INT_ID, FLASH_READ_ARRAY, FLASH_ERASE_SETUP, FLASH_ERASE_SUSP, FLASH_PROG_SETUP}
      then s\<lparr>flash_wsm_state := data\<rparr>
      else if data = FLASH_READ_STATUS
      then (if flash_wsm_state s \<noteq> FLASH_ERASE then s\<lparr>flash_wsm_state := data\<rparr> else s)
      else if data = FLASH_CLR_STATUS
      then s\<lparr>flash_status := flash_status s AND NOT 0x38, flash_wsm_state := FLASH_READ_ARRAY\<rparr>
      else if data = FLASH_ERASE then flash_erase addr s
      else s)"

definition rom_read :: "Bit32u \<Rightarrow> 'a BX_MEM_C_scheme \<Rightarrow> Bit8u \<times> 'a BX_MEM_C_scheme" where
  "rom_read a s = (if flash_type s > 0 then flash_read a s else (rom s a, s))"

definition rom_write :: "Bit32u \<Rightarrow> Bit8u \<Rightarrow> 'a BX_MEM_C_scheme \<Rightarrow> 'a BX_MEM_C_scheme" where
  "rom_write a d s = (if flash_type s > 0 then flash_write a d s else s\<lparr>rom := (rom s)(a := d)\<rparr>)"

section \<open>Writing\<close>

definition page_check :: "Bit64u \<Rightarrow> nat \<Rightarrow> 'a BX_MEM_C_scheme \<Rightarrow> 'a BX_MEM_C_scheme" where
  "page_check addr n s =
     (if drop_bit 12 addr \<noteq> drop_bit 12 (addr + of_nat n - 1) then s\<lparr>mem_panics := mem_panics s + 1\<rparr> else s)"

definition is_bios :: "Bit64u \<Rightarrow> 'a BX_MEM_C_scheme \<Rightarrow> bool" where
  "is_bios a20addr s \<longleftrightarrow> \<not> a20addr > 0xffffffff \<and> a20addr \<ge> ucast (bios_rom_addr s)"

definition smram_access :: "cpu_arg \<Rightarrow> Bit64u \<Rightarrow> 'a BX_MEM_C_scheme \<Rightarrow> bool" where
  "smram_access cpu a20addr s =
     (case cpu of None \<Rightarrow> False
      | Some smm_mode \<Rightarrow> a20addr \<ge> 0x000a0000 \<and> a20addr < 0x000c0000 \<and> smram_available s \<and>
          (smram_enable s \<or> smm_mode \<and> \<not> smram_restricted s))"

definition area_of :: "Bit64u \<Rightarrow> nat" where
  "area_of a20addr = (let area = unat (drop_bit 14 a20addr AND 0x0f)
                      in if area > BX_MEM_AREA_F0000 then BX_MEM_AREA_F0000 else area)"

text \<open>Copying bytes to consecutive addresses of RAM.\<close>

primrec put_bytes :: "Bit64u \<Rightarrow> Bit8u list \<Rightarrow> (Bit64u \<Rightarrow> Bit8u) \<Rightarrow> (Bit64u \<Rightarrow> Bit8u)" where
  "put_bytes a [] v = v"
| "put_bytes a (d # ds) v = put_bytes (a + 1) ds (v(a := d))"

primrec get_bytes :: "Bit64u \<Rightarrow> nat \<Rightarrow> (Bit64u \<Rightarrow> Bit8u) \<Rightarrow> Bit8u list" where
  "get_bytes a 0 v = []"
| "get_bytes a (Suc n) v = v a # get_bytes (a + 1) n v"

definition write_vector :: "Bit64u \<Rightarrow> Bit8u list \<Rightarrow> 'a BX_MEM_C_scheme \<Rightarrow> 'a BX_MEM_C_scheme" where
  "write_vector a data s = s\<lparr>vector := put_bytes a data (vector s)\<rparr>"

primrec write_handlers :: "'a mem_env \<Rightarrow> memory_handler_struct list \<Rightarrow> Bit64u \<Rightarrow> Bit8u list \<Rightarrow>
    'a BX_MEM_C_scheme \<Rightarrow> bool \<times> 'a BX_MEM_C_scheme" where
  "write_handlers env [] a20addr data s = (False, s)"
| "write_handlers env (h # hs) a20addr data s =
     (case write_handler h of
        None \<Rightarrow> write_handlers env hs a20addr data s
      | Some f \<Rightarrow>
          if h_begin h \<le> a20addr \<and> h_end h \<ge> a20addr
          then let (handled, m) = call_write env f (h_param h) a20addr data (BX_MEM_C.more s);
                   s = s\<lparr>BX_MEM_C.more := m\<rparr>
               in if handled then (True, s) else write_handlers env hs a20addr data s
          else write_handlers env hs a20addr data s)"

text \<open>The loop that writes 8 bytes where it can; the callers pass at least one byte.\<close>

function write_chunks :: "Bit64u \<Rightarrow> Bit8u list \<Rightarrow> 'a BX_MEM_C_scheme \<Rightarrow> 'a BX_MEM_C_scheme" where
  "write_chunks a20addr data s =
     (if data = [] then s
      else if length data AND 7 = 0
      then write_chunks (a20addr + 8) (drop 8 data) (write_vector a20addr (take 8 data) (decWriteStamp_len a20addr 8 s))
      else write_chunks (a20addr + 1) (tl data) (write_vector a20addr [hd data] (decWriteStamp_len a20addr 1 s)))"
  by pat_completeness auto
termination by (relation "measure (\<lambda>(_, data, _). length data)") auto

declare write_chunks.simps [simp del]

primrec bios_write_loop :: "(Bit64u \<Rightarrow> Bit32u) \<Rightarrow> Bit64u \<Rightarrow> Bit8u list \<Rightarrow> 'a BX_MEM_C_scheme \<Rightarrow> 'a BX_MEM_C_scheme" where
  "bios_write_loop f a20addr [] s = s"
| "bios_write_loop f a20addr (d # ds) s = bios_write_loop f (a20addr + 1) ds (rom_write (f a20addr) d s)"

definition data_at :: "'a mem_env \<Rightarrow> Bit8u list \<Rightarrow> nat \<Rightarrow> Bit8u" where
  "data_at env data j = (if j < length data then data ! j else overrun env (j - length data))"

text \<open>
  The loop over the bytes of A0000 to FFFFF; \<open>n\<close> iterations are left, \<open>j\<close> is the offset of \<open>data_ptr\<close>. The
  write to the BIOS copies the whole buffer and leaves \<open>data_ptr\<close> and \<open>a20addr\<close> behind it.
\<close>

primrec write_upper :: "'a mem_env \<Rightarrow> cpu_arg \<Rightarrow> Bit8u list \<Rightarrow> nat \<Rightarrow> Bit64u \<Rightarrow> nat \<Rightarrow>
    'a BX_MEM_C_scheme \<Rightarrow> 'a BX_MEM_C_scheme" where
  "write_upper env cpu data 0 a20addr j s = s"
| "write_upper env cpu data (Suc n) a20addr j s =
     (if a20addr < 0x000c0000
      then write_upper env cpu data n (a20addr + 1) (j + 1)
             (if cpu \<noteq> None then write_vector a20addr [data_at env data j] s else s)
      else if pci_enabled s \<and> a20addr AND 0xfffc0000 = 0x000c0000
      then (let area = area_of a20addr
            in if memory_type s area True
               then write_upper env cpu data n (a20addr + 1) (j + 1) (write_vector a20addr [data_at env data j] s)
               else if area \<ge> BX_MEM_AREA_E0000 \<and> bios_write_enabled s
               then write_upper env cpu data n (a20addr + of_nat (length data) + 1) (length data + 1)
                      (bios_write_loop BIOS_MAP_LAST128K a20addr data s)
               else write_upper env cpu data n (a20addr + 1) (j + 1) s)
      else write_upper env cpu data n (a20addr + 1) (j + 1) s)"

definition mem_write :: "'a mem_env \<Rightarrow> cpu_arg \<Rightarrow> Bit64u \<Rightarrow> Bit8u list \<Rightarrow> bool \<Rightarrow> 'a BX_MEM_C_scheme \<Rightarrow> 'a BX_MEM_C_scheme" where
  "mem_write env cpu a20addr data bios s =
     (if a20addr < mem_len s \<and> \<not> bios
      then if a20addr < 0x000a0000 \<or> a20addr \<ge> 0x00100000
           then if length data \<in> {8, 4, 2, 1}
                then write_vector a20addr data (decWriteStamp_len a20addr (length data) s)
                else write_chunks a20addr data s
           else write_upper env cpu data (length data) a20addr 0 (decWriteStamp a20addr s)
      else if bios_write_enabled s \<and> bios
      then bios_write_loop (\<lambda>a. ucast a AND BIOS_MASK) a20addr data s
      else s)"

definition writePhysicalPage :: "'a mem_env \<Rightarrow> cpu_arg \<Rightarrow> Bit64u \<Rightarrow> Bit8u list \<Rightarrow> 'a BX_MEM_C_scheme \<Rightarrow> 'a BX_MEM_C_scheme" where
  "writePhysicalPage env cpu addr data s =
     (let a20addr = A20ADDR addr s;
          s = page_check addr (length data) s;
          s = s\<lparr>BX_MEM_C.more := check_monitor env a20addr (length data) (BX_MEM_C.more s)\<rparr>;
          bios = is_bios a20addr s
      in if smram_access cpu a20addr s then mem_write env cpu a20addr data bios s
         else let (handled, s) = write_handlers env (memory_handlers s (unat (drop_bit 20 a20addr))) a20addr data s
              in if handled then s else mem_write env cpu a20addr data bios s)"

section \<open>Reading\<close>

primrec read_handlers :: "'a mem_env \<Rightarrow> memory_handler_struct list \<Rightarrow> Bit64u \<Rightarrow> Bit8u list \<Rightarrow>
    'a BX_MEM_C_scheme \<Rightarrow> (bool \<times> Bit8u list) \<times> 'a BX_MEM_C_scheme" where
  "read_handlers env [] a20addr data s = ((False, data), s)"
| "read_handlers env (h # hs) a20addr data s =
     (if h_begin h \<le> a20addr \<and> h_end h \<ge> a20addr
      then let ((handled, data), m) = call_read env (read_handler h) (h_param h) a20addr data (BX_MEM_C.more s);
               s = s\<lparr>BX_MEM_C.more := m\<rparr>
           in if handled then ((True, data), s) else read_handlers env hs a20addr data s
      else read_handlers env hs a20addr data s)"

function read_chunks :: "Bit64u \<Rightarrow> nat \<Rightarrow> 'a BX_MEM_C_scheme \<Rightarrow> Bit8u list" where
  "read_chunks a20addr n s =
     (if n = 0 then []
      else if n AND 7 = 0 then get_bytes a20addr 8 (vector s) @ read_chunks (a20addr + 8) (n - 8) s
      else vector s a20addr # read_chunks (a20addr + 1) (n - 1) s)"
  by pat_completeness auto
termination by (relation "measure (\<lambda>(_, n, _). n)") auto

declare read_chunks.simps [simp del]

primrec bios_read_loop :: "Bit64u \<Rightarrow> Bit8u list \<Rightarrow> 'a BX_MEM_C_scheme \<Rightarrow> Bit8u list \<times> 'a BX_MEM_C_scheme" where
  "bios_read_loop a20addr [] s = ([], s)"
| "bios_read_loop a20addr (d # ds) s =
     (let (b, s) = rom_read (ucast a20addr AND BIOS_MASK) s;
          (bs, s) = bios_read_loop (a20addr + 1) ds s
      in (b # bs, s))"

text \<open>A byte of A0000 to FFFFF; the buffer keeps its byte where the code does not assign it.\<close>

definition read_upper_byte :: "cpu_arg \<Rightarrow> Bit64u \<Rightarrow> Bit8u \<Rightarrow> 'a BX_MEM_C_scheme \<Rightarrow> Bit8u \<times> 'a BX_MEM_C_scheme" where
  "read_upper_byte cpu a20addr old s =
     (if a20addr < 0x000c0000 then (if cpu \<noteq> None then vector s a20addr else old, s)
      else if pci_enabled s \<and> a20addr AND 0xfffc0000 = 0x000c0000
      then if \<not> memory_type s (area_of a20addr) False
           then if a20addr AND 0xfffe0000 = 0x000e0000 then rom_read (BIOS_MAP_LAST128K a20addr) s
                else (rom s ((ucast a20addr AND EXROM_MASK) + BIOSROMSZ), s)
           else (vector s a20addr, s)
      else if a20addr AND 0xfffc0000 \<noteq> 0x000c0000 then (vector s a20addr, s)
      else if a20addr AND 0xfffe0000 = 0x000e0000 then (rom s (BIOS_MAP_LAST128K a20addr), s)
      else (rom s ((ucast a20addr AND EXROM_MASK) + BIOSROMSZ), s))"

primrec read_upper :: "cpu_arg \<Rightarrow> Bit64u \<Rightarrow> Bit8u list \<Rightarrow> 'a BX_MEM_C_scheme \<Rightarrow> Bit8u list \<times> 'a BX_MEM_C_scheme" where
  "read_upper cpu a20addr [] s = ([], s)"
| "read_upper cpu a20addr (d # ds) s =
     (let (b, s) = read_upper_byte cpu a20addr d s;
          (bs, s) = read_upper cpu (a20addr + 1) ds s
      in (b # bs, s))"

definition mem_read :: "cpu_arg \<Rightarrow> Bit64u \<Rightarrow> Bit8u list \<Rightarrow> bool \<Rightarrow> 'a BX_MEM_C_scheme \<Rightarrow> Bit8u list \<times> 'a BX_MEM_C_scheme" where
  "mem_read cpu a20addr data bios s =
     (if a20addr < mem_len s \<and> \<not> bios
      then if a20addr < 0x000a0000 \<or> a20addr \<ge> 0x00100000
           then if length data \<in> {8, 4, 2, 1} then (get_bytes a20addr (length data) (vector s), s)
                else (read_chunks a20addr (length data) s, s)
           else read_upper cpu a20addr data s
      else if a20addr > 0xffffffff then (replicate (length data) 0xff, s)
      else if bios then bios_read_loop a20addr data s
      else (replicate (length data) 0xff, s))"

definition readPhysicalPage :: "'a mem_env \<Rightarrow> cpu_arg \<Rightarrow> Bit64u \<Rightarrow> Bit8u list \<Rightarrow> 'a BX_MEM_C_scheme \<Rightarrow>
    Bit8u list \<times> 'a BX_MEM_C_scheme" where
  "readPhysicalPage env cpu addr data s =
     (let a20addr = A20ADDR addr s;
          s = page_check addr (length data) s;
          bios = is_bios a20addr s
      in if smram_access cpu a20addr s then mem_read cpu a20addr data bios s
         else let ((handled, data), s) = read_handlers env (memory_handlers s (unat (drop_bit 20 a20addr))) a20addr data s
              in if handled then (data, s) else mem_read cpu a20addr data bios s)"

section \<open>Direct access and DMA\<close>

primrec direct_handler :: "'a mem_env \<Rightarrow> memory_handler_struct list \<Rightarrow> Bit64u \<Rightarrow> nat \<Rightarrow> 'a \<Rightarrow> host_ptr option option" where
  "direct_handler env [] a20addr rw m = None"
| "direct_handler env (h # hs) a20addr rw m =
     (if h_begin h \<le> a20addr \<and> h_end h \<ge> a20addr
      then case da_handler h of
             Some f \<Rightarrow> Some (call_da env f (h_param h) a20addr rw m)
           | None \<Rightarrow> Some None
      else direct_handler env hs a20addr rw m)"

definition direct_read :: "Bit64u \<Rightarrow> 'a BX_MEM_C_scheme \<Rightarrow> host_ptr option" where
  "direct_read a20addr s =
     (if a20addr \<ge> 0x000a0000 \<and> a20addr < 0x000c0000 then None
      else if pci_enabled s \<and> a20addr \<ge> 0x000c0000 \<and> a20addr < 0x00100000
      then if \<not> memory_type s (area_of a20addr) False
           then if a20addr AND 0xfffe0000 = 0x000e0000 then Some (Rom (BIOS_MAP_LAST128K a20addr))
                else Some (Rom ((ucast a20addr AND EXROM_MASK) + BIOSROMSZ))
           else Some (Ram a20addr)
      else if a20addr < mem_len s \<and> \<not> is_bios a20addr s
      then if a20addr < 0x000c0000 \<or> a20addr \<ge> 0x00100000 then Some (Ram a20addr)
           else if a20addr AND 0xfffe0000 = 0x000e0000 then Some (Rom (BIOS_MAP_LAST128K a20addr))
           else Some (Rom ((ucast a20addr AND EXROM_MASK) + BIOSROMSZ))
      else if a20addr > 0xffffffff then Some (Bogus (a20addr AND 0xfff))
      else if is_bios a20addr s then Some (Rom (ucast a20addr AND BIOS_MASK))
      else Some (Bogus (a20addr AND 0xfff)))"

definition direct_write :: "Bit64u \<Rightarrow> 'a BX_MEM_C_scheme \<Rightarrow> host_ptr option" where
  "direct_write a20addr s =
     (if a20addr \<ge> mem_len s \<or> is_bios a20addr s then None
      else if a20addr \<ge> 0x000a0000 \<and> a20addr < 0x000c0000 then None
      else if pci_enabled s \<and> a20addr \<ge> 0x000c0000 \<and> a20addr < 0x00100000 then None
      else if a20addr < 0x000c0000 \<or> a20addr \<ge> 0x00100000 then Some (Ram a20addr)
      else None)"

definition getHostMemAddr :: "'a mem_env \<Rightarrow> cpu_arg \<Rightarrow> Bit64u \<Rightarrow> nat \<Rightarrow> 'a BX_MEM_C_scheme \<Rightarrow> host_ptr option" where
  "getHostMemAddr env cpu addr rw s =
     (let a20addr = A20ADDR addr s;
          write = rw AND 1 \<noteq> 0
      in if cpu \<noteq> None \<and> rw = BX_EXECUTE \<and> a20addr \<ge> 0x000a0000 \<and> a20addr < 0x000c0000 \<and> smram_available s \<and>
            (smram_enable s \<or> cpu = Some True)
         then Some (Ram a20addr)
         else if write \<and> is_monitor env (a20addr AND NOT 0xfff) 0xfff (BX_MEM_C.more s) then None
         else case direct_handler env (memory_handlers s (unat (drop_bit 20 a20addr))) a20addr rw (BX_MEM_C.more s) of
                Some r \<Rightarrow> r
              | None \<Rightarrow> if \<not> write then direct_read a20addr s else direct_write a20addr s)"

text \<open>Copying from and to a host pointer.\<close>

definition host_read :: "host_ptr \<Rightarrow> nat \<Rightarrow> 'a BX_MEM_C_scheme \<Rightarrow> Bit8u list" where
  "host_read p n s =
     (case p of Ram a \<Rightarrow> get_bytes a n (vector s)
      | Rom a \<Rightarrow> map (\<lambda>i. rom s (a + of_nat i)) [0..<n]
      | Bogus a \<Rightarrow> get_bytes a n (bogus s)
      | Device d a \<Rightarrow> get_bytes a n (dev_mem s d))"

definition host_write :: "host_ptr \<Rightarrow> Bit8u list \<Rightarrow> 'a BX_MEM_C_scheme \<Rightarrow> 'a BX_MEM_C_scheme" where
  "host_write p data s =
     (case p of Ram a \<Rightarrow> s\<lparr>vector := put_bytes a data (vector s)\<rparr>
      | Rom a \<Rightarrow> s\<lparr>rom := fold (\<lambda>i r. r(a + of_nat i := data ! i)) [0..<length data] (rom s)\<rparr>
      | Bogus a \<Rightarrow> s\<lparr>bogus := put_bytes a data (bogus s)\<rparr>
      | Device d a \<Rightarrow> s\<lparr>dev_mem := (dev_mem s)(d := put_bytes a data (dev_mem s d))\<rparr>)"

primrec read_single :: "'a mem_env \<Rightarrow> Bit64u \<Rightarrow> Bit8u list \<Rightarrow> 'a BX_MEM_C_scheme \<Rightarrow> Bit8u list \<times> 'a BX_MEM_C_scheme" where
  "read_single env addr [] s = ([], s)"
| "read_single env addr (d # ds) s =
     (let (b, s) = readPhysicalPage env None addr [d] s;
          (bs, s) = read_single env (addr + 1) ds s
      in (b @ bs, s))"

primrec write_single :: "'a mem_env \<Rightarrow> Bit64u \<Rightarrow> Bit8u list \<Rightarrow> 'a BX_MEM_C_scheme \<Rightarrow> 'a BX_MEM_C_scheme" where
  "write_single env addr [] s = s"
| "write_single env addr (d # ds) s = write_single env (addr + 1) ds (writePhysicalPage env None addr [d] s)"

definition dmaReadPhysicalPage :: "'a mem_env \<Rightarrow> Bit64u \<Rightarrow> Bit8u list \<Rightarrow> 'a BX_MEM_C_scheme \<Rightarrow> Bit8u list \<times> 'a BX_MEM_C_scheme" where
  "dmaReadPhysicalPage env addr data s =
     (let s = page_check addr (length data) s
      in case getHostMemAddr env None addr BX_READ s of
           Some memptr \<Rightarrow> (host_read memptr (length data) s, s)
         | None \<Rightarrow> read_single env addr data s)"

definition dmaWritePhysicalPage :: "'a mem_env \<Rightarrow> Bit64u \<Rightarrow> Bit8u list \<Rightarrow> 'a BX_MEM_C_scheme \<Rightarrow> 'a BX_MEM_C_scheme" where
  "dmaWritePhysicalPage env addr data s =
     (let s = page_check addr (length data) s
      in case getHostMemAddr env None addr BX_WRITE s of
           Some memptr \<Rightarrow> host_write memptr data (decWriteStamp addr s)
         | None \<Rightarrow> write_single env addr data s)"

definition remainingInPage :: "Bit64u \<Rightarrow> nat \<Rightarrow> nat" where
  "remainingInPage phy_addr n = (let r = 0x1000 - unat (phy_addr AND 0xfff) in if n < r then n else r)"

lemma page_offset: "unat (a AND 0xfff) = unat a mod 0x1000" for a :: Bit64u
proof -
  have "a AND 0xfff = take_bit 12 a" by (simp add: take_bit_eq_mask mask_numeral)
  then show ?thesis by (simp only: unsigned_take_bit_eq) (simp add: take_bit_eq_mod)
qed

lemma remainingInPage_pos [simp]: "0 < n \<Longrightarrow> 0 < remainingInPage a n"
  by (simp add: remainingInPage_def Let_def page_offset)

function DEV_MEM_READ_PHYSICAL_DMA :: "'a mem_env \<Rightarrow> Bit64u \<Rightarrow> Bit8u list \<Rightarrow> 'a BX_MEM_C_scheme \<Rightarrow>
    Bit8u list \<times> 'a BX_MEM_C_scheme" where
  "DEV_MEM_READ_PHYSICAL_DMA env phy_addr ptr s =
     (if ptr = [] then ([], s)
      else let n = remainingInPage phy_addr (length ptr);
               (bs, s) = dmaReadPhysicalPage env phy_addr (take n ptr) s;
               (rest, s) = DEV_MEM_READ_PHYSICAL_DMA env (phy_addr + of_nat n) (drop n ptr) s
           in (bs @ rest, s))"
  by pat_completeness auto
termination
  by (relation "measure (\<lambda>(_, _, ptr, _). length ptr)") (auto intro!: diff_less)

function DEV_MEM_WRITE_PHYSICAL_DMA :: "'a mem_env \<Rightarrow> Bit64u \<Rightarrow> Bit8u list \<Rightarrow> 'a BX_MEM_C_scheme \<Rightarrow> 'a BX_MEM_C_scheme" where
  "DEV_MEM_WRITE_PHYSICAL_DMA env phy_addr ptr s =
     (if ptr = [] then s
      else let n = remainingInPage phy_addr (length ptr)
           in DEV_MEM_WRITE_PHYSICAL_DMA env (phy_addr + of_nat n) (drop n ptr)
                (dmaWritePhysicalPage env phy_addr (take n ptr) s))"
  by pat_completeness auto
termination
  by (relation "measure (\<lambda>(_, _, ptr, _). length ptr)") (auto intro!: diff_less)

declare DEV_MEM_READ_PHYSICAL_DMA.simps [simp del] DEV_MEM_WRITE_PHYSICAL_DMA.simps [simp del]

definition DEV_MEM_READ_PHYSICAL :: "'a mem_env \<Rightarrow> Bit64u \<Rightarrow> Bit8u list \<Rightarrow> 'a BX_MEM_C_scheme \<Rightarrow> Bit8u list \<times> 'a BX_MEM_C_scheme" where
  "DEV_MEM_READ_PHYSICAL env phy_addr ptr s =
     (let n = 0x1000 - unat (phy_addr AND 0xfff)
      in if length ptr \<le> n then readPhysicalPage env None phy_addr ptr s
         else let (bs, s) = readPhysicalPage env None phy_addr (take n ptr) s;
                  (rest, s) = readPhysicalPage env None (phy_addr + of_nat n) (drop n ptr) s
              in (bs @ rest, s))"

definition DEV_MEM_WRITE_PHYSICAL :: "'a mem_env \<Rightarrow> Bit64u \<Rightarrow> Bit8u list \<Rightarrow> 'a BX_MEM_C_scheme \<Rightarrow> 'a BX_MEM_C_scheme" where
  "DEV_MEM_WRITE_PHYSICAL env phy_addr ptr s =
     (let n = 0x1000 - unat (phy_addr AND 0xfff)
      in if length ptr \<le> n then writePhysicalPage env None phy_addr ptr s
         else writePhysicalPage env None (phy_addr + of_nat n) (drop n ptr)
                (writePhysicalPage env None phy_addr (take n ptr) s))"

section \<open>Memory handlers\<close>

definition handler_bitmap :: "Bit64u \<Rightarrow> Bit64u \<Rightarrow> Bit32u \<Rightarrow> Bit16u" where
  "handler_bitmap begin_addr end_addr page_idx =
     (let bm = 0xffff :: Bit16u;
          bm = (if begin_addr > ucast (push_bit 20 page_idx)
                then bm AND ucast (push_bit (unat (drop_bit 16 begin_addr AND 0xf)) (0xffff :: Bit32u)) else bm);
          bm = (if end_addr < ucast (push_bit 20 (page_idx + 1))
                then bm AND ucast (drop_bit (0x0f - unat (drop_bit 16 end_addr AND 0xf)) (0xffff :: Bit32u)) else bm)
      in bm)"

text \<open>
  The loops over the megabytes of a range, as a list of their numbers: physical addresses have
  \<open>BX_PHY_ADDRESS_WIDTH\<close> = 40 bits, so the counter does not wrap. When a megabyte has an overlap with the
  handlers already there, the registration gives up and the ones before it stay registered.
\<close>

primrec register_pages :: "memory_handler_struct \<Rightarrow> nat list \<Rightarrow> 'a BX_MEM_C_scheme \<Rightarrow> bool \<times> 'a BX_MEM_C_scheme" where
  "register_pages h [] s = (True, s)"
| "register_pages h (page_idx # ps) s =
     (let bm = handler_bitmap (h_begin h) (h_end h) (of_nat page_idx);
          hs = memory_handlers s page_idx
      in if hs \<noteq> [] \<and> bm AND h_bitmap (hd hs) \<noteq> 0 then (False, s)
         else let bm = (if hs \<noteq> [] then bm OR h_bitmap (hd hs) else bm)
              in register_pages h ps
                   (s\<lparr>memory_handlers := (memory_handlers s)(page_idx := h\<lparr>h_bitmap := bm\<rparr> # hs)\<rparr>))"

definition page_range :: "Bit64u \<Rightarrow> Bit64u \<Rightarrow> nat list" where
  "page_range begin_addr end_addr =
     [unat (ucast (drop_bit 20 begin_addr) :: Bit32u) ..< Suc (unat (ucast (drop_bit 20 end_addr) :: Bit32u))]"

definition registerMemoryHandlers :: "nat \<Rightarrow> nat option \<Rightarrow> nat option \<Rightarrow> nat option \<Rightarrow> Bit64u \<Rightarrow> Bit64u \<Rightarrow>
    'a BX_MEM_C_scheme \<Rightarrow> bool \<times> 'a BX_MEM_C_scheme" where
  "registerMemoryHandlers prm rd wr da begin_addr end_addr s =
     (if end_addr < begin_addr then (False, s)
      else case rd of
             None \<Rightarrow> (False, s)
           | Some f \<Rightarrow>
               register_pages \<lparr>h_param = prm, h_begin = begin_addr, h_end = end_addr, h_bitmap = 0,
                 read_handler = f, write_handler = wr, da_handler = da\<rparr> (page_range begin_addr end_addr) s)"

text \<open>
  The search stops at the first handler that shares the parameter, the begin \<^emph>\<open>or\<close> the end; the handlers
  before it give up the bits of the range.
\<close>

primrec unregister_from :: "nat \<Rightarrow> Bit64u \<Rightarrow> Bit64u \<Rightarrow> Bit16u \<Rightarrow> memory_handler_struct list \<Rightarrow> bool \<times> memory_handler_struct list" where
  "unregister_from prm b e bm [] = (False, [])"
| "unregister_from prm b e bm (h # hs) =
     (if h_param h \<noteq> prm \<and> h_begin h \<noteq> b \<and> h_end h \<noteq> e
      then let (found, hs) = unregister_from prm b e bm hs
           in (found, h\<lparr>h_bitmap := h_bitmap h AND NOT bm\<rparr> # hs)
      else (True, hs))"

primrec unregister_pages :: "nat \<Rightarrow> Bit64u \<Rightarrow> Bit64u \<Rightarrow> nat list \<Rightarrow> bool \<Rightarrow> 'a BX_MEM_C_scheme \<Rightarrow> bool \<times> 'a BX_MEM_C_scheme" where
  "unregister_pages prm b e [] ret s = (ret, s)"
| "unregister_pages prm b e (page_idx # ps) ret s =
     (let (found, hs) = unregister_from prm b e (handler_bitmap b e (of_nat page_idx)) (memory_handlers s page_idx)
      in unregister_pages prm b e ps (ret \<and> found)
           (s\<lparr>memory_handlers := (memory_handlers s)(page_idx := hs)\<rparr>))"

definition unregisterMemoryHandlers :: "nat \<Rightarrow> Bit64u \<Rightarrow> Bit64u \<Rightarrow> 'a BX_MEM_C_scheme \<Rightarrow> bool \<times> 'a BX_MEM_C_scheme" where
  "unregisterMemoryHandlers prm begin_addr end_addr s =
     unregister_pages prm begin_addr end_addr (page_range begin_addr end_addr) True s"

section \<open>Configuration\<close>

definition enable_smram :: "bool \<Rightarrow> bool \<Rightarrow> 'a BX_MEM_C_scheme \<Rightarrow> 'a BX_MEM_C_scheme" where
  "enable_smram enable restricted s =
     s\<lparr>smram_available := True, smram_enable := enable, smram_restricted := restricted\<rparr>"

definition disable_smram :: "'a BX_MEM_C_scheme \<Rightarrow> 'a BX_MEM_C_scheme" where
  "disable_smram s = s\<lparr>smram_available := False, smram_enable := False, smram_restricted := False\<rparr>"

definition is_smram_accessible :: "'a BX_MEM_C_scheme \<Rightarrow> bool" where
  "is_smram_accessible s \<longleftrightarrow> smram_available s \<and> (smram_enable s \<or> \<not> smram_restricted s)"

definition set_memory_type :: "nat \<Rightarrow> bool \<Rightarrow> bool \<Rightarrow> 'a BX_MEM_C_scheme \<Rightarrow> 'a BX_MEM_C_scheme" where
  "set_memory_type area rw dram s =
     (if area \<le> BX_MEM_AREA_F0000
      then s\<lparr>memory_type := (memory_type s)(area := (memory_type s area)(rw := dram))\<rparr> else s)"

definition set_bios_write :: "bool \<Rightarrow> 'a BX_MEM_C_scheme \<Rightarrow> 'a BX_MEM_C_scheme" where
  "set_bios_write enabled s = s\<lparr>bios_write_enabled := enabled\<rparr>"

definition set_bios_rom_access :: "Bit8u \<Rightarrow> bool \<Rightarrow> 'a BX_MEM_C_scheme \<Rightarrow> 'a BX_MEM_C_scheme" where
  "set_bios_rom_access region enabled s =
     (if enabled then s\<lparr>bios_rom_access := bios_rom_access s OR region\<rparr>
      else s\<lparr>bios_rom_access := bios_rom_access s AND NOT region\<rparr>)"

text \<open>
  \<open>init_memory\<close>: whether PCI is enabled is an option of the configuration; the RAM is not cleared.
\<close>

definition init_memory :: "bool \<Rightarrow> Bit64u \<Rightarrow> 'a BX_MEM_C_scheme \<Rightarrow> 'a BX_MEM_C_scheme" where
  "init_memory pci guest s =
     s\<lparr>mem_len := guest, rom := (\<lambda>_. 0xff), bogus := (\<lambda>_. 0xff), memory_handlers := (\<lambda>_. []),
       pci_enabled := pci, bios_write_enabled := False, bios_rom_addr := 0xffff0000,
       flash_type := 0, flash_status := 0x80, flash_wsm_state := FLASH_READ_ARRAY,
       smram_available := False, smram_enable := False, smram_restricted := False,
       memory_type := (\<lambda>_ _. False)\<rparr>"

definition resetWriteStamps :: "'a BX_MEM_C_scheme \<Rightarrow> 'a BX_MEM_C_scheme" where
  "resetWriteStamps s = s\<lparr>fineGranularityMapping := (\<lambda>_. 0)\<rparr>"

end
