(* ===== verification/Mem_Props.thy ===== *)
theory Mem_Props
  imports Memory
begin

text \<open>
  What the physical memory does: copying in chunks is copying bytes, an access to RAM reads what was written,
  every write withdraws the cached code it hits, a direct host pointer shows what a read would return, and
  the defects of the flash commands, the BIOS writes and the search for a handler.
\<close>

unbundle bit_operations_syntax

section \<open>Copying\<close>

lemma unat_offset:
  fixes x a :: "'a::len word"
  shows "unat (x - (a + 1)) = (if x = a then 2 ^ LENGTH('a) - 1 else unat (x - a) - 1)"
proof (cases "x = a")
  case True
  then show ?thesis by (simp add: unsigned_minus_1_eq_mask mask_eq_exp_minus_1)
next
  case False
  then have "unat (x - a - 1) = unat (x - a) - 1" by (intro unat_minus_one) auto
  then show ?thesis using False by (simp add: diff_diff_eq)
qed

lemma put_bytes_apply:
  "length ds \<le> 2 ^ 64 \<Longrightarrow>
   put_bytes a ds v x = (if unat (x - a) < length ds then ds ! unat (x - a) else v x)"
proof (induction ds arbitrary: a v)
  case (Cons d ds)
  have "x \<noteq> a \<Longrightarrow> 0 < unat (x - a)" by (simp add: unat_gt_0)
  then show ?case using Cons unsigned_less [of "x - a"]
    by (auto simp: unat_offset nth_Cons' less_Suc_eq_0_disj) 
qed simp

lemma put_bytes_append:
  "put_bytes a (xs @ ys) v = put_bytes (a + of_nat (length xs)) ys (put_bytes a xs v)"
  by (induction xs arbitrary: a v) (simp_all add: algebra_simps)

lemma get_bytes_map: "get_bytes a n v = map (\<lambda>i. v (a + of_nat i)) [0..<n]"
proof (induction n arbitrary: a)
  case (Suc n)
  have "[0..<Suc n] = 0 # map Suc [0..<n]" by (simp add: map_Suc_upt upt_conv_Cons del: upt_Suc)
  then show ?case by (simp add: Suc comp_def algebra_simps del: upt_Suc)
qed simp

lemma length_get_bytes [simp]: "length (get_bytes a n v) = n"
  by (simp add: get_bytes_map)

lemma get_bytes_append: "get_bytes a (m + n) v = get_bytes a m v @ get_bytes (a + of_nat m) n v"
  by (induction m arbitrary: a) (simp_all add: algebra_simps)

lemma get_put_bytes: "length ds \<le> 2 ^ 64 \<Longrightarrow> get_bytes a (length ds) (put_bytes a ds v) = ds"
  by (rule nth_equalityI)
    (auto simp: get_bytes_map put_bytes_apply unat_of_nat take_bit_nat_eq_self_iff)


lemma put_bytes_take_drop: "put_bytes (a + 8) (drop 8 ds) (put_bytes a (take 8 ds) v) = put_bytes a ds v"
  if "8 \<le> length ds"
  using put_bytes_append [of a "take 8 ds" "drop 8 ds" v] that by simp

lemma write_vector_simps [simp]:
  "vector (write_vector a ds s) = put_bytes a ds (vector s)"
  "fineGranularityMapping (write_vector a ds s) = fineGranularityMapping s"
  "smc_calls (write_vector a ds s) = smc_calls s"
  by (simp_all add: write_vector_def)

lemma decWriteStamp_vector [simp]:
  "vector (decWriteStamp_len a n s) = vector s" "vector (decWriteStamp a s) = vector s"
  by (simp_all add: decWriteStamp_len_def decWriteStamp_def handleSMC_def Let_def)

section \<open>Write stamps\<close>

text \<open>The 128-byte piece of its page an address lies in, and that no code of it is cached.\<close>

definition piece :: "Bit64u \<Rightarrow> nat" where
  "piece a = unat a mod 0x1000 div 0x80"

definition cached :: "Bit64u \<Rightarrow> 'a BX_MEM_C_scheme \<Rightarrow> bool" where
  "cached a s \<longleftrightarrow> bit (fineGranularityMapping s (hash a)) (piece a)"

lemma piece_bound: "piece a < 32"
  by (simp add: piece_def less_mult_imp_div_less)

lemma offset_piece: "unat (drop_bit 7 (PAGE_OFFSET (ucast a))) = piece a"
proof -
  have "PAGE_OFFSET (ucast a) = take_bit 12 (ucast a)"
    by (simp add: PAGE_OFFSET_def take_bit_eq_mask mask_numeral)
  then have "unat (PAGE_OFFSET (ucast a)) = take_bit 12 (take_bit 32 (unat a))"
    by (simp only: unsigned_take_bit_eq unsigned_ucast_eq) simp
  then show ?thesis
    by (simp only: unat_drop_bit_eq piece_def) (simp add: drop_bit_eq_div take_bit_eq_mod mod_mod_cancel)
qed

lemma ucast_down_of_nat: "ucast (of_nat n :: Bit64u) = (of_nat n :: Bit32u)"
  by (simp add: word_unat_eq_iff unsigned_ucast_eq unat_of_nat take_bit_eq_mod mod_mod_cancel)

lemma ucast_down_add: "ucast (a + b) = (ucast a + ucast b :: Bit32u)" for a b :: Bit64u
  using ucast_down_of_nat [of "unat a + unat b"] ucast_down_of_nat [of "unat a"] ucast_down_of_nat [of "unat b"] by simp

lemma ucast_down_diff: "ucast (a - b) = (ucast a - ucast b :: Bit32u)" for a b :: Bit64u
  using ucast_down_add [of "a - b" b] by (simp add: eq_diff_eq)

lemmas ucast_down = ucast_down_of_nat ucast_down_add ucast_down_diff

lemma stamp_mask_bit:
  "bit (stamp_mask a n) j \<longleftrightarrow> j = piece a \<or> j = piece (a + of_nat n - 1)"
proof -
  have "ucast a + of_nat n - 1 = (ucast (a + of_nat n - 1) :: Bit32u)"
    by (simp add: ucast_down)
  then show ?thesis
    using piece_bound [of a] piece_bound [of "a + of_nat n - 1"]
    by (auto simp: stamp_mask_def offset_piece bit_or_iff bit_push_bit_iff bit_exp_iff)
qed

lemma stamps_len:
  "fineGranularityMapping (decWriteStamp_len a n s) h =
     (if h = hash a then fineGranularityMapping s h AND NOT (stamp_mask a n) else fineGranularityMapping s h)"
proof -
  have "m AND k = 0 \<Longrightarrow> m AND NOT k = m" for m k :: Bit32u
    by (rule bit_word_eqI) (metis bit_and_iff bit_not_iff bit_0_eq bot_apply bot_bool_def possible_bit_word)
  then show ?thesis by (auto simp: decWriteStamp_len_def handleSMC_def Let_def)
qed

lemma in_page_add:
  fixes a :: Bit64u
  assumes "unat a mod 0x1000 + k < 0x1000"
  shows "unat (a + of_nat k) = unat a + k" "hash (a + of_nat k) = hash a"
    "piece (a + of_nat k) = (unat a mod 0x1000 + k) div 0x80"
proof -
  define q r where "q = unat a div 0x1000" and "r = unat a mod 0x1000"
  have a: "unat a = 0x1000 * q + r" and r: "r + k < 0x1000" using assms by (simp_all add: q_def r_def)
  have "unat a < 2 ^ 64" using unsigned_less [of a] by simp
  then have "q < 2 ^ 52" by (simp add: q_def less_mult_imp_div_less)
  then have lt: "unat a + k < 2 ^ 64" using a r by simp
  then have u: "unat (of_nat k :: Bit64u) = k" by (simp add: unat_of_nat take_bit_nat_eq_self_iff)
  show ua: "unat (a + of_nat k) = unat a + k" using lt u by (simp add: unat_add_lem [THEN iffD1])
  have qr: "(unat a + k) div 0x1000 = q" "(unat a + k) mod 0x1000 = r + k" using a r by (simp_all add: add.assoc)
  have "unat (hash x) = unat x div 0x1000 mod 0x100000" for x
    by (simp only: hash_def unat_drop_bit_eq unsigned_ucast_eq drop_bit_take_bit) (simp add: drop_bit_eq_div take_bit_eq_mod)
  then show "hash (a + of_nat k) = hash a" using qr(1) by (simp add: word_unat_eq_iff ua q_def)
  show "piece (a + of_nat k) = (unat a mod 0x1000 + k) div 0x80" using qr(2) by (simp add: piece_def ua r_def)
qed

lemma in_page_mod: "m mod 0x1000 + k < 0x1000 \<Longrightarrow> (m + k) mod 0x1000 = m mod 0x1000 + k" for m :: nat
  using mod_less [of "m mod 0x1000 + k" "0x1000"] by (simp add: mod_simps)

lemma piece_between:
  fixes r :: nat
  assumes "k \<le> m" "m \<le> 7"
  shows "(r + k) div 0x80 = r div 0x80 \<or> (r + k) div 0x80 = (r + m) div 0x80"
proof -
  have "r div 0x80 \<le> (r + k) div 0x80" "(r + k) div 0x80 \<le> (r + m) div 0x80" "(r + m) div 0x80 \<le> (r + 0x80) div 0x80"
    using assms by (intro div_le_mono; simp)+
  moreover have "(r + 0x80) div 0x80 = r div 0x80 + 1" by simp
  ultimately show ?thesis by linarith
qed

lemma stamps_len_clear:
  assumes "unat a mod 0x1000 + n \<le> 0x1000" "n \<le> 8" "k < n"
  shows "\<not> cached (a + of_nat k) (decWriteStamp_len a n s)"
proof -
  have last: "a + of_nat n - 1 = a + of_nat (n - 1)" using assms by (cases n) simp_all
  have "piece (a + of_nat k) = piece a \<or> piece (a + of_nat k) = piece (a + of_nat (n - 1))"
    using assms in_page_add(3) [of a k] in_page_add(3) [of a "n - 1"] piece_between [of k "n - 1" "unat a mod 0x1000"] by (simp add: piece_def)
  then have "bit (stamp_mask a n) (piece (a + of_nat k))" by (auto simp: stamp_mask_bit last)
  then show ?thesis
    using assms in_page_add(2) [of a k] by (simp add: cached_def stamps_len bit_and_iff bit_not_iff)
qed

text \<open>\<open>smc_hit\<close>: the CPUs have been told about a change of this piece; \<open>seen\<close>: or they still are to be.\<close>

definition smc_hit :: "Bit64u \<Rightarrow> 'a BX_MEM_C_scheme \<Rightarrow> bool" where
  "smc_hit x s \<longleftrightarrow> (\<exists>(p, m) \<in> set (smc_calls s). hash p = hash x \<and> bit m (piece x))"

definition seen :: "Bit64u \<Rightarrow> 'a BX_MEM_C_scheme \<Rightarrow> bool" where
  "seen x s \<longleftrightarrow> cached x s \<or> smc_hit x s"

lemma cached_len: "cached x (decWriteStamp_len a n s) \<Longrightarrow> cached x s"
  by (auto simp: cached_def stamps_len bit_and_iff split: if_splits)

lemma seen_len: "seen x s \<Longrightarrow> seen x (decWriteStamp_len a n s)"
  using piece_bound [of x]
  by (auto simp: seen_def cached_def smc_hit_def decWriteStamp_len_def handleSMC_def Let_def bit_and_iff bit_not_iff bit_or_iff split: if_splits)

lemma cached_write_vector [simp]: "cached x (write_vector a ds s) = cached x s"
  by (simp add: cached_def)

lemma seen_write_vector [simp]: "seen x (write_vector a ds s) = seen x s"
  by (simp add: seen_def smc_hit_def)

lemma cached_chunks: "cached x (write_chunks a ds s) \<Longrightarrow> cached x s"
  by (induction a ds s rule: write_chunks.induct)
    (subst (asm) (3) write_chunks.simps, auto split: if_splits dest: cached_len)

lemma seen_chunks: "seen x s \<Longrightarrow> seen x (write_chunks a ds s)"
  by (induction a ds s rule: write_chunks.induct) (subst write_chunks.simps, auto intro: seen_len)

lemma and_7: "n AND 7 = n mod 8" for n :: nat
  using take_bit_eq_mask [of 3 n] by (simp add: take_bit_eq_mod mask_eq_exp_minus_1)

lemma write_chunks_step:
  assumes "ds \<noteq> []"
  obtains n where "0 < n" "n \<le> 8" "n \<le> length ds"
    "write_chunks a ds s = write_chunks (a + of_nat n) (drop n ds) (write_vector a (take n ds) (decWriteStamp_len a n s))"
proof (cases "length ds mod 8 = 0")
  case True
  then have "8 \<le> length ds" using assms by (metis dvd_imp_le length_greater_0_conv mod_eq_0_iff_dvd)
  then show ?thesis using assms True by (intro that [of 8]) (simp_all add: write_chunks.simps [of a ds] and_7)
next
  case False
  then show ?thesis using assms
    by (intro that [of 1]) (simp_all add: write_chunks.simps [of a ds] and_7 take_Suc drop_Suc)
qed

lemma chunks_clear:
  "unat a mod 0x1000 + length ds \<le> 0x1000 \<Longrightarrow> k < length ds \<Longrightarrow> \<not> cached (a + of_nat k) (write_chunks a ds s)"
proof (induction "length ds" arbitrary: a ds s k rule: less_induct)
  case less
  have "ds \<noteq> []" using less.prems by auto
  then obtain n where n: "0 < n" "n \<le> 8" "n \<le> length ds" and
    step: "write_chunks a ds s = write_chunks (a + of_nat n) (drop n ds) (write_vector a (take n ds) (decWriteStamp_len a n s))"
    by (rule write_chunks_step)
  show ?case
  proof (cases "k < n")
    case True
    then show ?thesis
      using stamps_len_clear [of a n k s] less.prems n by (auto simp: step dest: cached_chunks)
  next
    case False
    then have "n < length ds" using less.prems by simp
    then have "unat (a + of_nat n) = unat a + n" "(unat a + n) mod 0x1000 = unat a mod 0x1000 + n"
      using in_page_add(1) [of a n] less.prems(1) by (simp_all flip: mod_add_left_eq [of "unat a" _ n])
    then have "\<not> cached (a + of_nat n + of_nat (k - n)) (write_chunks (a + of_nat n) (drop n ds) (write_vector a (take n ds) (decWriteStamp_len a n s)))"
      using less.prems n False by (intro less.hyps) auto
    then show ?thesis using False by (simp add: step add.assoc flip: of_nat_add)
  qed
qed

lemma vector_chunks [simp]: "vector (write_chunks a ds s) = put_bytes a ds (vector s)"
proof (induction "length ds" arbitrary: a ds s rule: less_induct)
  case less
  show ?case
  proof (cases "ds = []")
    case False
    then obtain n where n: "0 < n" "n \<le> length ds" and
      step: "write_chunks a ds s = write_chunks (a + of_nat n) (drop n ds) (write_vector a (take n ds) (decWriteStamp_len a n s))"
      by (rule write_chunks_step)
    show ?thesis
      using n less [of "drop n ds"] put_bytes_append [of a "take n ds" "drop n ds" "vector s"] by (simp add: step)
  qed (simp add: write_chunks.simps)
qed

lemma read_chunks_bytes: "read_chunks a n s = get_bytes a n (vector s)"
proof (induction a n s rule: read_chunks.induct)
  case (1 a n s)
  consider "n = 0" | "n \<noteq> 0" "n mod 8 = 0" | m where "n = Suc m" "n mod 8 \<noteq> 0" by (cases n) auto
  then show ?case
  proof cases
    case 2
    then have "n = 8 + (n - 8)" by (metis add_diff_inverse_nat mod_less)
    then show ?thesis
      using 1(1) 2 get_bytes_append [of a 8 "n - 8" "vector s"] by (simp add: read_chunks.simps [of a n] and_7)
  qed (use 1(2) in \<open>simp_all add: read_chunks.simps [of a n] read_chunks.simps [of a 0] read_chunks.simps [of a "Suc m" for m] and_7\<close>)
qed

section \<open>Access to RAM\<close>

text \<open>
  \<open>ram_access addr n s\<close>: the \<open>n\<close> bytes at \<open>addr\<close> lie in one page of RAM outside A0000 to FFFFF, no device has a
  handler there. \<open>covers\<close> is the test of the handler loops.
\<close>

definition covers :: "memory_handler_struct \<Rightarrow> Bit64u \<Rightarrow> bool" where
  "covers h a \<longleftrightarrow> h_begin h \<le> a \<and> h_end h \<ge> a"

definition no_handler :: "Bit64u \<Rightarrow> 'a BX_MEM_C_scheme \<Rightarrow> bool" where
  "no_handler a s \<longleftrightarrow> (\<forall>h \<in> set (memory_handlers s (unat (drop_bit 20 a))). \<not> covers h a)"

definition ram_access :: "Bit64u \<Rightarrow> nat \<Rightarrow> 'a BX_MEM_C_scheme \<Rightarrow> bool" where
  "ram_access addr n s \<longleftrightarrow>
     (let a = A20ADDR addr s
      in (a < 0xa0000 \<or> a \<ge> 0x100000) \<and> a < mem_len s \<and> \<not> is_bios a s \<and> no_handler a s \<and>
         0 < n \<and> unat a mod 0x1000 + n \<le> 0x1000)"

lemma write_handlers_none: "\<forall>h \<in> set hs. \<not> covers h a \<Longrightarrow> write_handlers env hs a ds s = (False, s)"
  by (induction hs) (auto simp: covers_def split: option.split)

lemma read_handlers_none: "\<forall>h \<in> set hs. \<not> covers h a \<Longrightarrow> read_handlers env hs a ds s = ((False, ds), s)"
  by (induction hs) (auto simp: covers_def)

lemma direct_handler_none: "\<forall>h \<in> set hs. \<not> covers h a \<Longrightarrow> direct_handler env hs a rw m = None"
  by (induction hs) (auto simp: covers_def)

lemma no_handler_more [simp]:
  "no_handler a (s\<lparr>BX_MEM_C.more := m\<rparr>) = no_handler a s" "no_handler a (page_check x n s) = no_handler a s"
  by (simp_all add: no_handler_def page_check_def)

lemma page_check_simps [simp]:
  "memory_handlers (page_check x n s) = memory_handlers s" "vector (page_check x n s) = vector s"
  "rom (page_check x n s) = rom s" "mem_len (page_check x n s) = mem_len s" "is_bios a (page_check x n s) = is_bios a s"
  "A20ADDR a (page_check x n s) = A20ADDR a s" "cached a (page_check x n s) = cached a s"
  "seen a (page_check x n s) = seen a s" "smram_access cpu a (page_check x n s) = smram_access cpu a s"
  "BX_MEM_C.more (page_check x n s) = BX_MEM_C.more s"
  by (simp_all add: page_check_def is_bios_def A20ADDR_def cached_def seen_def smc_hit_def smram_access_def split: option.split)

lemma more_simps [simp]:
  "is_bios a (s\<lparr>BX_MEM_C.more := m\<rparr>) = is_bios a s" "A20ADDR a (s\<lparr>BX_MEM_C.more := m\<rparr>) = A20ADDR a s"
  "cached a (s\<lparr>BX_MEM_C.more := m\<rparr>) = cached a s" "seen a (s\<lparr>BX_MEM_C.more := m\<rparr>) = seen a s"
  "smram_access cpu a (s\<lparr>BX_MEM_C.more := m\<rparr>) = smram_access cpu a s"
  by (simp_all add: is_bios_def A20ADDR_def cached_def seen_def smc_hit_def smram_access_def split: option.split)

lemma no_smram: "a < 0xa0000 \<or> a \<ge> 0x100000 \<Longrightarrow> \<not> smram_access cpu a s"
  by (auto simp: smram_access_def word_less_nat_alt word_le_nat_alt split: option.split)

lemma writePhysicalPage_ram:
  assumes "ram_access addr (length ds) s"
  shows "writePhysicalPage env cpu addr ds s =
    (let a = A20ADDR addr s; s = page_check addr (length ds) s;
         s = s\<lparr>BX_MEM_C.more := check_monitor env a (length ds) (BX_MEM_C.more s)\<rparr>
     in if length ds \<in> {8, 4, 2, 1} then write_vector a ds (decWriteStamp_len a (length ds) s) else write_chunks a ds s)"
  using assms no_smram [of "A20ADDR addr s" cpu]
  by (simp add: ram_access_def Let_def writePhysicalPage_def no_handler_def write_handlers_none mem_write_def)

lemma readPhysicalPage_ram:
  assumes "ram_access addr (length ds) s"
  shows "readPhysicalPage env cpu addr ds s =
    (get_bytes (A20ADDR addr s) (length ds) (vector s), page_check addr (length ds) s)"
  using assms no_smram [of "A20ADDR addr s" cpu]
  by (simp add: ram_access_def Let_def readPhysicalPage_def no_handler_def read_handlers_none mem_read_def read_chunks_bytes)

text \<open>The fields a write to RAM leaves alone, with the state as a pattern.\<close>

definition ram_written :: "Bit64u \<Rightarrow> Bit8u list \<Rightarrow> 'a BX_MEM_C_scheme \<Rightarrow> 'a BX_MEM_C_scheme \<Rightarrow> bool" where
  "ram_written a ds s s' \<longleftrightarrow>
     (\<exists>m c p x. s' = s\<lparr>vector := put_bytes a ds (vector s), fineGranularityMapping := m, smc_calls := c,
                        mem_panics := p, BX_MEM_C.more := x\<rparr>)"

lemma writtenI:
  "s' = s\<lparr>vector := put_bytes a ds (vector s), fineGranularityMapping := fineGranularityMapping s',
          smc_calls := smc_calls s', mem_panics := mem_panics s', BX_MEM_C.more := BX_MEM_C.more s'\<rparr> \<Longrightarrow> ram_written a ds s s'"
  unfolding ram_written_def by blast

lemma written_refl: "ram_written a [] s s"
  and written_stamp_len: "ram_written a [] s (decWriteStamp_len x n s)"
  and written_stamp: "ram_written a [] s (decWriteStamp x s)"
  and written_vector: "ram_written a ds s (write_vector a ds s)"
  and written_page_check: "ram_written a [] s (page_check x n s)"
  and written_more: "ram_written a [] s (s\<lparr>BX_MEM_C.more := m\<rparr>)"
  by (rule writtenI,
    simp add: decWriteStamp_len_def decWriteStamp_def handleSMC_def Let_def write_vector_def page_check_def)+

lemma written_trans:
  assumes "ram_written a xs s t" "ram_written (a + of_nat (length xs)) ys t u"
  shows "ram_written a (xs @ ys) s u"
  using assms unfolding ram_written_def by (elim exE) (simp add: put_bytes_append, blast)

lemmas written_first = written_trans [where xs = "[]", simplified]
lemmas written_last = written_trans [where ys = "[]", simplified]

lemma written_chunks: "ram_written a ds s (write_chunks a ds s)"
proof (induction "length ds" arbitrary: a ds s rule: less_induct)
  case less
  show ?case
  proof (cases "ds = []")
    case False
    then obtain n where n: "0 < n" "n \<le> length ds" and
      step: "write_chunks a ds s = write_chunks (a + of_nat n) (drop n ds) (write_vector a (take n ds) (decWriteStamp_len a n s))"
      by (rule write_chunks_step)
    have "ram_written a (take n ds) s (write_vector a (take n ds) (decWriteStamp_len a n s))"
      by (rule written_first [OF written_stamp_len written_vector])
    from written_trans [OF this, of "drop n ds"] less [of "drop n ds"] n show ?thesis by (simp add: step)
  qed (simp add: write_chunks.simps written_refl)
qed

lemma writePhysicalPage_written:
  assumes "ram_access addr (length ds) s"
  shows "ram_written (A20ADDR addr s) ds s (writePhysicalPage env cpu addr ds s)"
  using assms
  by (auto simp: writePhysicalPage_ram Let_def
      intro: written_first [OF written_page_check written_first [OF written_more written_chunks]]
        written_first [OF written_page_check written_first [OF written_more written_first [OF written_stamp_len written_vector]]])

lemma ram_access_written:
  "ram_written a ds s s' \<Longrightarrow> ram_access addr n s' = ram_access addr n s"
  "ram_written a ds s s' \<Longrightarrow> A20ADDR addr s' = A20ADDR addr s"
  by (auto simp: ram_written_def ram_access_def A20ADDR_def is_bios_def no_handler_def)

text \<open>The bytes of a write have no cached code left, and where there was some the CPUs have been told.\<close>

lemma writePhysicalPage_stamps:
  fixes s :: "'a BX_MEM_C_scheme"
  assumes "ram_access addr (length ds) s" "k < length ds"
  shows "\<not> cached (A20ADDR addr s + of_nat k) (writePhysicalPage env cpu addr ds s) \<and>
    (cached (A20ADDR addr s + of_nat k) s \<longrightarrow> smc_hit (A20ADDR addr s + of_nat k) (writePhysicalPage env cpu addr ds s))"
proof -
  let ?a = "A20ADDR addr s" and ?s = "writePhysicalPage env cpu addr ds s"
  have page: "unat ?a mod 0x1000 + length ds \<le> 0x1000" using assms(1) by (simp add: ram_access_def Let_def)
  have "\<not> cached (?a + of_nat k) ?s"
  proof (cases "length ds \<in> {8, 4, 2, 1}")
    case True
    then have "length ds \<le> 8" by auto
    then show ?thesis
      using stamps_len_clear [OF page _ assms(2)] True
      by (simp only: writePhysicalPage_ram [OF assms(1)] Let_def if_True cached_write_vector) simp
  next
    case False
    then show ?thesis
      using chunks_clear [OF page assms(2)] by (simp only: writePhysicalPage_ram [OF assms(1)] Let_def if_False) simp
  qed
  moreover have "seen (?a + of_nat k) s \<Longrightarrow> seen (?a + of_nat k) ?s"
    by (auto simp: writePhysicalPage_ram [OF assms(1)] Let_def intro!: seen_len seen_chunks)
  ultimately show ?thesis by (auto simp: seen_def)
qed

section \<open>Direct access\<close>

text \<open>
  \<open>mem_ok\<close>: there is at least 1 MB of memory, the BIOS lies at the top of the first 4 GB, nothing has been written to
  the page of non-existing memory. \<open>rom_plain\<close>: reading the ROM gives its bytes, not the answer of a flash command.
\<close>

definition mem_ok :: "'a BX_MEM_C_scheme \<Rightarrow> bool" where
  "mem_ok s \<longleftrightarrow> 0x100000 \<le> mem_len s \<and> 0x100000 \<le> bios_rom_addr s \<and> (\<forall>x. bogus s x = 0xff)"

definition rom_plain :: "'a BX_MEM_C_scheme \<Rightarrow> bool" where
  "rom_plain s \<longleftrightarrow> flash_type s = 0 \<or> flash_wsm_state s = FLASH_READ_ARRAY"

lemma rom_read_plain: "rom_plain s \<Longrightarrow> rom_read a s = (rom s a, s)"
  unfolding rom_plain_def rom_read_def flash_read_def by (elim disjE) simp_all

lemma bios_read_loop_plain:
  "rom_plain s \<Longrightarrow> bios_read_loop a ds s = (map (\<lambda>i. rom s (ucast (a + of_nat i) AND BIOS_MASK)) [0..<length ds], s)"
proof (induction ds arbitrary: a)
  case (Cons d ds)
  have *: "a + of_nat (Suc i) = a + 1 + of_nat i" for i by simp
  show ?case
    unfolding list.size(4) add_Suc_right add_0_right map_upt_Suc bios_read_loop.simps rom_read_plain [OF Cons.prems] Let_def case_prod_conv Cons.IH [OF Cons.prems] *
    by simp
qed simp

text \<open>An offset within a page is added below the bits that choose the area.\<close>

lemma in_page_and:
  fixes a :: Bit64u
  assumes "unat a mod 0x1000 + k < 0x1000"
  shows "(a + of_nat k) AND push_bit 12 m = a AND push_bit 12 m"
    "drop_bit 12 (a + of_nat k) = drop_bit 12 a"
proof -
  have "unat (drop_bit 12 (a + of_nat k)) = unat (drop_bit 12 a)"
  proof -
    define q r where "q = unat a div 0x1000" and "r = unat a mod 0x1000"
    have "unat (a + of_nat k) = 0x1000 * q + (r + k)" using in_page_add(1) [OF assms] by (simp add: q_def r_def)
    then have "unat (a + of_nat k) div 0x1000 = unat a div 0x1000" using assms by (simp add: r_def [symmetric] q_def [symmetric])
    then show ?thesis by (simp only: unat_drop_bit_eq) (simp add: drop_bit_eq_div)
  qed
  then show d: "drop_bit 12 (a + of_nat k) = drop_bit 12 a" by (simp add: word_unat_eq_iff)
  have "x AND push_bit 12 m = push_bit 12 (drop_bit 12 x AND m)" for x :: Bit64u
    by (rule bit_word_eqI) (auto simp: bit_simps)
  then show "(a + of_nat k) AND push_bit 12 m = a AND push_bit 12 m" by (simp only: d)
qed

lemma in_page_low:
  fixes a :: Bit64u
  assumes "unat a mod 0x1000 + k < 0x1000"
  shows "take_bit 12 (a + of_nat k) = take_bit 12 a + of_nat k"
proof -
  have "unat (a + of_nat k) mod 0x1000 = unat a mod 0x1000 + k"
    using in_page_mod [OF assms] in_page_add(1) [OF assms] by simp
  then have "unat (take_bit 12 (a + of_nat k)) = unat (take_bit 12 a) + k"
    by (simp only: unsigned_take_bit_eq) (simp add: take_bit_eq_mod)
  then have "of_nat (unat (take_bit 12 (a + of_nat k))) = (of_nat (unat (take_bit 12 a) + k) :: Bit64u)" by (simp only:)
  then show ?thesis by (simp only: of_nat_add of_nat_unat ucast_id)
qed

lemma in_page_or:
  fixes a m :: Bit64u
  assumes "unat a mod 0x1000 + k < 0x1000"
  shows "(a + of_nat k) OR push_bit 12 m = (a OR push_bit 12 m) + of_nat k"
    "unat (a OR push_bit 12 m) mod 0x1000 = unat a mod 0x1000"
proof -
  have split: "x OR push_bit 12 m = push_bit 12 (drop_bit 12 x OR m) + take_bit 12 x" for x
  proof -
    have "x OR push_bit 12 m = push_bit 12 (drop_bit 12 x OR m) OR take_bit 12 x"
      by (rule bit_word_eqI) (auto simp: bit_simps dest: bit_imp_le_length)
    also have "\<dots> = push_bit 12 (drop_bit 12 x OR m) + take_bit 12 x"
      by (rule disjunctive_add [symmetric]) (auto simp: bit_simps)
    finally show ?thesis .
  qed
  show "(a + of_nat k) OR push_bit 12 m = (a OR push_bit 12 m) + of_nat k"
    by (simp only: split in_page_and(2) [OF assms] in_page_low [OF assms] add.assoc)
  have "take_bit 12 (a OR push_bit 12 m) = take_bit 12 a"
    by (rule bit_word_eqI) (auto simp: bit_simps)
  then have "unat (take_bit 12 (a OR push_bit 12 m)) = unat (take_bit 12 a)" by (simp only:)
  then show "unat (a OR push_bit 12 m) mod 0x1000 = unat a mod 0x1000"
    by (simp only: unsigned_take_bit_eq) (simp add: take_bit_eq_mod)
qed

lemma in_page_and_low:
  fixes a m :: Bit64u
  assumes "unat a mod 0x1000 + k < 0x1000" "take_bit 12 m = 0xfff"
  shows "(a + of_nat k) AND m = (a AND m) + of_nat k"
proof -
  define P where "P = push_bit 12 (drop_bit 12 a AND drop_bit 12 m)"
  have split: "x AND m = push_bit 12 (drop_bit 12 x AND drop_bit 12 m) + take_bit 12 x" for x
  proof -
    have low: "bit m i" if "i < 12" for i
    proof -
      have "bit (take_bit 12 m) i \<longleftrightarrow> bit (mask 12 :: Bit64u) i" by (simp add: assms(2) mask_numeral)
      then show ?thesis using that by (simp add: bit_take_bit_iff bit_mask_iff)
    qed
    have "x AND m = push_bit 12 (drop_bit 12 x AND drop_bit 12 m) OR take_bit 12 x"
      by (rule bit_word_eqI) (auto simp: bit_simps low dest: bit_imp_le_length)
    also have "\<dots> = push_bit 12 (drop_bit 12 x AND drop_bit 12 m) + take_bit 12 x"
      by (rule disjunctive_add [symmetric]) (auto simp: bit_simps)
    finally show ?thesis .
  qed
  show ?thesis by (simp only: split in_page_and(2) [OF assms(1)] in_page_low [OF assms(1)] add.assoc)
qed

lemma rom_offsets:
  fixes a :: Bit64u
  assumes "unat a mod 0x1000 + k < 0x1000"
  shows "ucast (a + of_nat k) AND BIOS_MASK = (ucast a AND BIOS_MASK) + of_nat k"
    "ucast (a + of_nat k) AND EXROM_MASK = (ucast a AND EXROM_MASK) + of_nat k"
    "BIOS_MAP_LAST128K (a + of_nat k) = BIOS_MAP_LAST128K a + of_nat k"
proof -
  have c: "ucast (x AND m) = (ucast x AND ucast m :: Bit32u)" for x m :: Bit64u
    by (rule bit_word_eqI) (auto simp: bit_simps)
  have *: "ucast (a + of_nat k) AND ucast m = (ucast a AND ucast m :: Bit32u) + of_nat k"
    if "take_bit 12 m = 0xfff" for m :: Bit64u
    using arg_cong [OF in_page_and_low [OF assms that], of "ucast :: Bit64u \<Rightarrow> Bit32u"]
    by (simp only: c ucast_down)
  show "ucast (a + of_nat k) AND BIOS_MASK = (ucast a AND BIOS_MASK) + of_nat k"
    "ucast (a + of_nat k) AND EXROM_MASK = (ucast a AND EXROM_MASK) + of_nat k"
    using * [of "0x1fffff"] * [of "0x1ffff"] by simp_all
  have m: "push_bit 12 0xfff00 = (0xfff00000 :: Bit64u)" by (simp add: push_bit_eq_mult)
  define b where "b = (a OR 0xfff00000 :: Bit64u)"
  have "(a + of_nat k) OR 0xfff00000 = b + of_nat k" "unat b mod 0x1000 + k < 0x1000"
    using in_page_or [OF assms, of "0xfff00"] assms by (simp_all only: m b_def)
  then show "BIOS_MAP_LAST128K (a + of_nat k) = BIOS_MAP_LAST128K a + of_nat k"
    using in_page_and_low [of b k "0x1fffff"] by (simp add: BIOS_MAP_LAST128K_def ucast_down flip: b_def)
qed

lemma upper_area:
  fixes a :: Bit64u
  assumes "0xc0000 \<le> a" "a < 0x100000"
  shows "a AND 0xfffc0000 = 0xc0000"
proof -
  have "unat (drop_bit 18 a) = 3"
    using assms by (simp only: unat_drop_bit_eq word_le_nat_alt word_less_nat_alt) (simp add: drop_bit_eq_div)
  then have d: "drop_bit 18 a = 3" by (simp add: word_unat_eq_iff)
  have "x AND push_bit 18 m = push_bit 18 (drop_bit 18 x AND m)" for x m :: Bit64u
    by (rule bit_word_eqI) (auto simp: bit_simps)
  from this [of a "0x3fff"] show ?thesis by (simp add: d push_bit_eq_mult)
qed

lemma area_in_page: "unat a mod 0x1000 + k < 0x1000 \<Longrightarrow> area_of (a + of_nat k) = area_of a"
  using in_page_and(2) [of a k, THEN arg_cong, of "drop_bit 2"] by (simp add: area_of_def)

lemma read_upper_bytes:
  "(\<And>k old. k < length ds \<Longrightarrow> read_upper_byte cpu (a + of_nat k) old s = (f k, s)) \<Longrightarrow>
   read_upper cpu a ds s = (map f [0..<length ds], s)"
proof (induction ds arbitrary: a f)
  case (Cons d ds)
  have "read_upper cpu (a + 1) ds s = (map (\<lambda>i. f (Suc i)) [0..<length ds], s)"
    using Cons.prems [of "Suc _"] by (intro Cons.IH) (simp add: add.assoc)
  then show ?case using Cons.prems [of 0 d] by (simp add: map_upt_Suc del: upt_Suc)
qed simp

lemma range_in_page:
  fixes a :: Bit64u
  assumes "unat a mod 0x1000 + k < 0x1000" "0xc0000 \<le> a" "a < 0x100000"
  shows "0xc0000 \<le> a + of_nat k" "a + of_nat k < 0x100000"
proof -
  have d: "unat (drop_bit 12 (a + of_nat k)) = unat (drop_bit 12 a)" by (simp only: in_page_and(2) [OF assms(1)])
  then have "unat (a + of_nat k) div 0x1000 = unat a div 0x1000"
    by (simp only: unat_drop_bit_eq) (simp add: drop_bit_eq_div)
  moreover have "0xc0 \<le> unat a div 0x1000" "unat a div 0x1000 < 0x100"
    using assms(2,3) by (simp_all add: word_le_nat_alt word_less_nat_alt)
  ultimately show "0xc0000 \<le> a + of_nat k" "a + of_nat k < 0x100000"
    by (simp_all add: word_le_nat_alt word_less_nat_alt)
qed

lemma read_upper_direct:
  assumes "rom_plain s" "0xc0000 \<le> a" "a < 0x100000" "unat a mod 0x1000 + length ds \<le> 0x1000"
  shows "read_upper cpu a ds s =
    (map (\<lambda>k. if pci_enabled s \<and> memory_type s (area_of a) False then vector s (a + of_nat k)
              else if a AND 0xfffe0000 = 0x000e0000 then rom s (BIOS_MAP_LAST128K a + of_nat k)
              else rom s ((ucast a AND EXROM_MASK) + BIOSROMSZ + of_nat k)) [0..<length ds], s)"
proof (rule read_upper_bytes)
  fix k old assume "k < length ds"
  then have k: "unat a mod 0x1000 + k < 0x1000" using assms by simp
  have r: "0xc0000 \<le> a + of_nat k" "a + of_nat k < 0x100000" by (rule range_in_page [OF k assms(2,3)])+
  have "push_bit 12 0xfffe0 = (0xfffe0000 :: Bit64u)" by (simp add: push_bit_eq_mult)
  then have e: "(a + of_nat k) AND 0xfffe0000 = a AND 0xfffe0000" using in_page_and(1) [OF k, of "0xfffe0"] by (simp only:)
  have c: "(a + of_nat k) AND 0xfffc0000 = 0xc0000" "\<not> a + of_nat k < 0xc0000" using upper_area [OF r] r by (simp_all add: not_less)
  show "read_upper_byte cpu (a + of_nat k) old s =
    (if pci_enabled s \<and> memory_type s (area_of a) False then vector s (a + of_nat k)
     else if a AND 0xfffe0000 = 0x000e0000 then rom s (BIOS_MAP_LAST128K a + of_nat k)
     else rom s ((ucast a AND EXROM_MASK) + BIOSROMSZ + of_nat k), s)"
    unfolding read_upper_byte_def c(1) e area_in_page [OF k] rom_offsets [OF k] rom_read_plain [OF assms(1)]
    by (simp only: c(2) add.assoc add.commute add.left_commute) simp
qed

lemma host_read_ram: "host_read (Ram a) n s = map (\<lambda>k. vector s (a + of_nat k)) [0..<n]"
  by (simp add: host_read_def get_bytes_map)

lemma host_read_bogus: "mem_ok s \<Longrightarrow> host_read (Bogus a) n s = replicate n 0xff"
  by (simp add: host_read_def get_bytes_map mem_ok_def map_replicate_const)

lemma low_not_bios: "mem_ok s \<Longrightarrow> a < 0x100000 \<Longrightarrow> a < mem_len s \<and> \<not> is_bios a s"
proof -
  assume m: "mem_ok s" and a: "a < 0x100000"
  have "0x100000 \<le> (ucast (bios_rom_addr s) :: Bit64u)"
    using m unsigned_less [of "bios_rom_addr s", where 'a = nat]
    by (simp add: mem_ok_def word_le_nat_alt unsigned_ucast_eq take_bit_nat_eq_self)
  then show ?thesis using m a by (auto simp: mem_ok_def is_bios_def)
qed

lemma direct_read_agrees:
  assumes ok: "mem_ok s" "rom_plain s" and page: "unat a mod 0x1000 + length ds \<le> 0x1000"
    and p: "direct_read a s = Some p"
  shows "mem_read cpu a ds (is_bios a s) s = (host_read p (length ds) s, s)"
proof -
  have rom: "host_read (Rom b) n s = map (\<lambda>k. rom s (b + of_nat k)) [0..<n]" for b n by (simp add: host_read_def)
  show ?thesis
  proof (cases "a < 0x100000")
    case True
    note lo = low_not_bios [OF ok(1) True]
    show ?thesis
    proof (cases "0xc0000 \<le> a")
      case u: True
      then have "\<not> a < 0xa0000" "\<not> 0x100000 \<le> a" "\<not> a < 0xc0000" using True by (auto simp: not_less not_le intro: order_trans [of _ "0xc0000"])
      then show ?thesis
        using p u True lo read_upper_direct [OF ok(2) u True page, of cpu]
        by (simp add: direct_read_def mem_read_def add.commute split: if_splits) (auto simp: host_read_ram rom add.commute)
    next
      case l: False
      then have "a < 0xa0000" using p by (rule_tac ccontr) (simp add: direct_read_def not_le not_less)
      then have n: "(0xa0000 \<le> a) = False" "(0xc0000 \<le> a) = False" "(a < 0xc0000) = True" using l by auto
      have "direct_read a s = Some (Ram a)" unfolding direct_read_def n using lo by simp
      then have "p = Ram a" using p by simp
      then show ?thesis
        using \<open>a < 0xa0000\<close> lo by (simp add: mem_read_def read_chunks_bytes get_bytes_map host_read_ram)
    qed
  next
    case False
    then have h: "0x100000 \<le> a" "\<not> a < 0xc0000" "\<not> a < 0x100000" "\<not> a < 0xa0000"
      by (auto simp: not_less intro: order_trans [of _ "0x100000"])
    have "bios_read_loop a ds s = (host_read (Rom (ucast a AND BIOS_MASK)) (length ds) s, s)"
      using page by (simp add: bios_read_loop_plain [OF ok(2)] rom rom_offsets)
    then show ?thesis
      using p h ok
      by (simp add: direct_read_def mem_read_def read_chunks_bytes get_bytes_map split: if_splits)
        (auto simp: host_read_bogus host_read_ram)
  qed
qed

lemma page_check_direct [simp]:
  "direct_read a (page_check x n s) = direct_read a s" "mem_ok (page_check x n s) = mem_ok s"
  "rom_plain (page_check x n s) = rom_plain s" "host_read p m (page_check x n s) = host_read p m s"
  by (simp_all add: page_check_def direct_read_def mem_ok_def rom_plain_def host_read_def is_bios_def split: host_ptr.split)

lemma direct_read_no_smram: "direct_read a s = Some p \<Longrightarrow> \<not> smram_access cpu a s"
  by (auto simp: direct_read_def smram_access_def split: option.split if_splits)

lemma getHostMemAddr_read:
  "no_handler (A20ADDR addr s) s \<Longrightarrow> getHostMemAddr env cpu addr BX_READ s = direct_read (A20ADDR addr s) s"
  by (simp add: getHostMemAddr_def Let_def no_handler_def direct_handler_none)

lemma getHostMemAddr_write:
  "no_handler (A20ADDR addr s) s \<Longrightarrow> getHostMemAddr env cpu addr BX_WRITE s =
     (if is_monitor env (A20ADDR addr s AND NOT 0xfff) 0xfff (BX_MEM_C.more s) then None else direct_write (A20ADDR addr s) s)"
  by (simp add: getHostMemAddr_def Let_def no_handler_def direct_handler_none)

lemma direct_write_ram: "direct_write a s = Some p \<longleftrightarrow> p = Ram a \<and> (a < 0xa0000 \<or> a \<ge> 0x100000) \<and> a < mem_len s \<and> \<not> is_bios a s"
  by (auto simp: direct_write_def word_less_nat_alt word_le_nat_alt)

text \<open>
  C12: Take a memory of at least 1 MB with the BIOS ROM above the first MB, where absent memory reads 0xff (\<open>mem_ok\<close>) and the
  flash is absent or in read-array mode (\<open>rom_plain\<close>), and a non-empty access within one page at an address that no memory
  handler of a device covers. Then a host pointer that \<open>getHostMemAddr\<close> gives for reading shows the bytes
  \<open>readPhysicalPage\<close> would return, whether it leads to RAM, shadow RAM, BIOS or expansion ROM or to no memory at
  all; and a pointer for writing always leads to RAM, where a write through \<open>writePhysicalPage\<close> stores the same bytes and
  changes no ROM byte.
\<close>

theorem direct_access_agrees:
  assumes "mem_ok s" "rom_plain s" "no_handler (A20ADDR addr s) s"
    and "0 < length ds" "unat (A20ADDR addr s) mod 0x1000 + length ds \<le> 0x1000"
  shows "(getHostMemAddr env cpu addr BX_READ s = Some p \<longrightarrow>
           fst (readPhysicalPage env cpu' addr ds s) = host_read p (length ds) s) \<and>
         (getHostMemAddr env cpu addr BX_WRITE s = Some p \<longrightarrow>
           p = Ram (A20ADDR addr s) \<and>
           vector (writePhysicalPage env cpu' addr ds s) = vector (host_write p ds s) \<and>
           rom (writePhysicalPage env cpu' addr ds s) = rom s)"
proof (intro conjI impI)
  assume "getHostMemAddr env cpu addr BX_READ s = Some p"
  then have d: "direct_read (A20ADDR addr s) s = Some p" using getHostMemAddr_read assms(3) by metis
  then show "fst (readPhysicalPage env cpu' addr ds s) = host_read p (length ds) s"
    using direct_read_agrees [of "page_check addr (length ds) s" "A20ADDR addr s" ds p cpu'] assms
      direct_read_no_smram [OF d, of cpu']
    by (simp add: readPhysicalPage_def Let_def no_handler_def read_handlers_none)
next
  assume "getHostMemAddr env cpu addr BX_WRITE s = Some p"
  then have d: "p = Ram (A20ADDR addr s) \<and> ram_access addr (length ds) s"
    unfolding getHostMemAddr_write [OF assms(3)]
    using assms by (simp add: direct_write_ram ram_access_def Let_def split: if_splits)
  then show "p = Ram (A20ADDR addr s)" by simp
  have w: "ram_written (A20ADDR addr s) ds s (writePhysicalPage env cpu' addr ds s)"
    using d writePhysicalPage_written by blast
  show "vector (writePhysicalPage env cpu' addr ds s) = vector (host_write p ds s)"
    "rom (writePhysicalPage env cpu' addr ds s) = rom s"
    using w d by (auto simp: ram_written_def host_write_def)
qed

section \<open>Round trips\<close>

text \<open>
  C11: Bytes written to one page of plain RAM (outside the video and BIOS areas, below the end of memory, under no memory
  handler: \<open>ram_access\<close>), in whatever chunks the code copies them, are read back; no other byte of RAM, no ROM byte
  and no setting of the memory changes; and code that was cached from the pieces written is withdrawn, the CPUs
  being told about each of them.
\<close>

theorem ram_write_read:
  assumes "ram_access addr (length ds) s" "length buf = length ds"
  shows "let a = A20ADDR addr s; s' = writePhysicalPage env cpu addr ds s
    in fst (readPhysicalPage env' cpu' addr buf s') = ds
    \<and> (\<forall>x. vector s' x = (if unat (x - a) < length ds then ds ! unat (x - a) else vector s x))
    \<and> ram_written a ds s s'
    \<and> (\<forall>k < length ds. \<not> cached (a + of_nat k) s' \<and> (cached (a + of_nat k) s \<longrightarrow> smc_hit (a + of_nat k) s'))"
  unfolding Let_def
proof (intro conjI)
  define a s' where a_def: "a = A20ADDR addr s" and s'_def: "s' = writePhysicalPage env cpu addr ds s"
  have len: "length ds \<le> 2 ^ 64" using assms(1) by (simp add: ram_access_def Let_def)
  have w: "ram_written a ds s s'" unfolding a_def s'_def by (rule writePhysicalPage_written [OF assms(1)])
  then have v: "vector s' = put_bytes a ds (vector s)" by (auto simp: ram_written_def)
  show "ram_written (A20ADDR addr s) ds s (writePhysicalPage env cpu addr ds s)" using w by (simp add: a_def s'_def)
  show "\<forall>x. vector (writePhysicalPage env cpu addr ds s) x = 
    (if unat (x - A20ADDR addr s) < length ds then ds ! unat (x - A20ADDR addr s) else vector s x)"
    using len v by (simp add: a_def s'_def put_bytes_apply)
  have "ram_access addr (length buf) s'" "A20ADDR addr s' = a"
    using ram_access_written [OF w] assms(1,2) by (simp_all add: a_def)
  then show "fst (readPhysicalPage env' cpu' addr buf (writePhysicalPage env cpu addr ds s)) = ds"
    using readPhysicalPage_ram [of addr buf s' env' cpu'] get_put_bytes [OF len, of a] assms(2) v by (simp add: s'_def)
qed (use writePhysicalPage_stamps [OF assms(1)] in blast)

text \<open>A range of RAM for DMA: A20 is open, no handler, no monitored page.\<close>

definition dma_range :: "'a mem_env \<Rightarrow> Bit64u \<Rightarrow> nat \<Rightarrow> 'a BX_MEM_C_scheme \<Rightarrow> bool" where
  "dma_range env a n s \<longleftrightarrow>
     (\<forall>k < n. A20ADDR (a + of_nat k) s = a + of_nat k \<and> ram_access (a + of_nat k) 1 s
        \<and> (\<forall>m. \<not> is_monitor env ((a + of_nat k) AND NOT 0xfff) 0xfff m))"

lemma dma_range_written: "ram_written x ds s s' \<Longrightarrow> dma_range env a n s' = dma_range env a n s"
  by (simp add: dma_range_def ram_access_written)

lemma dma_range_drop: "dma_range env a n s \<Longrightarrow> dma_range env (a + of_nat k) (n - k) s"
  unfolding dma_range_def
proof (intro allI impI)
  fix j assume *: "\<forall>k<n. A20ADDR (a + of_nat k) s = a + of_nat k \<and> ram_access (a + of_nat k) 1 s
        \<and> (\<forall>m. \<not> is_monitor env ((a + of_nat k) AND NOT 0xfff) 0xfff m)" and "j < n - k"
  then have "k + j < n" by simp
  from * [rule_format, OF this] show "A20ADDR (a + of_nat k + of_nat j) s = a + of_nat k + of_nat j
      \<and> ram_access (a + of_nat k + of_nat j) 1 s \<and> (\<forall>m. \<not> is_monitor env ((a + of_nat k + of_nat j) AND NOT 0xfff) 0xfff m)"
    by (simp only: of_nat_add add.assoc) simp
qed

lemma dma_range_first:
  assumes "dma_range env a n s" "0 < n"
  shows "A20ADDR a s = a" "no_handler a s" "direct_write a s = Some (Ram a)" "direct_read a s = Some (Ram a)"
    "\<not> is_monitor env (a AND NOT 0xfff) 0xfff m"
proof -
  have 0: "A20ADDR a s = a" "ram_access a 1 s" "\<not> is_monitor env (a AND NOT 0xfff) 0xfff m"
    using assms(1) [unfolded dma_range_def, rule_format, OF assms(2)] by simp_all
  then have 1: "a < 0xa0000 \<or> 0x100000 \<le> a" "a < mem_len s" "\<not> is_bios a s" "no_handler a s"
    by (simp_all add: ram_access_def Let_def)
  show "A20ADDR a s = a" "no_handler a s" "\<not> is_monitor env (a AND NOT 0xfff) 0xfff m" by (fact 0 1)+
  show "direct_write a s = Some (Ram a)" using 1 by (simp add: direct_write_ram)
  have "\<not> (0xa0000 \<le> a \<and> a < 0xc0000)" "\<not> (0xc0000 \<le> a \<and> a < 0x100000)" "a < 0xc0000 \<or> 0x100000 \<le> a"
    using 1(1) order_trans [of "0xc0000" "0x100000" a] less_trans [of a "0xa0000" "0xc0000"]
    by (auto simp: not_less not_le)
  then show "direct_read a s = Some (Ram a)" using 1 unfolding direct_read_def by simp
qed

lemma dmaWrite_written:
  assumes "dma_range env a n s" "0 < n"
  shows "ram_written a ds s (dmaWritePhysicalPage env a ds s)"
proof -
  let ?s = "page_check a (length ds) s"
  have "dma_range env a n ?s" using dma_range_written [OF written_page_check] assms(1) by blast
  note r = dma_range_first [OF this assms(2)]
  have "getHostMemAddr env None a BX_WRITE ?s = Some (Ram a)"
    using getHostMemAddr_write [of a ?s env None] r by (simp only: r(1,2,3,5) if_False)
  then have "dmaWritePhysicalPage env a ds s = write_vector a ds (decWriteStamp a ?s)"
    by (simp add: dmaWritePhysicalPage_def Let_def host_write_def write_vector_def)
  then show ?thesis
    using written_first [OF written_page_check written_first [OF written_stamp written_vector]] by metis
qed

lemma dmaRead_ram:
  assumes "dma_range env a n s" "0 < n"
  shows "dmaReadPhysicalPage env a buf s = (get_bytes a (length buf) (vector s), page_check a (length buf) s)"
proof -
  let ?s = "page_check a (length buf) s"
  have "dma_range env a n ?s" using dma_range_written [OF written_page_check] assms(1) by blast
  note r = dma_range_first [OF this assms(2)]
  have "getHostMemAddr env None a BX_READ ?s = Some (Ram a)"
    using getHostMemAddr_read [of a ?s env None] r by (simp only: r(1,2,4))
  then show ?thesis by (simp add: dmaReadPhysicalPage_def Let_def host_read_def)
qed

lemma remainingInPage_le: "remainingInPage a n \<le> n"
  by (simp add: remainingInPage_def Let_def)

lemma dma_write_ram:
  "dma_range env a (length ds) s \<Longrightarrow> ram_written a ds s (DEV_MEM_WRITE_PHYSICAL_DMA env a ds s)"
proof (induction env a ds s rule: DEV_MEM_WRITE_PHYSICAL_DMA.induct)
  case (1 env a ds s)
  show ?case
  proof (cases "ds = []")
    case True
    then show ?thesis by (simp add: DEV_MEM_WRITE_PHYSICAL_DMA.simps written_refl)
  next
    case False
    define n where "n = remainingInPage a (length ds)"
    have n: "n \<le> length ds" by (simp add: n_def remainingInPage_le)
    have w: "ram_written a (take n ds) s (dmaWritePhysicalPage env a (take n ds) s)"
      using dmaWrite_written [OF "1.prems"] False by simp
    have "dma_range env (a + of_nat n) (length (drop n ds)) (dmaWritePhysicalPage env a (take n ds) s)"
      using dma_range_drop [OF "1.prems", of n] dma_range_written [OF w] by simp
    from written_trans [OF w, of "drop n ds"] 1(1) [OF False n_def this] n False show ?thesis
      by (simp add: DEV_MEM_WRITE_PHYSICAL_DMA.simps [of env a ds] Let_def n_def [symmetric])
  qed
qed

lemma dma_read_ram:
  "dma_range env a (length buf) s \<Longrightarrow>
   fst (DEV_MEM_READ_PHYSICAL_DMA env a buf s) = get_bytes a (length buf) (vector s) \<and>
   ram_written a [] s (snd (DEV_MEM_READ_PHYSICAL_DMA env a buf s))"
proof (induction env a buf s rule: DEV_MEM_READ_PHYSICAL_DMA.induct)
  case (1 env a buf s)
  show ?case
  proof (cases "buf = []")
    case True
    then show ?thesis by (simp add: DEV_MEM_READ_PHYSICAL_DMA.simps written_refl)
  next
    case False
    define n where "n = remainingInPage a (length buf)"
    have n: "n \<le> length buf" by (simp add: n_def remainingInPage_le)
    let ?s = "page_check a n s"
    have r: "dmaReadPhysicalPage env a (take n buf) s = (get_bytes a n (vector s), ?s)"
      using dmaRead_ram [OF "1.prems"] False n by simp
    have "dma_range env (a + of_nat n) (length (drop n buf)) ?s"
      using dma_range_drop [OF "1.prems", of n] dma_range_written [OF written_page_check, of env _ _ a n s] by simp
    from 1(1) [OF False n_def refl r [symmetric] this] have
      IH: "fst (DEV_MEM_READ_PHYSICAL_DMA env (a + of_nat n) (drop n buf) ?s) = get_bytes (a + of_nat n) (length buf - n) (vector s)"
        "ram_written (a + of_nat n) [] ?s (snd (DEV_MEM_READ_PHYSICAL_DMA env (a + of_nat n) (drop n buf) ?s))"
      by simp_all
    then have "ram_written a [] ?s (snd (DEV_MEM_READ_PHYSICAL_DMA env (a + of_nat n) (drop n buf) ?s))"
      by (simp add: ram_written_def)
    from written_first [OF written_page_check this] IH(1) show ?thesis
      using False n get_bytes_append [of a n "length buf - n" "vector s"]
      by (simp add: DEV_MEM_READ_PHYSICAL_DMA.simps [of env a buf] Let_def n_def [symmetric] r case_prod_unfold)
  qed
qed

text \<open>
  A DMA transfer, split at page boundaries, stores the bytes of the buffer one after the other in RAM and
  changes no other byte, and a DMA transfer back returns them.
\<close>

lemma dma_copy:
  assumes "dma_range env a (length ds) s" "length buf = length ds" "length ds \<le> 2 ^ 64"
  shows "let s' = DEV_MEM_WRITE_PHYSICAL_DMA env a ds s
    in ram_written a ds s s' \<and> fst (DEV_MEM_READ_PHYSICAL_DMA env a buf s') = ds"
proof -
  note w = dma_write_ram [OF assms(1)]
  then have "dma_range env a (length buf) (DEV_MEM_WRITE_PHYSICAL_DMA env a ds s)"
    using dma_range_written assms by metis
  from dma_read_ram [OF this] w show ?thesis
    using assms(2) get_put_bytes [OF assms(3)] by (auto simp: ram_written_def Let_def)
qed

section \<open>Memory handlers\<close>

text \<open>
  The handlers of a megabyte, most recent first. \<open>own\<close> are the 64 KB pieces a handler occupies there, and
  the bitmap of a handler is what it and those behind it occupy, without overlap.
\<close>

definition own :: "nat \<Rightarrow> memory_handler_struct \<Rightarrow> Bit16u" where
  "own p h = handler_bitmap (h_begin h) (h_end h) (of_nat p)"

definition occupied :: "memory_handler_struct list \<Rightarrow> Bit16u" where
  "occupied hs = (if hs = [] then 0 else h_bitmap (hd hs))"

primrec chain_ok :: "nat \<Rightarrow> memory_handler_struct list \<Rightarrow> bool" where
  "chain_ok p [] = True"
| "chain_ok p (h # hs) \<longleftrightarrow>
     chain_ok p hs \<and> own p h AND occupied hs = 0 \<and> h_bitmap h = own p h OR occupied hs"

definition handlers_ok :: "'a BX_MEM_C_scheme \<Rightarrow> bool" where
  "handlers_ok s \<longleftrightarrow> (\<forall>p. chain_ok p (memory_handlers s p))"

lemma own_bitmap [simp]: "own p (h\<lparr>h_bitmap := bm\<rparr>) = own p h"
  by (simp add: own_def)

lemma occupied_own: "chain_ok p hs \<Longrightarrow> h \<in> set hs \<Longrightarrow> bit (own p h) n \<Longrightarrow> bit (occupied hs) n"
  by (induction hs) (auto simp: occupied_def bit_or_iff)

lemma register_pages_ok: "handlers_ok s \<Longrightarrow> handlers_ok (snd (register_pages h ps s))"
proof (induction ps arbitrary: s)
  case (Cons p ps)
  let ?hs = "memory_handlers s p"
  define bm where "bm = (if ?hs \<noteq> [] then own p h OR h_bitmap (hd ?hs) else own p h)"
  define t where "t = s\<lparr>memory_handlers := (memory_handlers s)(p := h\<lparr>h_bitmap := bm\<rparr> # ?hs)\<rparr>"
  show ?case
  proof (cases "?hs \<noteq> [] \<and> own p h AND h_bitmap (hd ?hs) \<noteq> 0")
    case True
    then show ?thesis using Cons.prems by (simp add: own_def)
  next
    case False
    then have "handlers_ok t"
      using Cons.prems by (auto simp: handlers_ok_def t_def bm_def occupied_def)
    moreover have "register_pages h (p # ps) s = register_pages h ps t"
      using False by (auto simp: t_def bm_def own_def Let_def)
    ultimately show ?thesis using Cons.IH by simp
  qed
qed simp

text \<open>Taking a handler out of a chain: those before it give up its pieces.\<close>

definition designates :: "nat \<Rightarrow> Bit64u \<Rightarrow> Bit64u \<Rightarrow> memory_handler_struct list \<Rightarrow> bool" where
  "designates prm b e hs \<longleftrightarrow>
     (\<exists>h \<in> set hs. h_begin h = b \<and> h_end h = e) \<and>
     (\<forall>h \<in> set hs. h_param h = prm \<or> h_begin h = b \<or> h_end h = e \<longrightarrow> h_begin h = b \<and> h_end h = e)"

lemma and_0_bit: "x AND y = 0 \<longleftrightarrow> (\<forall>n. \<not> (bit x n \<and> bit y n))" for x y :: "'a::len word"
  by (simp add: bit_eq_iff bit_and_iff) (metis bit_imp_le_length not_le)

lemma unregister_from_ok:
  assumes "chain_ok p hs" "designates prm b e hs"
  shows "fst (unregister_from prm b e (handler_bitmap b e (of_nat p)) hs) \<and>
    chain_ok p (snd (unregister_from prm b e (handler_bitmap b e (of_nat p)) hs)) \<and>
    occupied (snd (unregister_from prm b e (handler_bitmap b e (of_nat p)) hs)) = occupied hs AND NOT (handler_bitmap b e (of_nat p))"
  using assms
proof (induction hs)
  case (Cons h hs)
  let ?bm = "handler_bitmap b e (of_nat p)"
  have dis: "bit (own p h) n \<Longrightarrow> \<not> bit (occupied hs) n" for n using Cons.prems(1) by (auto simp: and_0_bit)
  have bmp: "h_bitmap h = own p h OR occupied hs" using Cons.prems(1) by simp
  show ?case
  proof (cases "h_param h \<noteq> prm \<and> h_begin h \<noteq> b \<and> h_end h \<noteq> e")
    case True
    then have d: "designates prm b e hs" using Cons.prems(2) by (auto simp: designates_def)
    then obtain g where "g \<in> set hs" "own p g = ?bm" by (auto simp: designates_def own_def)
    then have sub: "bit ?bm n \<Longrightarrow> bit (occupied hs) n" for n using Cons.prems(1) occupied_own [of p hs g n] by simp
    have "own p h AND (occupied hs AND NOT ?bm) = 0" using dis by (auto simp: and_0_bit bit_and_iff)
    moreover have "(own p h OR occupied hs) AND NOT ?bm = own p h OR (occupied hs AND NOT ?bm)"
      by (rule bit_word_eqI) (use dis sub in \<open>auto simp: bit_simps\<close>)
    moreover obtain f hs' where u: "unregister_from prm b e ?bm hs = (f, hs')" by fastforce
    moreover have "f" "chain_ok p hs'" "occupied hs' = occupied hs AND NOT ?bm"
      using Cons.IH [OF _ d] Cons.prems(1) u by simp_all
    ultimately show ?thesis using True bmp by (simp add: occupied_def [of "_ # _"])
  next
    case False
    then have "own p h = ?bm" using Cons.prems(2) unfolding designates_def own_def by (metis list.set_intros(1))
    moreover have "(own p h OR occupied hs) AND NOT (own p h) = occupied hs"
      by (rule bit_word_eqI) (use dis in \<open>auto simp: bit_simps\<close>)
    moreover have "unregister_from prm b e ?bm (h # hs) = (True, hs)"
      by (simp only: unregister_from.simps(2) if_not_P [OF False])
    ultimately show ?thesis using Cons.prems(1) bmp by (simp add: occupied_def [of "_ # _"] del: unregister_from.simps)
  qed
qed (simp add: designates_def)

lemma unregister_pages_ok:
  "handlers_ok s \<Longrightarrow> distinct ps \<Longrightarrow> \<forall>p \<in> set ps. designates prm b e (memory_handlers s p) \<Longrightarrow>
   fst (unregister_pages prm b e ps ret s) = ret \<and> handlers_ok (snd (unregister_pages prm b e ps ret s))"
proof (induction ps arbitrary: s ret)
  case (Cons p ps)
  obtain f hs where u: "unregister_from prm b e (handler_bitmap b e (of_nat p)) (memory_handlers s p) = (f, hs)" by fastforce
  have *: "f" "chain_ok p hs"
    using unregister_from_ok [of p "memory_handlers s p" prm b e] Cons.prems u by (auto simp: handlers_ok_def)
  let ?t = "s\<lparr>memory_handlers := (memory_handlers s)(p := hs)\<rparr>"
  have "handlers_ok ?t" using Cons.prems(1) * by (simp add: handlers_ok_def)
  moreover have "\<forall>q \<in> set ps. designates prm b e (memory_handlers ?t q)" using Cons.prems(2,3) by auto
  ultimately show ?case using Cons.IH [of ?t ret] Cons.prems(2) * u by simp
qed simp

text \<open>A handler occupies the piece of every address it covers, as long as the megabyte is below 4 GB.\<close>

lemma unat_piece64: "unat (drop_bit 16 x AND 0xf) = unat x div 0x10000 mod 16" for x :: Bit64u
proof -
  have "drop_bit 16 x AND 0xf = take_bit 4 (drop_bit 16 x)" by (simp add: take_bit_eq_mask mask_numeral)
  then show ?thesis
    by (simp only: unsigned_take_bit_eq unat_drop_bit_eq) (simp add: take_bit_eq_mod drop_bit_eq_div)
qed

lemma unat_megabyte:
  assumes "q \<le> 0x1000"
  shows "unat (ucast (push_bit 20 (of_nat q :: Bit32u)) :: Bit64u) = (if q = 0x1000 then 0 else q * 0x100000)"
proof -
  have "unat (push_bit 20 (of_nat q :: Bit32u)) = q * 0x100000 mod 0x100000000"
    by (simp add: push_bit_eq_mult unat_word_ariths unat_of_nat take_bit_eq_mod mod_simps)
  moreover have "unat (ucast x :: Bit64u) = unat x" for x :: Bit32u
    using unsigned_less [of x, where 'a = nat] by (simp add: unsigned_ucast_eq take_bit_nat_eq_self)
  ultimately show ?thesis using assms by auto
qed

lemma handler_bitmap_bit:
  assumes "p < 0x1000" "j < 16"
  shows "bit (handler_bitmap b e (of_nat p)) j \<longleftrightarrow>
    (unat b > p * 0x100000 \<longrightarrow> unat b div 0x10000 mod 16 \<le> j) \<and>
    (p \<noteq> 0xfff \<and> unat e < (p + 1) * 0x100000 \<longrightarrow> j \<le> unat e div 0x10000 mod 16)"
proof -
  have ones: "bit (0xffff :: int) n \<longleftrightarrow> n < 16" for n
    using bit_mask_iff [of 16 n, where 'a = int] by (auto simp: mask_numeral)
  have lo: "b > ucast (push_bit 20 (of_nat p :: Bit32u)) \<longleftrightarrow> unat b > p * 0x100000"
    using unat_megabyte [of p] assms(1) by (simp only: word_less_nat_alt) simp
  have hi: "e < ucast (push_bit 20 (of_nat p + 1 :: Bit32u)) \<longleftrightarrow> p \<noteq> 0xfff \<and> unat e < (p + 1) * 0x100000"
    using unat_megabyte [of "p + 1"] assms(1) by (simp only: word_less_nat_alt of_nat_add of_nat_1) simp
  define m where "m = unat e div 0x10000 mod 16"
  have "m < 16" by (simp add: m_def)
  then show ?thesis
    unfolding handler_bitmap_def Let_def lo hi unat_piece64 m_def [symmetric]
    using assms(2)
    by (auto simp: bit_and_iff bit_ucast_iff bit_push_bit_iff bit_drop_bit_eq ones)
qed

lemma covers_own:
  assumes "covers h a" "a < 0x100000000" "unat (drop_bit 20 a) = p"
  shows "bit (own p h) (unat a div 0x10000 mod 16)"
proof -
  have p: "unat a div 0x100000 = p" using assms(3) by (simp only: unat_drop_bit_eq) (simp add: drop_bit_eq_div)
  have lt: "unat a < 0x100000000" using assms(2) by (simp add: word_less_nat_alt)
  have be: "unat (h_begin h) \<le> unat a" "unat a \<le> unat (h_end h)"
    using assms(1) by (simp_all add: covers_def word_le_nat_alt)
  have piece: "x div 0x10000 mod 16 \<le> y div 0x10000 mod 16"
    if "x \<le> y" "p * 0x100000 \<le> x" "y < (p + 1) * 0x100000" for x y :: nat
  proof -
    have "x div 0x100000 = p" "y div 0x100000 = p" using that by (auto simp: div_nat_eqI)
    then have "x div 0x10000 div 16 = y div 0x10000 div 16" by (simp add: div_mult2_eq [symmetric])
    moreover have "x div 0x10000 \<le> y div 0x10000" using that(1) by (rule div_le_mono)
    ultimately show ?thesis by (metis add_le_cancel_left mult_div_mod_eq)
  qed
  have "p * 0x100000 \<le> unat a" "unat a < (p + 1) * 0x100000" "p < 0x1000" using p lt by (auto simp: less_mult_imp_div_less)
  then show ?thesis
    using handler_bitmap_bit [of p "unat a div 0x10000 mod 16" "h_begin h" "h_end h"] be
      piece [of "unat (h_begin h)" "unat a"] piece [of "unat a" "unat (h_end h)"] by (simp add: own_def)
qed

lemma chain_disjoint:
  "chain_ok p hs \<Longrightarrow> i < j \<Longrightarrow> j < length hs \<Longrightarrow> \<not> (bit (own p (hs ! i)) n \<and> bit (own p (hs ! j)) n)"
proof (induction hs arbitrary: i j)
  case (Cons h hs)
  obtain j' where j: "j = Suc j'" using Cons.prems(2) by (cases j) auto
  show ?case
  proof (cases i)
    case 0
    then show ?thesis using Cons.prems occupied_own [of p hs "hs ! j'" n] by (auto simp: j and_0_bit)
  next
    case (Suc i')
    then show ?thesis using Cons.prems Cons.IH [of i' j'] by (simp add: j)
  qed
qed simp

text \<open>
  C29: The handlers of the devices never overlap: the bookkeeping of the 64 KB pieces, which holds after
  \<open>init_memory\<close>, is kept by every registration, successful or not, and by unregistering a range that is registered
  in all its megabytes and shares its parameter, begin and end with no other handler there; and
  under it no two handlers of a megabyte cover the same address below 4 GB.
\<close>

theorem handlers_invariant:
  "handlers_ok (init_memory pci guest s)
   \<and> (handlers_ok s \<longrightarrow> handlers_ok (snd (registerMemoryHandlers prm rd wr da b e s)))
   \<and> (handlers_ok s \<longrightarrow> (\<forall>p \<in> set (page_range b e). designates prm b e (memory_handlers s p)) \<longrightarrow>
        fst (unregisterMemoryHandlers prm b e s) \<and> handlers_ok (snd (unregisterMemoryHandlers prm b e s)))
   \<and> (handlers_ok s \<longrightarrow> a < 0x100000000 \<longrightarrow> i < j \<longrightarrow> j < length (memory_handlers s (unat (drop_bit 20 a))) \<longrightarrow>
        \<not> (covers (memory_handlers s (unat (drop_bit 20 a)) ! i) a \<and> covers (memory_handlers s (unat (drop_bit 20 a)) ! j) a))"
proof (intro conjI impI)
  show "handlers_ok (init_memory pci guest s)" by (simp add: handlers_ok_def init_memory_def)
  assume ok: "handlers_ok s"
  show "handlers_ok (snd (registerMemoryHandlers prm rd wr da b e s))"
    using register_pages_ok [OF ok] ok by (simp add: registerMemoryHandlers_def split: option.split)
  {
    assume "\<forall>p \<in> set (page_range b e). designates prm b e (memory_handlers s p)"
    then show "fst (unregisterMemoryHandlers prm b e s)" "handlers_ok (snd (unregisterMemoryHandlers prm b e s))"
      using unregister_pages_ok [OF ok, of "page_range b e" prm b e True]
      by (simp_all add: unregisterMemoryHandlers_def page_range_def)
  }
  assume "a < 0x100000000" "i < j" "j < length (memory_handlers s (unat (drop_bit 20 a)))"
  then show "\<not> (covers (memory_handlers s (unat (drop_bit 20 a)) ! i) a \<and> covers (memory_handlers s (unat (drop_bit 20 a)) ! j) a)"
    using chain_disjoint [of "unat (drop_bit 20 a)" "memory_handlers s (unat (drop_bit 20 a))" i j] ok covers_own [of _ a]
    unfolding handlers_ok_def by blast
qed

section \<open>Defects\<close>

lemma erase_rom_apply: "n \<le> 2 ^ 32 \<Longrightarrow> erase_rom addr n r x = (if unat (x - addr) < n then 0xff else r x)"
proof (induction n)
  case (Suc n)
  then have "x = addr + of_nat n \<longleftrightarrow> unat (x - addr) = n"
    by (auto simp: unat_of_nat take_bit_nat_eq_self_iff)
  then show ?case using Suc by auto
qed simp

text \<open>
  The erase command of the flash clears 4 KB (8 KB for the second type) at whatever address it is
  given: the tests for the parameter blocks are assignments.
\<close>

lemma flash_erase_any_address:
  assumes "flash_wsm_state s = FLASH_ERASE_SETUP" "flash_type s \<in> {1, 2}"
  shows "rom (flash_write addr FLASH_ERASE s) x =
    (if unat (x - addr) < (if flash_type s = 1 then 0x1000 else 0x2000) then 0xff else rom s x)"
proof -
  have "rom (flash_write addr FLASH_ERASE s) = erase_rom addr (if flash_type s = 1 then 0x1000 else 0x2000) (rom s)"
    using assms by (simp add: flash_write_def flash_erase_def Let_def del: erase_rom.simps) (elim disjE; simp)
  then show ?thesis by (simp add: erase_rom_apply)
qed

text \<open>
  A write of two bytes to the writable BIOS below 1 MB stores them twice: at the address given and
  three bytes behind it.
\<close>

lemma write_upper_bios:
  assumes "0xc0000 \<le> a" "a < 0x100000" "pci_enabled s" "\<not> memory_type s (area_of a) True"
    "8 \<le> area_of a" "bios_write_enabled s"
  shows "write_upper env cpu data (Suc n) a j s =
    write_upper env cpu data n (a + of_nat (length data) + 1) (length data + 1) (bios_write_loop BIOS_MAP_LAST128K a data s)"
  using assms upper_area [OF assms(1,2)] by (simp add: not_less)

lemma bios_write_repeated:
  assumes s: "pci_enabled s" "bios_write_enabled s" "flash_type s = 0" "mem_ok s" "no_handler a s" "A20ADDR a s = a"
    and a: "0xe0000 \<le> unat a" "unat a + 4 < 0x100000" "area_of (a + 3) = area_of a" "8 \<le> area_of a"
    and "\<not> memory_type s (area_of a) True"
  shows "rom (writePhysicalPage env cpu a [x, y] s) =
    (rom s)(BIOS_MAP_LAST128K a := x, BIOS_MAP_LAST128K (a + 1) := y,
            BIOS_MAP_LAST128K (a + 3) := x, BIOS_MAP_LAST128K (a + 4) := y)"
proof -
  have r: "0xc0000 \<le> a" "a < 0x100000" "\<not> a < 0xa0000" "\<not> 0x100000 \<le> a" "\<not> a < 0xc0000"
    using a by (simp_all add: word_less_nat_alt word_le_nat_alt)
  have "unat (a + 3) = unat a + 3" using a(2) by (simp add: unat_word_ariths)
  then have r3: "0xc0000 \<le> a + 3" "a + 3 < 0x100000"
    using a by (simp_all add: word_less_nat_alt word_le_nat_alt)
  define t where "t = decWriteStamp a ((page_check a 2 s)\<lparr>BX_MEM_C.more := check_monitor env a 2 (BX_MEM_C.more s)\<rparr>)"
  have t: "pci_enabled t" "bios_write_enabled t" "flash_type t = 0" "memory_type t = memory_type s" "rom t = rom s"
    using s(1-3) by (simp_all add: t_def decWriteStamp_def handleSMC_def page_check_def Let_def)
  have "\<not> smram_access cpu a s" using r by (simp add: smram_access_def split: option.split)
  then have "writePhysicalPage env cpu a [x, y] s = write_upper env cpu [x, y] (Suc (Suc 0)) a 0 t"
    using s r low_not_bios [OF s(4) r(2)]
    by (simp add: writePhysicalPage_def Let_def no_handler_def write_handlers_none mem_write_def t_def del: write_upper.simps)
      (simp add: eval_nat_numeral del: write_upper.simps)
  also have "\<dots> = bios_write_loop BIOS_MAP_LAST128K (a + 3) [x, y] (bios_write_loop BIOS_MAP_LAST128K a [x, y] t)"
    using write_upper_bios [of a t env cpu "[x, y]" "Suc 0" 0] r t a assms(11)
      write_upper_bios [of "a + 3" "bios_write_loop BIOS_MAP_LAST128K a [x, y] t" env cpu "[x, y]" 0 "Suc (Suc (Suc 0))"] r3
    by (simp add: rom_write_def add.assoc del: write_upper.simps(2)) 
  finally show ?thesis using t by (simp add: rom_write_def add.assoc)
qed

text \<open>
  With A20 masked, a DMA write through a direct pointer stores at the masked address but clears the write stamps
  of the unmasked one: code cached from the page written stays cached.
\<close>

lemma dma_write_stale_code:
  assumes "getHostMemAddr env None addr BX_WRITE (page_check addr (length ds) s) = Some (Ram (A20ADDR addr s))"
    and "hash addr \<noteq> hash (A20ADDR addr s)" "cached (A20ADDR addr s) s"
  shows "cached (A20ADDR addr s) (dmaWritePhysicalPage env addr ds s) \<and>
    vector (dmaWritePhysicalPage env addr ds s) = put_bytes (A20ADDR addr s) ds (vector s)"
proof -
  have "dmaWritePhysicalPage env addr ds s =
      host_write (Ram (A20ADDR addr s)) ds (decWriteStamp addr (page_check addr (length ds) s))"
    using assms(1) by (simp add: dmaWritePhysicalPage_def Let_def)
  then show ?thesis
    using assms(2,3) by (auto simp: host_write_def decWriteStamp_def handleSMC_def Let_def cached_def page_check_def)
qed

text \<open>
  Unregistering removes the most recent handler that shares the parameter, the begin or the end: of two
  ranges of one device in a megabyte it removes the second when asked for the first.
\<close>

lemma unregister_wrong_handler:
  assumes "memory_handlers s p = [h2, h1]" "h_param h1 = prm" "h_param h2 = prm"
    and "page_range (h_begin h1) (h_end h1) = [p]"
  shows "fst (unregisterMemoryHandlers prm (h_begin h1) (h_end h1) s) \<and>
    memory_handlers (snd (unregisterMemoryHandlers prm (h_begin h1) (h_end h1) s)) p = [h1]"
  using assms by (simp add: unregisterMemoryHandlers_def)

text \<open>A direct pointer bypasses the flash: after a command that makes it answer with its status, DMA still reads the ROM.\<close>

lemma direct_read_ignores_flash:
  assumes "flash_type s > 0" "flash_wsm_state s = FLASH_READ_STATUS" "bios_rom_addr s = 0xffff0000"
    "no_handler 0xfffffff0 s" "A20ADDR 0xfffffff0 s = 0xfffffff0" "\<not> pci_enabled s"
  shows "fst (readPhysicalPage env None 0xfffffff0 [d] s) = [flash_status s]"
    "fst (dmaReadPhysicalPage env 0xfffffff0 [d] s) = [rom s 0x1ffff0]"
proof -
  have b: "is_bios 0xfffffff0 s" using assms(3) by (simp add: is_bios_def)
  show "fst (readPhysicalPage env None 0xfffffff0 [d] s) = [flash_status s]"
    using assms b
    by (simp add: readPhysicalPage_def Let_def smram_access_def no_handler_def read_handlers_none mem_read_def
        rom_read_def flash_read_def page_check_def is_bios_def)
  have "getHostMemAddr env None 0xfffffff0 BX_READ (page_check 0xfffffff0 1 s) = Some (Rom 0x1ffff0)"
    using assms b getHostMemAddr_read [of "0xfffffff0" "page_check 0xfffffff0 1 s" env None]
    by (simp add: direct_read_def)
  then show "fst (dmaReadPhysicalPage env 0xfffffff0 [d] s) = [rom s 0x1ffff0]"
    by (simp add: dmaReadPhysicalPage_def Let_def host_read_def)
qed

section \<open>Witnesses\<close>

definition quiet_env :: "'m mem_env" where
  "quiet_env = \<lparr>call_read = (\<lambda>f p a d m. ((False, d), m)), call_write = (\<lambda>f p a d m. (False, m)),
     call_da = (\<lambda>f p a rw m. None), is_monitor = (\<lambda>a n m. False), check_monitor = (\<lambda>a n m. m), overrun = (\<lambda>j. 0)\<rparr>"

definition mem_sample :: "'a \<Rightarrow> 'a BX_MEM_C_scheme" where
  "mem_sample m = init_memory True 0x200000
     \<lparr>timer = (\<lambda>_. \<lparr>inUse = False, period = 0, timeToFire = 0, active = False, continuous = False, funct = None,
        this_ptr = 0, timer_id = [], param = 0\<rparr>), numTimers = 0, triggeredTimer = 0, currCountdown = 0,
      currCountdownPeriod = 0, ticksTotal = 0, lastTimeUsec = 0, usecSinceLast = 0, HRQ = False, async_event = False,
      enable_a20 = True, a20_mask = 0xffffffffffffffff, kill_bochs_request = False, bx_user_quit = False,
      memory_handlers = (\<lambda>_. []), pci_enabled = False, bios_write_enabled = False, smram_available = False,
      smram_enable = False, smram_restricted = False, mem_len = 0, vector = (\<lambda>_. 0), rom = (\<lambda>_. 0), bogus = (\<lambda>_. 0),
      dev_mem = (\<lambda>_ _. 0), memory_type = (\<lambda>_ _. False), bios_rom_addr = 0, bios_rom_access = 0, flash_type = 0,
      flash_status = 0, flash_wsm_state = 0, fineGranularityMapping = (\<lambda>_. 0), smc_calls = [], mem_panics = 0, \<dots> = m\<rparr>"

lemmas sample_defs = mem_sample_def init_memory_def

lemma sample_a20 [simp]: "A20ADDR x (mem_sample m) = x"
proof -
  have "0xffffffffffffffff = (- 1 :: Bit64u)" by simp
  then have "x AND 0xffffffffffffffff = x AND - 1" by (simp only:)
  then show ?thesis by (simp add: A20ADDR_def sample_defs)
qed

lemma sample_ok: "mem_ok (mem_sample m)" "rom_plain (mem_sample m)" "handlers_ok (mem_sample m)" "no_handler a (mem_sample m)"
  by (simp_all add: sample_defs mem_ok_def rom_plain_def handlers_ok_def no_handler_def)

lemma sample_ram:
  "a < 0xa0000 \<or> 0x100000 \<le> a \<Longrightarrow> a < 0x200000 \<Longrightarrow> 0 < n \<Longrightarrow> unat a mod 0x1000 + n \<le> 0x1000 \<Longrightarrow> ram_access a n (mem_sample m)"
  by (auto simp: ram_access_def Let_def sample_ok) (auto simp: sample_defs is_bios_def word_le_nat_alt word_less_nat_alt)

theorem ram_write_read_witness:
  "fst (readPhysicalPage quiet_env None 0x1ffd [0, 0, 0] (writePhysicalPage quiet_env (Some False) 0x1ffd [1, 2, 3] (mem_sample ()))) = [1, 2, 3]"
  using ram_write_read [of "0x1ffd" "[1, 2, 3]" "mem_sample ()" "[0, 0, 0]" quiet_env "Some False" quiet_env None] sample_ram [of "0x1ffd" "length [1, 2, 3 :: Bit8u]" "()"]
  by (simp add: Let_def)

theorem direct_access_agrees_witness:
  "getHostMemAddr quiet_env None 0xfffffff0 BX_READ (mem_sample ()) = Some (Rom 0x1ffff0)
   \<and> fst (readPhysicalPage quiet_env None 0xfffffff0 [0, 0] (mem_sample ())) = host_read (Rom 0x1ffff0) (length [0, 0 :: Bit8u]) (mem_sample ())"
proof -
  have "getHostMemAddr quiet_env None 0xfffffff0 BX_READ (mem_sample ()) = Some (Rom 0x1ffff0)"
    by (simp add: getHostMemAddr_read sample_ok direct_read_def) (simp add: sample_defs is_bios_def)
  then show ?thesis
    using direct_access_agrees [of "mem_sample ()" "0xfffffff0" "[0, 0]" quiet_env None "Rom 0x1ffff0" None] by (simp add: sample_ok)
qed

theorem handlers_invariant_witness:
  "handlers_ok (snd (registerMemoryHandlers 1 (Some 0) (Some 0) None 0xa0000 0xbffff (mem_sample ())))"
  using handlers_invariant [of False 0 "mem_sample ()" 1 "Some 0" "Some 0" None "0xa0000" "0xbffff" 0 0 0] sample_ok(3) [of "()"] by blast

end
