(* ===== verification/Mem_Blocks.thy ===== *)
theory Mem_Blocks
  imports Mem_Props
begin

text \<open>
  The blocks behind the RAM, \<open>get_vector\<close> of \<^verbatim>\<open>memory/memory-bochs.h\<close> and \<open>allocate_block\<close>, \<open>read_block\<close> of
  \<^verbatim>\<open>memory/misc_mem.cc\<close> with \<open>BX_LARGE_RAMFILE\<close>: the guest RAM is cut into blocks of 128 KB that get a place in the
  host memory when first used; when the host memory is used up, a block that no TLB points into is moved to
  the overflow file. The locale \<open>byte_store\<close> is what the rest of the memory relies on, interpreted both for these
  blocks and for the flat array of the theory \<^theory_text>\<open>Memory\<close>.

  The file is a sequence of blocks, those never written being zero up to its end; reading behind the
  end leaves the buffer as it is. Which places a TLB points into is an argument. The panics of this code
  are fatal errors: the result is \<open>None\<close>.
\<close>

unbundle bit_operations_syntax

section \<open>State\<close>

text \<open>\<open>blocks[i]\<close>: not allocated, \<open>swapped_out\<close>, or a place of the host memory.\<close>

datatype block_ref = Unallocated | Swapped_out | Host nat

record ram_blocks =
  blocks :: "nat \<Rightarrow> block_ref"
  used_blocks :: nat
  next_swapout_idx :: nat
  host_mem :: "nat \<Rightarrow> nat \<Rightarrow> Bit8u"
  overflow_file :: "nat \<Rightarrow> nat \<Rightarrow> Bit8u"
  file_blocks :: nat
  num_blocks :: nat
  max_blocks :: nat

abbreviation (input) BX_MEM_BLOCK_LEN :: nat where "BX_MEM_BLOCK_LEN \<equiv> 131072"

section \<open>Allocation\<close>

definition read_block :: "nat \<Rightarrow> nat \<Rightarrow> ram_blocks \<Rightarrow> ram_blocks" where
  "read_block block buffer s =
     (if block < file_blocks s then s\<lparr>host_mem := (host_mem s)(buffer := overflow_file s block)\<rparr> else s)"

definition write_block :: "nat \<Rightarrow> nat \<Rightarrow> ram_blocks \<Rightarrow> ram_blocks" where
  "write_block block buffer s =
     s\<lparr>overflow_file := (\<lambda>b. if b = block then host_mem s buffer
                             else if b < file_blocks s then overflow_file s b else (\<lambda>_. 0)),
       file_blocks := max (file_blocks s) (block + 1)\<rparr>"

text \<open>The search for a block to replace; \<open>n\<close> bounds the steps, which come back to the start after \<open>num_blocks\<close>.\<close>

primrec find_replacement :: "(nat \<Rightarrow> bool) \<Rightarrow> nat \<Rightarrow> nat \<Rightarrow> nat \<Rightarrow> ram_blocks \<Rightarrow> (nat \<times> nat) option" where
  "find_replacement used_for_tlb original idx 0 s = None"
| "find_replacement used_for_tlb original idx (Suc n) s =
     (let idx = (if idx + 1 = num_blocks s then 0 else idx + 1)
      in if idx = original then None
         else case blocks s idx of
                Host buffer \<Rightarrow> if used_for_tlb buffer then find_replacement used_for_tlb original idx n s else Some (idx, buffer)
              | _ \<Rightarrow> find_replacement used_for_tlb original idx n s)"

definition allocate_block :: "(nat \<Rightarrow> bool) \<Rightarrow> nat \<Rightarrow> ram_blocks \<Rightarrow> ram_blocks option" where
  "allocate_block used_for_tlb block s =
     (if used_blocks s \<ge> max_blocks s
      then case find_replacement used_for_tlb (next_swapout_idx s) (next_swapout_idx s) (num_blocks s) s of
             None \<Rightarrow> None
           | Some (idx, buffer) \<Rightarrow>
               let s = s\<lparr>next_swapout_idx := idx\<rparr>;
                   s = write_block idx buffer s;
                   s = s\<lparr>blocks := (blocks s)(idx := Swapped_out, block := Host buffer)\<rparr>
               in Some (read_block block buffer s)
      else Some (s\<lparr>blocks := (blocks s)(block := Host (used_blocks s)), used_blocks := used_blocks s + 1\<rparr>))"

definition get_vector :: "(nat \<Rightarrow> bool) \<Rightarrow> Bit64u \<Rightarrow> ram_blocks \<Rightarrow> ((nat \<times> nat) \<times> ram_blocks) option" where
  "get_vector used_for_tlb addr s =
     (let block = unat addr div BX_MEM_BLOCK_LEN;
          r = (case blocks s block of Host _ \<Rightarrow> Some s | _ \<Rightarrow> allocate_block used_for_tlb block s)
      in case r of
           None \<Rightarrow> None
         | Some s \<Rightarrow> (case blocks s block of
             Host buffer \<Rightarrow> Some ((buffer, unat addr mod BX_MEM_BLOCK_LEN), s) | _ \<Rightarrow> None))"

text \<open>\<open>*get_vector(addr)\<close> as a value and as the target of an assignment.\<close>

definition load_byte :: "(nat \<Rightarrow> bool) \<Rightarrow> Bit64u \<Rightarrow> ram_blocks \<Rightarrow> (Bit8u \<times> ram_blocks) option" where
  "load_byte tlb addr s =
     (case get_vector tlb addr s of None \<Rightarrow> None | Some ((b, off), s) \<Rightarrow> Some (host_mem s b off, s))"

definition store_byte :: "(nat \<Rightarrow> bool) \<Rightarrow> Bit64u \<Rightarrow> Bit8u \<Rightarrow> ram_blocks \<Rightarrow> ram_blocks option" where
  "store_byte tlb addr v s =
     (case get_vector tlb addr s of
        None \<Rightarrow> None
      | Some ((b, off), s) \<Rightarrow> Some (s\<lparr>host_mem := (host_mem s)(b := (host_mem s b)(off := v))\<rparr>))"

definition init_blocks :: "Bit64u \<Rightarrow> Bit64u \<Rightarrow> (nat \<Rightarrow> nat \<Rightarrow> Bit8u) \<Rightarrow> ram_blocks" where
  "init_blocks guest host v =
     \<lparr>blocks = (\<lambda>_. Unallocated), used_blocks = 0, next_swapout_idx = 0, host_mem = v, overflow_file = (\<lambda>_ _. 0),
      file_blocks = 0, num_blocks = unat guest div BX_MEM_BLOCK_LEN, max_blocks = unat host div BX_MEM_BLOCK_LEN\<rparr>"

section \<open>Contents\<close>

text \<open>The byte an address holds, if its block has been used.\<close>

definition content :: "ram_blocks \<Rightarrow> Bit64u \<Rightarrow> Bit8u option" where
  "content s a =
     (case blocks s (unat a div BX_MEM_BLOCK_LEN) of
        Unallocated \<Rightarrow> None
      | Swapped_out \<Rightarrow> Some (overflow_file s (unat a div BX_MEM_BLOCK_LEN) (unat a mod BX_MEM_BLOCK_LEN))
      | Host b \<Rightarrow> Some (host_mem s b (unat a mod BX_MEM_BLOCK_LEN)))"

definition blocks_ok :: "ram_blocks \<Rightarrow> bool" where
  "blocks_ok s \<longleftrightarrow>
     (\<forall>i j b. blocks s i = Host b \<longrightarrow> blocks s j = Host b \<longrightarrow> i = j) \<and>
     (\<forall>i b. blocks s i = Host b \<longrightarrow> b < used_blocks s) \<and>
     (\<forall>i. blocks s i = Swapped_out \<longrightarrow> i < file_blocks s \<and> max_blocks s \<le> used_blocks s)"

lemma find_replacement_resident:
  "find_replacement tlb o1 idx n s = Some (i, b) \<Longrightarrow> blocks s i = Host b \<and> \<not> tlb b"
  by (induction n arbitrary: idx) (auto simp: Let_def split: if_splits block_ref.splits)

text \<open>The contents by block and offset.\<close>

definition block_content :: "ram_blocks \<Rightarrow> nat \<Rightarrow> (nat \<Rightarrow> Bit8u) option" where
  "block_content s k =
     (case blocks s k of Unallocated \<Rightarrow> None | Swapped_out \<Rightarrow> Some (overflow_file s k) | Host b \<Rightarrow> Some (host_mem s b))"

lemma content_block: "content s a = map_option (\<lambda>f. f (unat a mod BX_MEM_BLOCK_LEN)) (block_content s (unat a div BX_MEM_BLOCK_LEN))"
  by (simp add: content_def block_content_def split: block_ref.split)

lemma allocate_ok:
  assumes ok: "blocks_ok s" and alloc: "allocate_block tlb k s = Some s'" and k: "\<nexists>b. blocks s k = Host b"
  shows "blocks_ok s'" "\<exists>b. blocks s' k = Host b" "block_content s k \<noteq> None \<Longrightarrow> block_content s' k = block_content s k"
    "j \<noteq> k \<Longrightarrow> block_content s' j = block_content s j" "num_blocks s' = num_blocks s"
proof -
  have "blocks_ok s' \<and> (\<exists>b. blocks s' k = Host b) \<and> (block_content s k \<noteq> None \<longrightarrow> block_content s' k = block_content s k) \<and>
    (j \<noteq> k \<longrightarrow> block_content s' j = block_content s j) \<and> num_blocks s' = num_blocks s"
  proof (cases "used_blocks s \<ge> max_blocks s")
    case False
    then have s': "s' = s\<lparr>blocks := (blocks s)(k := Host (used_blocks s)), used_blocks := used_blocks s + 1\<rparr>"
      using alloc by (simp add: allocate_block_def)
    have "blocks_ok s'" using ok False unfolding blocks_ok_def s' by (auto simp: less_Suc_eq)
    moreover have "blocks s k = Unallocated" using ok False k by (cases "blocks s k") (auto simp: blocks_ok_def)
    ultimately show ?thesis by (simp add: s' block_content_def split: block_ref.split)
  next
    case True
    then obtain i b where f: "find_replacement tlb (next_swapout_idx s) (next_swapout_idx s) (num_blocks s) s = Some (i, b)"
      and s': "s' = read_block k b ((write_block i b (s\<lparr>next_swapout_idx := i\<rparr>))
        \<lparr>blocks := (blocks s)(i := Swapped_out, k := Host b)\<rparr>)"
      using alloc by (auto simp: allocate_block_def Let_def write_block_def split: option.splits)
    have i: "blocks s i = Host b" "i \<noteq> k" using find_replacement_resident [OF f] k by auto
    have inj: "blocks s j = Host b \<Longrightarrow> j = i" for j using ok i(1) unfolding blocks_ok_def by blast
    have bl: "blocks s' = (blocks s)(i := Swapped_out, k := Host b)" "used_blocks s' = used_blocks s" "max_blocks s' = max_blocks s"
      "file_blocks s' = max (file_blocks s) (i + 1)" "num_blocks s' = num_blocks s"
      "\<And>x. overflow_file s' x = (if x = i then host_mem s b else if x < file_blocks s then overflow_file s x else (\<lambda>_. 0))"
      "host_mem s' = (if k < max (file_blocks s) (i + 1) then (host_mem s)(b := overflow_file s' k) else host_mem s)"
      by (simp_all add: s' read_block_def write_block_def)
    have uniq: "blocks s p = Host c \<Longrightarrow> blocks s q = Host c \<Longrightarrow> p = q" and used: "blocks s p = Host c \<Longrightarrow> c < used_blocks s"
      and swapped: "blocks s p = Swapped_out \<Longrightarrow> p < file_blocks s" for p q c
      using ok unfolding blocks_ok_def by blast+
    have "blocks_ok s'"
      unfolding blocks_ok_def
    proof (intro conjI allI impI)
      fix p q c assume "blocks s' p = Host c" "blocks s' q = Host c"
      then show "p = q" using inj uniq [of p c q] by (simp add: bl split: if_splits)
    next
      fix p c assume "blocks s' p = Host c"
      then show "c < used_blocks s'" using used i(1) by (simp add: bl split: if_splits)
    next
      fix p assume "blocks s' p = Swapped_out"
      then show "p < file_blocks s'" using swapped [of p] by (simp add: bl less_max_iff_disj split: if_splits)
      show "max_blocks s' \<le> used_blocks s'" using True by (simp add: bl)
    qed
    moreover have "block_content s k \<noteq> None \<longrightarrow> block_content s' k = block_content s k"
    proof (cases "blocks s k")
      case Swapped_out
      then have "k < file_blocks s" by (rule swapped)
      moreover have "block_content s' k = Some (host_mem s' b)" by (simp add: block_content_def bl(1))
      ultimately show ?thesis using i(2) Swapped_out by (simp add: block_content_def [of s] bl(6,7) less_max_iff_disj)
    qed (use k in \<open>simp_all add: block_content_def [of s]\<close>)
    moreover have "j \<noteq> k \<longrightarrow> block_content s' j = block_content s j"
    proof (cases "blocks s j")
      case (Host c)
      then have "j \<noteq> i \<Longrightarrow> c \<noteq> b" using inj by blast
      then show ?thesis using i Host by (cases "j = i") (simp_all add: block_content_def bl)
    qed (use i swapped [of j] in \<open>cases "j = i"; simp add: block_content_def bl\<close>)+
    ultimately show ?thesis using bl by simp
  qed
  then show "blocks_ok s'" "\<exists>b. blocks s' k = Host b" "block_content s k \<noteq> None \<Longrightarrow> block_content s' k = block_content s k"
    "j \<noteq> k \<Longrightarrow> block_content s' j = block_content s j" "num_blocks s' = num_blocks s" by blast+
qed

lemma get_vector_ok:
  assumes ok: "blocks_ok s" and get: "get_vector tlb a s = Some ((b, off), s')"
  shows "blocks_ok s'" "blocks s' (unat a div BX_MEM_BLOCK_LEN) = Host b" "off = unat a mod BX_MEM_BLOCK_LEN"
    "content s x \<noteq> None \<Longrightarrow> content s' x = content s x"
    "unat x div BX_MEM_BLOCK_LEN \<noteq> unat a div BX_MEM_BLOCK_LEN \<Longrightarrow> content s' x = content s x"
proof -
  let ?k = "unat a div BX_MEM_BLOCK_LEN"
  have r: "blocks s' ?k = Host b" "off = unat a mod BX_MEM_BLOCK_LEN" "s' = s \<or> (\<nexists>b. blocks s ?k = Host b) \<and> allocate_block tlb ?k s = Some s'"
    using get by (auto simp: get_vector_def Let_def split: option.splits block_ref.splits)
  show "blocks s' ?k = Host b" "off = unat a mod BX_MEM_BLOCK_LEN" by (fact r)+
  show "blocks_ok s'" using r(3) ok allocate_ok(1) by blast
  show "content s x \<noteq> None \<Longrightarrow> content s' x = content s x"
    using r(3) allocate_ok(3,4) [OF ok, of tlb ?k s']
    by (cases "unat x div BX_MEM_BLOCK_LEN = ?k") (auto simp: content_block)
  show "unat x div BX_MEM_BLOCK_LEN \<noteq> ?k \<Longrightarrow> content s' x = content s x"
    using r(3) allocate_ok(4) [OF ok, of tlb ?k s'] by (auto simp: content_block)
qed

text \<open>Two addresses of one block with the same offset are equal.\<close>

lemma block_offset_eq: "unat x div n = unat a div n \<Longrightarrow> unat x mod n = unat a mod n \<Longrightarrow> x = a" for x a :: Bit64u
  by (metis mult_div_mod_eq word_unat_eq_iff)

lemma store_byte_ok:
  assumes ok: "blocks_ok s" and st: "store_byte tlb a v s = Some s'"
  shows "blocks_ok s'" "content s' a = Some v" "x \<noteq> a \<Longrightarrow> content s x \<noteq> None \<Longrightarrow> content s' x = content s x"
proof -
  obtain b off t where g: "get_vector tlb a s = Some ((b, off), t)"
    and s': "s' = t\<lparr>host_mem := (host_mem t)(b := (host_mem t b)(off := v))\<rparr>"
    using st by (auto simp: store_byte_def split: option.splits)
  note t = get_vector_ok [OF ok g]
  show "blocks_ok s'" using t(1) by (simp add: s' blocks_ok_def)
  show "content s' a = Some v" using t(2,3) by (simp add: content_def s')
  have inj: "blocks t i = Host b \<Longrightarrow> i = unat a div BX_MEM_BLOCK_LEN" for i using t(1,2) unfolding blocks_ok_def by blast
  assume x: "x \<noteq> a" "content s x \<noteq> None"
  then have "content t x = content s x" using t(4) by blast
  moreover have "content s' x = content t x"
    using x(1) inj block_offset_eq [of x _ a] t(3) by (auto simp: content_def s' split: block_ref.split)
  ultimately show "content s' x = content s x" by simp
qed

lemma load_byte_ok:
  assumes ok: "blocks_ok s" and ld: "load_byte tlb a s = Some (v, s')"
  shows "blocks_ok s'" "content s' a = Some v" "content s x \<noteq> None \<Longrightarrow> content s' x = content s x"
proof -
  obtain b off where g: "get_vector tlb a s = Some ((b, off), s')" and v: "v = host_mem s' b off"
    using ld by (auto simp: load_byte_def split: option.splits)
  note t = get_vector_ok [OF ok g]
  show "blocks_ok s'" "content s x \<noteq> None \<Longrightarrow> content s' x = content s x" using t by blast+
  show "content s' a = Some v" using t(2,3) by (simp add: content_def v)
qed

section \<open>A store of bytes\<close>

text \<open>Accesses to a memory, each with the state of the environment it happens in.\<close>

datatype 't mem_op = Load 't Bit64u | Store 't Bit64u Bit8u

primrec run_ops :: "('t \<Rightarrow> Bit64u \<Rightarrow> 's \<Rightarrow> (Bit8u \<times> 's) option) \<Rightarrow> ('t \<Rightarrow> Bit64u \<Rightarrow> Bit8u \<Rightarrow> 's \<Rightarrow> 's option) \<Rightarrow>
    't mem_op list \<Rightarrow> 's \<Rightarrow> 's option" where
  "run_ops load store [] s = Some s"
| "run_ops load store (op # ops) s =
     (case op of
        Load t a \<Rightarrow> (case load t a s of None \<Rightarrow> None | Some (v, s) \<Rightarrow> run_ops load store ops s)
      | Store t a v \<Rightarrow> (case store t a v s of None \<Rightarrow> None | Some s \<Rightarrow> run_ops load store ops s))"

primrec last_store :: "Bit64u \<Rightarrow> 't mem_op list \<Rightarrow> Bit8u option" where
  "last_store a [] = None"
| "last_store a (op # ops) =
     (case last_store a ops of
        Some v \<Rightarrow> Some v
      | None \<Rightarrow> (case op of Store t b v \<Rightarrow> if b = a then Some v else None | Load t b \<Rightarrow> None))"

locale byte_store =
  fixes ok :: "'s \<Rightarrow> bool" and cont :: "'s \<Rightarrow> Bit64u \<Rightarrow> Bit8u option"
    and load :: "'t \<Rightarrow> Bit64u \<Rightarrow> 's \<Rightarrow> (Bit8u \<times> 's) option"
    and store :: "'t \<Rightarrow> Bit64u \<Rightarrow> Bit8u \<Rightarrow> 's \<Rightarrow> 's option"
  assumes load_keeps: "ok s \<Longrightarrow> load t a s = Some (v, s') \<Longrightarrow> ok s' \<and> (\<forall>x. cont s x \<noteq> None \<longrightarrow> cont s' x = cont s x)"
    and load_value: "ok s \<Longrightarrow> load t a s = Some (v, s') \<Longrightarrow> cont s' a = Some v"
    and store_keeps: "ok s \<Longrightarrow> store t a v s = Some s' \<Longrightarrow> ok s' \<and> (\<forall>x. x \<noteq> a \<longrightarrow> cont s x \<noteq> None \<longrightarrow> cont s' x = cont s x)"
    and store_value: "ok s \<Longrightarrow> store t a v s = Some s' \<Longrightarrow> cont s' a = Some v"
begin

lemma run_content:
  "ok s \<Longrightarrow> run_ops load store ops s = Some s' \<Longrightarrow>
   ok s' \<and> (case last_store a ops of Some v \<Rightarrow> cont s' a = Some v | None \<Rightarrow> cont s a \<noteq> None \<longrightarrow> cont s' a = cont s a)"
proof (induction ops arbitrary: s)
  case (Cons op ops)
  show ?case
  proof (cases op)
    case (Load t b)
    then obtain v u where "load t b s = Some (v, u)" "run_ops load store ops u = Some s'"
      using Cons.prems(2) by (auto split: option.splits)
    then show ?thesis
      using Cons.IH [of u] load_keeps [OF Cons.prems(1)] Load by (cases "last_store a ops") fastforce+
  next
    case (Store t b v)
    then obtain u where "store t b v s = Some u" "run_ops load store ops u = Some s'"
      using Cons.prems(2) by (auto split: option.splits)
    then show ?thesis
      using Cons.IH [of u] store_keeps [OF Cons.prems(1)] store_value [OF Cons.prems(1)] Store
      by (cases "last_store a ops") fastforce+
  qed
qed simp

lemma load_last_store:
  assumes "ok s" "run_ops load store ops s = Some s'" "last_store a ops = Some v" "load t a s' = Some (w, s'')"
  shows "w = v"
proof -
  have "ok s' \<and> cont s' a = Some v" using run_content [OF assms(1,2), of a] assms(3) by simp
  then show ?thesis using load_keeps [OF _ assms(4)] load_value [OF _ assms(4)] by force
qed

end

interpretation blk: byte_store blocks_ok content load_byte store_byte
proof unfold_locales
  fix s t a v s' assume *: "blocks_ok s" "load_byte t a s = Some (v, s')"
  show "blocks_ok s' \<and> (\<forall>x. content s x \<noteq> None \<longrightarrow> content s' x = content s x)" "content s' a = Some v"
    using load_byte_ok [OF *] by blast+
next
  fix s t a v s' assume *: "blocks_ok s" "store_byte t a v s = Some s'"
  show "blocks_ok s' \<and> (\<forall>x. x \<noteq> a \<longrightarrow> content s x \<noteq> None \<longrightarrow> content s' x = content s x)" "content s' a = Some v"
    using store_byte_ok [OF *] by blast+
qed

interpretation flat: byte_store "\<lambda>_. True" "\<lambda>s a. Some (vector s a)"
  "\<lambda>_ a s. Some (vector s a, s)" "\<lambda>_ a v s. Some (write_vector a [v] s)"
  by unfold_locales auto

section \<open>A place is found\<close>

lemma find_replacement_finds:
  assumes "0 < num_blocks s" "blocks s t = Host b" "\<not> tlb b"
  shows "idx < num_blocks s \<Longrightarrow> 0 < d \<Longrightarrow> d \<le> n \<Longrightarrow> (idx + d) mod num_blocks s = t \<Longrightarrow>
    (\<And>e. 0 < e \<Longrightarrow> e \<le> d \<Longrightarrow> (idx + e) mod num_blocks s \<noteq> orig) \<Longrightarrow>
    find_replacement tlb orig idx n s \<noteq> None"
proof (induction n arbitrary: idx d)
  case (Suc n)
  define nx where "nx = (if idx + 1 = num_blocks s then 0 else idx + 1)"
  have nx: "nx = (idx + 1) mod num_blocks s" "nx < num_blocks s" using Suc.prems(1) by (auto simp: nx_def)
  have "nx \<noteq> orig" using Suc.prems(5) [of 1] Suc.prems(2) nx by simp
  moreover have "find_replacement tlb orig nx n s \<noteq> None" if "\<not> (\<exists>c. blocks s nx = Host c \<and> \<not> tlb c)"
  proof -
    have "d \<noteq> 1" using that assms(2,3) Suc.prems(4) nx by auto
    then obtain m where m: "d = m + 1" "0 < m" using Suc.prems(2) by (cases d) auto
    have *: "(nx + e) mod num_blocks s = (idx + (e + 1)) mod num_blocks s" for e
      using nx(1) by (simp add: mod_simps)
    show ?thesis
    proof (rule Suc.IH [of nx m])
      show "(nx + e) mod num_blocks s \<noteq> orig" if "0 < e" "e \<le> m" for e
        unfolding * using that m by (intro Suc.prems(5)) simp_all
      show "(nx + m) mod num_blocks s = t" unfolding * using Suc.prems(4) m by simp
    qed (use nx m Suc.prems(3) in simp_all)
  qed
  ultimately show ?case
    unfolding find_replacement.simps Let_def nx_def [symmetric] by (cases "blocks s nx") auto
qed simp

lemma allocate_block_succeeds:
  assumes "used_blocks s < max_blocks s \<or>
    (\<exists>i b. i < num_blocks s \<and> i \<noteq> next_swapout_idx s \<and> blocks s i = Host b \<and> \<not> tlb b)"
    and "next_swapout_idx s < num_blocks s"
  shows "allocate_block tlb k s \<noteq> None"
proof (cases "used_blocks s < max_blocks s")
  case False
  then obtain i b where i: "i < num_blocks s" "i \<noteq> next_swapout_idx s" "blocks s i = Host b" "\<not> tlb b" using assms(1) by blast
  let ?o = "next_swapout_idx s" and ?n = "num_blocks s"
  define d where "d = (if ?o < i then i - ?o else i + ?n - ?o)"
  have d: "0 < d" "d < ?n" "(?o + d) mod ?n = i" using i assms(2) by (auto simp: d_def)
  have "(?o + e) mod ?n \<noteq> ?o" if "0 < e" "e \<le> d" for e
    using that d(2) assms(2) by (cases "?o + e < ?n") (auto simp: mod_if)
  then have "find_replacement tlb ?o ?o ?n s \<noteq> None"
    using find_replacement_finds [of s i b tlb ?o d ?n ?o] i d assms(2) by simp
  then show ?thesis using False by (auto simp: allocate_block_def Let_def split: option.split)
qed (simp add: allocate_block_def)

text \<open>
  C19: Moving blocks of RAM to the overflow file and back is not noticed: from well-formed blocks (\<open>blocks_ok\<close>, as
  \<open>init_blocks\<close> leaves them), after any sequence of accesses that were not refused, with whatever the TLBs hold at each
  of them, a load returns what the last store to that address stored; and, with the next candidate for moving out in
  range, an access is only refused when the host memory is used up and every block in it but that candidate is in use
  by a TLB.
\<close>

theorem ram_blocks_transparent:
  "(blocks_ok s \<longrightarrow> run_ops load_byte store_byte ops s = Some s' \<longrightarrow> last_store a ops = Some v \<longrightarrow>
      load_byte tlb a s' = Some (w, s'') \<longrightarrow> w = v)
   \<and> (next_swapout_idx s < num_blocks s \<longrightarrow>
      used_blocks s < max_blocks s \<or> (\<exists>i b. i < num_blocks s \<and> i \<noteq> next_swapout_idx s \<and> blocks s i = Host b \<and> \<not> tlb b) \<longrightarrow>
      load_byte tlb a s \<noteq> None \<and> store_byte tlb a v s \<noteq> None)
   \<and> blocks_ok (init_blocks guest host h)"
proof (intro conjI impI)
  show "w = v" if "blocks_ok s" "run_ops load_byte store_byte ops s = Some s'" "last_store a ops = Some v"
    "load_byte tlb a s' = Some (w, s'')"
    using that by (rule blk.load_last_store)
  show "blocks_ok (init_blocks guest host h)" by (simp add: blocks_ok_def init_blocks_def)
  assume "next_swapout_idx s < num_blocks s"
    and "used_blocks s < max_blocks s \<or> (\<exists>i b. i < num_blocks s \<and> i \<noteq> next_swapout_idx s \<and> blocks s i = Host b \<and> \<not> tlb b)"
  then have "allocate_block tlb k s \<noteq> None" for k using allocate_block_succeeds by blast
  moreover have "\<exists>b. blocks t k = Host b" if "allocate_block tlb k s = Some t" for k t
    using that by (auto simp: allocate_block_def Let_def read_block_def write_block_def split: option.splits if_splits)
  ultimately have "get_vector tlb a s \<noteq> None"
    by (fastforce simp: get_vector_def Let_def split: option.split block_ref.split)
  then show "load_byte tlb a s \<noteq> None" "store_byte tlb a v s \<noteq> None"
    by (auto simp: load_byte_def store_byte_def)
qed

theorem ram_blocks_transparent_witness:
  "\<exists>s' s''. run_ops load_byte store_byte [Store (\<lambda>_. False) 0x20000 7, Store (\<lambda>_. False) 0x40000 9]
      (init_blocks 0x60000 0x20000 (\<lambda>_ _. 0)) = Some s' \<and> load_byte (\<lambda>_. False) 0x20000 s' = Some (7, s'')"
proof -
  let ?ops = "[Store (\<lambda>_. False) 0x20000 7, Store (\<lambda>_. False) 0x40000 9]" and ?s = "init_blocks 0x60000 0x20000 (\<lambda>_ _. 0)"
  have "\<not> Option.is_none (case run_ops load_byte store_byte ?ops ?s of None \<Rightarrow> None | Some s' \<Rightarrow> load_byte (\<lambda>_. False) 0x20000 s')"
    by (simp add: store_byte_def load_byte_def get_vector_def allocate_block_def init_blocks_def read_block_def
        write_block_def Let_def numeral_3_eq_3)
  then obtain s' w s'' where r: "run_ops load_byte store_byte ?ops ?s = Some s'" "load_byte (\<lambda>_. False) 0x20000 s' = Some (w, s'')"
    by (auto simp: Option.is_none_def split: option.splits simp del: run_ops.simps)
  then have "w = 7"
    using ram_blocks_transparent [of ?s ?ops s' "0x20000" 7 "\<lambda>_. False" w s'' "0x60000" "0x20000" "\<lambda>_ _. 0"] by simp
  then show ?thesis using r by blast
qed

end
