(* ===== verification/Dma.thy ===== *)
theory Dma
  imports Mem_Props
begin

text \<open>
  The two 8237 DMA controllers of \<^verbatim>\<open>iodev/dma.cc\<close>, on top of the physical memory and the hold request line of the PC
  system, whose records the record of the controllers extends. The index 0 is the slave DMA-1 with the 8-bit
  channels, 1 the master DMA-2, whose channel 0 is the cascade.

  The transfer handlers a device registers are arguments: they fill or consume the buffer, return the number of
  bytes (words for a 16-bit channel) and may change the machine, for instance lower their request. The
  buffer of \<open>raise_HLDA\<close> is not initialized: its bytes are an argument too. A panic is recorded and execution
  goes on as the code does.
\<close>

unbundle bit_operations_syntax

section \<open>State\<close>

record dma_mode =
  mode_type :: Bit8u
  address_decrement :: bool
  autoinit_enable :: bool
  transfer_type :: Bit8u

record dma_chan =
  mode :: dma_mode
  base_address :: Bit16u
  current_address :: Bit16u
  base_count :: Bit16u
  current_count :: Bit16u
  page_reg :: Bit8u
  used :: bool

record dma_ctrl =
  DRQ :: "nat \<Rightarrow> bool"
  DACK :: "nat \<Rightarrow> bool"
  msk :: "nat \<Rightarrow> bool"
  flip_flop :: bool
  status_reg :: Bit8u
  command_reg :: Bit8u
  ctrl_disabled :: bool
  chan :: "nat \<Rightarrow> dma_chan"

record dma_handlers =
  dmaRead8 :: "nat option"
  dmaWrite8 :: "nat option"
  dmaRead16 :: "nat option"
  dmaWrite16 :: "nat option"

datatype dma_panic = Invalid_channel nat | Channel_in_use nat | Bad_DRQ nat | Not_connected nat | Bad_mode nat
  | Outside_boundary | No_handler nat | Bad_transfer

record bx_dma_c = BX_MEM_C +
  dma_s :: "nat \<Rightarrow> dma_ctrl"
  HLDA :: bool
  TC :: bool
  ext_page_reg :: "nat \<Rightarrow> Bit8u"
  dma_h :: "nat \<Rightarrow> dma_handlers"
  dma_panics :: "dma_panic list"

text \<open>Calls through the handler pointers of devices, and what the buffer holds at first.\<close>

record 's dma_env =
  call_read8 :: "nat \<Rightarrow> Bit8u list \<Rightarrow> Bit16u \<Rightarrow> 's \<Rightarrow> Bit16u \<times> 's"
  call_write8 :: "nat \<Rightarrow> Bit8u list \<Rightarrow> Bit16u \<Rightarrow> 's \<Rightarrow> (Bit16u \<times> Bit8u list) \<times> 's"
  call_read16 :: "nat \<Rightarrow> Bit8u list \<Rightarrow> Bit16u \<Rightarrow> 's \<Rightarrow> Bit16u \<times> 's"
  call_write16 :: "nat \<Rightarrow> Bit8u list \<Rightarrow> Bit16u \<Rightarrow> 's \<Rightarrow> (Bit16u \<times> Bit8u list) \<times> 's"
  buffer0 :: "Bit8u list"

abbreviation (input) BX_DMA_BUFFER_SIZE :: Bit16u where "BX_DMA_BUFFER_SIZE \<equiv> 512"
abbreviation (input) DMA_MODE_DEMAND :: Bit8u where "DMA_MODE_DEMAND \<equiv> 0"
abbreviation (input) DMA_MODE_SINGLE :: Bit8u where "DMA_MODE_SINGLE \<equiv> 1"
abbreviation (input) DMA_MODE_CASCADE :: Bit8u where "DMA_MODE_CASCADE \<equiv> 3"

text \<open>Assignments to a controller and to a channel.\<close>

definition upd_ctrl :: "nat \<Rightarrow> (dma_ctrl \<Rightarrow> dma_ctrl) \<Rightarrow> 'a bx_dma_c_scheme \<Rightarrow> 'a bx_dma_c_scheme" where
  "upd_ctrl m f s = s\<lparr>dma_s := (dma_s s)(m := f (dma_s s m))\<rparr>"

definition upd_chan :: "nat \<Rightarrow> nat \<Rightarrow> (dma_chan \<Rightarrow> dma_chan) \<Rightarrow> 'a bx_dma_c_scheme \<Rightarrow> 'a bx_dma_c_scheme" where
  "upd_chan m c f = upd_ctrl m (\<lambda>d. d\<lparr>chan := (chan d)(c := f (chan d c))\<rparr>)"

definition panic_dma :: "dma_panic \<Rightarrow> 'a bx_dma_c_scheme \<Rightarrow> 'a bx_dma_c_scheme" where
  "panic_dma p s = s\<lparr>dma_panics := p # dma_panics s\<rparr>"

section \<open>Registration and reset\<close>

definition registerDMA8Channel :: "nat \<Rightarrow> nat option \<Rightarrow> nat option \<Rightarrow> 'a bx_dma_c_scheme \<Rightarrow> bool \<times> 'a bx_dma_c_scheme" where
  "registerDMA8Channel channel rd wr s =
     (if channel > 3 then (False, panic_dma (Invalid_channel channel) s)
      else if used (chan (dma_s s 0) channel) then (False, panic_dma (Channel_in_use channel) s)
      else let s = s\<lparr>dma_h := (dma_h s)(channel := (dma_h s channel)\<lparr>dmaRead8 := rd, dmaWrite8 := wr\<rparr>)\<rparr>
           in (True, upd_chan 0 channel (\<lambda>c. c\<lparr>used := True\<rparr>) s))"

definition registerDMA16Channel :: "nat \<Rightarrow> nat option \<Rightarrow> nat option \<Rightarrow> 'a bx_dma_c_scheme \<Rightarrow> bool \<times> 'a bx_dma_c_scheme" where
  "registerDMA16Channel channel rd wr s =
     (if channel < 4 \<or> channel > 7 then (False, panic_dma (Invalid_channel channel) s)
      else if used (chan (dma_s s 1) (channel AND 0x03)) then (False, panic_dma (Channel_in_use channel) s)
      else let channel = channel AND 0x03;
               s = s\<lparr>dma_h := (dma_h s)(channel := (dma_h s channel)\<lparr>dmaRead16 := rd, dmaWrite16 := wr\<rparr>)\<rparr>
           in (True, upd_chan 1 channel (\<lambda>c. c\<lparr>used := True\<rparr>) s))"

definition unregisterDMAChannel :: "nat \<Rightarrow> 'a bx_dma_c_scheme \<Rightarrow> 'a bx_dma_c_scheme" where
  "unregisterDMAChannel channel s = upd_chan (if channel > 3 then 1 else 0) (channel AND 0x03) (\<lambda>c. c\<lparr>used := False\<rparr>) s"

definition get_TC :: "'a bx_dma_c_scheme \<Rightarrow> bool" where "get_TC s = TC s"

definition chan_init :: "dma_chan" where
  "chan_init = \<lparr>mode = \<lparr>mode_type = 0, address_decrement = False, autoinit_enable = False, transfer_type = 0\<rparr>,
     base_address = 0, current_address = 0, base_count = 0, current_count = 0, page_reg = 0, used = False\<rparr>"

definition dma_init :: "'a bx_dma_c_scheme \<Rightarrow> 'a bx_dma_c_scheme" where
  "dma_init s =
     (let clr = (\<lambda>d. d\<lparr>DRQ := (\<lambda>_. False), DACK := (\<lambda>_. False), chan := (\<lambda>_. chan_init)\<rparr>);
          s = upd_ctrl 0 clr (upd_ctrl 1 clr s);
          s = s\<lparr>HLDA := False, TC := False, ext_page_reg := (\<lambda>_. 0)\<rparr>
      in upd_chan 1 0 (\<lambda>c. c\<lparr>used := True\<rparr>) s)"

definition reset_controller :: "nat \<Rightarrow> 'a bx_dma_c_scheme \<Rightarrow> 'a bx_dma_c_scheme" where
  "reset_controller num = upd_ctrl num (\<lambda>d. d\<lparr>msk := (\<lambda>_. True), ctrl_disabled := False, command_reg := 0,
     status_reg := 0, flip_flop := False\<rparr>)"

definition dma_reset :: "'a bx_dma_c_scheme \<Rightarrow> 'a bx_dma_c_scheme" where
  "dma_reset s = reset_controller 1 (reset_controller 0 s)"

section \<open>Requests\<close>

definition request_bit :: "nat \<Rightarrow> Bit8u" where
  "request_bit channel = push_bit (channel + 4) 1"

text \<open>The search for the first channel that requests and is not masked; 4 when there is none.\<close>

definition find_channel :: "dma_ctrl \<Rightarrow> nat" where
  "find_channel d =
     (let hit = (\<lambda>c. status_reg d AND request_bit c \<noteq> 0 \<and> \<not> msk d c)
      in if hit 0 then 0 else if hit 1 then 1 else if hit 2 then 2 else if hit 3 then 3 else 4)"

definition check_boundary :: "nat \<Rightarrow> nat \<Rightarrow> 'a bx_dma_c_scheme \<Rightarrow> 'a bx_dma_c_scheme" where
  "check_boundary ma_sl channel s =
     (let c = chan (dma_s s ma_sl) channel;
          dma_base = push_bit 16 (ucast (page_reg c)) OR push_bit ma_sl (ucast (base_address c)) :: Bit32u;
          count = push_bit ma_sl (ucast (base_count c)) :: Bit32u;
          dma_roof = (if \<not> address_decrement (mode c) then dma_base + count else dma_base - count);
          top = push_bit ma_sl (0x7fff0000 :: Bit32u)
      in if dma_base AND top \<noteq> dma_roof AND top then panic_dma Outside_boundary s else s)"

function set_DRQ :: "nat \<Rightarrow> bool \<Rightarrow> 'a bx_dma_c_scheme \<Rightarrow> 'a bx_dma_c_scheme"
  and control_HRQ :: "nat \<Rightarrow> 'a bx_dma_c_scheme \<Rightarrow> 'a bx_dma_c_scheme" where
  "set_DRQ channel val s =
     (if channel > 7 then panic_dma (Bad_DRQ channel) s
      else let ma_sl = (if channel > 3 then 1 else 0);
               s = upd_ctrl ma_sl (\<lambda>d. d\<lparr>DRQ := (DRQ d)(channel AND 0x03 := val)\<rparr>) s
           in if \<not> used (chan (dma_s s ma_sl) (channel AND 0x03)) then panic_dma (Not_connected channel) s
              else let c = channel AND 0x03
                   in if \<not> val
                      then control_HRQ ma_sl (upd_ctrl ma_sl (\<lambda>d. d\<lparr>status_reg := status_reg d AND NOT (request_bit c)\<rparr>) s)
                      else let s = upd_ctrl ma_sl (\<lambda>d. d\<lparr>status_reg := status_reg d OR request_bit c\<rparr>) s;
                               mt = mode_type (mode (chan (dma_s s ma_sl) c));
                               s = (if mt \<noteq> DMA_MODE_SINGLE \<and> mt \<noteq> DMA_MODE_DEMAND \<and> mt \<noteq> DMA_MODE_CASCADE
                                    then panic_dma (Bad_mode c) s else s)
                           in control_HRQ ma_sl (check_boundary ma_sl c s))"
| "control_HRQ ma_sl s =
     (if ctrl_disabled (dma_s s ma_sl) then s
      else if status_reg (dma_s s ma_sl) AND 0xf0 = 0
      then if ma_sl \<noteq> 0 then set_HRQ False s else set_DRQ 4 False s
      else if find_channel (dma_s s ma_sl) < 4
      then if ma_sl \<noteq> 0 then set_HRQ True s else set_DRQ 4 True s
      else s)"
  by pat_completeness auto
termination
  by (relation "measure (\<lambda>x. case x of Inl (channel, _) \<Rightarrow> if channel > 3 then 1 else 3
                              | Inr (ma_sl, _) \<Rightarrow> if ma_sl \<noteq> 0 then 0 else 2)") auto

declare set_DRQ.simps [simp del] control_HRQ.simps [simp del]

section \<open>Ports\<close>

definition channelindex :: "nat \<Rightarrow> nat" where
  "channelindex n = [2, 3, 1, 0, 0, 0, 0] ! n"

definition ports_address :: "nat set" where "ports_address = {0x00, 0x02, 0x04, 0x06, 0xc0, 0xc4, 0xc8, 0xcc}"
definition ports_count :: "nat set" where "ports_count = {0x01, 0x03, 0x05, 0x07, 0xc2, 0xc6, 0xca, 0xce}"
definition ports_extra :: "nat set" where "ports_extra = {0x80, 0x84, 0x85, 0x86, 0x88, 0x8c, 0x8d, 0x8e}"

definition port_channel :: "nat \<Rightarrow> nat \<Rightarrow> nat" where
  "port_channel ma_sl address = drop_bit (1 + ma_sl) address AND 0x03"

text \<open>A byte of a 16-bit register, as the flip-flop says.\<close>

definition read_half :: "nat \<Rightarrow> Bit16u \<Rightarrow> 'a bx_dma_c_scheme \<Rightarrow> Bit32u \<times> 'a bx_dma_c_scheme" where
  "read_half ma_sl v s =
     (let s' = upd_ctrl ma_sl (\<lambda>d. d\<lparr>flip_flop := \<not> flip_flop d\<rparr>) s
      in if \<not> flip_flop (dma_s s ma_sl) then (ucast (v AND 0xff), s') else (ucast (drop_bit 8 v), s'))"

definition dma_read :: "nat \<Rightarrow> 'a bx_dma_c_scheme \<Rightarrow> Bit32u \<times> 'a bx_dma_c_scheme" where
  "dma_read address s =
     (let ma_sl = (if address \<ge> 0xc0 then 1 else 0)
      in if address \<in> ports_address
         then read_half ma_sl (current_address (chan (dma_s s ma_sl) (port_channel ma_sl address))) s
         else if address \<in> ports_count
         then read_half ma_sl (current_count (chan (dma_s s ma_sl) (port_channel ma_sl address))) s
         else if address \<in> {0x08, 0xd0}
         then (ucast (status_reg (dma_s s ma_sl)), upd_ctrl ma_sl (\<lambda>d. d\<lparr>status_reg := status_reg d AND 0xf0\<rparr>) s)
         else if address \<in> {0x0d, 0xda} then (0, s)
         else if address \<in> {0x81, 0x82, 0x83, 0x87}
         then (ucast (page_reg (chan (dma_s s 0) (channelindex (address - 0x81)))), s)
         else if address \<in> {0x89, 0x8a, 0x8b, 0x8f}
         then (ucast (page_reg (chan (dma_s s 1) (channelindex (address - 0x89)))), s)
         else if address \<in> ports_extra then (ucast (ext_page_reg s (address AND 0x0f)), s)
         else if address \<in> {0x0f, 0xde}
         then let d = dma_s s ma_sl;
                  retval = of_bool (msk d 0) OR push_bit 1 (of_bool (msk d 1)) OR push_bit 2 (of_bool (msk d 2))
                           OR push_bit 3 (of_bool (msk d 3)) :: Bit8u
              in (0xf0 OR ucast retval, s)
         else (0, s))"

text \<open>The first byte replaces a base and current register, the second is ORed to its upper half.\<close>

definition write_half :: "bool \<Rightarrow> Bit32u \<Rightarrow> Bit16u \<Rightarrow> Bit16u" where
  "write_half second value old = (if \<not> second then ucast value else old OR ucast (push_bit 8 value))"

definition dma_write1 :: "nat \<Rightarrow> Bit32u \<Rightarrow> 'a bx_dma_c_scheme \<Rightarrow> 'a bx_dma_c_scheme" where
  "dma_write1 address value s =
     (let ma_sl = (if address \<ge> 0xc0 then 1 else 0);
          ff = flip_flop (dma_s s ma_sl);
          toggle = upd_ctrl ma_sl (\<lambda>d. d\<lparr>flip_flop := \<not> flip_flop d\<rparr>);
          channel = unat (value AND 0x03)
      in if address \<in> ports_address
         then toggle (upd_chan ma_sl (port_channel ma_sl address)
                (\<lambda>c. c\<lparr>base_address := write_half ff value (base_address c),
                       current_address := write_half ff value (current_address c)\<rparr>) s)
         else if address \<in> ports_count
         then toggle (upd_chan ma_sl (port_channel ma_sl address)
                (\<lambda>c. c\<lparr>base_count := write_half ff value (base_count c),
                       current_count := write_half ff value (current_count c)\<rparr>) s)
         else if address \<in> {0x08, 0xd0}
         then control_HRQ ma_sl (upd_ctrl ma_sl (\<lambda>d. d\<lparr>command_reg := ucast value, ctrl_disabled := bit value 2\<rparr>) s)
         else if address \<in> {0x09, 0xd2}
         then control_HRQ ma_sl
                (if value AND 0x04 \<noteq> 0 then upd_ctrl ma_sl (\<lambda>d. d\<lparr>status_reg := status_reg d OR request_bit channel\<rparr>) s
                 else upd_ctrl ma_sl (\<lambda>d. d\<lparr>status_reg := status_reg d AND NOT (request_bit channel)\<rparr>) s)
         else if address \<in> {0x0a, 0xd4}
         then control_HRQ ma_sl (upd_ctrl ma_sl (\<lambda>d. d\<lparr>msk := (msk d)(channel := value AND 0x04 > 0)\<rparr>) s)
         else if address \<in> {0x0b, 0xd6}
         then upd_chan ma_sl channel
                (\<lambda>c. c\<lparr>mode := \<lparr>mode_type = ucast (drop_bit 6 value AND 0x03), address_decrement = bit value 5,
                               autoinit_enable = bit value 4, transfer_type = ucast (drop_bit 2 value AND 0x03)\<rparr>\<rparr>) s
         else if address \<in> {0x0c, 0xd8} then upd_ctrl ma_sl (\<lambda>d. d\<lparr>flip_flop := False\<rparr>) s
         else if address \<in> {0x0d, 0xda} then reset_controller ma_sl s
         else if address \<in> {0x0e, 0xdc} then control_HRQ ma_sl (upd_ctrl ma_sl (\<lambda>d. d\<lparr>msk := (\<lambda>_. False)\<rparr>) s)
         else if address \<in> {0x0f, 0xde}
         then control_HRQ ma_sl
                (upd_ctrl ma_sl (\<lambda>d. d\<lparr>msk := (msk d)(0 := bit value 0, 1 := bit value 1, 2 := bit value 2, 3 := bit value 3)\<rparr>) s)
         else if address \<in> {0x81, 0x82, 0x83, 0x87}
         then upd_chan 0 (channelindex (address - 0x81)) (\<lambda>c. c\<lparr>page_reg := ucast value\<rparr>) s
         else if address \<in> {0x89, 0x8a, 0x8b, 0x8f}
         then upd_chan 1 (channelindex (address - 0x89)) (\<lambda>c. c\<lparr>page_reg := ucast value\<rparr>) s
         else if address \<in> ports_extra then s\<lparr>ext_page_reg := (ext_page_reg s)(address AND 0x0f := ucast value)\<rparr>
         else s)"

definition dma_write :: "nat \<Rightarrow> Bit32u \<Rightarrow> nat \<Rightarrow> 'a bx_dma_c_scheme \<Rightarrow> 'a bx_dma_c_scheme" where
  "dma_write address value io_len s =
     (if io_len > 1
      then if io_len = 2 \<and> address = 0x0b
           then dma_write1 (address + 1) (drop_bit 8 value) (dma_write1 address (value AND 0xff) s)
           else s
      else dma_write1 address value s)"

section \<open>Transfers\<close>

type_synonym 'a dma_menv = "'a bx_dma_c_ext mem_env"
type_synonym 'a dma_denv = "'a bx_dma_c_scheme dma_env"

text \<open>The transfer of one channel: the number of units that were moved, and the machine after it.\<close>

definition transfer_write :: "'a dma_menv \<Rightarrow> 'a dma_denv \<Rightarrow> nat \<Rightarrow> nat \<Rightarrow> Bit64u \<Rightarrow> Bit16u \<Rightarrow> 'a bx_dma_c_scheme \<Rightarrow>
    Bit16u \<times> 'a bx_dma_c_scheme" where
  "transfer_write menv env ma_sl channel phy_addr maxlen s =
     (if ma_sl = 0
      then let ((n, buffer), s) = (case dmaWrite8 (dma_h s channel) of
                 Some f \<Rightarrow> call_write8 env f (buffer0 env) maxlen s
               | None \<Rightarrow> ((1, buffer0 env), panic_dma (No_handler channel) s))
           in (n, DEV_MEM_WRITE_PHYSICAL_DMA menv phy_addr (take (unat n) buffer) s)
      else let ((n, buffer), s) = (case dmaWrite16 (dma_h s channel) of
                 Some f \<Rightarrow> call_write16 env f (buffer0 env) (maxlen div 2) s
               | None \<Rightarrow> ((1, buffer0 env), panic_dma (No_handler channel) s))
           in (n, DEV_MEM_WRITE_PHYSICAL_DMA menv phy_addr (take (unat n) buffer) s))"

definition transfer_read :: "'a dma_menv \<Rightarrow> 'a dma_denv \<Rightarrow> nat \<Rightarrow> nat \<Rightarrow> Bit64u \<Rightarrow> Bit16u \<Rightarrow> 'a bx_dma_c_scheme \<Rightarrow>
    Bit16u \<times> 'a bx_dma_c_scheme" where
  "transfer_read menv env ma_sl channel phy_addr maxlen s =
     (let (bytes, s) = DEV_MEM_READ_PHYSICAL_DMA menv phy_addr (take (unat maxlen) (buffer0 env)) s;
          buffer = bytes @ drop (unat maxlen) (buffer0 env)
      in if ma_sl = 0
         then (case dmaRead8 (dma_h s channel) of Some f \<Rightarrow> call_read8 env f buffer maxlen s | None \<Rightarrow> (1, s))
         else (case dmaRead16 (dma_h s channel) of Some f \<Rightarrow> call_read16 env f buffer (maxlen div 2) s | None \<Rightarrow> (1, s)))"

definition transfer_verify :: "'a dma_denv \<Rightarrow> nat \<Rightarrow> nat \<Rightarrow> 'a bx_dma_c_scheme \<Rightarrow> Bit16u \<times> 'a bx_dma_c_scheme" where
  "transfer_verify env ma_sl channel s =
     (case (if ma_sl = 0 then dmaWrite8 (dma_h s channel) else dmaWrite16 (dma_h s channel)) of
        Some f \<Rightarrow> let ((n, buffer), s) = (if ma_sl = 0 then call_write8 env f (buffer0 env) 1 s
                                         else call_write16 env f (buffer0 env) 1 s)
                 in (n, s)
      | None \<Rightarrow> (1, panic_dma (No_handler channel) s))"

text \<open>The end of a transfer, when the count has expired.\<close>

definition count_expired :: "nat \<Rightarrow> nat \<Rightarrow> 'a bx_dma_c_scheme \<Rightarrow> 'a bx_dma_c_scheme" where
  "count_expired ma_sl channel s =
     (let s = upd_ctrl ma_sl (\<lambda>d. d\<lparr>status_reg := status_reg d OR push_bit channel 1\<rparr>) s;
          s = (if \<not> autoinit_enable (mode (chan (dma_s s ma_sl) channel))
               then upd_ctrl ma_sl (\<lambda>d. d\<lparr>msk := (msk d)(channel := True)\<rparr>) s
               else upd_chan ma_sl channel (\<lambda>c. c\<lparr>current_address := base_address c, current_count := base_count c\<rparr>) s);
          s = s\<lparr>TC := False, HLDA := False\<rparr>;
          s = set_HRQ False s;
          s = upd_ctrl ma_sl (\<lambda>d. d\<lparr>DACK := (DACK d)(channel := False)\<rparr>) s
      in if ma_sl = 0
         then upd_ctrl 1 (\<lambda>d. d\<lparr>DACK := (DACK d)(0 := False)\<rparr>) (set_DRQ 4 False s)
         else s)"

definition finish_transfer :: "nat \<Rightarrow> nat \<Rightarrow> Bit16u \<Rightarrow> 'a bx_dma_c_scheme \<Rightarrow> 'a bx_dma_c_scheme" where
  "finish_transfer ma_sl channel n s =
     (let s = upd_ctrl ma_sl (\<lambda>d. d\<lparr>DACK := (DACK d)(channel := True)\<rparr>) s;
          s = upd_chan ma_sl channel (\<lambda>c. c\<lparr>
                current_address := (if \<not> address_decrement (mode c) then current_address c + n else current_address c - 1),
                current_count := current_count c - n\<rparr>) s
      in if current_count (chan (dma_s s ma_sl) channel) = 0xffff then count_expired ma_sl channel s else s)"

definition chan_addr :: "nat \<Rightarrow> dma_chan \<Rightarrow> Bit64u" where
  "chan_addr ma_sl c = push_bit 16 (ucast (page_reg c)) OR push_bit ma_sl (ucast (current_address c))"

text \<open>\<open>maxlen\<close> is a 16-bit number: the size of the rest of the transfer is cut to it.\<close>

definition chan_maxlen :: "nat \<Rightarrow> dma_chan \<Rightarrow> Bit16u \<times> bool" where
  "chan_maxlen ma_sl c =
     (if \<not> address_decrement (mode c)
      then let maxlen = ucast (push_bit ma_sl (ucast (current_count c) + 1 :: Bit32u)) :: Bit16u
           in (if maxlen > BX_DMA_BUFFER_SIZE then BX_DMA_BUFFER_SIZE else maxlen, maxlen \<le> BX_DMA_BUFFER_SIZE)
      else (push_bit ma_sl 1, current_count c = 0))"

definition select_channel :: "'a bx_dma_c_scheme \<Rightarrow> (nat \<times> nat) \<times> 'a bx_dma_c_scheme" where
  "select_channel s =
     (let channel = find_channel (dma_s s 1);
          ma_sl = (if channel < 4 then 1 else 0)
      in if channel = 0
         then let s = upd_ctrl 1 (\<lambda>d. d\<lparr>DACK := (DACK d)(0 := True)\<rparr>) s;
                  channel = find_channel (dma_s s 0)
              in ((if channel < 4 then 0 else ma_sl, channel), s)
         else ((ma_sl, channel), s))"

definition raise_HLDA :: "'a dma_menv \<Rightarrow> 'a dma_denv \<Rightarrow> 'a bx_dma_c_scheme \<Rightarrow> 'a bx_dma_c_scheme" where
  "raise_HLDA menv env s =
     (let s = s\<lparr>HLDA := True\<rparr>;
          ((ma_sl, channel), s) = select_channel s
      in if channel \<ge> 4 then s
         else let c = chan (dma_s s ma_sl) channel;
                  phy_addr = chan_addr ma_sl c;
                  (maxlen, tc) = chan_maxlen ma_sl c;
                  s = s\<lparr>TC := tc\<rparr>;
                  (n, s) = (if transfer_type (mode c) = 1 then transfer_write menv env ma_sl channel phy_addr maxlen s
                            else if transfer_type (mode c) = 2 then transfer_read menv env ma_sl channel phy_addr maxlen s
                            else if transfer_type (mode c) = 0 then transfer_verify env ma_sl channel s
                            else (1, panic_dma Bad_transfer s))
              in finish_transfer ma_sl channel n s)"

end
