(* ===== verification/Dma_Props.thy ===== *)
theory Dma_Props
  imports Dma
begin

text \<open>
  What the DMA controllers do: a channel holds what was programmed, the buffer of a transfer is never overrun,
  the first unmasked request is served, a transfer stores what the device delivered and ends as the
  mode of the channel says; and the defects of full-size, 16-bit and concurrent transfers.
\<close>

unbundle bit_operations_syntax

section \<open>Controllers and channels\<close>

lemma dma_s_upd [simp]:
  "dma_s (upd_ctrl m f s) = (dma_s s)(m := f (dma_s s m))" "dma_s (panic_dma p s) = dma_s s"
  "dma_s (set_HRQ v s) = dma_s s"
  by (simp_all add: upd_ctrl_def panic_dma_def set_HRQ_def Let_def)

lemma other_upd [simp]:
  "HLDA (upd_ctrl m f s) = HLDA s" "TC (upd_ctrl m f s) = TC s" "HRQ (upd_ctrl m f s) = HRQ s"
  "dma_h (upd_ctrl m f s) = dma_h s" "vector (upd_ctrl m f s) = vector s"
  "HRQ (set_HRQ v s) = v" "HLDA (set_HRQ v s) = HLDA s" "TC (set_HRQ v s) = TC s" "vector (set_HRQ v s) = vector s"
  "HRQ (panic_dma p s) = HRQ s" "HLDA (panic_dma p s) = HLDA s" "TC (panic_dma p s) = TC s" "vector (panic_dma p s) = vector s"
  by (simp_all add: upd_ctrl_def panic_dma_def set_HRQ_def Let_def)

lemma chan_upd [simp]: "dma_s (upd_chan m c f s) = (dma_s s)(m := (dma_s s m)\<lparr>chan := (chan (dma_s s m))(c := f (chan (dma_s s m) c))\<rparr>)"
  "HLDA (upd_chan m c f s) = HLDA s" "TC (upd_chan m c f s) = TC s" "HRQ (upd_chan m c f s) = HRQ s"
  "vector (upd_chan m c f s) = vector s"
  by (simp_all add: upd_chan_def)

section \<open>Programming\<close>

lemma word_halves:
  "ucast (ucast (a AND 0xff) :: Bit32u) OR ucast (push_bit 8 (ucast (drop_bit 8 a) :: Bit32u)) = (a :: Bit16u)"
proof -
  have m: "a AND 0xff = take_bit 8 a" using byte_mask [of a] by (simp add: and.commute)
  show ?thesis unfolding m by (rule bit_word_eqI) (auto simp: bit_simps)
qed

text \<open>The ports of channel \<open>k\<close> (0 to 7), and the writes that set its address, count and page.\<close>

definition addr_port :: "nat \<Rightarrow> nat" where "addr_port k = (if k < 4 then 2 * k else 0xc0 + 4 * (k - 4))"
definition count_port :: "nat \<Rightarrow> nat" where "count_port k = (if k < 4 then 2 * k + 1 else 0xc2 + 4 * (k - 4))"
definition page_port :: "nat \<Rightarrow> nat" where "page_port k = [0x87, 0x83, 0x81, 0x82, 0x8f, 0x8b, 0x89, 0x8a] ! k"
definition clear_port :: "nat \<Rightarrow> nat" where "clear_port k = (if k < 4 then 0x0c else 0xd8)"

definition write_word :: "nat \<Rightarrow> Bit16u \<Rightarrow> 'a bx_dma_c_scheme \<Rightarrow> 'a bx_dma_c_scheme" where
  "write_word port v s = dma_write port (ucast (drop_bit 8 v)) 1 (dma_write port (ucast (v AND 0xff)) 1 s)"

definition read_word :: "nat \<Rightarrow> 'a bx_dma_c_scheme \<Rightarrow> Bit16u" where
  "read_word port s = ucast (fst (dma_read port s)) OR push_bit 8 (ucast (fst (dma_read port (snd (dma_read port s)))))"

definition program_channel :: "nat \<Rightarrow> Bit16u \<Rightarrow> Bit16u \<Rightarrow> Bit8u \<Rightarrow> 'a bx_dma_c_scheme \<Rightarrow> 'a bx_dma_c_scheme" where
  "program_channel k addr cnt page s =
     dma_write (page_port k) (ucast page) 1 (write_word (count_port k) cnt (write_word (addr_port k) addr
       (dma_write (clear_port k) 0 1 s)))"

lemma port_channels:
  "port_channel 0 0 = 0" "port_channel 0 2 = 1" "port_channel 0 4 = 2" "port_channel 0 6 = 3"
  "port_channel 0 1 = 0" "port_channel 0 (Suc 0) = 0" "port_channel 0 3 = 1" "port_channel 0 5 = 2" "port_channel 0 7 = 3"
  "port_channel 1 192 = 0" "port_channel 1 196 = 1" "port_channel 1 200 = 2" "port_channel 1 204 = 3"
  "port_channel 1 194 = 0" "port_channel 1 198 = 1" "port_channel 1 202 = 2" "port_channel 1 206 = 3"
  by code_simp+

lemmas port_defs = addr_port_def count_port_def page_port_def clear_port_def ports_address_def ports_count_def ports_extra_def
  channelindex_def port_channels [unfolded One_nat_def]

lemma channel_cases: "k < 8 \<Longrightarrow> k = 0 \<or> k = 1 \<or> k = 2 \<or> k = 3 \<or> k = 4 \<or> k = 5 \<or> k = 6 \<or> k = 7" for k :: nat
  by linarith

lemma upd_ctrl_twice [simp]: "upd_ctrl m f (upd_ctrl m g s) = upd_ctrl m (\<lambda>d. f (g d)) s"
  by (simp add: upd_ctrl_def)

lemma clear_flip_flop: "k < 8 \<Longrightarrow> dma_write (clear_port k) 0 1 s = upd_ctrl (k div 4) (\<lambda>d. d\<lparr>flip_flop := False\<rparr>) s"
  by (drule channel_cases, elim disjE; simp add: dma_write_def dma_write1_def port_defs Let_def)

lemma byte_up: "ucast (ucast p :: Bit32u) = p" for p :: Bit8u
  by (rule bit_word_eqI) (auto simp: bit_simps)

lemmas port_evals = byte_up dma_write_def dma_write1_def port_defs Let_def write_half_def word_halves upd_chan_def

lemma write_addr:
  "k < 8 \<Longrightarrow> \<not> flip_flop (dma_s s (k div 4)) \<Longrightarrow>
   write_word (addr_port k) v s = upd_chan (k div 4) (k mod 4) (\<lambda>c. c\<lparr>base_address := v, current_address := v\<rparr>) s"
  unfolding write_word_def by (drule channel_cases, elim disjE; simp add: port_evals)

lemma write_count:
  "k < 8 \<Longrightarrow> \<not> flip_flop (dma_s s (k div 4)) \<Longrightarrow>
   write_word (count_port k) v s = upd_chan (k div 4) (k mod 4) (\<lambda>c. c\<lparr>base_count := v, current_count := v\<rparr>) s"
  unfolding write_word_def by (drule channel_cases, elim disjE; simp add: port_evals)

lemma write_page:
  "k < 8 \<Longrightarrow> dma_write (page_port k) (ucast p) 1 s = upd_chan (k div 4) (k mod 4) (\<lambda>c. c\<lparr>page_reg := p\<rparr>) s"
  by (drule channel_cases, elim disjE; simp add: port_evals)

lemma read_words:
  assumes "k < 8" "\<not> flip_flop (dma_s s (k div 4))"
  shows "read_word (addr_port k) s = current_address (chan (dma_s s (k div 4)) (k mod 4))"
    "read_word (count_port k) s = current_count (chan (dma_s s (k div 4)) (k mod 4))"
    "fst (dma_read (page_port k) s) = ucast (page_reg (chan (dma_s s (k div 4)) (k mod 4)))"
proof -
  have h: "ucast (ucast (a AND 0xff) :: Bit32u) OR push_bit 8 (ucast (ucast (drop_bit 8 a) :: Bit32u)) = a" for a :: Bit16u
  proof -
    have "push_bit 8 (ucast (ucast (drop_bit 8 a) :: Bit32u)) = (ucast (push_bit 8 (ucast (drop_bit 8 a) :: Bit32u)) :: Bit16u)"
      by (rule bit_word_eqI) (auto simp: bit_simps)
    then show ?thesis using word_halves [of a] by simp
  qed
  show "read_word (addr_port k) s = current_address (chan (dma_s s (k div 4)) (k mod 4))"
    "read_word (count_port k) s = current_count (chan (dma_s s (k div 4)) (k mod 4))"
    "fst (dma_read (page_port k) s) = ucast (page_reg (chan (dma_s s (k div 4)) (k mod 4)))"
    using channel_cases [OF assms(1)] assms(2) unfolding read_word_def
    by (elim disjE; simp add: dma_read_def read_half_def port_defs Let_def h)+
qed

text \<open>
  C21: Programming a channel, clearing the flip-flop and then writing the address and the count byte by byte and the page,
  through the ports of either controller, leaves the channel with exactly these values as base and current, keeps its
  mode and every other channel, and reading the registers back returns them.
\<close>

theorem program_channel_reads_back:
  assumes "k < 8"
  shows "let s' = program_channel k addr cnt page s; c = chan (dma_s s (k div 4)) (k mod 4)
    in chan (dma_s s' (k div 4)) (k mod 4) = c\<lparr>base_address := addr, current_address := addr, base_count := cnt,
         current_count := cnt, page_reg := page\<rparr>
     \<and> (\<forall>m i. (m, i) \<noteq> (k div 4, k mod 4) \<longrightarrow> chan (dma_s s' m) i = chan (dma_s s m) i)
     \<and> read_word (addr_port k) s' = addr \<and> read_word (count_port k) s' = cnt \<and> fst (dma_read (page_port k) s') = ucast page"
proof -
  let ?t = "upd_ctrl (k div 4) (\<lambda>d. d\<lparr>flip_flop := False\<rparr>) s"
  have "program_channel k addr cnt page s = upd_chan (k div 4) (k mod 4)
      (\<lambda>c. c\<lparr>base_address := addr, current_address := addr, base_count := cnt, current_count := cnt, page_reg := page\<rparr>) ?t"
    unfolding program_channel_def clear_flip_flop [OF assms] write_page [OF assms]
    by (subst write_addr [OF assms], simp, subst write_count [OF assms], simp) (simp add: upd_chan_def)
  then show ?thesis
    using read_words [OF assms, of "program_channel k addr cnt page s"] by (simp add: Let_def)
qed

section \<open>Size of a transfer\<close>

definition remaining :: "nat \<Rightarrow> dma_chan \<Rightarrow> nat" where
  "remaining m c = (unat (current_count c) + 1) * 2 ^ m"

lemma unat_maxlen: "m \<le> 1 \<Longrightarrow> unat (ucast (push_bit m (ucast (current_count c) + 1 :: Bit32u)) :: Bit16u) = remaining m c mod 0x10000"
proof -
  assume m: "m \<le> 1"
  have c: "unat (current_count c) < 0x10000" using unsigned_less [of "current_count c", where 'a = nat] by simp
  then have "unat (ucast (current_count c) :: Bit32u) = unat (current_count c)"
    by (simp add: unsigned_ucast_eq take_bit_nat_eq_self)
  then have w: "unat (ucast (current_count c) + 1 :: Bit32u) = unat (current_count c) + 1" using c by (simp add: unat_word_ariths)
  have "unat (push_bit m v) = unat v * 2 ^ m" if "unat v \<le> 0x10000" for v :: Bit32u
  proof -
    have "m = 0 \<or> m = 1" using m by auto
    then show ?thesis using that by (elim disjE) (simp_all add: push_bit_eq_mult unat_word_ariths)
  qed
  then have "unat (push_bit m (ucast (current_count c) + 1 :: Bit32u)) = remaining m c"
    using w c by (simp add: remaining_def)
  then show ?thesis by (simp add: unsigned_ucast_eq take_bit_eq_mod)
qed

text \<open>
  C40: The length handed to a device never exceeds the buffer of 512 bytes. On a channel that counts its address up,
  with a rest of less than 64 KB, it is the rest or 512, and TC is signalled exactly when the rest fits; a rest of
  64 KB or 128 KB (count 0xffff, or 0x7fff of a 16-bit channel) is taken for 0, so that the device is asked for no
  byte at all and told that this is the end. A channel that counts down asks for one unit, one byte or one word, and
  signals TC exactly when the count is 0.
\<close>

theorem chan_maxlen_bounds:
  assumes "m \<le> 1"
  shows "unat (fst (chan_maxlen m c)) \<le> 512
    \<and> (\<not> address_decrement (mode c) \<and> remaining m c < 0x10000 \<longrightarrow>
        unat (fst (chan_maxlen m c)) = min 512 (remaining m c) \<and> (snd (chan_maxlen m c) \<longleftrightarrow> remaining m c \<le> 512))
    \<and> (\<not> address_decrement (mode c) \<and> remaining m c \<in> {0x10000, 0x20000} \<longrightarrow> chan_maxlen m c = (0, True))
    \<and> (address_decrement (mode c) \<longrightarrow> unat (fst (chan_maxlen m c)) = 2 ^ m \<and> (snd (chan_maxlen m c) \<longleftrightarrow> current_count c = 0))"
proof -
  define w where "w = (ucast (push_bit m (ucast (current_count c) + 1 :: Bit32u)) :: Bit16u)"
  have w: "unat w = remaining m c mod 0x10000" unfolding w_def by (rule unat_maxlen [OF assms])
  have cm: "chan_maxlen m c = (if \<not> address_decrement (mode c) then (if w > 512 then 512 else w, w \<le> 512)
      else (push_bit m 1, current_count c = 0))"
    by (simp add: chan_maxlen_def Let_def w_def)
  have "m = 0 \<or> m = 1" using assms by auto
  then have "unat (push_bit m 1 :: Bit16u) = 2 ^ m" "(2 :: nat) ^ m \<le> 512"
    by (auto simp: push_bit_eq_mult)
  moreover have "w = 0" if "remaining m c mod 0x10000 = 0" using that w by (simp add: word_unat_eq_iff)
  ultimately show ?thesis using w unfolding cm by (auto simp: word_less_nat_alt word_le_nat_alt not_less min_def)
qed

section \<open>Priority\<close>

definition requests :: "dma_ctrl \<Rightarrow> nat \<Rightarrow> bool" where
  "requests d c \<longleftrightarrow> bit (status_reg d) (c + 4) \<and> \<not> msk d c"

lemma request_bit_iff: "c < 4 \<Longrightarrow> w AND request_bit c \<noteq> 0 \<longleftrightarrow> bit w (c + 4)"
  using and_mask_eq_0_iff [of w "c + 4"] by (simp add: request_bit_def)

lemma find_channel_first:
  "find_channel d \<le> 4" "c < find_channel d \<Longrightarrow> \<not> requests d c" "find_channel d < 4 \<Longrightarrow> requests d (find_channel d)"
proof -
  have f: "find_channel d = (if requests d 0 then 0 else if requests d 1 then 1 else if requests d 2 then 2 else if requests d 3 then 3 else 4)"
    by (simp add: find_channel_def Let_def request_bit_iff requests_def)
  show "find_channel d \<le> 4" by (simp add: f)
  show "find_channel d < 4 \<Longrightarrow> requests d (find_channel d)" by (auto simp: f split: if_splits)
  show "c < find_channel d \<Longrightarrow> \<not> requests d c"
  proof -
    assume c: "c < find_channel d"
    then have "c = 0 \<or> c = 1 \<or> c = 2 \<or> c = 3" using \<open>find_channel d \<le> 4\<close> by linarith
    then show "\<not> requests d c" using c by (elim disjE) (auto simp: f split: if_splits)
  qed
qed

lemma find_channel_some: "find_channel d < 4 \<longleftrightarrow> (\<exists>c<4. requests d c)"
  using find_channel_first(2) [of _ d] find_channel_first(3) [of d] by (metis order_less_le_trans linorder_not_le)

lemma no_request_bits: "status_reg d AND 0xf0 = 0 \<Longrightarrow> c < 4 \<Longrightarrow> \<not> requests d c"
proof -
  assume *: "status_reg d AND 0xf0 = 0" "c < 4"
  then have "c = 0 \<or> c = 1 \<or> c = 2 \<or> c = 3" by linarith
  then have "bit (0xf0 :: Bit8u) (c + 4)" by (elim disjE) simp_all
  then show ?thesis using *(1) by (auto simp: requests_def dest: arg_cong [of _ 0 "\<lambda>w. bit w (c + 4)"] simp: bit_and_iff)
qed

lemma bit_request_bit_0: "bit (request_bit 0) n \<longleftrightarrow> n = 4"
  by (auto simp: request_bit_def bit_push_bit_iff bit_1_iff simp del: push_bit_of_1)

section \<open>The machine around the memory\<close>

lemma dmaWrite_more:
  assumes "dma_range env a n s" "0 < n"
  shows "BX_MEM_C.more (dmaWritePhysicalPage env a ds s) = BX_MEM_C.more s"
proof -
  let ?s = "page_check a (length ds) s"
  have "dma_range env a n ?s" using dma_range_written [OF written_page_check] assms(1) by blast
  note r = dma_range_first [OF this assms(2)]
  have "getHostMemAddr env None a BX_WRITE ?s = Some (Ram a)"
    using getHostMemAddr_write [of a ?s env None] r by (simp only: r(1,2,3,5) if_False)
  then show ?thesis
    by (simp add: dmaWritePhysicalPage_def Let_def host_write_def decWriteStamp_def handleSMC_def)
qed

lemma dma_write_more: "dma_range env a (length ds) s \<Longrightarrow> BX_MEM_C.more (DEV_MEM_WRITE_PHYSICAL_DMA env a ds s) = BX_MEM_C.more s"
proof (induction env a ds s rule: DEV_MEM_WRITE_PHYSICAL_DMA.induct)
  case (1 env a ds s)
  show ?case
  proof (cases "ds = []")
    case False
    define n where "n = remainingInPage a (length ds)"
    have "ram_written a (take n ds) s (dmaWritePhysicalPage env a (take n ds) s)"
      using dmaWrite_written [OF "1.prems"] False by simp
    then have "dma_range env (a + of_nat n) (length (drop n ds)) (dmaWritePhysicalPage env a (take n ds) s)"
      using dma_range_drop [OF "1.prems", of n] dma_range_written by fastforce
    then show ?thesis
      using 1(1) [OF False n_def] dmaWrite_more [OF "1.prems", of "take n ds"] False
      by (simp add: DEV_MEM_WRITE_PHYSICAL_DMA.simps [of env a ds] Let_def n_def [symmetric])
  qed (simp add: DEV_MEM_WRITE_PHYSICAL_DMA.simps)
qed

text \<open>A DMA write to RAM changes nothing of the controllers, the PC system and the devices.\<close>

definition stored :: "Bit64u \<Rightarrow> Bit8u list \<Rightarrow> 'a BX_MEM_C_scheme \<Rightarrow> 'a BX_MEM_C_scheme \<Rightarrow> bool" where
  "stored a ds s s' \<longleftrightarrow> (\<exists>m c p. s' = s\<lparr>vector := put_bytes a ds (vector s), fineGranularityMapping := m, smc_calls := c, mem_panics := p\<rparr>)"

lemma dma_write_stored: "dma_range env a (length ds) s \<Longrightarrow> stored a ds s (DEV_MEM_WRITE_PHYSICAL_DMA env a ds s)"
  using dma_write_ram [of env a ds s] dma_write_more [of env a ds s] by (force simp: ram_written_def stored_def)

lemma stored_fields:
  fixes s :: "'a bx_dma_c_scheme"
  assumes "stored a ds s s'"
  shows "vector s' = put_bytes a ds (vector s)" "dma_s s' = dma_s s" "HRQ s' = HRQ s" "HLDA s' = HLDA s" "TC s' = TC s"
  using assms by (auto simp: stored_def)

section \<open>A transfer\<close>

lemma control_HRQ_master: "control_HRQ 1 s = s \<or> control_HRQ 1 s = set_HRQ False s \<or> control_HRQ 1 s = set_HRQ True s"
  by (subst (1 2 3) control_HRQ.simps) simp

lemma control_HRQ_master_keeps [simp]:
  "dma_s (control_HRQ (Suc 0) s) = dma_s s" "HLDA (control_HRQ (Suc 0) s) = HLDA s" "TC (control_HRQ (Suc 0) s) = TC s"
  "vector (control_HRQ (Suc 0) s) = vector s"
  using control_HRQ_master [of s] by auto

lemma check_boundary_keeps [simp]:
  "dma_s (check_boundary m c s) = dma_s s" "HLDA (check_boundary m c s) = HLDA s" "TC (check_boundary m c s) = TC s"
  "vector (check_boundary m c s) = vector s"
  by (simp_all add: check_boundary_def Let_def)

lemma cascade_keeps [simp]:
  "dma_s (set_DRQ 4 v s) 0 = dma_s s 0" "HLDA (set_DRQ 4 v s) = HLDA s" "TC (set_DRQ 4 v s) = TC s" "vector (set_DRQ 4 v s) = vector s"
  by (simp_all add: set_DRQ.simps [of 4] Let_def)

text \<open>Withdrawing the cascade request leaves the bus requested only for DMA-2's own channels.\<close>

lemma withdraw_cascade:
  assumes "\<not> HRQ s"
  shows "HRQ (set_DRQ 4 False s) \<longleftrightarrow> used (chan (dma_s s 1) 0) \<and> \<not> ctrl_disabled (dma_s s 1) \<and> (\<exists>d\<in>{1, 2, 3}. requests (dma_s s 1) d)"
    "\<not> DRQ (dma_s (set_DRQ 4 False s) 1) 0"
proof -
  let ?d = "(dma_s s 1)\<lparr>DRQ := (DRQ (dma_s s 1))(0 := False), status_reg := status_reg (dma_s s 1) AND NOT (request_bit 0)\<rparr>"
  have r: "requests ?d c \<longleftrightarrow> c \<noteq> 0 \<and> requests (dma_s s 1) c" for c
    by (auto simp: requests_def bit_and_iff bit_not_iff bit_request_bit_0 dest: bit_imp_le_length)
  have ex: "(\<exists>c<4. c \<noteq> 0 \<and> P c) \<longleftrightarrow> (\<exists>d\<in>{1, 2, 3}. P d)" for P :: "nat \<Rightarrow> bool"
    by (auto simp: numeral_eq_Suc less_Suc_eq)
  show "HRQ (set_DRQ 4 False s) \<longleftrightarrow> used (chan (dma_s s 1) 0) \<and> \<not> ctrl_disabled (dma_s s 1) \<and> (\<exists>d\<in>{1, 2, 3}. requests (dma_s s 1) d)"
    using assms no_request_bits [of ?d] find_channel_some [of ?d] unfolding r ex [symmetric]
    by (auto simp: set_DRQ.simps [of 4] control_HRQ.simps [of "Suc 0"] Let_def)
  show "\<not> DRQ (dma_s (set_DRQ 4 False s) 1) 0" by (simp add: set_DRQ.simps [of 4] Let_def)
qed

lemma expired_slave:
  "dma_s (count_expired 0 c s) 0 = (let d = dma_s s 0; ch = chan d c in d\<lparr>
     status_reg := status_reg d OR push_bit c 1, DACK := (DACK d)(c := False),
     msk := (if autoinit_enable (mode ch) then msk d else (msk d)(c := True)),
     chan := (chan d)(c := if autoinit_enable (mode ch)
        then ch\<lparr>current_address := base_address ch, current_count := base_count ch\<rparr> else ch)\<rparr>)"
  "HLDA (count_expired 0 c s) = False" "TC (count_expired 0 c s) = False" "vector (count_expired 0 c s) = vector s"
  "DACK (dma_s (count_expired 0 c s) 1) 0 = False" "DRQ (dma_s (count_expired 0 c s) 1) 0 = False"
  "HRQ (count_expired 0 c s) \<longleftrightarrow> used (chan (dma_s s 1) 0) \<and> \<not> ctrl_disabled (dma_s s 1) \<and> (\<exists>d\<in>{1, 2, 3}. requests (dma_s s 1) d)"
  by (simp_all add: count_expired_def Let_def withdraw_cascade [unfolded One_nat_def])

text \<open>
  C20: When the CPU grants the bus, the first unmasked request of DMA-2 is the cascade and the first of DMA-1 is channel
  \<open>c\<close> in write mode with a device, and the bytes the device delivers lie in its buffer and go to plain RAM (A20 open, no
  memory handler or monitor there), they are stored at the address of the channel; its count goes down by
  their number and its address up by their number, or down by one if the channel counts down. If the count expires,
  the terminal count bit of the channel is set, the acknowledge lines of the channel and of the cascade and the hold
  acknowledge are released, the cascade request is withdrawn, the bus stays requested only if DMA-2 (enabled, its
  cascade channel in use) has an unmasked request of its own, and the channel is masked or, with
  auto-initialization, starts again from its base registers. Otherwise the channel is acknowledged, and DMA-2 and the hold lines
  stay as the device left them.
\<close>

theorem transfer_to_memory:
  fixes s :: "'a bx_dma_c_scheme"
  assumes grant: "find_channel (dma_s s 1) = 0" "find_channel (dma_s s 0) = c" "c < 4"
    and mode: "transfer_type (mode (chan (dma_s s 0) c)) = 1" "dmaWrite8 (dma_h s c) = Some f"
    and device: "call_write8 env f (buffer0 env) (fst (chan_maxlen 0 (chan (dma_s s 0) c)))
        ((upd_ctrl 1 (\<lambda>d. d\<lparr>DACK := (DACK d)(0 := True)\<rparr>) (s\<lparr>HLDA := True\<rparr>))\<lparr>TC := snd (chan_maxlen 0 (chan (dma_s s 0) c))\<rparr>)
        = ((n, buf), s1)"
    and range: "unat n \<le> length buf" "dma_range menv (chan_addr 0 (chan (dma_s s 0) c)) (unat n) s1"
  shows "let s' = raise_HLDA menv env s; c1 = chan (dma_s s1 0) c;
      c2 = c1\<lparr>current_address := (if address_decrement (mode c1) then current_address c1 - 1 else current_address c1 + n),
              current_count := current_count c1 - n\<rparr>
    in vector s' = put_bytes (chan_addr 0 (chan (dma_s s 0) c)) (take (unat n) buf) (vector s1) \<and>
       (if current_count c2 = 0xffff
        then \<not> HLDA s' \<and> \<not> TC s' \<and> \<not> DACK (dma_s s' 0) c \<and> \<not> DACK (dma_s s' 1) 0 \<and> \<not> DRQ (dma_s s' 1) 0 \<and>
             (HRQ s' \<longleftrightarrow> used (chan (dma_s s1 1) 0) \<and> \<not> ctrl_disabled (dma_s s1 1) \<and> (\<exists>d\<in>{1, 2, 3}. requests (dma_s s1 1) d)) \<and>
             bit (status_reg (dma_s s' 0)) c \<and>
             (if autoinit_enable (mode c1)
              then chan (dma_s s' 0) c = c2\<lparr>current_address := base_address c1, current_count := base_count c1\<rparr> \<and> msk (dma_s s' 0) c = msk (dma_s s1 0) c
              else chan (dma_s s' 0) c = c2 \<and> msk (dma_s s' 0) c)
        else chan (dma_s s' 0) c = c2 \<and> DACK (dma_s s' 0) c \<and> dma_s s' 1 = dma_s s1 1 \<and> HRQ s' = HRQ s1 \<and> HLDA s' = HLDA s1)"
proof -
  let ?C = "chan (dma_s s 0) c" and ?a = "chan_addr 0 (chan (dma_s s 0) c)"
  define t where "t = DEV_MEM_WRITE_PHYSICAL_DMA menv ?a (take (unat n) buf) s1"
  have "dma_range menv ?a (length (take (unat n) buf)) s1" using range by (simp add: min_absorb2)
  from stored_fields [OF dma_write_stored [OF this]]
  have t: "vector t = put_bytes ?a (take (unat n) buf) (vector s1)" "dma_s t = dma_s s1" "HRQ t = HRQ s1" "HLDA t = HLDA s1"
    by (simp_all add: t_def)
  have "raise_HLDA menv env s = finish_transfer 0 c n t"
    using grant mode device
    by (simp add: raise_HLDA_def select_channel_def Let_def transfer_write_def case_prod_unfold t_def)
  moreover have "bit (w OR push_bit c 1 :: Bit8u) c" for w using grant(3) by (simp add: bit_simps)
  ultimately show ?thesis
    using t grant(3) by (simp add: finish_transfer_def Let_def expired_slave [unfolded One_nat_def])
qed

section \<open>Defects\<close>

text \<open>A 16-bit channel in write mode stores only half of the words its device delivers: their number is taken for a number of bytes.\<close>

lemma word_transfer_half:
  fixes s :: "'a bx_dma_c_scheme"
  assumes "dmaWrite16 (dma_h s c) = Some f" "call_write16 env f (buffer0 env) (maxlen div 2) s = ((n, buf), s1)"
    and "2 * unat n \<le> length buf" "dma_range menv a (unat n) s1"
  shows "vector (snd (transfer_write menv env 1 c a maxlen s)) = put_bytes a (take (unat n) buf) (vector s1)"
proof -
  have "dma_range menv a (length (take (unat n) buf)) s1" using assms(3,4) by (simp add: min_absorb2)
  from stored_fields(1) [OF dma_write_stored [OF this]] show ?thesis
    using assms(1,2) by (simp add: transfer_write_def case_prod_unfold)
qed

text \<open>
  When the count of a channel of DMA-1 expires, the request to DMA-2 is withdrawn although another channel
  of DMA-1 still has an unmasked request, and the bus is not requested for it.
\<close>

lemma expired_forgets_request:
  assumes "d < 4" "d \<noteq> c" "requests (dma_s s 0) d"
    and "used (chan (dma_s s 1) 0)" "\<not> ctrl_disabled (dma_s s 1)" "status_reg (dma_s s 1) AND 0xe0 = 0"
  shows "requests (dma_s (count_expired 0 c s) 0) d \<and> \<not> HRQ (count_expired 0 c s)"
proof -
  have "(status_reg (dma_s s 1) AND NOT (request_bit 0)) AND 0xf0 = 0"
  proof -
    have "NOT (request_bit 0) AND 0xf0 = (0xe0 :: Bit8u)" by (simp add: request_bit_def)
    then show ?thesis using assms(6) by (simp add: and.assoc)
  qed
  then have "\<not> HRQ (set_DRQ 4 False t)" if "dma_s t (Suc 0) = dma_s s 1" for t :: "'a bx_dma_c_scheme"
    using assms(4,5) that by (simp add: set_DRQ.simps [of 4] control_HRQ.simps [of "Suc 0"] Let_def)
  then have "\<not> HRQ (count_expired 0 c s)"
    by (simp add: count_expired_def Let_def)
  moreover have "requests (dma_s (count_expired 0 c s) 0) d"
    using assms(1-3) by (auto simp: expired_slave Let_def requests_def bit_or_iff)
  ultimately show ?thesis by blast
qed

section \<open>Witnesses\<close>

definition dma_sample :: bx_dma_c where
  "dma_sample =
     (let ch = chan_init\<lparr>used := True, mode := \<lparr>mode_type = 1, address_decrement = False, autoinit_enable = False, transfer_type = 1\<rparr>,
                         current_address := 0x1000, current_count := 2\<rparr>;
          d = \<lparr>DRQ = (\<lambda>_. False), DACK = (\<lambda>_. False), msk = (\<lambda>_. False), flip_flop = False, status_reg = 0, command_reg = 0,
               ctrl_disabled = False, chan = (\<lambda>_. ch)\<rparr>
      in mem_sample (bx_dma_c.fields (\<lambda>m. if m = 0 then d\<lparr>status_reg := 0x40\<rparr> else d\<lparr>status_reg := 0x10\<rparr>)
           False False (\<lambda>_. 0) (\<lambda>_. \<lparr>dmaRead8 = None, dmaWrite8 = Some 0, dmaRead16 = None, dmaWrite16 = None\<rparr>) []))"

definition three_bytes :: "bx_dma_c dma_env" where
  "three_bytes = \<lparr>call_read8 = (\<lambda>f b n s. (n, s)), call_write8 = (\<lambda>f b n s. ((n, [1, 2, 3]), s)),
     call_read16 = (\<lambda>f b n s. (n, s)), call_write16 = (\<lambda>f b n s. ((n, b), s)), buffer0 = []\<rparr>"

lemma dma_sample_fields:
  "find_channel (dma_s dma_sample 1) = 0" "find_channel (dma_s dma_sample 0) = 2"
  "transfer_type (mode (chan (dma_s dma_sample 0) 2)) = 1" "dmaWrite8 (dma_h dma_sample 2) = Some 0"
  "chan_maxlen 0 (chan (dma_s dma_sample 0) 2) = (3, True)" "chan_addr 0 (chan (dma_s dma_sample 0) 2) = 0x1000"
  "vector dma_sample = (\<lambda>_. 0)"
  by (simp_all add: dma_sample_def Let_def sample_defs bx_dma_c.defs find_channel_def request_bit_def chan_init_def
      chan_maxlen_def chan_addr_def)

theorem program_channel_reads_back_witness:
  "read_word (addr_port 5) (program_channel 5 0x1234 0xff 0x02 dma_sample) = 0x1234"
  using program_channel_reads_back [of 5 "0x1234" "0xff" "0x02" dma_sample] by (simp add: Let_def)

theorem chan_maxlen_bounds_witness: "unat (fst (chan_maxlen 1 chan_init)) \<le> 512"
  using chan_maxlen_bounds [of 1 chan_init] by simp

theorem transfer_to_memory_witness:
  "let s' = raise_HLDA quiet_env three_bytes dma_sample
   in vector s' = put_bytes 0x1000 [1, 2, 3] (\<lambda>_. 0) \<and> \<not> HLDA s' \<and> msk (dma_s s' 0) 2 \<and> bit (status_reg (dma_s s' 0)) 2"
proof -
  let ?s1 = "(upd_ctrl 1 (\<lambda>d. d\<lparr>DACK := (DACK d)(0 := True)\<rparr>) (dma_sample\<lparr>HLDA := True\<rparr>))\<lparr>TC := True\<rparr>"
  have eq: "ram_access a n ?s1 = ram_access a n dma_sample" "A20ADDR a ?s1 = A20ADDR a dma_sample" for a n
    by (simp_all add: ram_access_def A20ADDR_def is_bios_def no_handler_def upd_ctrl_def)
  have "ram_access (0x1000 + of_nat k) 1 dma_sample" if "k < 3" for k
  proof -
    have "k = 0 \<or> k = 1 \<or> k = 2" using that by auto
    then show ?thesis unfolding dma_sample_def Let_def by (elim disjE) (simp_all add: sample_ram)
  qed
  moreover have "A20ADDR x dma_sample = x" for x unfolding dma_sample_def Let_def by simp
  ultimately have r: "dma_range quiet_env 0x1000 3 ?s1" unfolding dma_range_def eq by (simp add: quiet_env_def)
  have dev: "call_write8 three_bytes 0 (buffer0 three_bytes) 3 ?s1 = ((3, [1, 2, 3]), ?s1)" by (simp add: three_bytes_def)
  have "current_count (chan (dma_s dma_sample 0) 2) = 2" "\<not> autoinit_enable (mode (chan (dma_s dma_sample 0) 2))"
    by (simp_all add: dma_sample_def Let_def sample_defs bx_dma_c.defs chan_init_def)
  moreover have "vector ?s1 = (\<lambda>_. 0)" "dma_s ?s1 0 = dma_s dma_sample 0" by (simp_all add: dma_sample_fields)
  ultimately show ?thesis
    using transfer_to_memory [OF dma_sample_fields(1,2), of 0 three_bytes 3 "[1, 2, 3]" ?s1 quiet_env] r dev
    by (simp add: dma_sample_fields Let_def)
qed

end
