(* ===== verification/Cpu_Events.thy ===== *)
theory Cpu_Events
  imports Bochs_Prelude
begin

text \<open>
  What the rest of the machine can do to a CPU between instructions: the pending events and their masks
  (\<^verbatim>\<open>cpu/cpu.h\<close>), the deliveries of \<^verbatim>\<open>cpu/event.cc\<close>, the monitored cache line of \<^verbatim>\<open>cpu/mwait.cc\<close>, and the bit counts of
  \<^verbatim>\<open>cpu/scalar_arith.h\<close> that the local APIC uses. Loading the code segment of a start-up and leaving a VMX guest are
  the CPU's: the calls are logged. \<open>VMexit\<close> does not return, so the start-up ends there.
\<close>

unbundle bit_operations_syntax

section \<open>State\<close>

record bx_cpu_events =
  pending_event :: Bit32u
  event_mask :: Bit32u
  cpu_async_event :: Bit32u
  activity_state :: nat
  monitor_addr :: Bit64u
  armed :: bool
  in_vmx_guest :: bool
  RIP :: Bit64u
  cs_loads :: "Bit16u list"
  vmexits :: "(nat \<times> Bit8u) list"
  xapic_ext_supported :: bool
  tsc_deadline_supported :: bool

abbreviation (input) BX_ACTIVITY_STATE_ACTIVE :: nat where "BX_ACTIVITY_STATE_ACTIVE \<equiv> 0"
abbreviation (input) BX_ACTIVITY_STATE_WAIT_FOR_SIPI :: nat where "BX_ACTIVITY_STATE_WAIT_FOR_SIPI \<equiv> 3"
abbreviation (input) BX_ACTIVITY_STATE_MWAIT :: nat where "BX_ACTIVITY_STATE_MWAIT \<equiv> 4"
abbreviation (input) BX_EVENT_NMI :: Bit32u where "BX_EVENT_NMI \<equiv> 0x1"
abbreviation (input) BX_EVENT_SMI :: Bit32u where "BX_EVENT_SMI \<equiv> 0x2"
abbreviation (input) BX_EVENT_INIT :: Bit32u where "BX_EVENT_INIT \<equiv> 0x4"
abbreviation (input) BX_EVENT_VMX_PREEMPTION_TIMER_EXPIRED :: Bit32u where
  "BX_EVENT_VMX_PREEMPTION_TIMER_EXPIRED \<equiv> 0x20"
abbreviation (input) BX_EVENT_PENDING_INTR :: Bit32u where "BX_EVENT_PENDING_INTR \<equiv> 0x400"
abbreviation (input) BX_EVENT_PENDING_LAPIC_INTR :: Bit32u where "BX_EVENT_PENDING_LAPIC_INTR \<equiv> 0x800"
abbreviation (input) VMX_VMEXIT_SIPI :: nat where "VMX_VMEXIT_SIPI \<equiv> 4"
abbreviation (input) CACHE_LINE_SIZE :: Bit64u where "CACHE_LINE_SIZE \<equiv> 64"

section \<open>Events\<close>

definition is_masked_event :: "Bit32u \<Rightarrow> 'a bx_cpu_events_scheme \<Rightarrow> bool" where
  "is_masked_event event c \<longleftrightarrow> event_mask c AND event \<noteq> 0"

definition is_pending :: "Bit32u \<Rightarrow> 'a bx_cpu_events_scheme \<Rightarrow> bool" where
  "is_pending event c \<longleftrightarrow> pending_event c AND event \<noteq> 0"

definition is_unmasked_event_pending :: "Bit32u \<Rightarrow> 'a bx_cpu_events_scheme \<Rightarrow> bool" where
  "is_unmasked_event_pending event c \<longleftrightarrow> pending_event c AND NOT (event_mask c) AND event \<noteq> 0"

definition unmasked_events_pending :: "'a bx_cpu_events_scheme \<Rightarrow> Bit32u" where
  "unmasked_events_pending c = pending_event c AND NOT (event_mask c)"

definition signal_event :: "Bit32u \<Rightarrow> 'a bx_cpu_events_scheme \<Rightarrow> 'a bx_cpu_events_scheme" where
  "signal_event event c =
     (let c = c\<lparr>pending_event := pending_event c OR event\<rparr>
      in if \<not> is_masked_event event c then c\<lparr>cpu_async_event := 1\<rparr> else c)"

definition clear_event :: "Bit32u \<Rightarrow> 'a bx_cpu_events_scheme \<Rightarrow> 'a bx_cpu_events_scheme" where
  "clear_event event c = c\<lparr>pending_event := pending_event c AND NOT event\<rparr>"

definition mask_event :: "Bit32u \<Rightarrow> 'a bx_cpu_events_scheme \<Rightarrow> 'a bx_cpu_events_scheme" where
  "mask_event event c = c\<lparr>event_mask := event_mask c OR event\<rparr>"

definition unmask_event :: "Bit32u \<Rightarrow> 'a bx_cpu_events_scheme \<Rightarrow> 'a bx_cpu_events_scheme" where
  "unmask_event event c =
     (let c = c\<lparr>event_mask := event_mask c AND NOT event\<rparr>
      in if is_pending event c then c\<lparr>cpu_async_event := 1\<rparr> else c)"

section \<open>Deliveries\<close>

definition deliver_SIPI :: "Bit8u \<Rightarrow> 'a bx_cpu_events_scheme \<Rightarrow> 'a bx_cpu_events_scheme" where
  "deliver_SIPI v c =
     (if activity_state c = BX_ACTIVITY_STATE_WAIT_FOR_SIPI then
        if in_vmx_guest c then c\<lparr>vmexits := (VMX_VMEXIT_SIPI, v) # vmexits c\<rparr>
        else
          let c = c\<lparr>activity_state := BX_ACTIVITY_STATE_ACTIVE, RIP := 0, cs_loads := (ucast v * 0x100) # cs_loads c\<rparr>
          in unmask_event (BX_EVENT_INIT OR BX_EVENT_SMI OR BX_EVENT_NMI) c
      else c)"

definition deliver_INIT :: "'a bx_cpu_events_scheme \<Rightarrow> 'a bx_cpu_events_scheme" where
  "deliver_INIT c = (if \<not> is_masked_event BX_EVENT_INIT c then signal_event BX_EVENT_INIT c else c)"

definition deliver_NMI :: "'a bx_cpu_events_scheme \<Rightarrow> 'a bx_cpu_events_scheme" where
  "deliver_NMI c = signal_event BX_EVENT_NMI c"

definition deliver_SMI :: "'a bx_cpu_events_scheme \<Rightarrow> 'a bx_cpu_events_scheme" where
  "deliver_SMI c = signal_event BX_EVENT_SMI c"

definition raise_INTR :: "'a bx_cpu_events_scheme \<Rightarrow> 'a bx_cpu_events_scheme" where
  "raise_INTR c = signal_event BX_EVENT_PENDING_INTR c"

definition clear_INTR :: "'a bx_cpu_events_scheme \<Rightarrow> 'a bx_cpu_events_scheme" where
  "clear_INTR c = clear_event BX_EVENT_PENDING_INTR c"

section \<open>The monitored line\<close>

definition arm :: "Bit64u \<Rightarrow> 'a bx_cpu_events_scheme \<Rightarrow> 'a bx_cpu_events_scheme" where
  "arm addr c = c\<lparr>monitor_addr := addr AND NOT (CACHE_LINE_SIZE - 1), armed := True\<rparr>"

definition reset_monitor :: "'a bx_cpu_events_scheme \<Rightarrow> 'a bx_cpu_events_scheme" where
  "reset_monitor c = c\<lparr>armed := False\<rparr>"

definition cpu_is_monitor :: "Bit64u \<Rightarrow> nat \<Rightarrow> 'a bx_cpu_events_scheme \<Rightarrow> bool" where
  "cpu_is_monitor begin_addr len c =
     (if \<not> armed c then False
      else
        let monitor_begin = monitor_addr c; monitor_end = monitor_begin + CACHE_LINE_SIZE - 1;
            end_addr = begin_addr + of_nat len
        in \<not> (begin_addr \<ge> monitor_end \<or> end_addr \<le> monitor_begin))"

definition wakeup_monitor :: "'a bx_cpu_events_scheme \<Rightarrow> 'a bx_cpu_events_scheme" where
  "wakeup_monitor c =
     (let c = (if activity_state c \<ge> BX_ACTIVITY_STATE_MWAIT then c\<lparr>activity_state := BX_ACTIVITY_STATE_ACTIVE\<rparr> else c)
      in reset_monitor c)"

definition cpu_check_monitor :: "Bit64u \<Rightarrow> nat \<Rightarrow> 'a bx_cpu_events_scheme \<Rightarrow> 'a bx_cpu_events_scheme" where
  "cpu_check_monitor begin_addr len c = (if cpu_is_monitor begin_addr len c then wakeup_monitor c else c)"

section \<open>Bit counts\<close>

text \<open>
  The loops of \<open>tzcnt\<close> and \<open>lzcnt\<close>: the mask moves by one until it meets a set bit or has left the word.
  The source repeats them for each width.
\<close>

function lzcnt_loop :: "'a::len word \<Rightarrow> 'a word \<Rightarrow> nat \<Rightarrow> nat" where
  "lzcnt_loop val msk count =
     (if val AND msk = 0 \<and> msk \<noteq> 0 then lzcnt_loop val (drop_bit 1 msk) (count + 1) else count)"
  by auto
termination
proof (relation "measure (\<lambda>(_, m, _). unat m)", simp)
  fix m :: "'a word" and v :: "'a word" and c :: nat
  assume "v AND m = 0 \<and> m \<noteq> 0"
  then have "0 < unat m" by (simp add: unat_gt_0)
  moreover have "unat (drop_bit 1 m) = unat m div 2" by (metis drop_bit_eq_div power_one_right unat_drop_bit_eq)
  ultimately have "unat (drop_bit 1 m) < unat m" by simp
  then show "((v, drop_bit 1 m, c + 1), v, m, c) \<in> measure (\<lambda>(_, m, _). unat m)" by simp
qed

declare lzcnt_loop.simps [simp del]

definition lzcntd :: "Bit32u \<Rightarrow> nat" where
  "lzcntd v = lzcnt_loop v 0x80000000 0"

text \<open>The mask of the loop is a power of two, and the first set bit it meets is the highest.\<close>

lemma drop_pow: "drop_bit (Suc 0) (2 ^ Suc k :: 'a::len word) = 2 ^ k" if "Suc k < LENGTH('a)"
  using that by (intro bit_eqI) (auto simp: bit_drop_bit_eq bit_exp_iff simp del: power_Suc)

lemma and_pow_0: "(w AND 2 ^ k = 0) \<longleftrightarrow> \<not> bit w k" if "k < LENGTH('a)" for w :: "'a::len word"
  using that by (auto simp: and_exp_eq_0_iff_not_bit)

lemma lzcnt_loop_top:
  fixes w :: "'a::len word"
  assumes "\<And>m. bit w m \<Longrightarrow> m \<le> k" and "w \<noteq> 0" and "k < LENGTH('a)"
  shows "\<exists>h. lzcnt_loop w (2 ^ k) c = c + (k - h) \<and> h \<le> k \<and> bit w h \<and> (\<forall>m. bit w m \<longrightarrow> m \<le> h)"
  using assms
proof (induction k arbitrary: c)
  case 0
  then have "bit w 0" by (metis bit_eqI bit_0_eq bot_apply bot_bool_def le_zero_eq)
  then show ?case using 0 by (intro exI [of _ 0]) (simp add: lzcnt_loop.simps and_pow_0 [of 0 w, simplified])
next
  case (Suc k)
  show ?case
  proof (cases "bit w (Suc k)")
    case True
    then show ?thesis using Suc.prems
      by (intro exI [of _ "Suc k"]) (simp add: lzcnt_loop.simps and_pow_0 del: power_Suc)
  next
    case False
    then have "bit w m \<Longrightarrow> m \<le> k" for m using Suc.prems(1) [of m] by (metis le_SucE)
    then obtain h where h: "lzcnt_loop w (2 ^ k) (c + 1) = c + 1 + (k - h)" "h \<le> k" "bit w h"
        "\<forall>m. bit w m \<longrightarrow> m \<le> h"
      using Suc.IH [of "c + 1"] Suc.prems by force
    have "2 ^ Suc k \<noteq> (0 :: 'a word)" using Suc.prems(3) by (simp add: exp_eq_zero_iff del: power_Suc)
    then have "lzcnt_loop w (2 ^ Suc k) c = lzcnt_loop w (2 ^ k) (c + 1)"
      using False Suc.prems(3) by (subst lzcnt_loop.simps) (simp add: and_pow_0 drop_pow del: power_Suc)
    then show ?thesis using h by (intro exI [of _ h]) (simp add: Suc_diff_le)
  qed
qed

lemma lzcntd_top:
  assumes "w \<noteq> 0"
  shows "lzcntd w \<le> 31" "bit w (31 - lzcntd w)" "bit w m \<Longrightarrow> m \<le> 31 - lzcntd w"
proof -
  have b: "m \<le> 31" if "bit w m" for m using bit_imp_le_length [OF that] by simp
  have "\<exists>h. lzcnt_loop w (2 ^ 31) 0 = 0 + (31 - h) \<and> h \<le> 31 \<and> bit w h \<and> (\<forall>m. bit w m \<longrightarrow> m \<le> h)"
    by (rule lzcnt_loop_top) (use assms b in simp_all)
  then obtain h where "lzcntd w = 31 - h" "h \<le> 31" "bit w h" "\<forall>m. bit w m \<longrightarrow> m \<le> h"
    unfolding lzcntd_def by auto
  then show "lzcntd w \<le> 31" "bit w (31 - lzcntd w)" "bit w m \<Longrightarrow> m \<le> 31 - lzcntd w" by auto
qed

section \<open>Facts about events\<close>

lemmas event_defs = is_masked_event_def is_pending_def is_unmasked_event_pending_def unmasked_events_pending_def
  signal_event_def clear_event_def mask_event_def unmask_event_def deliver_SIPI_def deliver_INIT_def
  deliver_NMI_def deliver_SMI_def raise_INTR_def clear_INTR_def Let_def

text \<open>
  The line armed by MONITOR is 64 bytes long, but a write that starts at its last byte is not seen.
\<close>

lemma monitor_misses_last_byte:
  "armed (arm 0x1000 c) \<and> \<not> cpu_is_monitor 0x103f 1 (arm 0x1000 c) \<and> cpu_is_monitor 0x103e 1 (arm 0x1000 c)"
  by (simp add: arm_def cpu_is_monitor_def)

end
