(* ===== verification/Lapic.thy ===== *)
theory Lapic
  imports Cpu_Events Pc_System
begin

text \<open>
  The local APICs and the APIC bus of \<^verbatim>\<open>cpu/apic.cc\<close> and \<^verbatim>\<open>cpu/apic.h\<close>. A local APIC is the record of the class
  together with the events of its CPU. What touches one APIC only is a function on that record; what sets
  timers also takes the PC system; what sends interrupts takes the bus, which holds all of them. An array
  of eight words is a function of the index. A failed \<open>BX_ASSERT\<close> and \<open>BX_PANIC\<close> are counted and the code goes on.
\<close>

unbundle bit_operations_syntax

section \<open>State\<close>

record bx_local_apic_c = bx_cpu_events +
  base_addr :: Bit64u
  mode :: Bit32u
  xapic :: bool
  xapic_ext :: Bit32u
  apic_id :: Bit32u
  apic_version_id :: Bit32u
  software_enabled :: bool
  spurious_vector :: Bit8u
  focus_disable :: bool
  task_priority :: Bit32u
  ldr :: Bit32u
  dest_format :: Bit32u
  isr :: "nat \<Rightarrow> Bit32u"
  tmr :: "nat \<Rightarrow> Bit32u"
  irr :: "nat \<Rightarrow> Bit32u"
  ier :: "nat \<Rightarrow> Bit32u"
  error_status :: Bit32u
  shadow_error_status :: Bit32u
  icr_hi :: Bit32u
  icr_lo :: Bit32u
  lvt :: "nat \<Rightarrow> Bit32u"
  timer_initial :: Bit32u
  timer_current :: Bit32u
  ticksInitial :: Bit64u
  timer_divconf :: Bit32u
  timer_divide_factor :: Bit32u
  timer_active :: bool
  timer_handle :: int
  vmx_timer_handle :: int
  vmx_preemption_timer_value :: Bit32u
  vmx_preemption_timer_initial :: Bit64u
  vmx_preemption_timer_fire :: Bit64u
  vmx_preemption_timer_rate :: Bit32u
  vmx_timer_active :: bool
  mwaitx_timer_handle :: int
  mwaitx_timer_active :: bool
  eoi_log :: "nat list"
  lapic_panics :: nat

abbreviation (input) BX_LAPIC_BASE_ADDR :: Bit64u where "BX_LAPIC_BASE_ADDR \<equiv> 0xfee00000"
abbreviation (input) BX_APIC_GLOBALLY_DISABLED :: Bit32u where "BX_APIC_GLOBALLY_DISABLED \<equiv> 0"
abbreviation (input) BX_APIC_XAPIC_MODE :: Bit32u where "BX_APIC_XAPIC_MODE \<equiv> 2"
abbreviation (input) BX_APIC_X2APIC_MODE :: Bit32u where "BX_APIC_X2APIC_MODE \<equiv> 3"
abbreviation (input) BX_XAPIC_EXT_SUPPORT_IER :: Bit32u where "BX_XAPIC_EXT_SUPPORT_IER \<equiv> 1"
abbreviation (input) BX_XAPIC_EXT_SUPPORT_SEOI :: Bit32u where "BX_XAPIC_EXT_SUPPORT_SEOI \<equiv> 2"
abbreviation (input) BX_LAPIC_FIRST_VECTOR :: Bit8u where "BX_LAPIC_FIRST_VECTOR \<equiv> 0x10"
abbreviation (input) APIC_ERR_ILLEGAL_ADDR :: Bit32u where "APIC_ERR_ILLEGAL_ADDR \<equiv> 0x80"
abbreviation (input) APIC_ERR_RX_ILLEGAL_VEC :: Bit32u where "APIC_ERR_RX_ILLEGAL_VEC \<equiv> 0x40"
abbreviation (input) APIC_ERR_TX_ACCEPT_ERR :: Bit32u where "APIC_ERR_TX_ACCEPT_ERR \<equiv> 0x04"
abbreviation (input) APIC_LVT_TIMER :: nat where "APIC_LVT_TIMER \<equiv> 0"
abbreviation (input) APIC_LVT_CMCI :: nat where "APIC_LVT_CMCI \<equiv> 6"
abbreviation (input) APIC_LVT_ENTRIES :: nat where "APIC_LVT_ENTRIES \<equiv> 7"
abbreviation (input) APIC_DM_FIXED :: Bit8u where "APIC_DM_FIXED \<equiv> 0"
abbreviation (input) APIC_DM_LOWPRI :: Bit8u where "APIC_DM_LOWPRI \<equiv> 1"
abbreviation (input) APIC_DM_SMI :: Bit8u where "APIC_DM_SMI \<equiv> 2"
abbreviation (input) APIC_DM_NMI :: Bit8u where "APIC_DM_NMI \<equiv> 4"
abbreviation (input) APIC_DM_INIT :: Bit8u where "APIC_DM_INIT \<equiv> 5"
abbreviation (input) APIC_DM_SIPI :: Bit8u where "APIC_DM_SIPI \<equiv> 6"
abbreviation (input) APIC_DM_EXTINT :: Bit8u where "APIC_DM_EXTINT \<equiv> 7"

text \<open>The handlers that a local APIC registers with the timers.\<close>

abbreviation (input) periodic_smf :: bx_timer_handler_t where "periodic_smf \<equiv> deviceTimer 10"
abbreviation (input) vmx_preemption_smf :: bx_timer_handler_t where "vmx_preemption_smf \<equiv> deviceTimer 11"
abbreviation (input) mwaitx_smf :: bx_timer_handler_t where "mwaitx_smf \<equiv> deviceTimer 12"

definition panic_lapic :: "bx_local_apic_c \<Rightarrow> bx_local_apic_c" where
  "panic_lapic l = l\<lparr>lapic_panics := lapic_panics l + 1\<rparr>"

section \<open>Vectors\<close>

definition lapic_get_vector :: "(nat \<Rightarrow> Bit32u) \<Rightarrow> nat \<Rightarrow> bool" where
  "lapic_get_vector reg v \<longleftrightarrow> drop_bit (v mod 32) (reg (v div 32)) AND 1 \<noteq> 0"

definition lapic_set_vector :: "(nat \<Rightarrow> Bit32u) \<Rightarrow> nat \<Rightarrow> (nat \<Rightarrow> Bit32u)" where
  "lapic_set_vector reg v = reg(v div 32 := reg (v div 32) OR push_bit (v mod 32) 1)"

definition lapic_clear_vector :: "(nat \<Rightarrow> Bit32u) \<Rightarrow> nat \<Rightarrow> (nat \<Rightarrow> Bit32u)" where
  "lapic_clear_vector reg v = reg(v div 32 := reg (v div 32) AND NOT (push_bit (v mod 32) 1))"

text \<open>The loop from register 7 down to 0; \<open>-1\<close> when no enabled vector is set.\<close>

fun highest_from :: "(nat \<Rightarrow> Bit32u) \<Rightarrow> (nat \<Rightarrow> Bit32u) \<Rightarrow> nat \<Rightarrow> int" where
  "highest_from array e 0 = -1"
| "highest_from array e (Suc reg) =
     (let tmp = array reg AND e reg
      in if tmp \<noteq> 0 then int (reg * 32 + (31 - lzcntd tmp)) else highest_from array e reg)"

definition highest_priority_int :: "(nat \<Rightarrow> Bit32u) \<Rightarrow> bx_local_apic_c \<Rightarrow> int" where
  "highest_priority_int array l = highest_from array (ier l) 8"

section \<open>Requests and service\<close>

definition service_local_apic :: "bx_local_apic_c \<Rightarrow> bx_local_apic_c" where
  "service_local_apic l =
     (if is_pending BX_EVENT_PENDING_LAPIC_INTR l then l
      else
        let first_irr = highest_priority_int (irr l) l
        in if first_irr < 0 then l
           else
             let first_isr = highest_priority_int (isr l) l
             in if first_isr \<ge> 0 \<and> first_irr \<le> first_isr then l
                else if (word_of_int first_irr :: Bit32u) AND 0xf0 \<le> task_priority l AND 0xf0 then l
                else signal_event BX_EVENT_PENDING_LAPIC_INTR l)"

definition trigger_irq :: "Bit8u \<Rightarrow> bool \<Rightarrow> bool \<Rightarrow> bx_local_apic_c \<Rightarrow> bx_local_apic_c" where
  "trigger_irq v trigger_mode bypass_irr_isr l =
     (if v < BX_LAPIC_FIRST_VECTOR then l\<lparr>shadow_error_status := shadow_error_status l OR APIC_ERR_RX_ILLEGAL_VEC\<rparr>
      else if \<not> bypass_irr_isr \<and> lapic_get_vector (irr l) (unat v) then l
      else
        let l = l\<lparr>irr := lapic_set_vector (irr l) (unat v)\<rparr>;
            l = (if trigger_mode then l\<lparr>tmr := lapic_set_vector (tmr l) (unat v)\<rparr>
                 else l\<lparr>tmr := lapic_clear_vector (tmr l) (unat v)\<rparr>)
        in service_local_apic l)"

definition untrigger_irq :: "Bit8u \<Rightarrow> bool \<Rightarrow> bx_local_apic_c \<Rightarrow> bx_local_apic_c" where
  "untrigger_irq v trigger_mode l =
     (let l = (if lapic_get_vector (irr l) (unat v) then l else panic_lapic l)
      in l\<lparr>irr := lapic_clear_vector (irr l) (unat v)\<rparr>)"

definition get_ppr :: "bx_local_apic_c \<Rightarrow> Bit8u" where
  "get_ppr l =
     (let ppr = highest_priority_int (isr l) l
      in if ppr < 0 \<or> task_priority l AND 0xF0 \<ge> (word_of_int ppr :: Bit32u) AND 0xF0
         then ucast (task_priority l) else word_of_int ppr AND 0xF0)"

definition get_tpr :: "bx_local_apic_c \<Rightarrow> Bit8u" where
  "get_tpr l = ucast (task_priority l)"

definition set_tpr :: "Bit8u \<Rightarrow> bx_local_apic_c \<Rightarrow> bx_local_apic_c" where
  "set_tpr priority l =
     (if ucast priority < task_priority l then service_local_apic (l\<lparr>task_priority := ucast priority\<rparr>)
      else l\<lparr>task_priority := ucast priority\<rparr>)"

definition get_apr :: "bx_local_apic_c \<Rightarrow> Bit8u" where
  "get_apr l =
     (let tpr = drop_bit 4 (task_priority l) AND 0xf;
          first_isr = highest_priority_int (isr l) l; first_isr = (if first_isr < 0 then 0 else first_isr);
          first_irr = highest_priority_int (irr l) l; first_irr = (if first_irr < 0 then 0 else first_irr);
          isrv = drop_bit 4 (word_of_int first_isr :: Bit32u) AND 0xf;
          irrv = drop_bit 4 (word_of_int first_irr :: Bit32u) AND 0xf
      in if tpr \<ge> irrv \<and> tpr > isrv then ucast (task_priority l AND 0xff)
         else push_bit 4 (ucast (if tpr AND isrv > irrv then tpr AND isrv else irrv)))"

definition acknowledge_int :: "bx_local_apic_c \<Rightarrow> Bit8u \<times> bx_local_apic_c" where
  "acknowledge_int l =
     (let l = (if \<not> is_pending BX_EVENT_PENDING_LAPIC_INTR l then panic_lapic l else l);
          v = highest_priority_int (irr l) l
      in if v < 0 \<or> uint ((word_of_int v :: Bit32u) AND 0xf0) \<le> uint (get_ppr l)
         then (spurious_vector l, clear_event BX_EVENT_PENDING_LAPIC_INTR l)
         else
           let l = (if lapic_get_vector (irr l) (nat v) then l else panic_lapic l);
               l = l\<lparr>irr := lapic_clear_vector (irr l) (nat v)\<rparr>;
               l = l\<lparr>isr := lapic_set_vector (isr l) (nat v)\<rparr>;
               l = clear_event BX_EVENT_PENDING_LAPIC_INTR l
           in (word_of_int v, service_local_apic l))"

text \<open>\<open>apic_bus_broadcast_eoi\<close>: the message to the I/O APIC.\<close>

definition apic_bus_broadcast_eoi :: "nat \<Rightarrow> bx_local_apic_c \<Rightarrow> bx_local_apic_c" where
  "apic_bus_broadcast_eoi v l = l\<lparr>eoi_log := v # eoi_log l\<rparr>"

definition retire_vector :: "nat \<Rightarrow> bx_local_apic_c \<Rightarrow> bx_local_apic_c" where
  "retire_vector v l =
     (let l = l\<lparr>isr := lapic_clear_vector (isr l) v\<rparr>;
          l = (if lapic_get_vector (tmr l) v
               then let l = apic_bus_broadcast_eoi v l in l\<lparr>tmr := lapic_clear_vector (tmr l) v\<rparr>
               else l)
      in service_local_apic l)"

definition receive_EOI :: "Bit32u \<Rightarrow> bx_local_apic_c \<Rightarrow> bx_local_apic_c" where
  "receive_EOI val l =
     (let vec = highest_priority_int (isr l) l
      in if vec < 0 then l
         else if (word_of_int vec :: Bit32u) \<noteq> ucast (spurious_vector l) then retire_vector (nat vec) l
         else l)"

definition receive_SEOI :: "Bit8u \<Rightarrow> bx_local_apic_c \<Rightarrow> bx_local_apic_c" where
  "receive_SEOI vec l =
     (if xapic_ext l AND BX_XAPIC_EXT_SUPPORT_SEOI = 0 then l
      else if lapic_get_vector (isr l) (unat vec) then retire_vector (unat vec) l
      else l)"

section \<open>Delivery and destinations\<close>

definition startup_msg :: "Bit8u \<Rightarrow> bx_local_apic_c \<Rightarrow> bx_local_apic_c" where
  "startup_msg v l = deliver_SIPI v l"

definition deliver :: "Bit8u \<Rightarrow> Bit8u \<Rightarrow> bool \<Rightarrow> bx_local_apic_c \<Rightarrow> bool \<times> bx_local_apic_c" where
  "deliver v delivery_mode trig_mode l =
     (if delivery_mode = APIC_DM_FIXED \<or> delivery_mode = APIC_DM_LOWPRI then (True, trigger_irq v trig_mode False l)
      else if delivery_mode = APIC_DM_SMI then (True, deliver_SMI l)
      else if delivery_mode = APIC_DM_NMI then (True, deliver_NMI l)
      else if delivery_mode = APIC_DM_INIT then (True, deliver_INIT l)
      else if delivery_mode = APIC_DM_SIPI then (True, startup_msg v l)
      else if delivery_mode = APIC_DM_EXTINT then (True, trigger_irq v trig_mode True l)
      else (False, l))"

definition match_logical_addr :: "Bit32u \<Rightarrow> bx_local_apic_c \<Rightarrow> bool \<times> bx_local_apic_c" where
  "match_logical_addr address l =
     (if mode l = BX_APIC_X2APIC_MODE then
        if address = 0xffffffff then (True, l)
        else if address AND 0xffff0000 = ldr l AND 0xffff0000 then (address AND ldr l AND 0x0000ffff \<noteq> 0, l)
        else (False, l)
      else if dest_format l = 0xf then (address AND ldr l \<noteq> 0, l)
      else if dest_format l = 0 then
        if address = 0xff then (True, l)
        else if address AND 0xf0 = ldr l AND 0xf0 then (address AND ldr l AND 0x0f \<noteq> 0, l)
        else (False, l)
      else (False, panic_lapic l))"

definition is_focus :: "Bit8u \<Rightarrow> bx_local_apic_c \<Rightarrow> bool" where
  "is_focus v l =
     (if focus_disable l then False
      else lapic_get_vector (irr l) (unat v) \<or> lapic_get_vector (isr l) (unat v))"

definition is_selected :: "Bit64u \<Rightarrow> bx_local_apic_c \<Rightarrow> bool" where
  "is_selected addr l = (if mode l \<noteq> BX_APIC_XAPIC_MODE then False else addr AND NOT 0xfff = base_addr l)"

section \<open>The bus\<close>

record apic_bus =
  bx_cpu_count :: nat
  apic_id_mask :: Bit32u
  cpus :: "nat \<Rightarrow> bx_local_apic_c"

definition upd_cpu :: "nat \<Rightarrow> (bx_local_apic_c \<Rightarrow> bx_local_apic_c) \<Rightarrow> 'a apic_bus_scheme \<Rightarrow> 'a apic_bus_scheme" where
  "upd_cpu i f b = b\<lparr>cpus := (cpus b)(i := f (cpus b i))\<rparr>"

text \<open>One iteration of the search for the agent with the lowest priority.\<close>

definition arbitrate :: "Bit32u \<Rightarrow> bool \<Rightarrow> nat \<Rightarrow> (nat option \<times> nat) \<times> 'a apic_bus_scheme \<Rightarrow> (nat option \<times> nat) \<times> 'a apic_bus_scheme" where
  "arbitrate dest broadcast i = (\<lambda>((agent, lowest_priority), b).
     let (sel, l) = (if broadcast then (True, cpus b i) else match_logical_addr dest (cpus b i));
         b = upd_cpu i (\<lambda>_. l) b
     in if sel then
          let priority = unat (if xapic l then get_tpr l else get_apr l)
          in if priority < lowest_priority then ((Some i, priority), b) else ((agent, lowest_priority), b)
        else ((agent, lowest_priority), b))"

definition apic_bus_deliver_lowest_priority ::
    "Bit8u \<Rightarrow> Bit32u \<Rightarrow> bool \<Rightarrow> bool \<Rightarrow> 'a apic_bus_scheme \<Rightarrow> bool \<times> 'a apic_bus_scheme" where
  "apic_bus_deliver_lowest_priority v dest trig_mode broadcast b =
     (case (if \<not> xapic (cpus b 0) then find (\<lambda>i. is_focus v (cpus b i)) [0..<bx_cpu_count b] else None) of
        Some i \<Rightarrow> (True, upd_cpu i (\<lambda>l. snd (deliver v APIC_DM_LOWPRI trig_mode l)) b)
      | None \<Rightarrow>
          let ((agent, lowest_priority), b) = fold (arbitrate dest broadcast) [0..<bx_cpu_count b] ((None, 0x100), b)
          in case agent of
               Some i \<Rightarrow> (True, upd_cpu i (\<lambda>l. snd (deliver v APIC_DM_LOWPRI trig_mode l)) b)
             | None \<Rightarrow> (False, b))"

definition apic_bus_broadcast_interrupt ::
    "Bit8u \<Rightarrow> Bit8u \<Rightarrow> bool \<Rightarrow> Bit32u \<Rightarrow> 'a apic_bus_scheme \<Rightarrow> bool \<times> 'a apic_bus_scheme" where
  "apic_bus_broadcast_interrupt v delivery_mode trig_mode exclude_cpu b =
     (if delivery_mode = APIC_DM_LOWPRI then apic_bus_deliver_lowest_priority v 0 trig_mode True b
      else (True, fold (\<lambda>i b. if i = unat exclude_cpu then b
                              else upd_cpu i (\<lambda>l. snd (deliver v delivery_mode trig_mode l)) b) [0..<bx_cpu_count b] b))"

definition deliver_logical :: "Bit8u \<Rightarrow> Bit32u \<Rightarrow> Bit8u \<Rightarrow> bool \<Rightarrow> nat \<Rightarrow> bool \<times> 'a apic_bus_scheme \<Rightarrow> bool \<times> 'a apic_bus_scheme" where
  "deliver_logical v dest delivery_mode trig_mode i = (\<lambda>(interrupt_delivered, b).
     let (sel, l) = match_logical_addr dest (cpus b i)
     in if sel then (True, upd_cpu i (\<lambda>_. snd (deliver v delivery_mode trig_mode l)) b)
        else (interrupt_delivered, upd_cpu i (\<lambda>_. l) b))"

definition apic_bus_deliver_interrupt ::
    "Bit8u \<Rightarrow> Bit32u \<Rightarrow> Bit8u \<Rightarrow> bool \<Rightarrow> bool \<Rightarrow> bool \<Rightarrow> 'a apic_bus_scheme \<Rightarrow> bool \<times> 'a apic_bus_scheme" where
  "apic_bus_deliver_interrupt v dest delivery_mode logical_dest level trig_mode b =
     (if delivery_mode = APIC_DM_LOWPRI then
        if \<not> logical_dest then (False, b) else apic_bus_deliver_lowest_priority v dest trig_mode False b
      else if \<not> logical_dest then
        if dest AND apic_id_mask b = apic_id_mask b
        then apic_bus_broadcast_interrupt v delivery_mode trig_mode (apic_id_mask b) b
        else case find (\<lambda>i. apic_id (cpus b i) = dest) [0..<bx_cpu_count b] of
               Some i \<Rightarrow> (True, upd_cpu i (\<lambda>l. snd (deliver v delivery_mode trig_mode l)) b)
             | None \<Rightarrow> (False, b)
      else if dest = 0 then (False, b)
      else fold (deliver_logical v dest delivery_mode trig_mode) [0..<bx_cpu_count b] (False, b))"

definition apic_bus_deliver_smi :: "'a apic_bus_scheme \<Rightarrow> 'a apic_bus_scheme" where
  "apic_bus_deliver_smi b = upd_cpu 0 deliver_SMI b"

definition apic_bus_broadcast_smi :: "'a apic_bus_scheme \<Rightarrow> 'a apic_bus_scheme" where
  "apic_bus_broadcast_smi b = fold (\<lambda>i. upd_cpu i deliver_SMI) [0..<bx_cpu_count b] b"

definition send_ipi :: "nat \<Rightarrow> Bit32u \<Rightarrow> Bit32u \<Rightarrow> 'a apic_bus_scheme \<Rightarrow> 'a apic_bus_scheme" where
  "send_ipi self dest lo_cmd b =
     (let dest_shorthand = drop_bit 18 lo_cmd AND 3;
          trig_mode = drop_bit 15 lo_cmd AND 1 \<noteq> 0;
          level = drop_bit 14 lo_cmd AND 1 \<noteq> 0;
          logical_dest = drop_bit 11 lo_cmd AND 1 \<noteq> 0;
          delivery_mode = ucast (drop_bit 8 lo_cmd AND 7) :: Bit8u;
          v = ucast (lo_cmd AND 0xff) :: Bit8u
      in if delivery_mode = APIC_DM_INIT \<and> \<not> level \<and> trig_mode then b
         else
           let (accepted, b) =
                 (if dest_shorthand = 0 then apic_bus_deliver_interrupt v dest delivery_mode logical_dest level trig_mode b
                  else if dest_shorthand = 1 then (True, upd_cpu self (trigger_irq v trig_mode False) b)
                  else if dest_shorthand = 2 then apic_bus_broadcast_interrupt v delivery_mode trig_mode (apic_id_mask b) b
                  else apic_bus_broadcast_interrupt v delivery_mode trig_mode (apic_id (cpus b self)) b)
           in if \<not> accepted
              then upd_cpu self (\<lambda>l. l\<lparr>shadow_error_status := shadow_error_status l OR APIC_ERR_TX_ACCEPT_ERR\<rparr>) b
              else b)"

section \<open>Timers\<close>

definition stop_timer :: "bx_local_apic_c \<times> 'a bx_pc_system_c_scheme \<Rightarrow> bx_local_apic_c \<times> 'a bx_pc_system_c_scheme" where
  "stop_timer = (\<lambda>(l, s).
     if timer_active l then (l\<lparr>timer_active := False\<rparr>, deactivate_timer (nat (timer_handle l)) s) else (l, s))"

text \<open>Starting the count: \<open>timer_current\<close>, \<open>timer_active\<close>, \<open>ticksInitial\<close> and the timer of the PC system.\<close>

definition start_count :: "bx_local_apic_c \<times> 'a bx_pc_system_c_scheme \<Rightarrow> bx_local_apic_c \<times> 'a bx_pc_system_c_scheme" where
  "start_count = (\<lambda>(l, s).
     (l\<lparr>timer_current := timer_initial l, timer_active := True, ticksInitial := time_ticks s\<rparr>,
      activate_timer_ticks (nat (timer_handle l)) (ucast (timer_initial l) * ucast (timer_divide_factor l)) False s))"

definition lapic_periodic :: "bx_local_apic_c \<times> 'a bx_pc_system_c_scheme \<Rightarrow> bx_local_apic_c \<times> 'a bx_pc_system_c_scheme" where
  "lapic_periodic = (\<lambda>(l, s).
     if \<not> timer_active l then (l, s)
     else
       let timervec = lvt l APIC_LVT_TIMER;
           l = (if timervec AND 0x10000 = 0 then trigger_irq (ucast (timervec AND 0xff)) False False l else l)
       in if timervec AND 0x20000 \<noteq> 0 then start_count (l, s)
          else (l\<lparr>timer_current := 0, timer_active := False\<rparr>, deactivate_timer (nat (timer_handle l)) s))"

definition set_divide_configuration :: "Bit32u \<Rightarrow> bx_local_apic_c \<Rightarrow> bx_local_apic_c" where
  "set_divide_configuration val l =
     (let l = (if val = val AND 0x0b then l else panic_lapic l);
          val = drop_bit 1 (val AND 8) OR (val AND 3);
          l = (if val \<le> 7 then l else panic_lapic l)
      in l\<lparr>timer_divide_factor := (if val = 7 then 1 else push_bit (unat val) 2)\<rparr>)"

definition set_initial_timer_count :: "Bit32u \<Rightarrow> bx_local_apic_c \<times> 'a bx_pc_system_c_scheme \<Rightarrow> bx_local_apic_c \<times> 'a bx_pc_system_c_scheme" where
  "set_initial_timer_count val = (\<lambda>(l, s).
     if lvt l APIC_LVT_TIMER AND 0x40000 \<noteq> 0 then (l, s)
     else
       let (l, s) = stop_timer (l, s);
           l = l\<lparr>timer_initial := val, timer_current := 0\<rparr>
       in if timer_initial l \<noteq> 0 then start_count (l, s) else (l, s))"

definition get_current_timer_count :: "bx_local_apic_c \<Rightarrow> 'a bx_pc_system_c_scheme \<Rightarrow> Bit32u \<times> bx_local_apic_c" where
  "get_current_timer_count l s =
     (if lvt l APIC_LVT_TIMER AND 0x40000 \<noteq> 0 then (0, l)
      else if \<not> timer_active l then (timer_current l, l)
      else
        let delta64 = (time_ticks s - ticksInitial l) div ucast (timer_divide_factor l);
            delta32 = ucast delta64 :: Bit32u;
            l = (if delta32 > timer_initial l then panic_lapic l else l);
            l = l\<lparr>timer_current := timer_initial l - delta32\<rparr>
        in (timer_current l, l))"

definition set_tsc_deadline :: "Bit64u \<Rightarrow> bx_local_apic_c \<times> 'a bx_pc_system_c_scheme \<Rightarrow> bx_local_apic_c \<times> 'a bx_pc_system_c_scheme" where
  "set_tsc_deadline deadline = (\<lambda>(l, s).
     if lvt l APIC_LVT_TIMER AND 0x40000 = 0 then (l, s)
     else
       let (l, s) = stop_timer (l, s);
           l = l\<lparr>ticksInitial := deadline\<rparr>
       in if deadline \<noteq> 0 then
            let currtime = time_ticks s
            in (l\<lparr>timer_active := True\<rparr>,
                activate_timer_ticks (nat (timer_handle l)) (if deadline > currtime then deadline - currtime else 1) False s)
          else (l, s))"

definition get_tsc_deadline :: "bx_local_apic_c \<Rightarrow> Bit64u" where
  "get_tsc_deadline l = (if lvt l APIC_LVT_TIMER AND 0x40000 = 0 then 0 else ticksInitial l)"

definition read_vmx_preemption_timer :: "bx_local_apic_c \<Rightarrow> 'a bx_pc_system_c_scheme \<Rightarrow> Bit32u" where
  "read_vmx_preemption_timer l s =
     (let rate = unat (vmx_preemption_timer_rate l);
          diff = drop_bit rate (time_ticks s) - drop_bit rate (vmx_preemption_timer_initial l)
      in if ucast (vmx_preemption_timer_value l) < diff then 0
         else ucast (ucast (vmx_preemption_timer_value l) - diff))"

definition set_vmx_preemption_timer :: "Bit32u \<Rightarrow> bx_local_apic_c \<times> 'a bx_pc_system_c_scheme \<Rightarrow> bx_local_apic_c \<times> 'a bx_pc_system_c_scheme" where
  "set_vmx_preemption_timer val = (\<lambda>(l, s).
     let rate = unat (vmx_preemption_timer_rate l);
         l = l\<lparr>vmx_preemption_timer_value := val, vmx_preemption_timer_initial := time_ticks s\<rparr>;
         l = l\<lparr>vmx_preemption_timer_fire := push_bit rate (drop_bit rate (vmx_preemption_timer_initial l) + ucast val)\<rparr>
     in (l\<lparr>vmx_timer_active := True\<rparr>,
         activate_timer_ticks (nat (vmx_timer_handle l)) (vmx_preemption_timer_fire l - vmx_preemption_timer_initial l) False s))"

definition deactivate_vmx_preemption_timer :: "bx_local_apic_c \<times> 'a bx_pc_system_c_scheme \<Rightarrow> bx_local_apic_c \<times> 'a bx_pc_system_c_scheme" where
  "deactivate_vmx_preemption_timer = (\<lambda>(l, s).
     if \<not> vmx_timer_active l then (l, s)
     else (l\<lparr>vmx_timer_active := False\<rparr>, deactivate_timer (nat (vmx_timer_handle l)) s))"

definition vmx_preemption_timer_expired :: "bx_local_apic_c \<times> 'a bx_pc_system_c_scheme \<Rightarrow> bx_local_apic_c \<times> 'a bx_pc_system_c_scheme" where
  "vmx_preemption_timer_expired = (\<lambda>(l, s).
     deactivate_vmx_preemption_timer (signal_event BX_EVENT_VMX_PREEMPTION_TIMER_EXPIRED l, s))"

text \<open>The first argument of the activation is the flag, as in the source, and not the handle.\<close>

definition set_mwaitx_timer :: "Bit32u \<Rightarrow> bx_local_apic_c \<times> 'a bx_pc_system_c_scheme \<Rightarrow> bx_local_apic_c \<times> 'a bx_pc_system_c_scheme" where
  "set_mwaitx_timer val = (\<lambda>(l, s).
     (l\<lparr>mwaitx_timer_active := True\<rparr>, activate_timer_ticks (of_bool (mwaitx_timer_active l)) (ucast val) False s))"

definition deactivate_mwaitx_timer :: "bx_local_apic_c \<times> 'a bx_pc_system_c_scheme \<Rightarrow> bx_local_apic_c \<times> 'a bx_pc_system_c_scheme" where
  "deactivate_mwaitx_timer = (\<lambda>(l, s).
     if \<not> mwaitx_timer_active l then (l, s)
     else (l\<lparr>mwaitx_timer_active := False\<rparr>, deactivate_timer (nat (mwaitx_timer_handle l)) s))"

definition mwaitx_timer_expired :: "bx_local_apic_c \<times> 'a bx_pc_system_c_scheme \<Rightarrow> bx_local_apic_c \<times> 'a bx_pc_system_c_scheme" where
  "mwaitx_timer_expired = (\<lambda>(l, s). deactivate_mwaitx_timer (wakeup_monitor l, s))"

section \<open>Reset and the base address\<close>

definition write_spurious_interrupt_register :: "Bit32u \<Rightarrow> bx_local_apic_c \<Rightarrow> bx_local_apic_c" where
  "write_spurious_interrupt_register val l =
     (let l = (if xapic l then l\<lparr>spurious_vector := ucast (val AND 0xff)\<rparr>
               else l\<lparr>spurious_vector := ucast ((val AND 0xf0) OR 0xf)\<rparr>);
          l = l\<lparr>software_enabled := drop_bit 8 val AND 1 \<noteq> 0\<rparr>;
          l = l\<lparr>focus_disable := drop_bit 9 val AND 1 \<noteq> 0\<rparr>
      in if \<not> software_enabled l
         then l\<lparr>lvt := (\<lambda>i. if i < APIC_LVT_ENTRIES then lvt l i OR 0x10000 else lvt l i)\<rparr> else l)"

definition reset_timers :: "bx_local_apic_c \<times> 'a bx_pc_system_c_scheme \<Rightarrow> bx_local_apic_c \<times> 'a bx_pc_system_c_scheme" where
  "reset_timers x = deactivate_mwaitx_timer (deactivate_vmx_preemption_timer (stop_timer x))"

definition lapic_reset :: "bx_local_apic_c \<times> 'a bx_pc_system_c_scheme \<Rightarrow> bx_local_apic_c \<times> 'a bx_pc_system_c_scheme" where
  "lapic_reset = (\<lambda>(l, s).
     let l = l\<lparr>base_addr := BX_LAPIC_BASE_ADDR, error_status := 0, shadow_error_status := 0, ldr := 0, dest_format := 0xf,
               icr_hi := 0, icr_lo := 0, task_priority := 0\<rparr>;
         l = l\<lparr>irr := (\<lambda>i. if i < 8 then 0 else irr l i), isr := (\<lambda>i. if i < 8 then 0 else isr l i),
               tmr := (\<lambda>i. if i < 8 then 0 else tmr l i), ier := (\<lambda>i. if i < 8 then 0xFFFFFFFF else ier l i)\<rparr>;
         l = l\<lparr>timer_divconf := 0, timer_divide_factor := 1, timer_initial := 0, timer_current := 0, ticksInitial := 0\<rparr>;
         (l, s) = reset_timers (l, s);
         l = l\<lparr>lvt := (\<lambda>i. if i < APIC_LVT_ENTRIES then 0x10000 else lvt l i)\<rparr>;
         l = l\<lparr>spurious_vector := 0xff, software_enabled := False, focus_disable := False, mode := BX_APIC_XAPIC_MODE,
               apic_version_id := (if xapic l then 0x00050014 else 0x00030010), xapic_ext := 0\<rparr>
     in (l, s))"

definition enable_xapic_extensions :: "bx_local_apic_c \<Rightarrow> bx_local_apic_c" where
  "enable_xapic_extensions l =
     l\<lparr>apic_version_id := apic_version_id l OR 0x80000000,
       xapic_ext := BX_XAPIC_EXT_SUPPORT_IER OR BX_XAPIC_EXT_SUPPORT_SEOI\<rparr>"

text \<open>The constructor; \<open>simulate_xapic\<close> and the number of CPUs come from the configuration.\<close>

definition lapic_new :: "nat \<Rightarrow> bool \<Rightarrow> Bit32u \<Rightarrow> bx_local_apic_c \<times> 'a bx_pc_system_c_scheme \<Rightarrow> bx_local_apic_c \<times> 'a bx_pc_system_c_scheme" where
  "lapic_new cpu_count simulate_xapic ident = (\<lambda>(l, s).
     let l = l\<lparr>base_addr := BX_LAPIC_BASE_ADDR, apic_id := ident\<rparr>;
         l = (if unat ident \<ge> cpu_count then panic_lapic l else l);
         (h, s) = register_timer_ticks (unat ident) (Some periodic_smf) 0 False False ''lapic'' s;
         l = l\<lparr>timer_handle := h, timer_active := False\<rparr>;
         (h, s) = register_timer_ticks (unat ident) (Some vmx_preemption_smf) 0 False False ''vmx_preemption'' s;
         l = l\<lparr>vmx_timer_handle := h, vmx_preemption_timer_rate := 0, vmx_timer_active := False\<rparr>;
         (h, s) = register_timer_ticks (unat ident) (Some mwaitx_smf) 0 False False ''mwaitx_timer'' s;
         l = l\<lparr>mwaitx_timer_handle := h, mwaitx_timer_active := False, xapic := simulate_xapic\<rparr>
     in lapic_reset (l, s))"

definition set_base :: "Bit64u \<Rightarrow> bx_local_apic_c \<Rightarrow> bx_local_apic_c" where
  "set_base newbase l =
     (let l = (if mode l = BX_APIC_X2APIC_MODE
               then l\<lparr>ldr := push_bit 16 (apic_id l AND 0xfffffff0) OR push_bit (unat (apic_id l AND 0xf)) 1\<rparr> else l);
          l = l\<lparr>mode := ucast (drop_bit 10 newbase AND 3)\<rparr>;
          l = l\<lparr>base_addr := newbase AND NOT 0xfff\<rparr>
      in if mode l = BX_APIC_GLOBALLY_DISABLED then write_spurious_interrupt_register 0xff l else l)"

section \<open>Registers\<close>

text \<open>The registers of a switch that stand in a row, at a distance of 16.\<close>

definition regs_from :: "Bit32u \<Rightarrow> nat \<Rightarrow> Bit32u \<Rightarrow> bool" where
  "regs_from first n reg \<longleftrightarrow> reg \<in> set (map (\<lambda>k. first + 16 * of_nat k) [0..<n])"

definition reg_index :: "Bit32u \<Rightarrow> Bit32u \<Rightarrow> nat" where
  "reg_index first reg = unat (drop_bit 4 (reg - first))"

definition lapic_register :: "Bit64u \<Rightarrow> bx_local_apic_c \<Rightarrow> Bit32u" where
  "lapic_register addr l =
     (let apic_reg = ucast (addr AND 0xff0)
      in if apic_reg \<ge> 0x400 \<and> \<not> xapic_ext_supported l then 0xffffffff else apic_reg)"

definition illegal_address :: "bx_local_apic_c \<Rightarrow> bx_local_apic_c" where
  "illegal_address l = l\<lparr>shadow_error_status := shadow_error_status l OR APIC_ERR_ILLEGAL_ADDR\<rparr>"

text \<open>The mask of an APIC identifier is a global variable, a field of the bus here.\<close>

definition lapic_read_aligned :: "Bit32u \<Rightarrow> Bit64u \<Rightarrow> bx_local_apic_c \<Rightarrow> 'a bx_pc_system_c_scheme \<Rightarrow> Bit32u \<times> bx_local_apic_c" where
  "lapic_read_aligned id_mask addr l s =
     (let l = (if addr AND 0xf = 0 then l else panic_lapic l);
          apic_reg = lapic_register addr l
      in if apic_reg = 0x020 then (push_bit 24 (apic_id l), l)
         else if apic_reg = 0x030 then (apic_version_id l, l)
         else if apic_reg = 0x080 then (task_priority l AND 0xff, l)
         else if apic_reg = 0x090 then (ucast (get_apr l), l)
         else if apic_reg = 0x0A0 then (ucast (get_ppr l), l)
         else if apic_reg = 0x0B0 then (0, l)
         else if apic_reg = 0x0D0 then (push_bit 24 (ldr l AND id_mask), l)
         else if apic_reg = 0x0E0 then (push_bit 28 (dest_format l AND 0xf) OR 0x0fffffff, l)
         else if apic_reg = 0x0F0 then
           (let reg = ucast (spurious_vector l) :: Bit32u;
                reg = (if software_enabled l then reg OR 0x100 else reg);
                reg = (if focus_disable l then reg OR 0x200 else reg)
            in (reg, l))
         else if regs_from 0x100 8 apic_reg then (isr l (reg_index 0x100 apic_reg), l)
         else if regs_from 0x180 8 apic_reg then (tmr l (reg_index 0x180 apic_reg), l)
         else if regs_from 0x200 8 apic_reg then (irr l (reg_index 0x200 apic_reg), l)
         else if apic_reg = 0x280 then (error_status l, l)
         else if apic_reg = 0x300 then (icr_lo l, l)
         else if apic_reg = 0x310 then (icr_hi l, l)
         else if regs_from 0x320 6 apic_reg then (lvt l (reg_index 0x320 apic_reg), l)
         else if apic_reg = 0x2F0 then (lvt l APIC_LVT_CMCI, l)
         else if apic_reg = 0x380 then (timer_initial l, l)
         else if apic_reg = 0x390 then get_current_timer_count l s
         else if apic_reg = 0x3E0 then (timer_divconf l, l)
         else if apic_reg = 0x400 then (BX_XAPIC_EXT_SUPPORT_IER OR BX_XAPIC_EXT_SUPPORT_SEOI, l)
         else if apic_reg = 0x410 then (xapic_ext l, l)
         else if apic_reg = 0x420 then (0, l)
         else if regs_from 0x480 8 apic_reg then (ier l (reg_index 0x480 apic_reg), l)
         else (0, illegal_address l))"

definition lvt_mask :: "Bit32u list" where
  "lvt_mask = [0x000710ff, 0x000117ff, 0x000117ff, 0x0001f7ff, 0x0001f7ff, 0x000110ff, 0x000117ff]"

definition set_lvt_entry :: "Bit32u \<Rightarrow> Bit32u \<Rightarrow> bx_local_apic_c \<times> 'a bx_pc_system_c_scheme \<Rightarrow> bx_local_apic_c \<times> 'a bx_pc_system_c_scheme" where
  "set_lvt_entry apic_reg val = (\<lambda>(l, s).
     let lvt_entry = (if apic_reg = 0x2F0 then APIC_LVT_CMCI else reg_index 0x320 apic_reg);
         (val, l, s) =
           (if apic_reg = 0x320 then
              if \<not> tsc_deadline_supported l then (val AND NOT 0x40000, l, s)
              else if (val XOR lvt l lvt_entry) AND 0x40000 \<noteq> 0 then (val, stop_timer (l, s))
              else (val, l, s)
            else (val, l, s));
         l = l\<lparr>lvt := (lvt l)(lvt_entry := val AND lvt_mask ! lvt_entry)\<rparr>
     in if \<not> software_enabled l then (l\<lparr>lvt := (lvt l)(lvt_entry := lvt l lvt_entry OR 0x10000)\<rparr>, s) else (l, s))"

text \<open>A handler of one local APIC, run on the bus.\<close>

definition on_cpu :: "nat \<Rightarrow> (bx_local_apic_c \<times> 'a bx_pc_system_c_scheme \<Rightarrow> bx_local_apic_c \<times> 'a bx_pc_system_c_scheme) \<Rightarrow>
    'b apic_bus_scheme \<times> 'a bx_pc_system_c_scheme \<Rightarrow> 'b apic_bus_scheme \<times> 'a bx_pc_system_c_scheme" where
  "on_cpu i f = (\<lambda>(b, s). let (l, s) = f (cpus b i, s) in (upd_cpu i (\<lambda>_. l) b, s))"

definition on_lapic :: "nat \<Rightarrow> (bx_local_apic_c \<Rightarrow> bx_local_apic_c) \<Rightarrow>
    'b apic_bus_scheme \<times> 'a bx_pc_system_c_scheme \<Rightarrow> 'b apic_bus_scheme \<times> 'a bx_pc_system_c_scheme" where
  "on_lapic i f = (\<lambda>(b, s). (upd_cpu i f b, s))"

definition read_only_registers :: "Bit32u \<Rightarrow> bool" where
  "read_only_registers apic_reg \<longleftrightarrow> apic_reg \<in> {0x020, 0x030, 0x090, 0x0C0, 0x0A0, 0x390}
     \<or> regs_from 0x100 8 apic_reg \<or> regs_from 0x180 8 apic_reg \<or> regs_from 0x200 8 apic_reg"

definition lapic_write_aligned :: "nat \<Rightarrow> Bit64u \<Rightarrow> Bit32u \<Rightarrow>
    'b apic_bus_scheme \<times> 'a bx_pc_system_c_scheme \<Rightarrow> 'b apic_bus_scheme \<times> 'a bx_pc_system_c_scheme" where
  "lapic_write_aligned i addr val x =
     (let x = (if addr AND 0xf = 0 then x else on_lapic i panic_lapic x);
          apic_reg = lapic_register addr (cpus (fst x) i)
      in if apic_reg = 0x080 then on_lapic i (set_tpr (ucast (val AND 0xff))) x
         else if apic_reg = 0x0B0 then on_lapic i (receive_EOI val) x
         else if apic_reg = 0x0D0 then on_lapic i (\<lambda>l. l\<lparr>ldr := drop_bit 24 val AND apic_id_mask (fst x)\<rparr>) x
         else if apic_reg = 0x0E0 then on_lapic i (\<lambda>l. l\<lparr>dest_format := drop_bit 28 val AND 0xf\<rparr>) x
         else if apic_reg = 0x0F0 then on_lapic i (write_spurious_interrupt_register val) x
         else if apic_reg = 0x280 then
           on_lapic i (\<lambda>l. l\<lparr>error_status := shadow_error_status l, shadow_error_status := 0\<rparr>) x
         else if apic_reg = 0x300 then
           (let (b, s) = on_lapic i (\<lambda>l. l\<lparr>icr_lo := val AND NOT 0x1000\<rparr>) x; l = cpus b i
            in (send_ipi i (drop_bit 24 (icr_hi l) AND 0xff) (icr_lo l) b, s))
         else if apic_reg = 0x310 then on_lapic i (\<lambda>l. l\<lparr>icr_hi := val AND 0xff000000\<rparr>) x
         else if regs_from 0x320 6 apic_reg \<or> apic_reg = 0x2F0 then on_cpu i (set_lvt_entry apic_reg val) x
         else if apic_reg = 0x380 then on_cpu i (set_initial_timer_count val) x
         else if apic_reg = 0x3E0 then
           on_lapic i (\<lambda>l. let l = l\<lparr>timer_divconf := val AND 0xb\<rparr> in set_divide_configuration (timer_divconf l) l) x
         else if read_only_registers apic_reg then x
         else if apic_reg = 0x400 then x
         else if apic_reg = 0x410 then
           on_lapic i (\<lambda>l. l\<lparr>xapic_ext := val AND (BX_XAPIC_EXT_SUPPORT_IER OR BX_XAPIC_EXT_SUPPORT_SEOI)\<rparr>) x
         else if apic_reg = 0x420 then on_lapic i (receive_SEOI (ucast (val AND 0xff))) x
         else if regs_from 0x480 8 apic_reg then
           on_lapic i (\<lambda>l. if xapic_ext l AND BX_XAPIC_EXT_SUPPORT_IER = 0 then l
                           else l\<lparr>ier := (ier l)(reg_index 0x480 apic_reg := val)\<rparr>) x
         else on_lapic i illegal_address x)"

text \<open>
  The accesses of the CPU to its own APIC. A read gives the value stored in the buffer of the caller;
  \<open>None\<close> is an access that leaves the buffer as it is.
\<close>

definition lapic_read :: "Bit32u \<Rightarrow> Bit64u \<Rightarrow> nat \<Rightarrow> bx_local_apic_c \<Rightarrow> 'a bx_pc_system_c_scheme \<Rightarrow> Bit32u option \<times> bx_local_apic_c" where
  "lapic_read id_mask addr len l s =
     (if addr AND NOT 0x3 \<noteq> (addr + of_nat len - 1) AND NOT 0x3 then (None, panic_lapic l)
      else
        let (val, l) = lapic_read_aligned id_mask (addr AND NOT 0x3) l s
        in if len = 4 then (Some val, l)
           else
             let val = drop_bit (unat (addr AND 3) * 8) val
             in if len = 1 then (Some (val AND 0xff), l)
                else if len = 2 then (Some (val AND 0xffff), l)
                else (None, panic_lapic l))"

definition lapic_write :: "nat \<Rightarrow> Bit64u \<Rightarrow> Bit32u \<Rightarrow> nat \<Rightarrow>
    'b apic_bus_scheme \<times> 'a bx_pc_system_c_scheme \<Rightarrow> 'b apic_bus_scheme \<times> 'a bx_pc_system_c_scheme" where
  "lapic_write i addr data len x =
     (if len \<noteq> 4 then on_lapic i panic_lapic x
      else if addr AND 0xf \<noteq> 0 then on_lapic i panic_lapic x
      else lapic_write_aligned i addr data x)"

section \<open>Access through model-specific registers\<close>

definition x2apic_index :: "Bit32u \<Rightarrow> Bit32u" where
  "x2apic_index index = push_bit 4 (index - 0x800)"

definition x2apic_readable :: "Bit32u \<Rightarrow> bool" where
  "x2apic_readable index \<longleftrightarrow> index \<in> {0x030, 0x080, 0x0A0, 0x0F0, 0x280, 0x2F0, 0x380, 0x390, 0x3E0}
     \<or> regs_from 0x100 8 index \<or> regs_from 0x180 8 index \<or> regs_from 0x200 8 index \<or> regs_from 0x320 6 index"

definition read_x2apic :: "Bit32u \<Rightarrow> Bit32u \<Rightarrow> bx_local_apic_c \<Rightarrow> 'a bx_pc_system_c_scheme \<Rightarrow> Bit64u option \<times> bx_local_apic_c" where
  "read_x2apic id_mask msr l s =
     (let index = x2apic_index msr
      in if index = 0x020 then (Some (ucast (apic_id l)), l)
         else if index = 0x0D0 then (Some (ucast (ldr l)), l)
         else if index = 0x300 then (Some (ucast (icr_lo l) OR push_bit 32 (ucast (icr_hi l))), l)
         else if index \<in> {0x090, 0x0E0, 0x310, 0x0B0, 0x3F0} then (None, l)
         else if x2apic_readable index
         then let (val, l) = lapic_read_aligned id_mask (ucast index) l s in (Some (ucast val), l)
         else (None, l))"

definition x2apic_read_only :: "Bit32u \<Rightarrow> bool" where
  "x2apic_read_only index \<longleftrightarrow> index \<in> {0x020, 0x030, 0x090, 0x0A0, 0x0D0, 0x0E0, 0x310, 0x390}
     \<or> regs_from 0x100 8 index \<or> regs_from 0x180 8 index \<or> regs_from 0x200 8 index"

definition x2apic_legacy :: "Bit32u \<Rightarrow> Bit32u \<Rightarrow> bool" where
  "x2apic_legacy index lo =
     (if index = 0x080 then lo AND 0xffffff00 = 0
      else if index = 0x0F0 then lo AND 0xfffffe00 = 0
      else if index = 0x0B0 \<or> index = 0x280 then lo = 0
      else regs_from 0x320 6 index \<or> index \<in> {0x2F0, 0x380, 0x3E0})"

definition write_x2apic :: "nat \<Rightarrow> Bit32u \<Rightarrow> Bit32u \<Rightarrow> Bit32u \<Rightarrow>
    'b apic_bus_scheme \<times> 'a bx_pc_system_c_scheme \<Rightarrow> bool \<times> 'b apic_bus_scheme \<times> 'a bx_pc_system_c_scheme" where
  "write_x2apic i msr val32_hi val32_lo x =
     (let index = x2apic_index msr
      in if index \<noteq> 0x300 \<and> val32_hi \<noteq> 0 then (False, x)
         else if x2apic_read_only index then (False, x)
         else if index = 0x3F0 then (True, on_lapic i (trigger_irq (ucast (val32_lo AND 0xff)) False False) x)
         else if index = 0x300 then (True, send_ipi i val32_hi val32_lo (fst x), snd x)
         else if x2apic_legacy index val32_lo then (True, lapic_write_aligned i (ucast index) val32_lo x)
         else (False, x))"

end
