(* ===== verification/Lapic_Props.thy ===== *)
theory Lapic_Props
  imports Lapic
begin

text \<open>
  Correctness of the local APIC. A register of 256 bits stands for a set of vectors; on these sets the priority
  scan is a maximum, and the invariant \<open>lapic_ok\<close> says that no interrupt the CPU should take is pending without the
  interrupt line, and that at most one vector of a priority class is in service.
\<close>

unbundle bit_operations_syntax

section \<open>Sets of vectors\<close>

definition vectors :: "(nat \<Rightarrow> Bit32u) \<Rightarrow> nat set" where
  "vectors reg = {v. v < 256 \<and> bit (reg (v div 32)) (v mod 32)}"

lemma finite_vectors [simp]: "finite (vectors reg)"
  by (simp add: vectors_def)

lemma vectors_bound: "v \<in> vectors reg \<Longrightarrow> v < 256"
  by (simp add: vectors_def)

lemma byte_less [simp]: "unat v < 256" for v :: Bit8u
  by (rule order_less_le_trans, rule unsigned_less) simp

lemma get_vector_iff: "v < 256 \<Longrightarrow> lapic_get_vector reg v \<longleftrightarrow> v \<in> vectors reg"
  by (simp add: lapic_get_vector_def vectors_def and_one_eq odd_iff_mod_2_eq_one bit_iff_odd_drop_bit)

lemma same_bit: "v div 32 = w div 32 \<Longrightarrow> v mod 32 = w mod 32 \<Longrightarrow> v = w" for v w :: nat
  by (metis div_mult_mod_eq)

lemma vectors_set [simp]: "v < 256 \<Longrightarrow> vectors (lapic_set_vector reg v) = insert v (vectors reg)"
  by (auto simp: vectors_def lapic_set_vector_def bit_or_iff bit_exp_iff intro: same_bit split: if_splits)

lemma vectors_clear [simp]: "v < 256 \<Longrightarrow> vectors (lapic_clear_vector reg v) = vectors reg - {v}"
  by (auto simp: vectors_def lapic_clear_vector_def bit_and_iff bit_not_iff bit_exp_iff intro: same_bit
      split: if_splits)

lemma vectors_zero: "(\<And>i. i < 8 \<Longrightarrow> reg i = 0) \<Longrightarrow> vectors reg = {}"
  by (auto simp: vectors_def)

text \<open>The priority scan is the maximum of the enabled vectors.\<close>

definition top :: "nat set \<Rightarrow> int" where
  "top S = (if S = {} then -1 else int (Max S))"

lemma topI: "finite S \<Longrightarrow> x \<in> S \<Longrightarrow> (\<And>y. y \<in> S \<Longrightarrow> y \<le> x) \<Longrightarrow> top S = int x"
  by (auto simp: top_def intro: Max_eqI)

lemma highest_from_top:
  "highest_from a e n = top {v. v < 32 * n \<and> bit (a (v div 32) AND e (v div 32)) (v mod 32)}"
proof (induction n)
  case 0
  then show ?case by (simp add: top_def)
next
  case (Suc n)
  let ?t = "a n AND e n"
  let ?S = "\<lambda>n. {v. v < 32 * n \<and> bit (a (v div 32) AND e (v div 32)) (v mod 32)}"
  show ?case
  proof (cases "?t = 0")
    case True
    have "?S (Suc n) = ?S n"
    proof -
      have "v div 32 \<noteq> n" if "bit (a (v div 32) AND e (v div 32)) (v mod 32)" for v
        using that True by auto
      moreover have "v < 32 * Suc n \<longleftrightarrow> v < 32 * n \<or> v div 32 = n" for v by auto
      ultimately show ?thesis by blast
    qed
    then show ?thesis using True Suc by (simp add: Let_def)
  next
    case False
    let ?h = "31 - lzcntd ?t"
    note h = lzcntd_top [OF False]
    have "(n * 32 + ?h) div 32 = n" "(n * 32 + ?h) mod 32 = ?h" by simp_all
    then have "n * 32 + ?h \<in> ?S (Suc n)" using h(2) by (simp only: mem_Collect_eq) simp
    moreover have "v \<le> n * 32 + ?h" if "v \<in> ?S (Suc n)" for v
    proof (cases "v div 32 = n")
      case True
      then have "v mod 32 \<le> ?h" using that h(3) by simp
      then show ?thesis using True by (metis add_le_cancel_left div_mult_mod_eq)
    next
      case False
      then have "v < n * 32" using that by auto
      then show ?thesis by simp
    qed
    ultimately have "top (?S (Suc n)) = int (n * 32 + ?h)" by (intro topI) auto
    then show ?thesis using False by (simp add: Let_def)
  qed
qed

text \<open>Every vector is enabled: so it is after a reset, and only the extended registers can change it.\<close>

definition enabled :: "bx_local_apic_c \<Rightarrow> bool" where
  "enabled l \<longleftrightarrow> (\<forall>i<8. ier l i = 0xFFFFFFFF) \<and> \<not> xapic_ext_supported l"

lemma highest_priority_top:
  assumes "enabled l"
  shows "highest_priority_int reg l = top (vectors reg)"
proof -
  have "bit (ier l (v div 32)) (v mod 32)" if "v < 256" for v
  proof -
    have "v div 32 < 8" using that by (simp add: div_less_iff_less_mult)
    moreover have "v mod 32 < 32" by simp
    moreover have "bit (0xFFFFFFFF :: Bit32u) k" if "k < 32" for k
    proof -
      have "(0xFFFFFFFF :: Bit32u) = -1" by simp
      then show ?thesis using that by (simp only: bit_minus_1_iff) simp
    qed
    ultimately show ?thesis using assms by (simp add: enabled_def)
  qed
  then have "{v. v < 32 * 8 \<and> bit (reg (v div 32) AND ier l (v div 32)) (v mod 32)} = vectors reg"
    by (auto simp: vectors_def bit_and_iff)
  then show ?thesis by (simp add: highest_priority_int_def highest_from_top)
qed

section \<open>Priority classes\<close>

lemma class_and:
  fixes w :: Bit32u
  assumes "unat w < 256"
  shows "unat (w AND 0xf0) = unat w div 16 * 16"
proof -
  have "w AND 0xf0 = push_bit 4 (drop_bit 4 w)"
  proof (rule bit_word_eqI)
    fix k assume "k < LENGTH(32)"
    have high: "\<not> bit w k" if "8 \<le> k"
    proof -
      have "take_bit 8 w = w" using assms by (simp add: word_unat_eq_iff unsigned_take_bit_eq take_bit_nat_eq_self)
      then show ?thesis using that by (metis bit_take_bit_iff not_less)
    qed
    have "bit (0xf0 :: Bit32u) k \<longleftrightarrow> 4 \<le> k \<and> k < 8"
    proof -
      have "(0xf0 :: Bit32u) = push_bit 4 (Bit_Operations.mask 4)" by (simp add: mask_eq_exp_minus_1)
      then show ?thesis using \<open>k < LENGTH(32)\<close> by (simp only: bit_push_bit_iff bit_mask_iff) auto
    qed
    then show "bit (w AND 0xf0) k = bit (push_bit 4 (drop_bit 4 w)) k"
      using high \<open>k < LENGTH(32)\<close> by (auto simp: bit_and_iff bit_push_bit_iff bit_drop_bit_eq)
  qed
  moreover have "unat (drop_bit 4 w) = unat w div 16" using unat_drop_bit_eq [of 4 w] by (simp add: drop_bit_eq_div)
  moreover have "unat w div 16 * 16 < 2 ^ 32" using assms by simp
  ultimately show ?thesis
    by (simp add: push_bit_eq_mult unat_word_ariths mult.commute)
qed

lemma unat_small: "v < 256 \<Longrightarrow> unat (word_of_int (int v) :: Bit32u) = v"
  by (simp add: unat_of_nat take_bit_nat_eq_self)

lemma class_le:
  assumes "v < 256" "unat t < 256"
  shows "(word_of_int (int v) :: Bit32u) AND 0xf0 \<le> t AND 0xf0 \<longleftrightarrow> v div 16 \<le> unat t div 16"
proof -
  have u: "unat (word_of_int (int v) :: Bit32u) = v" using assms(1) by (rule unat_small)
  have "unat ((word_of_int (int v) :: Bit32u) AND 0xf0) = v div 16 * 16" using class_and [of "word_of_int (int v)"] assms u by simp
  then show ?thesis using class_and [of t] assms(2) by (simp add: word_le_nat_alt)
qed

text \<open>The interrupt the CPU should take: the highest request, when its class is above that of the task and of the
  highest vector in service.\<close>

definition deliverable :: "bx_local_apic_c \<Rightarrow> bool" where
  "deliverable l \<longleftrightarrow> vectors (irr l) \<noteq> {} \<and> unat (task_priority l) div 16 < Max (vectors (irr l)) div 16
     \<and> (vectors (isr l) = {} \<or> Max (vectors (isr l)) div 16 < Max (vectors (irr l)) div 16)"

definition lapic_core :: "bx_local_apic_c \<Rightarrow> bool" where
  "lapic_core l \<longleftrightarrow> enabled l \<and> vectors (irr l) \<union> vectors (isr l) \<subseteq> {16..<256} \<and> unat (task_priority l) < 256
     \<and> inj_on (\<lambda>v. v div 16) (vectors (isr l))"

definition lapic_ok :: "bx_local_apic_c \<Rightarrow> bool" where
  "lapic_ok l \<longleftrightarrow> lapic_core l \<and> (deliverable l \<longrightarrow> is_pending BX_EVENT_PENDING_LAPIC_INTR l)"

lemma Max_vectors: "vectors r \<noteq> {} \<Longrightarrow> Max (vectors r) \<in> vectors r" "vectors r \<noteq> {} \<Longrightarrow> Max (vectors r) < 256"
  using Max_in [of "vectors r"] vectors_bound by auto

lemma class_word: "v < 256 \<Longrightarrow> unat ((word_of_int (int v) :: Bit32u) AND 0xf0) = v div 16 * 16"
  using class_and [of "word_of_int (int v)"] by (simp only: unat_small)

lemma class_byte:
  assumes "v < 256"
  shows "unat ((word_of_int (int v) :: Bit8u) AND 0xF0) = v div 16 * 16"
proof -
  have "(word_of_int (int v) :: Bit8u) AND 0xF0 = ucast ((word_of_int (int v) :: Bit32u) AND 0xf0)"
    by (rule bit_word_eqI) (simp add: bit_simps)
  also have "unat \<dots> = v div 16 * 16"
    using class_word [OF assms] assms by (simp only: unsigned_ucast_eq) (simp add: take_bit_nat_eq_self)
  finally show ?thesis .
qed

lemma class_mult_le: "m div 16 * 16 \<le> t \<longleftrightarrow> m div 16 \<le> t div 16" for m t :: nat
  by (simp add: less_eq_div_iff_mult_less_eq)

lemma unat_ppr:
  assumes "enabled l" "unat (task_priority l) < 256"
  shows "unat (get_ppr l) =
    (if vectors (isr l) = {} \<or> Max (vectors (isr l)) div 16 \<le> unat (task_priority l) div 16
     then unat (task_priority l) else Max (vectors (isr l)) div 16 * 16)"
proof -
  have t: "unat (ucast (task_priority l) :: Bit8u) = unat (task_priority l)"
    using assms(2) by (simp add: unsigned_ucast_eq take_bit_nat_eq_self)
  show ?thesis
  proof (cases "vectors (isr l) = {}")
    case True
    then show ?thesis using assms(1) t by (simp add: get_ppr_def highest_priority_top top_def)
  next
    case False
    define k where "k = Max (vectors (isr l))"
    have k: "k < 256" using False Max_vectors by (simp add: k_def)
    have h: "highest_priority_int (isr l) l = int k" using assms(1) False by (simp add: highest_priority_top top_def k_def)
    have "\<not> int k < 0" by simp
    then have "get_ppr l = (if k div 16 \<le> unat (task_priority l) div 16 then ucast (task_priority l)
        else word_of_int (int k) AND 0xF0)"
      by (simp only: get_ppr_def Let_def h class_le [OF k assms(2)] simp_thms)
    then show ?thesis using False t class_byte [OF k] by (simp only: k_def [symmetric] simp_thms split: if_splits)
  qed
qed

lemma not_deliverable_ppr:
  assumes "enabled l" "unat (task_priority l) < 256"
  shows "(highest_priority_int (irr l) l < 0 \<or>
      uint ((word_of_int (highest_priority_int (irr l) l) :: Bit32u) AND 0xf0) \<le> uint (get_ppr l)) \<longleftrightarrow> \<not> deliverable l"
proof (cases "vectors (irr l) = {}")
  case True
  then show ?thesis using assms by (simp add: highest_priority_top top_def deliverable_def)
next
  case False
  define m where "m = Max (vectors (irr l))"
  have m: "m < 256" using False Max_vectors by (simp add: m_def)
  have v: "highest_priority_int (irr l) l = int m" using assms(1) False by (simp add: highest_priority_top top_def m_def)
  have "uint ((word_of_int (int m) :: Bit32u) AND 0xf0) \<le> uint (get_ppr l) \<longleftrightarrow> m div 16 * 16 \<le> unat (get_ppr l)"
    by (simp only: uint_nat class_word [OF m] of_nat_le_iff)
  also have "\<dots> \<longleftrightarrow> \<not> deliverable l"
    using False class_mult_le [of m "unat (task_priority l)"]
    unfolding unat_ppr [OF assms] deliverable_def m_def [symmetric] by auto
  finally show ?thesis using v by simp
qed

section \<open>The invariant of one local APIC\<close>

text \<open>The events of the CPU and everything else that leaves the vectors alone.\<close>

definition same_vectors :: "bx_local_apic_c \<Rightarrow> bx_local_apic_c \<Rightarrow> bool" where
  "same_vectors l m \<longleftrightarrow> irr m = irr l \<and> isr m = isr l \<and> ier m = ier l \<and> task_priority m = task_priority l
     \<and> xapic_ext_supported m = xapic_ext_supported l"

lemma same_vectors_core: "same_vectors l m \<Longrightarrow> lapic_core m = lapic_core l \<and> deliverable m = deliverable l"
  by (simp add: same_vectors_def lapic_core_def deliverable_def enabled_def)

lemma same_vectors_ok:
  assumes "lapic_ok l" "same_vectors l m" "is_pending BX_EVENT_PENDING_LAPIC_INTR l \<Longrightarrow> is_pending BX_EVENT_PENDING_LAPIC_INTR m"
  shows "lapic_ok m"
  using assms same_vectors_core [OF assms(2)] by (auto simp: lapic_ok_def)

lemma pending_signal: "is_pending e (signal_event e l)" if "e \<noteq> 0"
  using that by (simp add: event_defs bit.conj_disj_distrib2)

lemma pending_other: "is_pending e (signal_event f l)" if "is_pending e l"
  using that by (simp add: event_defs bit.conj_disj_distrib2 or_eq_0_iff)

lemma service_frame [simp]:
  "irr (service_local_apic l) = irr l" "isr (service_local_apic l) = isr l" "tmr (service_local_apic l) = tmr l"
  "ier (service_local_apic l) = ier l" "task_priority (service_local_apic l) = task_priority l"
  "spurious_vector (service_local_apic l) = spurious_vector l" "eoi_log (service_local_apic l) = eoi_log l"
  "lapic_panics (service_local_apic l) = lapic_panics l" "xapic_ext_supported (service_local_apic l) = xapic_ext_supported l"
  by (simp_all add: service_local_apic_def signal_event_def Let_def)

lemma service_same: "same_vectors l (service_local_apic l)"
  by (simp add: same_vectors_def)

lemma service_pending:
  assumes "lapic_core l" "deliverable l"
  shows "is_pending BX_EVENT_PENDING_LAPIC_INTR (service_local_apic l)"
proof (cases "is_pending BX_EVENT_PENDING_LAPIC_INTR l")
  case True
  then show ?thesis by (simp add: service_local_apic_def)
next
  case False
  have en: "enabled l" and t: "unat (task_priority l) < 256" using assms(1) by (auto simp: lapic_core_def)
  define m where "m = Max (vectors (irr l))"
  have ne: "vectors (irr l) \<noteq> {}" and d: "unat (task_priority l) div 16 < m div 16"
    and s: "vectors (isr l) = {} \<or> Max (vectors (isr l)) div 16 < m div 16"
    using assms(2) by (auto simp: deliverable_def m_def)
  have m: "m < 256" using ne Max_vectors by (simp add: m_def)
  have irr: "highest_priority_int (irr l) l = int m" using en ne by (simp add: highest_priority_top top_def m_def)
  have "\<not> (highest_priority_int (isr l) l \<ge> 0 \<and> int m \<le> highest_priority_int (isr l) l)"
  proof (cases "vectors (isr l) = {}")
    case True
    then show ?thesis using en by (simp add: highest_priority_top top_def)
  next
    case False
    then have "Max (vectors (isr l)) < m" using s by (meson div_le_mono leD leI)
    then show ?thesis using en False by (simp add: highest_priority_top top_def not_le del: Max_less_iff)
  qed
  moreover have "\<not> (word_of_int (int m) :: Bit32u) AND 0xf0 \<le> task_priority l AND 0xf0"
    unfolding class_le [OF m t] using d by simp
  moreover have "\<not> int m < 0" by simp
  ultimately have "service_local_apic l = signal_event BX_EVENT_PENDING_LAPIC_INTR l"
    using False by (simp only: service_local_apic_def Let_def irr if_False)
  then show ?thesis by (simp add: pending_signal)
qed

lemma lapic_service_ok: "lapic_core l \<Longrightarrow> lapic_ok (service_local_apic l)"
  using service_pending same_vectors_core [OF service_same] by (auto simp: lapic_ok_def)

lemma ok_core: "lapic_ok l \<Longrightarrow> lapic_core l"
  by (simp add: lapic_ok_def)

lemma trigger_ok:
  assumes "lapic_ok l" shows "lapic_ok (trigger_irq v tm byp l)"
proof -
  consider (illegal) "v < 0x10" | (refused) "\<not> byp" "lapic_get_vector (irr l) (unat v)" "\<not> v < 0x10"
    | (taken) "\<not> v < 0x10" "\<not> (\<not> byp \<and> lapic_get_vector (irr l) (unat v))" by blast
  then show ?thesis
  proof cases
    case illegal
    then show ?thesis
      by (intro same_vectors_ok [OF assms]) (simp_all add: trigger_irq_def same_vectors_def is_pending_def)
  next
    case refused
    then show ?thesis using assms by (simp add: trigger_irq_def)
  next
    case taken
    have "unat v < 256" using byte_less by simp
    moreover have "16 \<le> unat v" using taken(1) by (simp add: word_le_nat_alt not_less)
    ultimately have "lapic_core (l\<lparr>irr := lapic_set_vector (irr l) (unat v), tmr := t\<rparr>)" for t
      using assms by (simp add: lapic_ok_def lapic_core_def enabled_def)
    then show ?thesis using taken by (auto simp: trigger_irq_def Let_def lapic_service_ok)
  qed
qed

lemma deliverable_mono:
  assumes "deliverable m" "vectors (irr m) \<subseteq> vectors (irr l)" "vectors (isr m) = vectors (isr l)"
    "unat (task_priority l) \<le> unat (task_priority m)"
  shows "deliverable l"
proof -
  have ne: "vectors (irr m) \<noteq> {}" "vectors (irr l) \<noteq> {}" using assms(1,2) by (auto simp: deliverable_def)
  then have "Max (vectors (irr m)) div 16 \<le> Max (vectors (irr l)) div 16"
    by (intro div_le_mono Max_mono assms) simp_all
  moreover have "unat (task_priority l) div 16 \<le> unat (task_priority m) div 16" by (rule div_le_mono) (rule assms)
  ultimately show ?thesis using assms(1,3) ne by (auto simp: deliverable_def)
qed

lemma untrigger_ok:
  assumes "lapic_ok l" shows "lapic_ok (untrigger_irq v tm l)"
proof -
  have "unat v < 256" using byte_less by simp
  then have v: "vectors (irr (untrigger_irq v tm l)) = vectors (irr l) - {unat v}"
    "isr (untrigger_irq v tm l) = isr l" "task_priority (untrigger_irq v tm l) = task_priority l"
    "ier (untrigger_irq v tm l) = ier l" "xapic_ext_supported (untrigger_irq v tm l) = xapic_ext_supported l" "pending_event (untrigger_irq v tm l) = pending_event l"
    by (simp_all add: untrigger_irq_def Let_def panic_lapic_def)
  moreover have "deliverable l" if "deliverable (untrigger_irq v tm l)"
    using that v by (intro deliverable_mono [OF that]) auto
  ultimately show ?thesis using assms by (auto simp: lapic_ok_def lapic_core_def enabled_def is_pending_def)
qed

lemma set_tpr_ok:
  assumes "lapic_ok l" shows "lapic_ok (set_tpr p l)"
proof -
  let ?m = "l\<lparr>task_priority := ucast p\<rparr>"
  have p: "unat (ucast p :: Bit32u) = unat p" "unat p < 256"
    using byte_less [of p] by (simp_all add: unsigned_ucast_eq take_bit_nat_eq_self order_less_le_trans [of _ 256])
  have core: "lapic_core ?m" using assms p by (simp add: lapic_ok_def lapic_core_def enabled_def)
  show ?thesis
  proof (cases "ucast p < task_priority l")
    case True
    then show ?thesis using lapic_service_ok [OF core] by (simp add: set_tpr_def)
  next
    case False
    then have "unat (task_priority l) \<le> unat (ucast p :: Bit32u)" by (simp add: word_le_nat_alt not_less)
    then have "deliverable l" if "deliverable ?m" by (intro deliverable_mono [OF that]) simp_all
    then show ?thesis using False assms core by (auto simp: set_tpr_def lapic_ok_def is_pending_def)
  qed
qed

lemma retire_ok:
  assumes "lapic_ok l" "v < 256" shows "lapic_ok (retire_vector v l)"
proof -
  have "lapic_core (l\<lparr>isr := lapic_clear_vector (isr l) v, eoi_log := e, tmr := t\<rparr>)" for e t
    using assms by (auto simp: lapic_ok_def lapic_core_def enabled_def inj_on_def)
  moreover have "lapic_core (l\<lparr>isr := lapic_clear_vector (isr l) v\<rparr>)"
    using assms by (auto simp: lapic_ok_def lapic_core_def enabled_def inj_on_def)
  ultimately show ?thesis by (simp add: retire_vector_def apic_bus_broadcast_eoi_def Let_def lapic_service_ok)
qed

lemma EOI_ok:
  assumes "lapic_ok l" shows "lapic_ok (receive_EOI x l)"
proof -
  have en: "enabled l" using assms by (simp add: lapic_ok_def lapic_core_def)
  have "nat (highest_priority_int (isr l) l) < 256" if "\<not> highest_priority_int (isr l) l < 0"
    using that en Max_vectors [of "isr l"] by (auto simp: highest_priority_top top_def split: if_splits)
  then show ?thesis using assms by (simp add: receive_EOI_def Let_def retire_ok)
qed

lemma SEOI_ok: "lapic_ok l \<Longrightarrow> lapic_ok (receive_SEOI v l)"
  using byte_less [of v] by (simp add: receive_SEOI_def retire_ok)

section \<open>Acknowledging an interrupt\<close>

abbreviation pending_intr :: "bx_local_apic_c \<Rightarrow> bool" where
  "pending_intr l \<equiv> is_pending BX_EVENT_PENDING_LAPIC_INTR l"

definition taken :: "bx_local_apic_c \<Rightarrow> bx_local_apic_c" where
  "taken l = (let v = Max (vectors (irr l))
     in clear_event BX_EVENT_PENDING_LAPIC_INTR (l\<lparr>irr := lapic_clear_vector (irr l) v, isr := lapic_set_vector (isr l) v\<rparr>))"

lemma acknowledge_taken:
  assumes "lapic_core l" "deliverable l" "pending_intr l"
  shows "acknowledge_int l = (of_nat (Max (vectors (irr l))), service_local_apic (taken l))"
proof -
  have en: "enabled l" and t: "unat (task_priority l) < 256" using assms(1) by (auto simp: lapic_core_def)
  define m where "m = Max (vectors (irr l))"
  have ne: "vectors (irr l) \<noteq> {}" using assms(2) by (simp add: deliverable_def)
  have h: "highest_priority_int (irr l) l = int m" using en ne by (simp add: highest_priority_top top_def m_def)
  have "lapic_get_vector (irr l) m" using Max_vectors [OF ne] by (simp add: get_vector_iff m_def)
  moreover have "\<not> (int m < 0 \<or> uint ((word_of_int (int m) :: Bit32u) AND 0xf0) \<le> uint (get_ppr l))"
    using not_deliverable_ppr [OF en t] assms(2) by (simp only: h simp_thms)
  ultimately show ?thesis using assms(3)
    by (simp only: acknowledge_int_def Let_def h if_False if_True simp_thms taken_def m_def [symmetric] nat_int
        of_int_of_nat_eq) simp
qed

lemma acknowledge_spurious:
  assumes "lapic_core l" "\<not> deliverable l" "pending_intr l"
  shows "acknowledge_int l = (spurious_vector l, clear_event BX_EVENT_PENDING_LAPIC_INTR l)"
proof -
  have "highest_priority_int (irr l) l < 0
      \<or> uint ((word_of_int (highest_priority_int (irr l) l) :: Bit32u) AND 0xf0) \<le> uint (get_ppr l)"
    using not_deliverable_ppr [of l] assms(1,2) by (simp only: lapic_core_def simp_thms)
  then show ?thesis using assms(3) by (simp only: acknowledge_int_def Let_def if_True simp_thms if_False)
qed

lemma taken_frame:
  assumes "deliverable l"
  shows "vectors (irr (taken l)) = vectors (irr l) - {Max (vectors (irr l))}"
    "vectors (isr (taken l)) = insert (Max (vectors (irr l))) (vectors (isr l))"
    "Max (vectors (isr (taken l))) = Max (vectors (irr l))"
    "tmr (taken l) = tmr l" "ier (taken l) = ier l" "task_priority (taken l) = task_priority l"
    "spurious_vector (taken l) = spurious_vector l" "lapic_panics (taken l) = lapic_panics l"
    "xapic_ext_supported (taken l) = xapic_ext_supported l" "\<not> pending_intr (taken l)"
proof -
  have ne: "vectors (irr l) \<noteq> {}" using assms by (simp add: deliverable_def)
  have m: "Max (vectors (irr l)) < 256" by (rule Max_vectors(2) [OF ne])
  show isr: "vectors (isr (taken l)) = insert (Max (vectors (irr l))) (vectors (isr l))"
    using m by (simp add: taken_def clear_event_def Let_def)
  show "Max (vectors (isr (taken l))) = Max (vectors (irr l))"
  proof (cases "vectors (isr l) = {}")
    case False
    then have "Max (vectors (isr l)) \<le> Max (vectors (irr l))"
      using assms by (meson deliverable_def div_le_mono leD nat_le_linear)
    then show ?thesis unfolding isr using False Max_insert [OF finite_vectors False] by (simp only: max_absorb1)
  qed (simp add: isr)
  show "vectors (irr (taken l)) = vectors (irr l) - {Max (vectors (irr l))}"
    "tmr (taken l) = tmr l" "ier (taken l) = ier l" "task_priority (taken l) = task_priority l"
    "spurious_vector (taken l) = spurious_vector l" "lapic_panics (taken l) = lapic_panics l"
    "xapic_ext_supported (taken l) = xapic_ext_supported l" "\<not> pending_intr (taken l)"
    using m by (simp_all add: taken_def clear_event_def Let_def is_pending_def and.assoc)
qed

lemma taken_core:
  assumes "lapic_core l" "deliverable l"
  shows "lapic_core (taken l)"
proof -
  let ?m = "Max (vectors (irr l))"
  have m: "?m \<in> vectors (irr l)" using assms(2) Max_vectors(1) by (simp add: deliverable_def)
  have "w div 16 < ?m div 16" if "w \<in> vectors (isr l)" for w
  proof -
    have "w div 16 \<le> Max (vectors (isr l)) div 16" using that by (intro div_le_mono Max_ge) simp_all
    moreover have "Max (vectors (isr l)) div 16 < ?m div 16" using assms(2) that by (auto simp: deliverable_def)
    ultimately show ?thesis by simp
  qed
  then have "inj_on (\<lambda>v. v div 16) (insert ?m (vectors (isr l)))"
    using assms(1) by (fastforce simp: lapic_core_def inj_on_insert)
  then show ?thesis using assms(1) m unfolding lapic_core_def taken_frame [OF assms(2)] enabled_def by auto
qed

lemma acknowledge_ok:
  assumes "lapic_ok l" "pending_intr l"
  shows "lapic_ok (snd (acknowledge_int l))"
proof (cases "deliverable l")
  case True
  then show ?thesis
    using acknowledge_taken [OF ok_core [OF assms(1)] True assms(2)] lapic_service_ok taken_core [OF ok_core [OF assms(1)] True]
    by simp
next
  case False
  have "same_vectors l (clear_event BX_EVENT_PENDING_LAPIC_INTR l)" by (simp add: same_vectors_def clear_event_def)
  then have "lapic_ok (clear_event BX_EVENT_PENDING_LAPIC_INTR l)"
    using same_vectors_core [of l "clear_event BX_EVENT_PENDING_LAPIC_INTR l"] assms(1) False by (auto simp: lapic_ok_def)
  then show ?thesis using acknowledge_spurious [OF ok_core [OF assms(1)] False assms(2)] by simp
qed
section \<open>Operations that leave the requests alone\<close>

lemma events_same [simp]:
  "same_vectors l (signal_event e l)" "same_vectors l (deliver_NMI l)" "same_vectors l (deliver_SMI l)" "same_vectors l (deliver_INIT l)"
  "same_vectors l (deliver_SIPI v l)"
  by (simp_all add: same_vectors_def event_defs)

lemma events_pending:
  assumes "pending_intr l"
  shows "pending_intr (deliver_NMI l)" "pending_intr (deliver_SMI l)" "pending_intr (deliver_INIT l)" "pending_intr (deliver_SIPI v l)"
  using pending_other [OF assms] assms
  by (simp_all add: deliver_NMI_def deliver_SMI_def deliver_INIT_def) (simp add: event_defs)

lemma SMI_ok: "lapic_ok l \<Longrightarrow> lapic_ok (deliver_SMI l)"
  by (rule same_vectors_ok [of l]) (simp_all add: events_pending)
lemma NMI_ok: "lapic_ok l \<Longrightarrow> lapic_ok (deliver_NMI l)"
  by (rule same_vectors_ok [of l]) (simp_all add: events_pending)

lemma INIT_ok: "lapic_ok l \<Longrightarrow> lapic_ok (deliver_INIT l)"
  by (rule same_vectors_ok [of l]) (simp_all add: events_pending)

lemma SIPI_ok: "lapic_ok l \<Longrightarrow> lapic_ok (deliver_SIPI v l)"
  by (rule same_vectors_ok [of l]) (simp_all add: events_pending)

lemma frame_ok:
  assumes "lapic_ok l" "bx_cpu_events.truncate m = bx_cpu_events.truncate l" "irr m = irr l" "isr m = isr l" "ier m = ier l"
    "task_priority m = task_priority l"
  shows "lapic_ok m"
proof (rule same_vectors_ok [OF assms(1)])
  have "pending_event m = pending_event l" "xapic_ext_supported m = xapic_ext_supported l"
    using assms(2) by (simp_all add: bx_cpu_events.truncate_def)
  then show "same_vectors l m" "pending_intr l \<Longrightarrow> pending_intr m"
    using assms by (simp_all add: same_vectors_def is_pending_def)
qed

text \<open>Registers that have nothing to do with requests.\<close>

lemma stop_timer_ok: "lapic_ok l \<Longrightarrow> lapic_ok (fst (stop_timer (l, s)))"
  by (rule frame_ok [of l]) (simp_all add: stop_timer_def bx_cpu_events.truncate_def)

lemma start_count_ok: "lapic_ok l \<Longrightarrow> lapic_ok (fst (start_count (l, s)))"
  by (rule frame_ok [of l]) (simp_all add: start_count_def bx_cpu_events.truncate_def)

lemma set_lvt_ok: "lapic_ok l \<Longrightarrow> lapic_ok (fst (set_lvt_entry r v (l, s)))"
  by (rule frame_ok [of l]) (simp_all add: set_lvt_entry_def stop_timer_def Let_def bx_cpu_events.truncate_def split: prod.splits if_splits)

lemma initial_count_ok: "lapic_ok l \<Longrightarrow> lapic_ok (fst (set_initial_timer_count v (l, s)))"
  by (rule frame_ok [of l])
    (simp_all add: set_initial_timer_count_def stop_timer_def start_count_def Let_def bx_cpu_events.truncate_def split: prod.splits if_splits)

lemma tsc_deadline_ok: "lapic_ok l \<Longrightarrow> lapic_ok (fst (set_tsc_deadline d (l, s)))"
  by (rule frame_ok [of l])
    (simp_all add: set_tsc_deadline_def stop_timer_def Let_def bx_cpu_events.truncate_def split: prod.splits if_splits)

lemma divide_ok: "lapic_ok l \<Longrightarrow> lapic_ok (set_divide_configuration v (l\<lparr>timer_divconf := w\<rparr>))"
  by (rule frame_ok [of l]) (simp_all add: set_divide_configuration_def panic_lapic_def Let_def bx_cpu_events.truncate_def)

lemma svr_ok: "lapic_ok l \<Longrightarrow> lapic_ok (write_spurious_interrupt_register v l)"
  by (rule frame_ok [of l]) (simp_all add: write_spurious_interrupt_register_def Let_def bx_cpu_events.truncate_def)

lemma set_base_ok: "lapic_ok l \<Longrightarrow> lapic_ok (set_base a l)"
  by (rule frame_ok [of l]) (simp_all add: set_base_def write_spurious_interrupt_register_def Let_def bx_cpu_events.truncate_def)

lemma lapic_panic_ok: "lapic_ok l \<Longrightarrow> lapic_ok (panic_lapic l)"
  by (rule frame_ok [of l]) (simp_all add: panic_lapic_def bx_cpu_events.truncate_def)

lemma periodic_ok:
  assumes "lapic_ok l" shows "lapic_ok (fst (lapic_periodic (l, s)))"
proof -
  have "lapic_ok (m\<lparr>timer_current := 0, timer_active := False\<rparr>)" if "lapic_ok m" for m
    using that by (rule frame_ok [of m]) (simp_all add: bx_cpu_events.truncate_def)
  then show ?thesis using assms trigger_ok [OF assms] by (simp add: lapic_periodic_def Let_def start_count_ok)
qed

lemma reset_ok: "\<not> xapic_ext_supported l \<Longrightarrow> lapic_ok (fst (lapic_reset (l, s)))"
  by (simp add: lapic_ok_def lapic_core_def enabled_def deliverable_def lapic_reset_def reset_timers_def stop_timer_def
      deactivate_vmx_preemption_timer_def deactivate_mwaitx_timer_def Let_def vectors_zero split: prod.splits if_splits)
section \<open>Serving all requests\<close>

text \<open>The CPU takes an interrupt and signals its end, a number of times; the vectors it was given, in order.\<close>

primrec drain :: "nat \<Rightarrow> bx_local_apic_c \<Rightarrow> Bit8u list \<times> bx_local_apic_c" where
  "drain 0 l = ([], l)"
| "drain (Suc n) l =
     (let (v, l) = acknowledge_int l; l = receive_EOI 0 l; (vs, l) = drain n l in (v # vs, l))"

lemma service_below:
  assumes "enabled l" "vectors (isr l) \<noteq> {}" "vectors (irr l) = {} \<or> Max (vectors (irr l)) \<le> Max (vectors (isr l))"
  shows "service_local_apic l = l"
  using assms by (auto simp: service_local_apic_def Let_def highest_priority_top top_def simp del: Max_le_iff Max_ge_iff)

lemma service_exact:
  assumes "lapic_core l" "vectors (isr l) = {}" "\<not> pending_intr l"
  shows "pending_intr (service_local_apic l) \<longleftrightarrow> deliverable l"
proof (cases "deliverable l")
  case True
  then show ?thesis using service_pending assms(1) by simp
next
  case False
  have en: "enabled l" and t: "unat (task_priority l) < 256" using assms(1) by (auto simp: lapic_core_def)
  have "service_local_apic l = l"
  proof (cases "vectors (irr l) = {}")
    case True
    then show ?thesis using en by (simp add: service_local_apic_def highest_priority_top top_def)
  next
    case ne: False
    define m where "m = Max (vectors (irr l))"
    have m: "m < 256" using ne Max_vectors by (simp add: m_def)
    have h: "highest_priority_int (irr l) l = int m" using en ne by (simp add: highest_priority_top top_def m_def)
    have "(word_of_int (int m) :: Bit32u) AND 0xf0 \<le> task_priority l AND 0xf0"
      unfolding class_le [OF m t] using False ne assms(2) by (simp add: deliverable_def m_def)
    then show ?thesis by (simp only: service_local_apic_def Let_def h if_True if_cancel)
  qed
  then show ?thesis using False assms(3) by simp
qed

lemma retire_frame:
  assumes "v < 256"
  shows "vectors (isr (retire_vector v l)) = vectors (isr l) - {v}" "irr (retire_vector v l) = irr l"
    "task_priority (retire_vector v l) = task_priority l" "spurious_vector (retire_vector v l) = spurious_vector l"
    "lapic_panics (retire_vector v l) = lapic_panics l"
  using assms by (simp_all add: retire_vector_def apic_bus_broadcast_eoi_def Let_def)

lemma EOI_retires:
  assumes "enabled l" "vectors (isr l) \<noteq> {}" "unat (spurious_vector l) \<noteq> Max (vectors (isr l))"
  shows "receive_EOI x l = retire_vector (Max (vectors (isr l))) l"
proof -
  define m where "m = Max (vectors (isr l))"
  have m: "m < 256" using assms(2) Max_vectors by (simp add: m_def)
  have h: "highest_priority_int (isr l) l = int m" using assms(1,2) by (simp add: highest_priority_top top_def m_def)
  have "unat (word_of_int (int m) :: Bit32u) \<noteq> unat (ucast (spurious_vector l) :: Bit32u)"
    unfolding unat_small [OF m] using assms(3)
    by (simp add: unsigned_ucast_eq take_bit_nat_eq_self order_less_le_trans [of _ 256] m_def)
  then have "(word_of_int (int m) :: Bit32u) \<noteq> ucast (spurious_vector l)" by metis
  moreover have "\<not> int m < 0" by simp
  ultimately show ?thesis by (simp only: receive_EOI_def Let_def h if_False if_True nat_int m_def [symmetric] simp_thms)
qed

definition served :: "bx_local_apic_c \<Rightarrow> bx_local_apic_c" where
  "served l = receive_EOI 0 (snd (acknowledge_int l))"

lemma served_facts:
  assumes ok: "lapic_ok l" and isr: "vectors (isr l) = {}" and d: "deliverable l"
    and sp: "unat (spurious_vector l) \<noteq> Max (vectors (irr l))"
  shows "lapic_ok (served l)" "vectors (isr (served l)) = {}" "vectors (irr (served l)) = vectors (irr l) - {Max (vectors (irr l))}"
    "task_priority (served l) = task_priority l" "spurious_vector (served l) = spurious_vector l"
    "pending_intr (served l) \<longleftrightarrow> deliverable (served l)"
proof -
  let ?m = "Max (vectors (irr l))" and ?t = "taken l"
  have p: "pending_intr l" using ok d by (simp add: lapic_ok_def)
  have m: "?m < 256" by (rule Max_vectors(2)) (use d in \<open>simp add: deliverable_def\<close>)
  note t = taken_frame [OF d]
  have core: "lapic_core ?t" by (rule taken_core [OF ok_core [OF ok] d])
  then have en: "enabled ?t" by (simp add: lapic_core_def)
  have ti: "vectors (isr ?t) = {?m}" using t(2) isr by simp
  have quiet: "service_local_apic ?t = ?t"
  proof (rule service_below [OF en])
    show "vectors (irr ?t) = {} \<or> Max (vectors (irr ?t)) \<le> Max (vectors (isr ?t))"
      unfolding t(1) ti by (metis Diff_subset Max_mono Max_singleton finite_vectors)
  qed (simp add: ti)
  have ack: "acknowledge_int l = (of_nat ?m, ?t)" using acknowledge_taken [OF ok_core [OF ok] d p] quiet by simp
  have s: "served l = retire_vector ?m ?t"
    unfolding served_def ack snd_conv using EOI_retires [OF en, of 0] sp t(7) ti by simp
  show "lapic_ok (served l)" unfolding served_def by (intro EOI_ok acknowledge_ok ok p)
  show i: "vectors (isr (served l)) = {}" unfolding s by (simp add: retire_frame m ti)
  show "vectors (irr (served l)) = vectors (irr l) - {Max (vectors (irr l))}"
    "task_priority (served l) = task_priority l" "spurious_vector (served l) = spurious_vector l"
    unfolding s by (simp_all add: retire_frame m t)
  let ?l = "if lapic_get_vector (tmr ?t) ?m
    then ?t\<lparr>isr := lapic_clear_vector (isr ?t) ?m, eoi_log := ?m # eoi_log ?t, tmr := lapic_clear_vector (tmr ?t) ?m\<rparr>
    else ?t\<lparr>isr := lapic_clear_vector (isr ?t) ?m\<rparr>"
  have r: "served l = service_local_apic ?l"
    unfolding s by (simp add: retire_vector_def apic_bus_broadcast_eoi_def Let_def)
  have "lapic_core ?l" using core m by (auto simp: lapic_core_def enabled_def ti)
  moreover have "vectors (isr ?l) = {}" using m by (simp add: ti)
  moreover have "\<not> pending_intr ?l" using t(10) by (simp add: is_pending_def)
  ultimately have "pending_intr (served l) \<longleftrightarrow> deliverable ?l" unfolding r by (rule service_exact)
  moreover have "deliverable (served l) = deliverable ?l" unfolding r using same_vectors_core [OF service_same] by blast
  ultimately show "pending_intr (served l) \<longleftrightarrow> deliverable (served l)" by blast
qed

lemma sorted_list_Max:
  fixes S :: "nat set"
  assumes "finite S" "S \<noteq> {}"
  shows "sorted_list_of_set S = sorted_list_of_set (S - {Max S}) @ [Max S]"
proof -
  let ?xs = "sorted_list_of_set (S - {Max S}) @ [Max S]"
  have "sorted ?xs" "distinct ?xs" using assms by (auto simp: sorted_append)
  moreover have "set ?xs = S" using insert_Diff [OF Max_in [OF assms]] assms(1) by simp
  ultimately show ?thesis using sorted_list_of_set.idem_if_sorted_distinct [of ?xs] by simp
qed

lemma drain_step:
  "drain (Suc n) l = (fst (acknowledge_int l) # fst (drain n (served l)), snd (drain n (served l)))"
  by (simp add: served_def split: prod.splits)

definition above_task :: "bx_local_apic_c \<Rightarrow> nat set" where
  "above_task l = {v \<in> vectors (irr l). unat (task_priority l) div 16 < v div 16}"

lemma above_task_Max:
  assumes "vectors (isr l) = {}" "above_task l \<noteq> {}"
  shows "deliverable l" "Max (above_task l) = Max (vectors (irr l))"
proof -
  have fin: "finite (above_task l)" "above_task l \<subseteq> vectors (irr l)" by (auto simp: above_task_def)
  then have ne: "vectors (irr l) \<noteq> {}" using assms(2) by auto
  let ?m = "Max (vectors (irr l))"
  obtain v where v: "v \<in> above_task l" using assms(2) by auto
  then have "v div 16 \<le> ?m div 16" using fin by (intro div_le_mono Max_ge) auto
  then have m: "?m \<in> above_task l" using v Max_vectors(1) [OF ne] by (auto simp: above_task_def)
  then show "deliverable l" using assms(1) ne by (auto simp: deliverable_def above_task_def)
  show "Max (above_task l) = ?m" using m fin by (intro Max_eqI) (auto intro: Max_ge)
qed

lemma drain_all:
  assumes "lapic_ok l" "vectors (isr l) = {}" "unat (spurious_vector l) \<notin> above_task l" "card (above_task l) = n"
  shows "map unat (fst (drain n l)) = rev (sorted_list_of_set (above_task l))
    \<and> vectors (irr (snd (drain n l))) = vectors (irr l) - above_task l \<and> vectors (isr (snd (drain n l))) = {}
    \<and> lapic_ok (snd (drain n l)) \<and> (0 < n \<longrightarrow> \<not> pending_intr (snd (drain n l)))"
  using assms
proof (induction n arbitrary: l)
  case 0
  then have "above_task l = {}" by (simp add: above_task_def)
  then show ?case using 0 by simp
next
  case (Suc n)
  then have ne: "above_task l \<noteq> {}" by auto
  note a = above_task_Max [OF Suc.prems(2) ne]
  let ?m = "Max (vectors (irr l))"
  have fin: "finite (above_task l)" by (simp add: above_task_def)
  have m: "?m \<in> above_task l" using Max_in [OF fin ne] a by simp
  then have sp: "unat (spurious_vector l) \<noteq> ?m" using Suc.prems(3) by auto
  note f = served_facts [OF Suc.prems(1,2) a(1) sp]
  have ab: "above_task (served l) = above_task l - {?m}" using f by (auto simp: above_task_def)
  have IH: "map unat (fst (drain n (served l))) = rev (sorted_list_of_set (above_task l - {?m}))
    \<and> vectors (irr (snd (drain n (served l)))) = vectors (irr l) - {?m} - (above_task l - {?m})
    \<and> vectors (isr (snd (drain n (served l)))) = {} \<and> lapic_ok (snd (drain n (served l)))
    \<and> (0 < n \<longrightarrow> \<not> pending_intr (snd (drain n (served l))))"
    using Suc.IH [of "served l"] f Suc.prems(3,4) m fin unfolding ab by simp
  have pend: "\<not> pending_intr (served l)" if "n = 0"
  proof -
    have "above_task (served l) = {}" using Suc.prems(4) m fin that unfolding ab by (simp add: card_Suc_eq) auto
    then have "\<not> deliverable (served l)"
      unfolding deliverable_def above_task_def using Max_vectors(1) [of "irr (served l)"] by blast
    then show ?thesis using f(6) by simp
  qed
  have p: "pending_intr l" using Suc.prems(1) a(1) by (simp add: lapic_ok_def)
  have "?m < 256" using m by (auto simp: above_task_def dest: vectors_bound)
  then have "unat (fst (acknowledge_int l)) = ?m"
    using acknowledge_taken [OF ok_core [OF Suc.prems(1)] a(1) p] by (simp add: unat_of_nat take_bit_nat_eq_self)
  moreover have "sorted_list_of_set (above_task l) = sorted_list_of_set (above_task l - {?m}) @ [?m]"
    using sorted_list_Max [OF fin ne] unfolding a(2) .
  moreover have "vectors (irr l) - {?m} - (above_task l - {?m}) = vectors (irr l) - above_task l" using m by auto
  ultimately show ?case unfolding drain_step using IH pend by (cases n) auto
qed

end
