(* ===== verification/Apic_Bus.thy ===== *)
theory Apic_Bus
  imports Lapic_Props
begin

text \<open>
  Which local APICs an interrupt message reaches, what the CPUs then take and in which order, and the registers and
  the timer of a local APIC.
\<close>

unbundle bit_operations_syntax

section \<open>Runs of the interrupt system\<close>

text \<open>
  What happens to the local APICs: a reset, a register write of the CPU, an interrupt message of the I/O APIC, an
  expired timer, and the CPU that takes an interrupt when the line is up.
\<close>

inductive apic_step :: "apic_bus \<times> unit bx_pc_system_c_scheme \<Rightarrow> apic_bus \<times> unit bx_pc_system_c_scheme \<Rightarrow> bool" where
  Reset: "apic_step x (on_cpu i lapic_reset x)"
| Base: "apic_step x (on_lapic i (set_base a) x)"
| Write: "apic_step x (lapic_write i a v n x)"
| Write_msr: "apic_step x (snd (write_x2apic i msr h w x))"
| Deadline: "apic_step x (on_cpu i (set_tsc_deadline d) x)"
| Task_priority: "apic_step x (on_lapic i (set_tpr p) x)"
| Message: "apic_step (b, s) (snd (apic_bus_deliver_interrupt v d dm lg lv tm b), s)"
| Smi: "apic_step (b, s) (apic_bus_broadcast_smi b, s)"
| Timer: "apic_step x (on_cpu i lapic_periodic x)"
| Acknowledge: "pending_intr (cpus (fst x) i) \<Longrightarrow> apic_step x (on_lapic i (\<lambda>l. snd (acknowledge_int l)) x)"
| Time: "apic_step (b, s) (b, s')"

inductive_cases apic_stepE: "apic_step x y"

lemma fold_ok: "(\<And>i x. P x \<Longrightarrow> P (f i x)) \<Longrightarrow> P x \<Longrightarrow> P (fold f is x)"
  by (induction "is" arbitrary: x) auto

section \<open>Invariants of the interrupt system\<close>

text \<open>
  A property of local APICs that every operation on one of them keeps. The operations of the bus, the register
  writes and the steps below then keep it for all of them. The extended registers are left out.
\<close>

locale lapic_invariant =
  fixes P :: "bx_local_apic_c \<Rightarrow> bool"
  assumes no_ext: "P l \<Longrightarrow> \<not> xapic_ext_supported l"
    and trigger: "P l \<Longrightarrow> P (trigger_irq v tm byp l)"
    and events: "P l \<Longrightarrow> P (deliver_SMI l)" "P l \<Longrightarrow> P (deliver_NMI l)" "P l \<Longrightarrow> P (deliver_INIT l)" "P l \<Longrightarrow> P (deliver_SIPI v l)"
    and panic: "P l \<Longrightarrow> P (panic_lapic l)"
    and errors: "P l \<Longrightarrow> P (l\<lparr>shadow_error_status := e\<rparr>)" "P l \<Longrightarrow> P (l\<lparr>error_status := e, shadow_error_status := e'\<rparr>)"
    and tpr: "P l \<Longrightarrow> P (set_tpr p l)"
    and eoi: "P l \<Longrightarrow> P (receive_EOI val l)"
    and ack: "P l \<Longrightarrow> pending_intr l \<Longrightarrow> P (snd (acknowledge_int l))"
    and dest: "P l \<Longrightarrow> P (l\<lparr>ldr := val\<rparr>)" "P l \<Longrightarrow> P (l\<lparr>dest_format := drop_bit 28 val AND 0xf\<rparr>)"
    and icr: "P l \<Longrightarrow> P (l\<lparr>icr_lo := val AND NOT 0x1000\<rparr>)" "P l \<Longrightarrow> P (l\<lparr>icr_hi := val AND 0xff000000\<rparr>)"
    and svr: "P l \<Longrightarrow> P (write_spurious_interrupt_register val l)"
    and base: "P l \<Longrightarrow> P (set_base a l)"
    and lvt: "P l \<Longrightarrow> regs_from 0x320 6 r \<or> r = 0x2F0 \<Longrightarrow> P (fst (set_lvt_entry r val (l, s :: bx_pc_system_c)))"
    and count: "P l \<Longrightarrow> P (fst (set_initial_timer_count val (l, s :: bx_pc_system_c)))"
    and divide: "P l \<Longrightarrow> P (set_divide_configuration (val AND 0xb) (l\<lparr>timer_divconf := val AND 0xb\<rparr>))"
    and deadline: "P l \<Longrightarrow> P (fst (set_tsc_deadline d (l, s :: bx_pc_system_c)))"
    and timer: "P l \<Longrightarrow> P (fst (lapic_periodic (l, s :: bx_pc_system_c)))"
    and reset: "P l \<Longrightarrow> P (fst (lapic_reset (l, s :: bx_pc_system_c)))"
begin

definition all_ok :: "'a apic_bus_scheme \<Rightarrow> bool" where
  "all_ok b \<longleftrightarrow> (\<forall>i. P (cpus b i))"

lemma deliver_all: "P l \<Longrightarrow> P (snd (deliver v dm tm l))"
  using trigger events by (simp add: deliver_def startup_msg_def)

lemma match_all: "P l \<Longrightarrow> P (snd (match_logical_addr d l))"
  using panic by (simp add: match_logical_addr_def)

lemma upd_all: "all_ok b \<Longrightarrow> (P (cpus b i) \<Longrightarrow> P (f (cpus b i))) \<Longrightarrow> all_ok (upd_cpu i f b)"
  by (simp add: all_ok_def upd_cpu_def)

lemma lowest_all:
  assumes "all_ok b" shows "all_ok (snd (apic_bus_deliver_lowest_priority v d tm bc b))"
proof -
  have step: "all_ok (snd (arbitrate d bc i x))" if "all_ok (snd x)" for i x
    using that match_all [of "cpus (snd x) i" d]
    by (auto simp: arbitrate_def Let_def all_ok_def upd_cpu_def split: prod.splits if_splits)
  have "all_ok (snd (fold (arbitrate d bc) is ((None, 0x100), b)))" for "is"
    by (rule fold_ok [where P = "\<lambda>x. all_ok (snd x)"]) (simp_all add: step assms)
  then have "all_ok b'" if "fold (arbitrate d bc) is ((None, 0x100), b) = (y, b')" for "is" y b'
    using that by (metis snd_conv)
  then show ?thesis using assms
    by (auto simp: apic_bus_deliver_lowest_priority_def Let_def deliver_all intro!: upd_all split: option.splits prod.splits)
qed

lemma broadcast_all:
  assumes "all_ok b" shows "all_ok (snd (apic_bus_broadcast_interrupt v dm tm ex b))"
proof -
  have "all_ok (fold (\<lambda>i b. if i = ex' then b else upd_cpu i (\<lambda>l. snd (deliver v dm tm l)) b) is b)" for ex' "is"
    by (rule fold_ok [where P = all_ok]) (auto intro: upd_all deliver_all assms)
  then show ?thesis using lowest_all [OF assms] by (simp add: apic_bus_broadcast_interrupt_def)
qed

lemma message_all:
  assumes "all_ok b" shows "all_ok (snd (apic_bus_deliver_interrupt v d dm lg lv tm b))"
proof -
  have step: "all_ok (snd (deliver_logical v d dm tm i x))" if "all_ok (snd x)" for i x
    using that match_all [of "cpus (snd x) i" d] deliver_all [of "snd (match_logical_addr d (cpus (snd x) i))" v dm tm]
    by (auto simp: deliver_logical_def Let_def all_ok_def upd_cpu_def split: prod.splits if_splits)
  have "all_ok (snd (fold (deliver_logical v d dm tm) is (False, b)))" for "is"
    by (rule fold_ok [where P = "\<lambda>x. all_ok (snd x)"]) (simp_all add: step assms)
  then show ?thesis using lowest_all [OF assms] broadcast_all [OF assms] assms
    by (auto simp: apic_bus_deliver_interrupt_def deliver_all intro!: upd_all split: option.splits)
qed

lemma ipi_all:
  fixes b :: "'a apic_bus_scheme"
  assumes "all_ok b" shows "all_ok (send_ipi i d cmd b)"
proof -
  have fin: "all_ok (case x of (acc, b) \<Rightarrow>
      if \<not> acc then upd_cpu i (\<lambda>l. l\<lparr>shadow_error_status := shadow_error_status l OR 4\<rparr>) b else b)"
    if "all_ok (snd x)" for x :: "bool \<times> 'a apic_bus_scheme"
    using that by (auto simp: errors intro!: upd_all split: prod.splits)
  show ?thesis unfolding send_ipi_def Let_def
    by (auto intro!: fin simp: broadcast_all message_all upd_all trigger assms)
qed

lemma on_lapic_all:
  "all_ok (fst x) \<Longrightarrow> (P (cpus (fst x) i) \<Longrightarrow> P (f (cpus (fst x) i))) \<Longrightarrow> all_ok (fst (on_lapic i f x))"
  by (cases x) (simp add: on_lapic_def upd_all)

lemma on_cpu_all:
  assumes "all_ok (fst x)" "\<And>l s. P l \<Longrightarrow> P (fst (f (l, s)))"
  shows "all_ok (fst (on_cpu i f x))"
proof -
  obtain b s where x: "x = (b, s)" by (cases x)
  have "P (fst (f (cpus b i, s)))" using assms by (simp add: all_ok_def x)
  then show ?thesis using assms(1) by (auto simp: on_cpu_def x intro!: upd_all split: prod.splits)
qed

lemma write_all:
  fixes x :: "'b apic_bus_scheme \<times> bx_pc_system_c"
  assumes "all_ok (fst x)" shows "all_ok (fst (lapic_write_aligned i a v x))"
proof -
  define y where "y = (if a AND 0xf = 0 then x else on_lapic i panic_lapic x)"
  define r where "r = lapic_register a (cpus (fst y) i)"
  have y: "all_ok (fst y)" unfolding y_def using assms by (simp add: on_lapic_all panic)
  then have "r < 0x400 \<or> r = 0xffffffff" using no_ext by (auto simp: lapic_register_def Let_def all_ok_def r_def)
  then have hi: "\<not> regs_from 0x480 8 r" "r \<notin> {0x400, 0x410, 0x420}" by (auto simp: regs_from_def upt_rec)
  have lo: "all_ok (fst (let (b, s) = on_lapic i (\<lambda>l. l\<lparr>icr_lo := v AND NOT 0x1000\<rparr>) y; l = cpus b i
      in (send_ipi i (drop_bit 24 (icr_hi l) AND 0xff) (icr_lo l) b, s)))"
    using on_lapic_all [OF y, of i "\<lambda>l. l\<lparr>icr_lo := v AND NOT 0x1000\<rparr>"] icr(1)
    by (auto simp: Let_def intro!: ipi_all split: prod.splits)
  have "P (illegal_address l)" if "P l" for l using errors(1) [OF that] by (simp add: illegal_address_def)
  moreover have "all_ok (fst (on_cpu i (set_lvt_entry r v) y))" if "regs_from 0x320 6 r \<or> r = 0x2F0"
    using y that by (intro on_cpu_all lvt)
  moreover have "all_ok (fst (on_cpu i (set_initial_timer_count v) y))" using y by (intro on_cpu_all count)
  moreover have "all_ok (fst (on_lapic i (\<lambda>l. let l = l\<lparr>timer_divconf := v AND 0xb\<rparr> in set_divide_configuration (timer_divconf l) l) y))"
    using y divide by (intro on_lapic_all) (simp_all add: Let_def)
  ultimately show ?thesis
    unfolding lapic_write_aligned_def y_def [symmetric] Let_def [of y] r_def [symmetric] Let_def [of r]
    using hi y lo by (auto intro!: on_lapic_all simp: tpr eoi svr dest icr errors)
qed

lemma write_x2apic_all:
  fixes x :: "'b apic_bus_scheme \<times> bx_pc_system_c"
  shows "all_ok (fst x) \<Longrightarrow> all_ok (fst (snd (write_x2apic i msr h w x)))"
  by (auto simp: write_x2apic_def Let_def write_all ipi_all trigger intro!: on_lapic_all)

lemma step_all: "apic_step x y \<Longrightarrow> all_ok (fst x) \<Longrightarrow> all_ok (fst y)"
proof (induction rule: apic_step.induct)
  case (Write x i a v n)
  then show ?case by (auto simp: lapic_write_def panic write_all intro!: on_lapic_all)
next
  case (Smi b s)
  then show ?case by (auto simp: apic_bus_broadcast_smi_def intro!: fold_ok [where P = all_ok] upd_all events)
next
  case (Acknowledge x i)
  then show ?case by (auto intro!: on_lapic_all ack)
qed (auto intro!: on_lapic_all on_cpu_all base deadline tpr timer reset simp: write_x2apic_all message_all)

lemma steps_all: "apic_step\<^sup>*\<^sup>* x y \<Longrightarrow> all_ok (fst x) \<Longrightarrow> all_ok (fst y)"
  by (induction rule: rtranclp_induct) (auto intro: step_all)

end

lemma lapic_ok_reset:
  assumes "lapic_ok l" shows "lapic_ok (fst (lapic_reset (l, s)))"
  by (rule reset_ok) (use assms in \<open>simp add: lapic_ok_def lapic_core_def enabled_def\<close>)

interpretation lok: lapic_invariant lapic_ok
proof unfold_locales
  fix l assume "lapic_ok l"
  then show "\<not> xapic_ext_supported l" by (simp add: lapic_ok_def lapic_core_def enabled_def)
next
  fix l e e' val assume l: "lapic_ok l"
  show "lapic_ok (l\<lparr>shadow_error_status := e\<rparr>)" "lapic_ok (l\<lparr>error_status := e, shadow_error_status := e'\<rparr>)"
    "lapic_ok (l\<lparr>ldr := val\<rparr>)" "lapic_ok (l\<lparr>dest_format := drop_bit 28 val AND 0xf\<rparr>)"
    "lapic_ok (l\<lparr>icr_lo := val AND NOT 0x1000\<rparr>)" "lapic_ok (l\<lparr>icr_hi := val AND 0xff000000\<rparr>)"
    by (rule frame_ok [OF l]; simp add: bx_cpu_events.truncate_def)+
qed (simp_all add: trigger_ok SMI_ok NMI_ok INIT_ok SIPI_ok lapic_panic_ok set_tpr_ok EOI_ok acknowledge_ok svr_ok set_base_ok
      set_lvt_ok initial_count_ok divide_ok tsc_deadline_ok periodic_ok lapic_ok_reset)

section \<open>Destinations\<close>

lemma fold_upd_cpu:
  "fold (\<lambda>i. upd_cpu i (f i)) [0..<n] b = b\<lparr>cpus := (\<lambda>i. if i < n then f i (cpus b i) else cpus b i)\<rparr>"
  by (induction n) (auto simp: upd_cpu_def fun_eq_iff less_Suc_eq)

lemma upd_cpu_id: "f (cpus b i) = cpus b i \<Longrightarrow> upd_cpu i f b = b"
  by (simp add: upd_cpu_def)

definition formats_ok :: "'a apic_bus_scheme \<Rightarrow> bool" where
  "formats_ok b \<longleftrightarrow> (\<forall>i<bx_cpu_count b. mode (cpus b i) = BX_APIC_X2APIC_MODE \<or> dest_format (cpus b i) \<in> {0, 0xf})"

definition distinct_ids :: "'a apic_bus_scheme \<Rightarrow> bool" where
  "distinct_ids b \<longleftrightarrow> inj_on (\<lambda>i. apic_id (cpus b i)) {0..<bx_cpu_count b}"

text \<open>The CPUs addressed by a destination field, in physical and in logical mode.\<close>

definition destinations :: "Bit32u \<Rightarrow> bool \<Rightarrow> 'a apic_bus_scheme \<Rightarrow> nat set" where
  "destinations dest logical_dest b = {i. i < bx_cpu_count b \<and>
     (if logical_dest then dest \<noteq> 0 \<and> fst (match_logical_addr dest (cpus b i))
      else dest AND apic_id_mask b = apic_id_mask b \<or> apic_id (cpus b i) = dest)}"

lemma match_same: "mode l = 3 \<or> dest_format l \<in> {0, 0xf} \<Longrightarrow> snd (match_logical_addr d l) = l"
  by (auto simp: match_logical_addr_def)

lemma deliver_logical_step:
  assumes "mode (cpus b i) = 3 \<or> dest_format (cpus b i) \<in> {0, 0xf}"
  shows "deliver_logical v d dm tm i (x, b) =
    (x \<or> fst (match_logical_addr d (cpus b i)),
     if fst (match_logical_addr d (cpus b i)) then upd_cpu i (\<lambda>l. snd (deliver v dm tm l)) b else b)"
  using match_same [OF assms, of d] by (auto simp: deliver_logical_def upd_cpu_def split: prod.splits)

lemma fold_logical:
  assumes "\<forall>i<n. mode (cpus b i) = 3 \<or> dest_format (cpus b i) \<in> {0, 0xf}"
  shows "fold (deliver_logical v d dm tm) [0..<n] (False, b) =
    (\<exists>i<n. fst (match_logical_addr d (cpus b i)),
     b\<lparr>cpus := (\<lambda>i. if i < n \<and> fst (match_logical_addr d (cpus b i)) then snd (deliver v dm tm (cpus b i)) else cpus b i)\<rparr>)"
  using assms
proof (induction n)
  case (Suc n)
  let ?b = "b\<lparr>cpus := (\<lambda>i. if i < n \<and> fst (match_logical_addr d (cpus b i)) then snd (deliver v dm tm (cpus b i)) else cpus b i)\<rparr>"
  have "fold (deliver_logical v d dm tm) [0..<Suc n] (False, b) =
      deliver_logical v d dm tm n (\<exists>i<n. fst (match_logical_addr d (cpus b i)), ?b)"
    using Suc by simp
  also have "\<dots> = ((\<exists>i<n. fst (match_logical_addr d (cpus b i))) \<or> fst (match_logical_addr d (cpus ?b n)),
      if fst (match_logical_addr d (cpus ?b n)) then upd_cpu n (\<lambda>l. snd (deliver v dm tm l)) ?b else ?b)"
    by (rule deliver_logical_step) (use Suc.prems in simp)
  finally show ?case by (auto simp: upd_cpu_def less_Suc_eq fun_eq_iff)
qed simp

lemma fold_broadcast:
  "fold (\<lambda>i b. if i = ex then b else upd_cpu i (\<lambda>l. snd (deliver v dm tm l)) b) [0..<n] b =
    b\<lparr>cpus := (\<lambda>i. if i < n \<and> i \<noteq> ex then snd (deliver v dm tm (cpus b i)) else cpus b i)\<rparr>"
  by (induction n) (auto simp: upd_cpu_def fun_eq_iff less_Suc_eq)

lemma find_unique:
  assumes "inj_on g {0..<n}" "i < n" "g i = x"
  shows "find (\<lambda>i. g i = x) [0..<n] = Some i"
proof -
  have "find (\<lambda>i. g i = x) [0..<n] \<noteq> None" using assms by (auto simp: find_None_iff)
  then obtain j where j: "find (\<lambda>i. g i = x) [0..<n] = Some j" by auto
  then have "j < n" "g j = x" by (auto simp: find_Some_iff)
  then have "j = i" using assms by (auto dest: inj_onD)
  then show ?thesis using j by simp
qed

text \<open>
  C13: On a board whose CPUs have distinct identifiers, are no more than the identifier mask allows, and use the flat or
  the cluster format or x2APIC mode, a message that is not lowest-priority reaches exactly the local APICs its
  destination names: the one with that identifier or all of them in physical mode, those whose logical address
  matches in logical mode. Each of them delivers it once, the others are unchanged, and the sender is told whether there
  was a receiver.
\<close>

theorem message_destinations:
  assumes "dm \<noteq> APIC_DM_LOWPRI" "distinct_ids b" "formats_ok b" "0 < bx_cpu_count b" "bx_cpu_count b \<le> unat (apic_id_mask b)"
  shows "apic_bus_deliver_interrupt v dest dm logical_dest level tm b =
    (destinations dest logical_dest b \<noteq> {},
     b\<lparr>cpus := (\<lambda>i. if i \<in> destinations dest logical_dest b then snd (deliver v dm tm (cpus b i)) else cpus b i)\<rparr>)"
proof (cases logical_dest)
  case True
  then show ?thesis using assms fold_logical [of "bx_cpu_count b" b v dest dm tm]
    by (auto simp: apic_bus_deliver_interrupt_def destinations_def formats_ok_def fun_eq_iff)
next
  case False
  show ?thesis
  proof (cases "dest AND apic_id_mask b = apic_id_mask b")
    case True
    then show ?thesis using assms False fold_broadcast [of "unat (apic_id_mask b)" v dm tm "bx_cpu_count b" b]
      by (auto simp: apic_bus_deliver_interrupt_def apic_bus_broadcast_interrupt_def destinations_def fun_eq_iff)
  next
    case no_broadcast: False
    show ?thesis
    proof (cases "\<exists>i<bx_cpu_count b. apic_id (cpus b i) = dest")
      case True
      then obtain i where i: "i < bx_cpu_count b" "apic_id (cpus b i) = dest" by blast
      then have "destinations dest logical_dest b = {i}"
        using assms(2) False no_broadcast by (auto simp: destinations_def distinct_ids_def dest: inj_onD)
      then show ?thesis using find_unique [of "\<lambda>i. apic_id (cpus b i)", OF _ i] assms(1,2) False no_broadcast
        by (auto simp: apic_bus_deliver_interrupt_def distinct_ids_def upd_cpu_def fun_eq_iff)
    next
      case none: False
      then have "find (\<lambda>i. apic_id (cpus b i) = dest) [0..<bx_cpu_count b] = None" by (auto simp: find_None_iff)
      moreover have "destinations dest logical_dest b = {}" using none False no_broadcast by (auto simp: destinations_def)
      ultimately show ?thesis using assms(1) False no_broadcast by (simp add: apic_bus_deliver_interrupt_def)
    qed
  qed
qed

section \<open>Lowest priority\<close>

text \<open>The priority that takes part in the arbitration.\<close>

definition agent_priority :: "bx_local_apic_c \<Rightarrow> nat" where
  "agent_priority l = unat (if xapic l then get_tpr l else get_apr l)"

lemma agent_priority_less: "agent_priority l < 0x100"
  by (simp add: agent_priority_def)

lemma arbitrate_step:
  assumes "mode (cpus b i) = 3 \<or> dest_format (cpus b i) \<in> {0, 0xf}"
  shows "arbitrate dest bc i ((a, p), b) =
    ((if (bc \<or> fst (match_logical_addr dest (cpus b i))) \<and> agent_priority (cpus b i) < p
      then (Some i, agent_priority (cpus b i)) else (a, p)), b)"
  using match_same [OF assms, of dest] by (auto simp: arbitrate_def agent_priority_def Let_def upd_cpu_def split: prod.splits)

definition lowest_agent :: "(nat \<Rightarrow> bool) \<Rightarrow> (nat \<Rightarrow> nat) \<Rightarrow> nat \<Rightarrow> nat option \<Rightarrow> nat \<Rightarrow> bool" where
  "lowest_agent P f n a p \<longleftrightarrow> (case a of
       None \<Rightarrow> (\<forall>i<n. \<not> P i) \<and> p = 0x100
     | Some k \<Rightarrow> k < n \<and> P k \<and> p = f k \<and> (\<forall>i<n. P i \<longrightarrow> f k \<le> f i) \<and> (\<forall>i<k. P i \<longrightarrow> f k < f i))"

lemma fold_arbitrate:
  assumes "\<forall>i<n. mode (cpus b i) = 3 \<or> dest_format (cpus b i) \<in> {0, 0xf}"
  shows "\<exists>a p. fold (arbitrate dest bc) [0..<n] ((None, 0x100), b) = ((a, p), b) \<and>
    lowest_agent (\<lambda>i. bc \<or> fst (match_logical_addr dest (cpus b i))) (\<lambda>i. agent_priority (cpus b i)) n a p"
  using assms
proof (induction n)
  case 0
  then show ?case by (simp add: lowest_agent_def)
next
  case (Suc n)
  then obtain a p where ap: "fold (arbitrate dest bc) [0..<n] ((None, 0x100), b) = ((a, p), b)"
    and low: "lowest_agent (\<lambda>i. bc \<or> fst (match_logical_addr dest (cpus b i))) (\<lambda>i. agent_priority (cpus b i)) n a p"
    by auto
  have "fold (arbitrate dest bc) [0..<Suc n] ((None, 0x100), b) = arbitrate dest bc n ((a, p), b)" using ap by simp
  also have "\<dots> = ((if (bc \<or> fst (match_logical_addr dest (cpus b n))) \<and> agent_priority (cpus b n) < p
      then (Some n, agent_priority (cpus b n)) else (a, p)), b)"
    by (rule arbitrate_step) (use Suc.prems in simp)
  finally show ?case using low agent_priority_less [of "cpus b n"]
    by (cases a) (auto simp: lowest_agent_def less_Suc_eq)
qed

text \<open>
  C14: Where CPUs use the flat or the cluster format or x2APIC mode, a lowest-priority message to xAPICs goes to one of the
  agents its logical destination names, one whose task priority is the lowest of them, the first of these; when there is
  none it is refused and nothing changes.
\<close>

theorem lowest_priority_arbitration:
  assumes "xapic (cpus b 0)" "formats_ok b"
  shows "case apic_bus_deliver_interrupt v dest APIC_DM_LOWPRI True level tm b of
      (False, b') \<Rightarrow> b' = b \<and> (\<forall>i<bx_cpu_count b. \<not> fst (match_logical_addr dest (cpus b i)))
    | (True, b') \<Rightarrow> \<exists>k<bx_cpu_count b. b' = upd_cpu k (trigger_irq v tm False) b \<and> fst (match_logical_addr dest (cpus b k))
        \<and> (\<forall>i<bx_cpu_count b. fst (match_logical_addr dest (cpus b i)) \<longrightarrow>
             agent_priority (cpus b k) \<le> agent_priority (cpus b i) \<and> (i < k \<longrightarrow> agent_priority (cpus b k) < agent_priority (cpus b i)))"
proof -
  obtain a p where f: "fold (arbitrate dest False) [0..<bx_cpu_count b] ((None, 0x100), b) = ((a, p), b)"
    and low: "lowest_agent (\<lambda>i. fst (match_logical_addr dest (cpus b i))) (\<lambda>i. agent_priority (cpus b i)) (bx_cpu_count b) a p"
    using fold_arbitrate [of "bx_cpu_count b" b dest False] assms(2) by (auto simp: formats_ok_def)
  show ?thesis
  proof (cases a)
    case None
    then show ?thesis using f low assms(1)
      by (simp add: apic_bus_deliver_interrupt_def apic_bus_deliver_lowest_priority_def lowest_agent_def)
  next
    case (Some k)
    then have "apic_bus_deliver_interrupt v dest APIC_DM_LOWPRI True level tm b = (True, upd_cpu k (trigger_irq v tm False) b)"
      using f assms(1) by (simp add: apic_bus_deliver_interrupt_def apic_bus_deliver_lowest_priority_def deliver_def)
    then show ?thesis using low Some by (auto simp: lowest_agent_def)
  qed
qed

end
