(* ===== verification/Ioapic.thy ===== *)
theory Ioapic
  imports Apic_Bus Memory Pic
begin

text \<open>
  The I/O APIC of \<^verbatim>\<open>iodev/ioapic.cc\<close> and \<^verbatim>\<open>iodev/ioapic.h\<close>: the interrupt pins, the redirection table, delivery over the APIC
  bus, and the registers, which a program reaches through handlers of the physical memory. The record extends the
  bus, and holds the interrupt controllers that an entry in ExtINT mode asks for the vector.
\<close>

unbundle bit_operations_syntax

section \<open>Redirection entries\<close>

record bx_io_redirect_entry_t =
  hi :: Bit32u
  lo :: Bit32u

definition destination :: "bx_io_redirect_entry_t \<Rightarrow> Bit8u" where "destination e = ucast (drop_bit 24 (hi e))"
definition is_masked :: "bx_io_redirect_entry_t \<Rightarrow> bool" where "is_masked e \<longleftrightarrow> drop_bit 16 (lo e) AND 1 \<noteq> 0"
definition trigger_mode :: "bx_io_redirect_entry_t \<Rightarrow> Bit8u" where "trigger_mode e = ucast (drop_bit 15 (lo e) AND 1)"
definition remote_irr :: "bx_io_redirect_entry_t \<Rightarrow> bool" where "remote_irr e \<longleftrightarrow> drop_bit 14 (lo e) AND 1 \<noteq> 0"
definition pin_polarity :: "bx_io_redirect_entry_t \<Rightarrow> Bit8u" where "pin_polarity e = ucast (drop_bit 13 (lo e) AND 1)"
definition delivery_status :: "bx_io_redirect_entry_t \<Rightarrow> bool" where "delivery_status e \<longleftrightarrow> drop_bit 12 (lo e) AND 1 \<noteq> 0"
definition destination_mode :: "bx_io_redirect_entry_t \<Rightarrow> Bit8u" where "destination_mode e = ucast (drop_bit 11 (lo e) AND 1)"
definition delivery_mode :: "bx_io_redirect_entry_t \<Rightarrow> Bit8u" where "delivery_mode e = ucast (drop_bit 8 (lo e) AND 7)"
definition entry_vector :: "bx_io_redirect_entry_t \<Rightarrow> Bit8u" where "entry_vector e = ucast (lo e AND 0xff)"

definition set_delivery_status :: "bx_io_redirect_entry_t \<Rightarrow> bx_io_redirect_entry_t" where
  "set_delivery_status e = e\<lparr>lo := lo e OR push_bit 12 1\<rparr>"
definition clear_delivery_status :: "bx_io_redirect_entry_t \<Rightarrow> bx_io_redirect_entry_t" where
  "clear_delivery_status e = e\<lparr>lo := lo e AND NOT (push_bit 12 1)\<rparr>"
definition set_remote_irr :: "bx_io_redirect_entry_t \<Rightarrow> bx_io_redirect_entry_t" where
  "set_remote_irr e = e\<lparr>lo := lo e OR push_bit 14 1\<rparr>"
definition clear_remote_irr :: "bx_io_redirect_entry_t \<Rightarrow> bx_io_redirect_entry_t" where
  "clear_remote_irr e = e\<lparr>lo := lo e AND NOT (push_bit 14 1)\<rparr>"
definition set_lo_part :: "Bit32u \<Rightarrow> bx_io_redirect_entry_t \<Rightarrow> bx_io_redirect_entry_t" where
  "set_lo_part v e = e\<lparr>lo := v AND 0xffffafff\<rparr>"
definition set_hi_part :: "Bit32u \<Rightarrow> bx_io_redirect_entry_t \<Rightarrow> bx_io_redirect_entry_t" where
  "set_hi_part v e = e\<lparr>hi := v\<rparr>"

section \<open>State\<close>

record bx_ioapic_c = apic_bus +
  ioapic_enabled :: bool
  ioapic_base_addr :: Bit64u
  ioapic_id :: Bit32u
  ioregsel :: Bit32u
  intin :: Bit32u
  ioapic_irr :: Bit32u
  ioredtbl :: "nat \<Rightarrow> bx_io_redirect_entry_t"
  stuck :: nat
  thePic :: bx_pic_c
  ioapic_panics :: nat

abbreviation (input) BX_IOAPIC_NUM_PINS :: nat where "BX_IOAPIC_NUM_PINS \<equiv> 0x18"
abbreviation (input) BX_IOAPIC_VERSION_ID :: Bit32u where "BX_IOAPIC_VERSION_ID \<equiv> 0x00170011"
abbreviation (input) BX_IOAPIC_BASE_ADDR :: Bit64u where "BX_IOAPIC_BASE_ADDR \<equiv> 0xfec00000"

definition panic_ioapic :: "bx_ioapic_c \<Rightarrow> bx_ioapic_c" where
  "panic_ioapic s = s\<lparr>ioapic_panics := ioapic_panics s + 1\<rparr>"

definition upd_entry :: "nat \<Rightarrow> (bx_io_redirect_entry_t \<Rightarrow> bx_io_redirect_entry_t) \<Rightarrow> bx_ioapic_c \<Rightarrow> bx_ioapic_c" where
  "upd_entry i f s = s\<lparr>ioredtbl := (ioredtbl s)(i := f (ioredtbl s i))\<rparr>"

definition set_id :: "Bit32u \<Rightarrow> bx_ioapic_c \<Rightarrow> bx_ioapic_c" where
  "set_id new_id s = s\<lparr>ioapic_id := new_id\<rparr>"

text \<open>The constructor; the default identifier is the number of CPUs.\<close>

definition ioapic_new :: "bx_ioapic_c \<Rightarrow> bx_ioapic_c" where
  "ioapic_new s =
     set_id (of_nat (bx_cpu_count s)) (s\<lparr>ioapic_enabled := False, ioapic_base_addr := BX_IOAPIC_BASE_ADDR, intin := 0,
       ioredtbl := (\<lambda>_. \<lparr>hi = 0, lo = 0x10000\<rparr>)\<rparr>)"

definition ioapic_reset :: "bx_ioapic_c \<Rightarrow> bx_ioapic_c" where
  "ioapic_reset s =
     (let s = fold (\<lambda>i. upd_entry i (\<lambda>e. set_hi_part 0x00000000 (set_lo_part 0x00010000 e))) [0..<BX_IOAPIC_NUM_PINS] s
      in s\<lparr>intin := 0, ioapic_irr := 0, ioregsel := 0\<rparr>)"

section \<open>Delivery\<close>

definition service_pin :: "nat \<Rightarrow> bx_ioapic_c \<Rightarrow> bx_ioapic_c" where
  "service_pin b s =
     (let msk = push_bit b 1 :: Bit32u
      in if ioapic_irr s AND msk \<noteq> 0 then
           let entry = ioredtbl s b
           in if \<not> is_masked entry then
                let (v, s) = (if delivery_mode entry = 7
                              then let (v, p) = IAC (thePic s) in (v, s\<lparr>thePic := p\<rparr>)
                              else (entry_vector entry, s));
                    (done, s) = apic_bus_deliver_interrupt v (ucast (destination entry)) (delivery_mode entry)
                                  (destination_mode entry \<noteq> 0) (pin_polarity entry \<noteq> 0) (trigger_mode entry \<noteq> 0) s
                in if done then
                     let s = (if trigger_mode entry = 0 then s\<lparr>ioapic_irr := ioapic_irr s AND NOT msk\<rparr> else s)
                     in (upd_entry b clear_delivery_status s)\<lparr>stuck := 0\<rparr>
                   else (upd_entry b set_delivery_status s)\<lparr>stuck := stuck s + 1\<rparr>
              else s
         else s)"

definition service_ioapic :: "bx_ioapic_c \<Rightarrow> bx_ioapic_c" where
  "service_ioapic s = fold service_pin [0..<BX_IOAPIC_NUM_PINS] s"

definition set_irq_level :: "nat \<Rightarrow> bool \<Rightarrow> bx_ioapic_c \<Rightarrow> bx_ioapic_c" where
  "set_irq_level int_in level s =
     (let int_in = (if int_in = 0 then 2 else int_in)
      in if int_in < BX_IOAPIC_NUM_PINS then
           let b = push_bit int_in 1 :: Bit32u
           in if push_bit int_in (of_bool level) \<noteq> intin s AND b then
                let entry = ioredtbl s int_in
                in if trigger_mode entry \<noteq> 0 then
                     if level then service_ioapic (s\<lparr>intin := intin s OR b, ioapic_irr := ioapic_irr s OR b\<rparr>)
                     else s\<lparr>intin := intin s AND NOT b, ioapic_irr := ioapic_irr s AND NOT b\<rparr>
                   else
                     if level then
                       let s = s\<lparr>intin := intin s OR b\<rparr>
                       in if \<not> is_masked entry then service_ioapic (s\<lparr>ioapic_irr := ioapic_irr s OR b\<rparr>) else s
                     else s\<lparr>intin := intin s AND NOT b\<rparr>
              else s
         else s)"

text \<open>\<open>receive_eoi\<close> only writes a message to the log.\<close>

definition receive_eoi :: "Bit8u \<Rightarrow> bx_ioapic_c \<Rightarrow> bx_ioapic_c" where
  "receive_eoi v s = s"

section \<open>Registers\<close>

definition ioapic_read_aligned :: "Bit64u \<Rightarrow> bx_ioapic_c \<Rightarrow> Bit32u \<times> bx_ioapic_c" where
  "ioapic_read_aligned address s =
     (let address = address AND 0xff
      in if address = 0x00 then (ioregsel s, s)
         else
           let s = (if address \<noteq> 0x10 then panic_ioapic s else s)
           in if ioregsel s = 0x00 then (push_bit 24 (ioapic_id s AND apic_id_mask s), s)
              else if ioregsel s = 0x01 then (BX_IOAPIC_VERSION_ID, s)
              else if ioregsel s = 0x02 then (0, s)
              else
                let index = sint (drop_bit 1 (ioregsel s - 0x10))
                in if index \<ge> 0 \<and> index < int BX_IOAPIC_NUM_PINS then
                     let entry = ioredtbl s (nat index)
                     in (if ioregsel s AND 1 \<noteq> 0 then hi entry else lo entry, s)
                   else (0, panic_ioapic s))"

definition ioapic_write_aligned :: "Bit64u \<Rightarrow> Bit32u \<Rightarrow> bx_ioapic_c \<Rightarrow> bx_ioapic_c" where
  "ioapic_write_aligned address val s =
     (let address = address AND 0xff
      in if address = 0x00 then s\<lparr>ioregsel := val\<rparr>
         else
           let s = (if address \<noteq> 0x10 then panic_ioapic s else s)
           in if ioregsel s = 0x00 then
                let newid = ucast (drop_bit 24 val AND apic_id_mask s) :: Bit8u in set_id (ucast newid) s
              else if ioregsel s = 0x01 \<or> ioregsel s = 0x02 then s
              else
                let index = sint (drop_bit 1 (ioregsel s - 0x10))
                in if index \<ge> 0 \<and> index < int BX_IOAPIC_NUM_PINS then
                     let s = (if ioregsel s AND 1 \<noteq> 0 then upd_entry (nat index) (set_hi_part val) s
                              else upd_entry (nat index) (set_lo_part val) s)
                     in service_ioapic s
                   else panic_ioapic s)"

text \<open>The handlers for the memory, on the bytes of the access in the order of memory.\<close>

definition le_bytes :: "nat \<Rightarrow> Bit32u \<Rightarrow> Bit8u list" where
  "le_bytes n v = map (\<lambda>k. ucast (drop_bit (8 * k) v)) [0..<n]"

fun le_word :: "Bit8u list \<Rightarrow> Bit32u" where
  "le_word [] = 0"
| "le_word (b # bs) = ucast b OR push_bit 8 (le_word bs)"

definition ioapic_read :: "Bit64u \<Rightarrow> Bit8u list \<Rightarrow> bx_ioapic_c \<Rightarrow> (bool \<times> Bit8u list) \<times> bx_ioapic_c" where
  "ioapic_read a20addr data s =
     (let len = length data
      in if a20addr AND NOT 0x3 \<noteq> (a20addr + of_nat len - 1) AND NOT 0x3 then ((True, data), panic_ioapic s)
         else
           let (val, s) = ioapic_read_aligned (a20addr AND NOT 0x3) s
           in if len = 4 then ((True, le_bytes 4 val), s)
              else
                let val = drop_bit (unat (a20addr AND 3) * 8) val
                in if len = 1 then ((True, le_bytes 1 (val AND 0xff)), s)
                   else if len = 2 then ((True, le_bytes 2 (val AND 0xffff)), s)
                   else ((True, data), panic_ioapic s))"

definition ioapic_write :: "Bit64u \<Rightarrow> Bit8u list \<Rightarrow> bx_ioapic_c \<Rightarrow> bool \<times> bx_ioapic_c" where
  "ioapic_write a20addr data s =
     (let len = length data
      in if a20addr AND 0xf \<noteq> 0 then (True, panic_ioapic s)
         else if len = 4 then (True, ioapic_write_aligned a20addr (le_word data) s)
         else
           let s = (if a20addr AND 0xff \<noteq> 0 then panic_ioapic s else s)
           in if len = 2 then (True, ioapic_write_aligned a20addr (le_word data) s)
              else if len = 1 then (True, ioapic_write_aligned a20addr (le_word data) s)
              else (True, panic_ioapic s))"

section \<open>Connection to the memory\<close>

abbreviation (input) ioapic_read_fn :: nat where "ioapic_read_fn \<equiv> 20"
abbreviation (input) ioapic_write_fn :: nat where "ioapic_write_fn \<equiv> 21"
abbreviation (input) theIOAPIC :: nat where "theIOAPIC \<equiv> 22"

definition ioapic_env :: "bx_ioapic_c mem_env \<Rightarrow> bx_ioapic_c mem_env" where
  "ioapic_env env = env\<lparr>
     call_read := (\<lambda>f p a d m. if f = ioapic_read_fn then ioapic_read a d m else call_read env f p a d m),
     call_write := (\<lambda>f p a d m. if f = ioapic_write_fn then ioapic_write a d m else call_write env f p a d m)\<rparr>"

definition set_enabled :: "bool \<Rightarrow> Bit16u \<Rightarrow> bx_ioapic_c BX_MEM_C_scheme \<Rightarrow> bx_ioapic_c BX_MEM_C_scheme" where
  "set_enabled en base_offset s =
     (let io = BX_MEM_C.more s;
          reg = (\<lambda>base s. snd (registerMemoryHandlers theIOAPIC (Some ioapic_read_fn) (Some ioapic_write_fn) None base (base + 0xfff) s));
          unreg = (\<lambda>base s. snd (unregisterMemoryHandlers theIOAPIC base (base + 0xfff) s));
          newbase = BX_IOAPIC_BASE_ADDR OR ucast base_offset
      in if en \<noteq> ioapic_enabled io then
           if en then reg newbase (BX_MEM_C.more_update (\<lambda>io. io\<lparr>ioapic_base_addr := newbase, ioapic_enabled := True\<rparr>) s)
           else unreg (ioapic_base_addr io) (BX_MEM_C.more_update (\<lambda>io. io\<lparr>ioapic_enabled := False\<rparr>) s)
         else if ioapic_enabled io \<and> ucast base_offset \<noteq> ioapic_base_addr io AND 0xffff then
           reg newbase (BX_MEM_C.more_update (\<lambda>io. io\<lparr>ioapic_base_addr := newbase\<rparr>) (unreg (ioapic_base_addr io) s))
         else s)"

definition ioapic_init :: "bx_ioapic_c BX_MEM_C_scheme \<Rightarrow> bx_ioapic_c BX_MEM_C_scheme" where
  "ioapic_init s = set_enabled True 0x0000 s"

end
