(* ===== verification/Lapic_Regs.thy ===== *)
theory Lapic_Regs
  imports Apic_Bus
begin

text \<open>
  The registers of the local APIC as a program sees them: their reserved bits stay clear and a disabled APIC keeps its
  local interrupts masked, a written register reads back, and the timer counts down at the divided rate.
\<close>

unbundle bit_operations_syntax

section \<open>Well-formed registers\<close>

definition divide_factors :: "Bit32u set" where
  "divide_factors = {1, 2, 4, 8, 16, 32, 64, 128}"

definition reg_ok :: "bx_local_apic_c \<Rightarrow> bool" where
  "reg_ok l \<longleftrightarrow> (\<forall>i<7. lvt l i AND NOT (lvt_mask ! i) = 0) \<and> (\<not> software_enabled l \<longrightarrow> (\<forall>i<7. bit (lvt l i) 16))
     \<and> (\<not> tsc_deadline_supported l \<longrightarrow> lvt l 0 AND 0x40000 = 0)
     \<and> timer_divide_factor l \<in> divide_factors \<and> timer_divconf l AND NOT 0xb = 0
     \<and> dest_format l \<le> 0xf \<and> icr_lo l AND 0x1000 = 0 \<and> icr_hi l AND 0x00ffffff = 0 \<and> mode l \<le> 3
     \<and> \<not> xapic_ext_supported l"

lemma reg_frame:
  assumes "reg_ok l" "lvt m = lvt l" "software_enabled m = software_enabled l" "tsc_deadline_supported m = tsc_deadline_supported l"
    "timer_divide_factor m = timer_divide_factor l" "timer_divconf m = timer_divconf l" "dest_format m = dest_format l"
    "icr_lo m = icr_lo l" "icr_hi m = icr_hi l" "mode m = mode l" "xapic_ext_supported m = xapic_ext_supported l"
  shows "reg_ok m"
  using assms by (simp add: reg_ok_def)

lemma service_regs [simp]:
  "lvt (service_local_apic l) = lvt l" "software_enabled (service_local_apic l) = software_enabled l"
  "tsc_deadline_supported (service_local_apic l) = tsc_deadline_supported l" "timer_divide_factor (service_local_apic l) = timer_divide_factor l"
  "timer_divconf (service_local_apic l) = timer_divconf l" "dest_format (service_local_apic l) = dest_format l"
  "icr_lo (service_local_apic l) = icr_lo l" "icr_hi (service_local_apic l) = icr_hi l" "mode (service_local_apic l) = mode l"
  "timer_active (service_local_apic l) = timer_active l" "timer_initial (service_local_apic l) = timer_initial l"
  "timer_handle (service_local_apic l) = timer_handle l"
  by (simp_all add: service_local_apic_def signal_event_def Let_def)

lemmas vector_ops = trigger_irq_def set_tpr_def receive_EOI_def retire_vector_def acknowledge_int_def apic_bus_broadcast_eoi_def
  panic_lapic_def clear_event_def Let_def

lemma trigger_regs: "reg_ok l \<Longrightarrow> reg_ok (trigger_irq v tm byp l)"
  by (rule reg_frame [of l]) (simp_all add: vector_ops)

lemma masked_lvt: "i < 7 \<Longrightarrow> 0x10000 AND NOT (lvt_mask ! i) = 0"
  by (auto simp: lvt_mask_def less_Suc_eq numeral_eq_Suc)

lemma mask_lvt: "i < 7 \<Longrightarrow> x AND NOT (lvt_mask ! i) = 0 \<Longrightarrow> (x OR 0x10000) AND NOT (lvt_mask ! i) = 0"
  using masked_lvt by (simp add: bit.conj_disj_distrib2)

lemma bit_masked [simp]: "bit (x OR 0x10000) 16" for x :: Bit32u
  by (simp add: bit_or_iff)

lemma svr_regs: "reg_ok l \<Longrightarrow> reg_ok (write_spurious_interrupt_register v l)"
  by (auto simp: reg_ok_def write_spurious_interrupt_register_def Let_def masked_lvt bit.conj_disj_distrib2)

lemma lvt_entry_less: "regs_from 0x320 6 r \<Longrightarrow> reg_index 0x320 r < 6"
  by (auto simp: regs_from_def reg_index_def upt_rec)

lemma index_0: "regs_from 0x320 6 r \<Longrightarrow> reg_index 0x320 r = 0 \<longleftrightarrow> r = 0x320"
  by (auto simp: regs_from_def reg_index_def upt_rec)

lemma set_lvt_regs:
  assumes "reg_ok l" "regs_from 0x320 6 r \<or> r = 0x2F0"
  shows "reg_ok (fst (set_lvt_entry r v (l, s)))"
proof -
  define e where "e = (if r = 0x2F0 then 6 else reg_index 0x320 r)"
  have e: "e < 7" using assms(2) lvt_entry_less [of r] by (auto simp: e_def)
  have e0: "e = 0 \<longleftrightarrow> r = 0x320" using assms(2) index_0 [of r] by (auto simp: e_def)
  define w where "w = (if r = 0x320 \<and> \<not> tsc_deadline_supported l then v AND NOT 0x40000 else v) AND lvt_mask ! e"
  have w: "w AND NOT (lvt_mask ! e) = 0" by (simp add: w_def and.assoc)
  have w0: "w AND 0x40000 = 0" if "\<not> tsc_deadline_supported l" "e = 0"
    using that e0 by (simp add: w_def and.assoc and.commute and.left_commute)
  have lvt: "lvt (fst (set_lvt_entry r v (l, s))) = (lvt l)(e := if software_enabled l then w else w OR 0x10000)"
    by (simp add: set_lvt_entry_def stop_timer_def Let_def w_def e_def split: prod.splits)
  have same: "software_enabled (fst (set_lvt_entry r v (l, s))) = software_enabled l"
    "tsc_deadline_supported (fst (set_lvt_entry r v (l, s))) = tsc_deadline_supported l"
    "timer_divide_factor (fst (set_lvt_entry r v (l, s))) = timer_divide_factor l"
    "timer_divconf (fst (set_lvt_entry r v (l, s))) = timer_divconf l" "dest_format (fst (set_lvt_entry r v (l, s))) = dest_format l"
    "icr_lo (fst (set_lvt_entry r v (l, s))) = icr_lo l" "icr_hi (fst (set_lvt_entry r v (l, s))) = icr_hi l"
    "mode (fst (set_lvt_entry r v (l, s))) = mode l" "xapic_ext_supported (fst (set_lvt_entry r v (l, s))) = xapic_ext_supported l"
    by (simp_all add: set_lvt_entry_def stop_timer_def Let_def split: prod.splits)
  show ?thesis using assms(1) w w0 mask_lvt [OF e w] unfolding reg_ok_def same lvt
    by (simp add: bit.conj_disj_distrib2) auto
qed

lemma and_0xb: "v AND 0xb \<in> {0, 1, 2, 3, 8, 9, 10, 11}" for v :: Bit32u
proof -
  define w where "w = v AND 0xb"
  have "unat w < 12" using word_and_le1 [of v "0xb"] by (simp add: w_def word_le_nat_alt)
  then have "unat w \<in> {0, 1, 2, 3, 4, 5, 6, 7, 8, 9, 10, 11}" by simp presburger
  then have "of_nat (unat w) \<in> (of_nat :: nat \<Rightarrow> Bit32u) ` {0, 1, 2, 3, 4, 5, 6, 7, 8, 9, 10, 11}" by (rule imageI)
  then have "w \<in> {0, 1, 2, 3, 4, 5, 6, 7, 8, 9, 10, 11}" by simp
  moreover have "w AND 4 = 0" by (simp add: w_def and.assoc)
  ultimately show ?thesis unfolding w_def [symmetric] by auto
qed

lemma divide_factor:
  assumes "w \<in> {0, 1, 2, 3, 8, 9, 10, 11}"
  shows "\<exists>f\<in>divide_factors. set_divide_configuration w l = l\<lparr>timer_divide_factor := f\<rparr>"
  using assms unfolding set_divide_configuration_def Let_def divide_factors_def by (elim insertE) simp_all

lemma divide_regs:
  assumes "reg_ok l"
  shows "reg_ok (set_divide_configuration (v AND 0xb) (l\<lparr>timer_divconf := v AND 0xb\<rparr>))"
proof -
  obtain f where f: "f \<in> divide_factors"
    "set_divide_configuration (v AND 0xb) (l\<lparr>timer_divconf := v AND 0xb\<rparr>) = l\<lparr>timer_divconf := v AND 0xb, timer_divide_factor := f\<rparr>"
    using divide_factor [OF and_0xb] by blast
  show ?thesis unfolding f(2) using assms f(1) by (simp add: reg_ok_def and.assoc)
qed

lemma set_base_regs:
  assumes "reg_ok l" shows "reg_ok (set_base a l)"
proof -
  have m: "ucast (drop_bit 10 a AND 3 :: Bit64u) \<le> (3 :: Bit32u)"
  proof -
    have "unat (drop_bit 10 a AND 3) \<le> 3" using word_and_le1 [of "drop_bit 10 a" 3] by (simp add: word_le_nat_alt)
    then show ?thesis by (simp add: word_le_nat_alt unsigned_ucast_eq take_bit_nat_eq_self)
  qed
  have "reg_ok (l\<lparr>ldr := d, mode := k, base_addr := c\<rparr>)" "reg_ok (l\<lparr>mode := k, base_addr := c\<rparr>)" if "k \<le> 3" for c d k
    using assms that by (simp_all add: reg_ok_def)
  then show ?thesis using m by (simp add: set_base_def Let_def svr_regs)
qed

interpretation lregs: lapic_invariant reg_ok
proof unfold_locales
  fix l assume "reg_ok l"
  then show "\<not> xapic_ext_supported l" by (simp add: reg_ok_def)
next
  fix l e e' val and s :: bx_pc_system_c assume l: "reg_ok l"
  show "reg_ok (deliver_SMI l)" "reg_ok (deliver_NMI l)" "reg_ok (deliver_INIT l)"
    "reg_ok (l\<lparr>shadow_error_status := e\<rparr>)" "reg_ok (l\<lparr>error_status := e, shadow_error_status := e'\<rparr>)"
    "reg_ok (l\<lparr>ldr := val\<rparr>)" "reg_ok (panic_lapic l)"
    by (rule reg_frame [OF l]; simp add: event_defs panic_lapic_def)+
  show "reg_ok (l\<lparr>icr_lo := val AND NOT 0x1000\<rparr>)" "reg_ok (l\<lparr>icr_hi := val AND 0xff000000\<rparr>)"
    using l by (simp_all add: reg_ok_def and.assoc)
  show "reg_ok (l\<lparr>dest_format := drop_bit 28 val AND 0xf\<rparr>)"
    using l word_and_le1 [of "drop_bit 28 val" "0xf"] by (simp add: reg_ok_def)
  show "reg_ok (fst (lapic_reset (l, s)))"
    using l by (simp add: reg_ok_def lapic_reset_def reset_timers_def stop_timer_def deactivate_vmx_preemption_timer_def
        deactivate_mwaitx_timer_def Let_def divide_factors_def masked_lvt split: prod.splits if_splits)
next
  fix l v p val d and s :: bx_pc_system_c assume l: "reg_ok l"
  show "reg_ok (deliver_SIPI v l)" by (rule reg_frame [OF l]; simp add: event_defs)
  show "reg_ok (set_tpr p l)" "reg_ok (receive_EOI val l)" "reg_ok (snd (acknowledge_int l))"
    by (rule reg_frame [OF l]; simp add: vector_ops)+
  show "reg_ok (fst (set_initial_timer_count val (l, s)))" "reg_ok (fst (set_tsc_deadline d (l, s)))"
    by (rule reg_frame [OF l]; simp add: set_initial_timer_count_def set_tsc_deadline_def stop_timer_def start_count_def Let_def
        split: prod.splits if_splits)+
  show "reg_ok (fst (lapic_periodic (l, s)))"
    by (rule reg_frame [OF l]; simp add: lapic_periodic_def start_count_def trigger_irq_def Let_def)
qed (simp_all add: trigger_regs svr_regs set_base_regs set_lvt_regs divide_regs)

text \<open>A machine in which every local APIC has just been reset, and a small example of one.\<close>

definition all_reset :: "'a apic_bus_scheme \<Rightarrow> bool" where
  "all_reset b \<longleftrightarrow> (\<forall>i. \<exists>l (s :: bx_pc_system_c). cpus b i = fst (lapic_reset (l, s)) \<and> \<not> xapic_ext_supported l)"

definition pc_blank :: bx_pc_system_c where
  "pc_blank = \<lparr>timer = (\<lambda>_. \<lparr>inUse = False, period = 0, timeToFire = 0, active = False, continuous = False, funct = None,
       this_ptr = 0, timer_id = [], param = 0\<rparr>), numTimers = 0, triggeredTimer = 0, currCountdown = 0xffffffff,
     currCountdownPeriod = 0xffffffff, ticksTotal = 0, lastTimeUsec = 0, usecSinceLast = 0, HRQ = False, async_event = False,
     enable_a20 = True, a20_mask = 0, kill_bochs_request = False, bx_user_quit = False\<rparr>"

definition lapic_blank :: "Bit32u \<Rightarrow> bx_local_apic_c" where
  "lapic_blank ident = \<lparr>pending_event = 0, event_mask = 0, cpu_async_event = 0, activity_state = 0, monitor_addr = 0, armed = False,
     in_vmx_guest = False, RIP = 0, cs_loads = [], vmexits = [], xapic_ext_supported = False, tsc_deadline_supported = False,
     base_addr = 0, mode = 0, xapic = True, xapic_ext = 0, apic_id = ident, apic_version_id = 0, software_enabled = False,
     spurious_vector = 0, focus_disable = False, task_priority = 0, ldr = 0, dest_format = 0, isr = (\<lambda>_. 0), tmr = (\<lambda>_. 0),
     irr = (\<lambda>_. 0), ier = (\<lambda>_. 0), error_status = 0, shadow_error_status = 0, icr_hi = 0, icr_lo = 0, lvt = (\<lambda>_. 0),
     timer_initial = 0, timer_current = 0, ticksInitial = 0, timer_divconf = 0, timer_divide_factor = 0, timer_active = False,
     timer_handle = 1, vmx_timer_handle = 2, vmx_preemption_timer_value = 0, vmx_preemption_timer_initial = 0,
     vmx_preemption_timer_fire = 0, vmx_preemption_timer_rate = 0, vmx_timer_active = False, mwaitx_timer_handle = 3,
     mwaitx_timer_active = False, eoi_log = [], lapic_panics = 0\<rparr>"

definition apic_sample :: apic_bus where
  "apic_sample = \<lparr>bx_cpu_count = 2, apic_id_mask = 0xff, cpus = (\<lambda>i. fst (lapic_reset (lapic_blank (of_nat i), pc_blank)))\<rparr>"

lemma reset_sample: "all_reset apic_sample"
  unfolding all_reset_def apic_sample_def by (auto intro!: exI [of _ "lapic_blank _"] exI [of _ pc_blank] simp: lapic_blank_def)

lemma sample_cpu:
  "apic_id (cpus apic_sample i) = of_nat i" "dest_format (cpus apic_sample i) = 0xf" "spurious_vector (cpus apic_sample i) = 0xff"
  "pending_event (cpus apic_sample i) = 0" "task_priority (cpus apic_sample i) = 0" "xapic (cpus apic_sample i)"
  "vectors (isr (cpus apic_sample i)) = {}" "vectors (irr (cpus apic_sample i)) = {}" "event_mask (cpus apic_sample i) = 0"
  "bx_cpu_count apic_sample = 2" "apic_id_mask apic_sample = 0xff" "lapic_panics (cpus apic_sample i) = 0"
  "mode (cpus apic_sample i) = 2" "timer_divide_factor (cpus apic_sample i) = 1" "ldr (cpus apic_sample i) = 0"
  "software_enabled (cpus apic_sample i) = False" "tsc_deadline_supported (cpus apic_sample i) = False" "lvt (cpus apic_sample i) 0 = 0x10000"
  by (simp_all add: apic_sample_def lapic_reset_def reset_timers_def stop_timer_def deactivate_vmx_preemption_timer_def
      deactivate_mwaitx_timer_def lapic_blank_def Let_def vectors_zero)

lemma all_reset_ok: "all_reset b \<Longrightarrow> lapic_ok (cpus b i)"
  unfolding all_reset_def by (metis reset_ok)

lemma reset_regs: "\<not> xapic_ext_supported l \<Longrightarrow> reg_ok (fst (lapic_reset (l, s)))"
  by (simp add: reg_ok_def lapic_reset_def reset_timers_def stop_timer_def deactivate_vmx_preemption_timer_def
        deactivate_mwaitx_timer_def Let_def divide_factors_def masked_lvt split: prod.splits if_splits)

lemma all_reset_regs: "all_reset b \<Longrightarrow> reg_ok (cpus b i)"
  unfolding all_reset_def by (metis reset_regs)

text \<open>
  C5: After any run that starts with the local APICs reset, on CPUs without the extended xAPIC registers, of register writes,
  messages, timers, resets and acknowledged interrupts in any order: when an interrupt is pending that the CPU should
  take, its line is up; only vectors from 16 on are requested or in service, and no two vectors of one priority
  class are in service.
\<close>

theorem apic_invariant:
  assumes "all_reset (fst x)" "apic_step\<^sup>*\<^sup>* x y"
  shows "(deliverable (cpus (fst y) i) \<longrightarrow> pending_intr (cpus (fst y) i))
    \<and> vectors (irr (cpus (fst y) i)) \<union> vectors (isr (cpus (fst y) i)) \<subseteq> {16..<256}
    \<and> inj_on (\<lambda>v. v div 16) (vectors (isr (cpus (fst y) i)))"
proof -
  have "lok.all_ok (fst y)" using lok.steps_all [OF assms(2)] all_reset_ok [OF assms(1)] by (simp add: lok.all_ok_def)
  then show ?thesis by (auto simp: lok.all_ok_def lapic_ok_def lapic_core_def)
qed

text \<open>
  C18: After any run from a reset, on CPUs without the extended xAPIC registers: each local vector entry lies within the mask
  of its register and is masked while the APIC is disabled by software; the timer entry has no TSC-deadline bit where
  that is not supported; the divide factor is a power of two up to 128 and the divide configuration lies within its mask
  0xb; the destination format has 4 bits; the delivery-status bit of the low command register is clear and the high
  command register holds only the destination byte; and the mode has 2 bits.
\<close>

theorem registers_wellformed:
  assumes "all_reset (fst x)" "apic_step\<^sup>*\<^sup>* x y"
  shows "reg_ok (cpus (fst y) i)"
proof -
  have "lregs.all_ok (fst y)" using lregs.steps_all [OF assms(2)] all_reset_regs [OF assms(1)] by (simp add: lregs.all_ok_def)
  then show ?thesis by (simp add: lregs.all_ok_def)
qed

text \<open>
  C7: When the CPU acknowledges while the line of its APIC is up, and the APIC satisfies the invariant (\<open>lapic_ok\<close>), it is
  given the highest requested vector if that is above the classes of the task and of the vectors in service; the vector
  moves from the requests to the service register, above all others there. If not, it is given the spurious vector, no
  vector moves and the line goes down.
\<close>

theorem acknowledge_takes_highest:
  assumes "lapic_ok l" "pending_intr l" "acknowledge_int l = (v, l')"
  shows "if deliverable l
    then unat v = Max (vectors (irr l)) \<and> vectors (irr l') = vectors (irr l) - {unat v}
      \<and> vectors (isr l') = insert (unat v) (vectors (isr l)) \<and> (\<forall>w\<in>vectors (isr l). w div 16 < unat v div 16)
    else v = spurious_vector l \<and> vectors (irr l') = vectors (irr l) \<and> vectors (isr l') = vectors (isr l) \<and> \<not> pending_intr l'"
proof (cases "deliverable l")
  case True
  let ?m = "Max (vectors (irr l))"
  have "?m < 256" by (rule Max_vectors(2)) (use True in \<open>simp add: deliverable_def\<close>)
  then have m: "unat (of_nat ?m :: Bit8u) = ?m" by (simp add: unat_of_nat take_bit_nat_eq_self)
  have "w div 16 < ?m div 16" if "w \<in> vectors (isr l)" for w
  proof -
    have "w div 16 \<le> Max (vectors (isr l)) div 16" using that by (intro div_le_mono Max_ge) simp_all
    moreover have "Max (vectors (isr l)) div 16 < ?m div 16" using True that by (auto simp: deliverable_def)
    ultimately show ?thesis by simp
  qed
  then show ?thesis using True assms(3) acknowledge_taken [OF ok_core [OF assms(1)] True assms(2)] taken_frame [OF True] m by auto
next
  case False
  then show ?thesis using assms(3) acknowledge_spurious [OF ok_core [OF assms(1)] False assms(2)]
    by (auto simp: clear_event_def is_pending_def and.assoc)
qed

text \<open>
  C6: Take an APIC that satisfies the invariant (\<open>lapic_ok\<close>), has nothing in service, and whose spurious vector is not
  among the requested vectors above the class of its task (an EOI for that vector would be ignored). A CPU that
  acknowledges and signals the end of interrupt as many times as there are such vectors is given each of them
  once, from the highest to the lowest; exactly the requests not above the task stay; and if there was at least one
  such vector, the line is down afterwards.
\<close>

theorem all_requests_served:
  assumes "lapic_ok l" "vectors (isr l) = {}" "unat (spurious_vector l) \<notin> above_task l"
  shows "map unat (fst (drain (card (above_task l)) l)) = rev (sorted_list_of_set (above_task l))
    \<and> vectors (irr (snd (drain (card (above_task l)) l))) = vectors (irr l) - above_task l
    \<and> (above_task l \<noteq> {} \<longrightarrow> \<not> pending_intr (snd (drain (card (above_task l)) l)))"
proof -
  have "finite (above_task l)" by (simp add: above_task_def)
  then have "above_task l \<noteq> {} \<longleftrightarrow> 0 < card (above_task l)" by (simp add: card_gt_0_iff)
  then show ?thesis using drain_all [OF assms refl] by blast
qed

section \<open>The timer\<close>

lemma time_skew: "time_ticks (skew_countdown t s) = time_ticks s"
  by (simp add: skew_countdown_def time_ticks_def)

lemma time_activate: "time_ticks (activate_timer_ticks i t c s) = time_ticks s"
  by (simp add: activate_timer_ticks_def Let_def time_skew) (simp add: upd_timer_def time_ticks_def)

lemma time_deactivate: "time_ticks (deactivate_timer i s) = time_ticks s"
  by (simp add: deactivate_timer_def upd_timer_def time_ticks_def)

lemma timer_activate:
  "timer (activate_timer_ticks i t c s) i = (timer s i)\<lparr>period := (if t < 1 then 1 else t),
     timeToFire := time_ticks s + (if t < 1 then 1 else t), active := True, continuous := c\<rparr>"
  by (simp add: activate_timer_ticks_def Let_def skew_countdown_def upd_timer_def)

lemma start_shape:
  assumes "lvt l 0 AND 0x40000 = 0" "n \<noteq> 0" "set_initial_timer_count n (l, s) = (l', s')"
  shows "l' = l\<lparr>timer_initial := n, timer_current := n, timer_active := True, ticksInitial := time_ticks s\<rparr>"
    "time_ticks s' = time_ticks s" "active (timer s' (nat (timer_handle l)))" "\<not> continuous (timer s' (nat (timer_handle l)))"
    "timeToFire (timer s' (nat (timer_handle l))) = time_ticks s + ucast n * ucast (timer_divide_factor l)
      \<or> ucast n * ucast (timer_divide_factor l) < (1 :: Bit64u)"
  using assms
  by (auto simp: set_initial_timer_count_def stop_timer_def start_count_def Let_def time_deactivate time_activate timer_activate
      split: if_splits)

lemma unat_factor: "d \<in> divide_factors \<Longrightarrow> 0 < unat d \<and> unat d \<le> 128"
  by (auto simp: divide_factors_def)

lemma unat_wide: "unat (ucast w :: Bit64u) = unat w" for w :: Bit32u
  by (rule unat_widen)

text \<open>
  C17: Writing a non-zero initial count, with the timer not in TSC-deadline mode and a legal divide factor, starts a countdown
  at the divided rate: a read after \<open>t\<close> ticks gives the initial count less the whole periods passed, until the count
  is zero, and never trips the consistency check; the timer of the PC system is armed once for the tick at
  which the count is zero.
\<close>

theorem timer_counts_down:
  assumes "lvt l 0 AND 0x40000 = 0" "n \<noteq> 0" "timer_divide_factor l \<in> divide_factors"
    "set_initial_timer_count n (l, s) = (l', s')" "time_ticks s2 = time_ticks s + of_nat t"
    "t \<le> unat n * unat (timer_divide_factor l)"
  shows "unat (fst (get_current_timer_count l' s2)) = unat n - t div unat (timer_divide_factor l)
    \<and> lapic_panics (snd (get_current_timer_count l' s2)) = lapic_panics l
    \<and> active (timer s' (nat (timer_handle l))) \<and> \<not> continuous (timer s' (nat (timer_handle l)))
    \<and> timeToFire (timer s' (nat (timer_handle l))) = time_ticks s + of_nat (unat n * unat (timer_divide_factor l))"
proof -
  define d where "d = unat (timer_divide_factor l)"
  note sh = start_shape [OF assms(1,2,4)]
  have d: "0 < d" "d \<le> 128" using unat_factor [OF assms(3)] by (auto simp: d_def)
  have n: "0 < unat n" "unat n < 2 ^ 32" using assms(2) unat_less_32 by (simp_all add: unat_gt_0)
  have nd: "unat n * d < 2 ^ 32 * 2 ^ 8"
    using mult_strict_mono [of "unat n" "2 ^ 32" d "2 ^ 8"] n d by simp
  have t: "t < 2 ^ 40" using assms(6) nd by (simp add: d_def)
  define q where "q = t div d"
  have q: "q \<le> unat n" using assms(6) d by (metis q_def d_def div_le_mono nonzero_mult_div_cancel_right not_gr0)
  have "unat (of_nat t :: Bit64u) = t" using t by (simp add: unat_of_nat take_bit_nat_eq_self)
  then have "unat ((time_ticks s2 - ticksInitial l') div ucast (timer_divide_factor l)) = q"
    using sh(1) assms(5) by (simp add: unat_div unat_wide q_def d_def)
  then have delta: "unat (ucast ((time_ticks s2 - ticksInitial l') div ucast (timer_divide_factor l)) :: Bit32u) = q"
    using q n by (simp add: unat_narrow)
  define w where "w = (ucast ((time_ticks s2 - ticksInitial l') div ucast (timer_divide_factor l)) :: Bit32u)"
  have "\<not> w > n" using delta q by (simp add: w_def word_less_nat_alt not_less)
  then have get: "get_current_timer_count l' s2 = (n - w, l'\<lparr>timer_current := n - w\<rparr>)"
    using assms(1) sh(1) by (simp add: get_current_timer_count_def Let_def w_def)
  have "unat (n - w) = unat n - q" using delta q by (simp add: unat_diff w_def)
  moreover have prod: "ucast n * ucast (timer_divide_factor l) = (of_nat (unat n * d) :: Bit64u)"
    by (simp add: d_def unat_wide)
  moreover have "\<not> (of_nat (unat n * d) :: Bit64u) < 1"
  proof -
    have "unat (of_nat (unat n * d) :: Bit64u) = unat n * d"
      unfolding unat_of_nat using nd by (simp add: take_bit_nat_eq_self)
    then show ?thesis using n d by (simp add: word_less_nat_alt)
  qed
  ultimately show ?thesis using sh get by (simp add: q_def d_def)
qed

section \<open>Reading registers back\<close>

definition read_reg :: "nat \<Rightarrow> Bit64u \<Rightarrow> 'b apic_bus_scheme \<times> 'a bx_pc_system_c_scheme \<Rightarrow> Bit32u" where
  "read_reg i r x = fst (lapic_read_aligned (apic_id_mask (fst x)) r (cpus (fst x) i) (snd x))"

lemma upd_cpu_simps [simp]:
  "cpus (upd_cpu i f b) i = f (cpus b i)" "apic_id_mask (upd_cpu i f b) = apic_id_mask b" "bx_cpu_count (upd_cpu i f b) = bx_cpu_count b"
  by (simp_all add: upd_cpu_def)

lemma on_lapic_pair [simp]: "on_lapic i f (b, s) = (upd_cpu i f b, s)"
  by (simp add: on_lapic_def)

lemma register_low: "a < 0x400 \<Longrightarrow> a AND 0xff0 = a \<Longrightarrow> lapic_register a l = ucast a"
  by (simp add: lapic_register_def Let_def word_le_nat_alt word_less_nat_alt unsigned_ucast_eq take_bit_nat_eq_self)

lemmas reg_access = read_reg_def lapic_read_aligned_def lapic_write_aligned_def register_low Let_def regs_from_def upt_rec
  read_only_registers_def reg_index_def

lemma low_byte: "ucast (ucast (v AND 0xff) :: Bit8u) = v AND 0xff" for v :: Bit32u
proof -
  have "(0xff :: Bit32u) = Bit_Operations.mask 8" by (simp add: mask_eq_exp_minus_1)
  then have "v AND 0xff = take_bit 8 v" by (simp only: take_bit_eq_mask)
  moreover have "ucast (ucast (take_bit 8 v) :: Bit8u) = take_bit 8 v" by (rule bit_word_eqI) (auto simp: bit_simps)
  ultimately show ?thesis by simp
qed

lemma tpr_back: "read_reg i 0x80 (lapic_write_aligned i 0x80 v (b, s)) = v AND 0xff"
  by (simp add: reg_access set_tpr_def low_byte and.assoc)

lemma dfr_back: "read_reg i 0xE0 (lapic_write_aligned i 0xE0 v (b, s)) = v OR 0x0fffffff"
proof -
  have "push_bit 28 (drop_bit 28 v AND 0xf) OR 0x0fffffff = v OR 0x0fffffff"
  proof (rule bit_word_eqI)
    fix k assume k: "k < LENGTH(32)"
    have f: "(0x0fffffff :: Bit32u) = Bit_Operations.mask 28" "(0xf :: Bit32u) = Bit_Operations.mask 4" by (simp_all add: mask_eq_exp_minus_1)
    show "bit (push_bit 28 (drop_bit 28 v AND 0xf) OR 0x0fffffff) k = bit (v OR 0x0fffffff) k"
      using k unfolding f by (auto simp: bit_or_iff bit_push_bit_iff bit_and_iff bit_drop_bit_eq bit_mask_iff)
  qed
  then show ?thesis by (simp add: reg_access and.assoc)
qed

lemma ldr_back: "read_reg i 0xD0 (lapic_write_aligned i 0xD0 v (b, s)) = push_bit 24 (drop_bit 24 v AND apic_id_mask b)"
  by (simp add: reg_access and.assoc)

lemma icr_hi_back: "read_reg i 0x310 (lapic_write_aligned i 0x310 v (b, s)) = v AND 0xff000000"
  by (simp add: reg_access)

lemma bit_and_nz: "(drop_bit n w AND 1 \<noteq> 0) = bit w n" for w :: Bit32u
  by (simp add: and_one_eq odd_iff_mod_2_eq_one bit_iff_odd_drop_bit)

lemma svr_back:
  assumes "xapic (cpus b i)"
  shows "read_reg i 0xF0 (lapic_write_aligned i 0xF0 v (b, s)) = v AND 0x3ff"
proof -
  have "(v AND 0xff) OR (if bit v 8 then 0x100 else 0) OR (if bit v 9 then 0x200 else 0) = v AND 0x3ff"
  proof (rule bit_word_eqI)
    fix k assume k: "k < LENGTH(32)"
    have f: "(0x3ff :: Bit32u) = Bit_Operations.mask 10" "(0xff :: Bit32u) = Bit_Operations.mask 8"
      "(0x100 :: Bit32u) = 2 ^ 8" "(0x200 :: Bit32u) = 2 ^ 9" by (simp_all add: mask_eq_exp_minus_1)
    have bits: "bit (0x3ff :: Bit32u) k \<longleftrightarrow> k < 8 \<or> k = 8 \<or> k = 9" "bit (0xff :: Bit32u) k \<longleftrightarrow> k < 8"
      "bit (0x100 :: Bit32u) k \<longleftrightarrow> k = 8" "bit (0x200 :: Bit32u) k \<longleftrightarrow> k = 9"
      unfolding f using k by (auto simp only: bit_mask_iff bit_exp_iff possible_bit_word)
    show "bit ((v AND 0xff) OR (if bit v 8 then 0x100 else 0) OR (if bit v 9 then 0x200 else 0)) k = bit (v AND 0x3ff) k"
      unfolding bit_or_iff bit_and_iff bits by (cases "bit v 8"; cases "bit v 9") (simp_all only: if_True if_False bits bit_0_eq bot_apply bot_bool_def, auto)
  qed
  moreover have "read_reg i 0xF0 (lapic_write_aligned i 0xF0 v (b, s)) =
      (v AND 0xff) OR (if bit v 8 then 0x100 else 0) OR (if bit v 9 then 0x200 else 0)"
    using assms by (simp add: reg_access write_spurious_interrupt_register_def low_byte bit_and_nz or.assoc)
  ultimately show ?thesis by simp
qed

lemma divide_back: "read_reg i 0x3E0 (lapic_write_aligned i 0x3E0 v (b, s)) = v AND 0xb"
proof -
  obtain f where "set_divide_configuration (v AND 0xb) (cpus b i\<lparr>timer_divconf := v AND 0xb\<rparr>) =
      cpus b i\<lparr>timer_divconf := v AND 0xb, timer_divide_factor := f\<rparr>"
    using divide_factor [OF and_0xb] by blast
  then show ?thesis by (simp add: reg_access)
qed

lemma lvt_back:
  assumes "k \<in> {1, 2, 3, 4, 5}"
  shows "read_reg i (0x320 + 16 * of_nat k) (lapic_write_aligned i (0x320 + 16 * of_nat k) v (b, s)) =
    (v AND lvt_mask ! k) OR (if software_enabled (cpus b i) then 0 else 0x10000)"
  using assms by (elim insertE) (simp_all add: reg_access on_cpu_def set_lvt_entry_def lvt_mask_def)

lemma count_back:
  assumes "lvt (cpus b i) 0 AND 0x40000 = 0"
  shows "read_reg i 0x380 (lapic_write_aligned i 0x380 v (b, s)) = v"
  using assms by (simp add: reg_access on_cpu_def set_initial_timer_count_def stop_timer_def start_count_def)

text \<open>
  The registers of the local APIC read back what was written, up to the bits the chip has: task priority, logical
  destination and its format, spurious vector, the high command register, the local vector entries (masked while the
  APIC is disabled), the initial count and the divide configuration.
\<close>

lemma register_roundtrip:
  assumes "xapic (cpus b i)" "lvt (cpus b i) 0 AND 0x40000 = 0" "k \<in> {1, 2, 3, 4, 5}"
  shows "read_reg i 0x80 (lapic_write_aligned i 0x80 v (b, s)) = v AND 0xff
    \<and> read_reg i 0xD0 (lapic_write_aligned i 0xD0 v (b, s)) = push_bit 24 (drop_bit 24 v AND apic_id_mask b)
    \<and> read_reg i 0xE0 (lapic_write_aligned i 0xE0 v (b, s)) = v OR 0x0fffffff
    \<and> read_reg i 0xF0 (lapic_write_aligned i 0xF0 v (b, s)) = v AND 0x3ff
    \<and> read_reg i 0x310 (lapic_write_aligned i 0x310 v (b, s)) = v AND 0xff000000
    \<and> read_reg i (0x320 + 16 * of_nat k) (lapic_write_aligned i (0x320 + 16 * of_nat k) v (b, s)) =
        (v AND lvt_mask ! k) OR (if software_enabled (cpus b i) then 0 else 0x10000)
    \<and> read_reg i 0x380 (lapic_write_aligned i 0x380 v (b, s)) = v
    \<and> read_reg i 0x3E0 (lapic_write_aligned i 0x3E0 v (b, s)) = v AND 0xb"
  by (intro conjI tpr_back ldr_back dfr_back svr_back icr_hi_back lvt_back count_back divide_back assms)

section \<open>What the code does otherwise\<close>

text \<open>
  A request of the class already in service raises the line, though it may not interrupt: the CPU then finds no
  interrupt to take and is given the spurious vector.
\<close>

definition same_class :: bx_local_apic_c where
  "same_class = (lapic_blank 0)\<lparr>ier := (\<lambda>_. 0xFFFFFFFF), isr := (lapic_set_vector (\<lambda>_. 0) 0x31), spurious_vector := 0xff\<rparr>"

lemma same_class_spurious:
  "is_pending BX_EVENT_PENDING_LAPIC_INTR (trigger_irq 0x35 False False same_class)
    \<and> fst (acknowledge_int (trigger_irq 0x35 False False same_class)) = 0xff"
  by code_simp

text \<open>MWAITX arms timer 0, the null timer, instead of its own.\<close>

lemma mwaitx_arms_null_timer:
  assumes "\<not> mwaitx_timer_active l" "0 < mwaitx_timer_handle l"
  shows "\<not> continuous (timer (snd (set_mwaitx_timer v (l, s))) 0)
    \<and> timer (snd (set_mwaitx_timer v (l, s))) (nat (mwaitx_timer_handle l)) = timer s (nat (mwaitx_timer_handle l))"
  using assms by (simp add: set_mwaitx_timer_def activate_timer_ticks_def skew_countdown_def upd_timer_def Let_def)

text \<open>Entering x2APIC mode leaves the logical identifier as it was; it is computed when the mode is left.\<close>

lemma x2apic_keeps_ldr: "mode l = BX_APIC_XAPIC_MODE \<Longrightarrow> mode (set_base 0xfee00c00 l) = BX_APIC_X2APIC_MODE \<and> ldr (set_base 0xfee00c00 l) = ldr l"
  by (simp add: set_base_def Let_def)

text \<open>In x2APIC mode the command register does not read back.\<close>

lemma x2apic_icr_not_stored:
  "fst (read_x2apic 0xff 0x830 (cpus (fst (snd (write_x2apic 0 0x830 0 0x000c4500 (apic_sample, pc_blank)))) 0) pc_blank) = Some 0"
  by code_simp

text \<open>After a reset the divide configuration reads as division by two, but the timer runs undivided.\<close>

lemma reset_divide_factor:
  "timer_divconf (cpus apic_sample 0) = 0 \<and> timer_divide_factor (cpus apic_sample 0) = 1
    \<and> timer_divide_factor (set_divide_configuration 0 (cpus apic_sample 0)) = 2"
  by code_simp

text \<open>The end of an interrupt whose vector is also the spurious vector is ignored.\<close>

lemma EOI_of_spurious_ignored:
  assumes "highest_priority_int (isr l) l = uint (spurious_vector l)"
  shows "receive_EOI x l = l"
  by (simp add: receive_EOI_def Let_def assms)

section \<open>Witnesses\<close>

text \<open>Two vectors requested of the first CPU of the example.\<close>

definition requested :: "bx_local_apic_c" where
  "requested = trigger_irq 0x51 False False (trigger_irq 0x31 False False (cpus apic_sample 0))"

lemma lapic_sample_ok: "lapic_ok (cpus apic_sample i)"
  by (rule all_reset_ok [OF reset_sample])

lemma requested_ok: "lapic_ok requested"
  unfolding requested_def by (intro trigger_ok lapic_sample_ok)

lemma requested_vectors:
  "vectors (irr requested) = {0x31, 0x51}" "vectors (isr requested) = {}" "task_priority requested = 0" "spurious_vector requested = 0xff"
  by (simp_all add: requested_def trigger_irq_def get_vector_iff sample_cpu Let_def insert_commute)

lemma requested_pending: "pending_intr requested"
  by (simp add: requested_def) code_simp

text \<open>The board after a message with vector 0x31 to the first CPU.\<close>

definition messaged :: apic_bus where
  "messaged = snd (apic_bus_deliver_interrupt 0x31 0 0 False True False apic_sample)"

lemma messaged_cpu: "cpus messaged 0 = trigger_irq 0x31 False False (cpus apic_sample 0)"
proof -
  have "find (\<lambda>i. apic_id (cpus apic_sample i) = 0) [0..<2] = Some 0" by (simp add: upt_rec [of 0 2] sample_cpu)
  then show ?thesis by (simp add: messaged_def apic_bus_deliver_interrupt_def sample_cpu upd_cpu_def deliver_def)
qed

lemma messaged_deliverable: "deliverable (cpus messaged 0)"
  by (simp add: messaged_cpu deliverable_def trigger_irq_def get_vector_iff sample_cpu Let_def)

theorem apic_invariant_witness: "pending_intr (cpus messaged 0)"
proof -
  have "apic_step\<^sup>*\<^sup>* (apic_sample, pc_blank) (messaged, pc_blank)"
    unfolding messaged_def by (rule r_into_rtranclp, rule apic_step.Message)
  then show ?thesis
    using apic_invariant [of "(apic_sample, pc_blank)" "(messaged, pc_blank)" 0] reset_sample messaged_deliverable by simp
qed

theorem registers_wellformed_witness: "reg_ok (cpus (fst (lapic_write 1 0xfee000f0 0x1ff 4 (apic_sample, pc_blank))) 1)"
  using registers_wellformed [of "(apic_sample, pc_blank)" "lapic_write 1 0xfee000f0 0x1ff 4 (apic_sample, pc_blank)" 1]
    reset_sample r_into_rtranclp [of apic_step, OF apic_step.Write [of "(apic_sample, pc_blank)" 1 "0xfee000f0" "0x1ff" 4]] by simp

theorem acknowledge_takes_highest_witness:
  "unat (fst (acknowledge_int requested)) = 0x51 \<and> vectors (isr (snd (acknowledge_int requested))) = {0x51}"
proof -
  have "deliverable requested" by (simp add: deliverable_def requested_vectors)
  then show ?thesis
    using acknowledge_takes_highest [OF requested_ok requested_pending prod.collapse [symmetric]] by (simp add: requested_vectors)
qed

theorem all_requests_served_witness: "map unat (fst (drain 2 requested)) = [0x51, 0x31]"
proof -
  have a: "above_task requested = {0x31, 0x51}" by (auto simp: above_task_def requested_vectors)
  then have c: "card (above_task requested) = 2" by simp
  have "unat (spurious_vector requested) \<notin> above_task requested" by (simp add: a requested_vectors)
  then show ?thesis
    using all_requests_served [OF requested_ok requested_vectors(2)] unfolding c by (simp only: a) simp
qed

theorem timer_counts_down_witness:
  "unat (fst (get_current_timer_count (fst (set_initial_timer_count 100 (cpus apic_sample 0, pc_blank))) (pc_blank\<lparr>ticksTotal := 30\<rparr>))) = 70"
  using timer_counts_down [of "cpus apic_sample 0" 100 pc_blank "fst (set_initial_timer_count 100 (cpus apic_sample 0, pc_blank))"
      "snd (set_initial_timer_count 100 (cpus apic_sample 0, pc_blank))" "pc_blank\<lparr>ticksTotal := 30\<rparr>" 30]
  by (simp add: sample_cpu divide_factors_def time_ticks_def pc_blank_def)

theorem message_destinations_witness:
  "fst (apic_bus_deliver_interrupt 0x31 1 0 False True False apic_sample) \<and>
    cpus (snd (apic_bus_deliver_interrupt 0x31 1 0 False True False apic_sample)) 0 = cpus apic_sample 0"
proof -
  have d: "destinations 1 False apic_sample = {1}" by (auto simp: destinations_def sample_cpu less_2_cases_iff)
  have "distinct_ids apic_sample" "formats_ok apic_sample"
    by (auto simp: distinct_ids_def inj_on_def formats_ok_def sample_cpu less_2_cases_iff)
  then show ?thesis using message_destinations [of 0 apic_sample "0x31" 1 False True False] by (simp add: d sample_cpu)
qed

theorem lowest_priority_arbitration_witness:
  "snd (apic_bus_deliver_interrupt 0x31 0 APIC_DM_LOWPRI True True False apic_sample) = apic_sample"
proof -
  have "formats_ok apic_sample" by (simp add: formats_ok_def sample_cpu)
  moreover have "\<not> fst (match_logical_addr 0 (cpus apic_sample i))" for i by (simp add: match_logical_addr_def sample_cpu)
  ultimately show ?thesis
    using lowest_priority_arbitration [where b = apic_sample and v = "0x31" and dest = 0 and level = True and tm = False] by (auto simp: sample_cpu split: prod.splits bool.splits)
qed

end
