(* ===== verification/Ioapic_Props.thy ===== *)
theory Ioapic_Props
  imports Ioapic Lapic_Regs Mem_Props
begin

text \<open>
  Correctness of the I/O APIC: an interrupt raised on a pin reaches the CPU its redirection entry names and no other,
  masked pins reach none, the redirection table reads back through the memory-mapped registers, and the invariant of
  the local APICs survives everything the I/O APIC does.
\<close>

unbundle bit_operations_syntax

section \<open>Servicing the pins\<close>

lemma service_pin_idle: "\<not> bit (ioapic_irr s) b \<Longrightarrow> b < 32 \<Longrightarrow> service_pin b s = s"
  by (simp add: service_pin_def and_pow_0 Let_def)

lemma service_pin_masked: "is_masked (ioredtbl s b) \<Longrightarrow> service_pin b s = s"
  by (simp add: service_pin_def Let_def)

lemma fold_idle: "(\<And>i. i \<in> set is \<Longrightarrow> f i s = s) \<Longrightarrow> fold f is s = s"
  by (induction "is") auto

lemma service_idle: "ioapic_irr s = 0 \<Longrightarrow> service_ioapic s = s"
  unfolding service_ioapic_def by (rule fold_idle) (simp add: service_pin_idle)

lemma service_masked:
  assumes "\<And>b. bit (ioapic_irr s) b \<Longrightarrow> is_masked (ioredtbl s b)"
  shows "service_ioapic s = s"
  unfolding service_ioapic_def
proof (rule fold_idle)
  fix b assume "b \<in> set [0..<0x18]"
  then show "service_pin b s = s" using assms service_pin_idle [of s b] service_pin_masked [of s b] by (cases "bit (ioapic_irr s) b") auto
qed

lemma service_single:
  assumes "p < 0x18" "ioapic_irr s = push_bit p 1" "\<And>b. b \<noteq> p \<Longrightarrow> \<not> bit (ioapic_irr (service_pin p s)) b"
  shows "service_ioapic s = service_pin p s"
proof -
  have split: "[0..<0x18] = [0..<p] @ p # [Suc p..<0x18]" using assms(1)
    by (metis le_add_diff_inverse less_imp_le_nat upt_add_eq_append upt_conv_Cons zero_le)
  have before: "fold service_pin [0..<p] s = s"
    by (rule fold_idle) (use assms(1,2) in \<open>auto intro!: service_pin_idle simp: bit_exp_iff\<close>)
  have after: "fold service_pin [Suc p..<0x18] (service_pin p s) = service_pin p s"
    by (rule fold_idle) (use assms(3) in \<open>auto intro!: service_pin_idle\<close>)
  show ?thesis unfolding service_ioapic_def split by (simp add: before after)
qed

section \<open>From a pin to the CPU\<close>

text \<open>The message of an entry in fixed mode to one CPU.\<close>

definition routed :: "bx_io_redirect_entry_t \<Rightarrow> nat \<Rightarrow> bx_ioapic_c \<Rightarrow> bool" where
  "routed e j s \<longleftrightarrow> \<not> is_masked e \<and> delivery_mode e = APIC_DM_FIXED \<and> destination_mode e = 0
     \<and> j < bx_cpu_count s \<and> apic_id (cpus s j) = ucast (destination e)
     \<and> ucast (destination e) AND apic_id_mask s \<noteq> apic_id_mask s \<and> distinct_ids s"

lemma deliver_routed:
  assumes "routed e j s"
  shows "apic_bus_deliver_interrupt v (ucast (destination e)) (delivery_mode e) (destination_mode e \<noteq> 0) lv tm s =
    (True, upd_cpu j (trigger_irq v tm False) s)"
proof -
  have "find (\<lambda>i. apic_id (cpus s i) = ucast (destination e)) [0..<bx_cpu_count s] = Some j"
    using assms find_unique [of "\<lambda>i. apic_id (cpus s i)" "bx_cpu_count s" j] by (simp add: routed_def distinct_ids_def)
  then show ?thesis using assms by (simp add: routed_def apic_bus_deliver_interrupt_def deliver_def upd_cpu_def)
qed

lemma service_routed:
  assumes "routed (ioredtbl s p) j s" "p < 0x18" "ioapic_irr s = push_bit p 1"
  shows "service_ioapic s =
    (upd_entry p clear_delivery_status (upd_cpu j (trigger_irq (entry_vector (ioredtbl s p)) (trigger_mode (ioredtbl s p) \<noteq> 0) False) s))
      \<lparr>ioapic_irr := (if trigger_mode (ioredtbl s p) = 0 then 0 else push_bit p 1), stuck := 0\<rparr>"
    (is "_ = ?r")
proof -
  have m: "\<not> is_masked (ioredtbl s p)" "delivery_mode (ioredtbl s p) \<noteq> 7" using assms(1) by (auto simp: routed_def)
  have "ioapic_irr s AND push_bit p 1 \<noteq> 0" using assms(2,3) by (simp add: exp_eq_zero_iff)
  then have pin: "service_pin p s = ?r"
    using m assms(3) deliver_routed [OF assms(1)]
    by (simp add: service_pin_def Let_def upd_entry_def upd_cpu_def)
  have "\<not> bit (ioapic_irr ?r) b" if "b \<noteq> p" for b using that by (simp add: bit_exp_iff)
  then show ?thesis using service_single [OF assms(2,3)] pin by simp
qed

lemma level_changed: "p < 32 \<Longrightarrow> \<not> bit w p \<Longrightarrow> push_bit p (of_bool True) \<noteq> w AND push_bit p 1" for w :: Bit32u
  using and_pow_0 [of p w] by (simp add: exp_eq_zero_iff)

lemma set_irq_level_routed:
  assumes "p < 0x18" "p \<noteq> 0" "\<not> bit (intin s) p" "ioapic_irr s = 0" "routed (ioredtbl s p) j s"
  shows "set_irq_level p True s = service_ioapic (s\<lparr>intin := intin s OR push_bit p 1, ioapic_irr := push_bit p 1\<rparr>)"
  using assms level_changed [of p "intin s"] by (simp add: set_irq_level_def Let_def routed_def del: push_bit_of_1)

text \<open>A new highest request makes the CPU take it.\<close>

lemma trigger_taken:
  assumes "lapic_ok l" "0x10 \<le> v" "\<forall>w\<in>vectors (bx_local_apic_c.irr l). w < unat v" "unat (task_priority l) div 16 < unat v div 16"
    "\<forall>w\<in>vectors (bx_local_apic_c.isr l). w div 16 < unat v div 16"
  shows "pending_intr (trigger_irq v tm False l)" "fst (acknowledge_int (trigger_irq v tm False l)) = v"
proof -
  let ?l = "trigger_irq v tm False l"
  have ok: "lapic_ok ?l" by (rule trigger_ok [OF assms(1)])
  have nv: "\<not> v < 0x10" using assms(2) by (simp add: not_less)
  have ni: "unat v \<notin> vectors (bx_local_apic_c.irr l)" using assms(3) by blast
  then have irr: "vectors (bx_local_apic_c.irr ?l) = insert (unat v) (vectors (bx_local_apic_c.irr l))"
    and same: "bx_local_apic_c.isr ?l = bx_local_apic_c.isr l" "task_priority ?l = task_priority l"
    using nv by (simp_all add: trigger_irq_def Let_def get_vector_iff)
  have max: "Max (vectors (bx_local_apic_c.irr ?l)) = unat v"
    unfolding irr by (rule Max_eqI) (use assms(3) in auto)
  have "vectors (bx_local_apic_c.isr l) = {} \<or> Max (vectors (bx_local_apic_c.isr l)) div 16 < unat v div 16"
    using assms(5) Max_vectors(1) [of "bx_local_apic_c.isr l"] by metis
  then have d: "deliverable ?l" unfolding deliverable_def max same using assms(4) irr by simp
  show p: "pending_intr ?l" using ok d by (simp add: lapic_ok_def)
  have "unat (fst (acknowledge_int ?l)) = unat v"
    using acknowledge_taken [OF ok_core [OF ok] d p] by (simp add: max)
  then show "fst (acknowledge_int ?l) = v" by (simp only: word_unat_eq_iff)
qed

text \<open>An interrupt line of a device, with both controllers: the calls of \<open>raise_irq\<close> and \<open>lower_irq\<close> in \<^verbatim>\<open>pic.cc\<close>.\<close>

definition board_raise_irq :: "nat \<Rightarrow> bx_ioapic_c \<Rightarrow> bx_ioapic_c" where
  "board_raise_irq irq_no s =
     (let s = (if ioapic_present (thePic s) \<and> irq_no \<noteq> 2 then set_irq_level irq_no True s else s)
      in s\<lparr>thePic := raise_irq irq_no (thePic s)\<rparr>)"

definition board_lower_irq :: "nat \<Rightarrow> bx_ioapic_c \<Rightarrow> bx_ioapic_c" where
  "board_lower_irq irq_no s =
     (let s = (if ioapic_present (thePic s) \<and> irq_no \<noteq> 2 then set_irq_level irq_no False s else s)
      in s\<lparr>thePic := lower_irq irq_no (thePic s)\<rparr>)"

text \<open>The pin of an interrupt line: the timer is connected to pin 2.\<close>

definition pin_of :: "nat \<Rightarrow> nat" where
  "pin_of irq_no = (if irq_no = 0 then 2 else irq_no)"

text \<open>Raising a line that was low, with no other pin requesting: the message goes to the one CPU of the entry.\<close>

lemma raise_routed:
  assumes "irq_no < 0x18" "irq_no \<noteq> 2" "ioapic_present (thePic s)" "\<not> bit (intin s) (pin_of irq_no)" "ioapic_irr s = 0"
    "routed (ioredtbl s (pin_of irq_no)) j s"
  defines "p \<equiv> pin_of irq_no" and "e \<equiv> ioredtbl s (pin_of irq_no)"
  shows "p < 0x18"
    "cpus (board_raise_irq irq_no s) = (cpus s)(j := trigger_irq (entry_vector e) (trigger_mode e \<noteq> 0) False (cpus s j))"
    "intin (board_raise_irq irq_no s) = intin s OR push_bit p 1"
    "ioapic_irr (board_raise_irq irq_no s) = (if trigger_mode e = 0 then 0 else push_bit p 1)"
    "ioredtbl (board_raise_irq irq_no s) = (ioredtbl s)(p := clear_delivery_status e)"
proof -
  show p: "p < 0x18" using assms(1) by (auto simp: p_def pin_of_def)
  have p0: "p \<noteq> 0" by (auto simp: p_def pin_of_def)
  let ?s = "s\<lparr>intin := intin s OR push_bit p 1, ioapic_irr := push_bit p 1\<rparr>"
  have "set_irq_level irq_no True s = set_irq_level p True s" by (simp add: set_irq_level_def p_def pin_of_def)
  also have "\<dots> = service_ioapic ?s" using p p0 assms(4-6) by (intro set_irq_level_routed) (simp_all add: p_def)
  also have "\<dots> = (upd_entry p clear_delivery_status (upd_cpu j (trigger_irq (entry_vector e) (trigger_mode e \<noteq> 0) False) ?s))
      \<lparr>ioapic_irr := (if trigger_mode e = 0 then 0 else push_bit p 1), stuck := 0\<rparr>"
    using service_routed [of ?s p j] assms(6) p by (simp add: p_def e_def routed_def distinct_ids_def)
  finally have r: "board_raise_irq irq_no s = ((upd_entry p clear_delivery_status
      (upd_cpu j (trigger_irq (entry_vector e) (trigger_mode e \<noteq> 0) False) ?s))
      \<lparr>ioapic_irr := (if trigger_mode e = 0 then 0 else push_bit p 1), stuck := 0\<rparr>)\<lparr>thePic := raise_irq irq_no (thePic s)\<rparr>"
    using assms(2,3) by (simp add: board_raise_irq_def upd_entry_def upd_cpu_def)
  show "cpus (board_raise_irq irq_no s) = (cpus s)(j := trigger_irq (entry_vector e) (trigger_mode e \<noteq> 0) False (cpus s j))"
    "intin (board_raise_irq irq_no s) = intin s OR push_bit p 1"
    "ioapic_irr (board_raise_irq irq_no s) = (if trigger_mode e = 0 then 0 else push_bit p 1)"
    "ioredtbl (board_raise_irq irq_no s) = (ioredtbl s)(p := clear_delivery_status e)"
    unfolding r by (simp_all add: upd_entry_def upd_cpu_def p_def e_def)
qed

text \<open>
  C2: Let the I/O APIC be present, let no pin have a request, and let a device raise a line that was low (one of the 24,
  not line 2 of the cascade; line 0 is pin 2). If the redirection entry of the pin is unmasked, edge-triggered, in fixed
  mode and names by its id exactly one CPU, which is not the broadcast id and no other CPU has, then no other CPU is
  touched, the request at the pin is cleared by the delivery, and the level at the pin is the raised one. If moreover
  the vector is at least 16 and above every requested vector of that CPU, above the class of its task and of
  everything it serves, and its APIC satisfies the invariant, then the CPU's line is up and acknowledging gives that vector.
\<close>

theorem line_interrupts_cpu:
  assumes "irq_no < 0x18" "irq_no \<noteq> 2" "ioapic_present (thePic s)" "\<not> bit (intin s) (pin_of irq_no)" "ioapic_irr s = 0"
    "routed (ioredtbl s (pin_of irq_no)) j s" "trigger_mode (ioredtbl s (pin_of irq_no)) = 0"
  shows "(\<forall>i. i \<noteq> j \<longrightarrow> cpus (board_raise_irq irq_no s) i = cpus s i)
    \<and> intin (board_raise_irq irq_no s) = intin s OR push_bit (pin_of irq_no) 1
    \<and> ioapic_irr (board_raise_irq irq_no s) = 0
    \<and> (lapic_ok (cpus s j) \<and> 0x10 \<le> v \<and> entry_vector (ioredtbl s (pin_of irq_no)) = v
       \<and> (\<forall>w\<in>vectors (bx_local_apic_c.irr (cpus s j)). w < unat v)
       \<and> unat (task_priority (cpus s j)) div 16 < unat v div 16
       \<and> (\<forall>w\<in>vectors (bx_local_apic_c.isr (cpus s j)). w div 16 < unat v div 16)
       \<longrightarrow> pending_intr (cpus (board_raise_irq irq_no s) j) \<and> fst (acknowledge_int (cpus (board_raise_irq irq_no s) j)) = v)"
  using raise_routed [OF assms(1-6)] assms(7) trigger_taken [of "cpus s j" v False] by simp

text \<open>The index of a redirection register.\<close>

lemma redirection_register:
  assumes "k < 0x18"
  shows "sint (drop_bit 1 ((0x10 + 2 * of_nat k :: Bit32u) - 0x10)) = int k" "sint (drop_bit 1 ((0x11 + 2 * of_nat k :: Bit32u) - 0x10)) = int k"
    "(0x10 + 2 * of_nat k :: Bit32u) AND 1 = 0" "(0x11 + 2 * of_nat k :: Bit32u) AND 1 = 1"
    "0x10 + 2 * of_nat k \<notin> {0, 1, 2 :: Bit32u}" "0x11 + 2 * of_nat k \<notin> {0, 1, 2 :: Bit32u}"
proof -
  have "k \<in> set [0..<24]" using assms by simp
  then have "k = 0 \<or> k = 1 \<or> k = 2 \<or> k = 3 \<or> k = 4 \<or> k = 5 \<or> k = 6 \<or> k = 7 \<or> k = 8 \<or> k = 9 \<or> k = 10 \<or> k = 11 \<or> k = 12
      \<or> k = 13 \<or> k = 14 \<or> k = 15 \<or> k = 16 \<or> k = 17 \<or> k = 18 \<or> k = 19 \<or> k = 20 \<or> k = 21 \<or> k = 22 \<or> k = 23"
    by simp presburger
  then show "sint (drop_bit 1 ((0x10 + 2 * of_nat k :: Bit32u) - 0x10)) = int k" "sint (drop_bit 1 ((0x11 + 2 * of_nat k :: Bit32u) - 0x10)) = int k"
    "(0x10 + 2 * of_nat k :: Bit32u) AND 1 = 0" "(0x11 + 2 * of_nat k :: Bit32u) AND 1 = 1"
    "0x10 + 2 * of_nat k \<notin> {0, 1, 2 :: Bit32u}" "0x11 + 2 * of_nat k \<notin> {0, 1, 2 :: Bit32u}"
    by (elim disjE; simp)+
qed

lemma write_lo:
  assumes "k < 0x18" "ioregsel s = 0x10 + 2 * of_nat k"
  shows "ioapic_write_aligned 0x10 w s = service_ioapic (upd_entry k (set_lo_part w) s)"
  using redirection_register(1,3,5) [OF assms(1), folded assms(2)] assms(1) by (simp add: ioapic_write_aligned_def Let_def)

lemma write_hi:
  assumes "k < 0x18" "ioregsel s = 0x11 + 2 * of_nat k"
  shows "ioapic_write_aligned 0x10 w s = service_ioapic (upd_entry k (set_hi_part w) s)"
  using redirection_register(2,4,6) [OF assms(1), folded assms(2)] assms(1) by (simp add: ioapic_write_aligned_def Let_def)

lemma read_lo:
  assumes "k < 0x18" "ioregsel s = 0x10 + 2 * of_nat k"
  shows "ioapic_read_aligned 0x10 s = (lo (ioredtbl s k), s)"
  using redirection_register(1,3,5) [OF assms(1), folded assms(2)] assms(1) by (simp add: ioapic_read_aligned_def Let_def)

lemma read_hi:
  assumes "k < 0x18" "ioregsel s = 0x11 + 2 * of_nat k"
  shows "ioapic_read_aligned 0x10 s = (hi (ioredtbl s k), s)"
  using redirection_register(2,4,6) [OF assms(1), folded assms(2)] assms(1) by (simp add: ioapic_read_aligned_def Let_def)

lemma is_masked_bit: "is_masked e \<longleftrightarrow> bit (lo e) 16"
  by (simp only: is_masked_def bit_and_nz)

lemma masked_lo: "bit w 16 \<Longrightarrow> is_masked (set_lo_part w e)"
  by (simp add: is_masked_bit set_lo_part_def bit_and_iff)

text \<open>
  C16: A masked pin interrupts nobody: as long as every requested pin is masked, raising or lowering a masked line and
  rewriting the low half of a redirection entry so that it is masked leave all CPUs as they were.
\<close>

theorem masked_pins_are_silent:
  assumes "\<forall>b. bit (ioapic_irr s) b \<longrightarrow> is_masked (ioredtbl s b)" "is_masked (ioredtbl s (pin_of irq_no))"
  shows "cpus (set_irq_level irq_no level s) = cpus s
    \<and> (k < 0x18 \<and> bit w 16 \<and> ioregsel s = 0x10 + 2 * of_nat k \<longrightarrow> cpus (ioapic_write_aligned 0x10 w s) = cpus s)"
proof
  define p where "p = pin_of irq_no"
  have masked: "is_masked (ioredtbl s p)" using assms(2) by (simp add: p_def)
  have "service_ioapic (s\<lparr>intin := x, ioapic_irr := ioapic_irr s OR push_bit p 1\<rparr>) = s\<lparr>intin := x, ioapic_irr := ioapic_irr s OR push_bit p 1\<rparr>" for x
    by (rule service_masked) (use assms(1) masked in \<open>auto simp: bit_or_iff bit_exp_iff\<close>)
  then show "cpus (set_irq_level irq_no level s) = cpus s"
    using masked by (simp add: set_irq_level_def Let_def p_def pin_of_def split: if_splits)
  show "k < 0x18 \<and> bit w 16 \<and> ioregsel s = 0x10 + 2 * of_nat k \<longrightarrow> cpus (ioapic_write_aligned 0x10 w s) = cpus s"
  proof
    assume k: "k < 0x18 \<and> bit w 16 \<and> ioregsel s = 0x10 + 2 * of_nat k"
    have "service_ioapic (upd_entry k (set_lo_part w) s) = upd_entry k (set_lo_part w) s"
      by (rule service_masked) (use assms(1) k masked_lo in \<open>auto simp: upd_entry_def\<close>)
    then show "cpus (ioapic_write_aligned 0x10 w s) = cpus s" using write_lo [of k s w] k by (simp add: upd_entry_def)
  qed
qed

section \<open>The registers in physical memory\<close>

lemma le_word_bytes: "le_word (le_bytes 4 v) = v"
proof -
  have "le_word (le_bytes 4 v) = ucast (ucast v :: Bit8u) OR push_bit 8 (ucast (ucast (drop_bit 8 v) :: Bit8u) OR
      push_bit 8 (ucast (ucast (drop_bit 16 v) :: Bit8u) OR push_bit 8 (ucast (ucast (drop_bit 24 v) :: Bit8u))))"
    by (simp add: le_bytes_def upt_rec)
  also have "\<dots> = v"
  proof (rule bit_word_eqI)
    fix n assume "n < LENGTH(32)"
    then consider "n < 8" | "8 \<le> n" "n < 16" | "16 \<le> n" "n < 24" | "24 \<le> n" "n < 32" by fastforce
    then show "bit (ucast (ucast v :: Bit8u) OR push_bit 8 (ucast (ucast (drop_bit 8 v) :: Bit8u) OR
      push_bit 8 (ucast (ucast (drop_bit 16 v) :: Bit8u) OR push_bit 8 (ucast (ucast (drop_bit 24 v) :: Bit8u)))) :: Bit32u) n = bit v n"
      by cases (auto simp: bit_simps)
  qed
  finally show ?thesis .
qed

definition ioapic_handler :: "memory_handler_struct \<Rightarrow> bool" where
  "ioapic_handler h \<longleftrightarrow> h_begin h = 0xfec00000 \<and> h_end h = 0xfec00fff \<and> read_handler h = ioapic_read_fn
     \<and> write_handler h = Some ioapic_write_fn"

definition ioapic_mapped :: "bx_ioapic_c BX_MEM_C_scheme \<Rightarrow> bool" where
  "ioapic_mapped s \<longleftrightarrow> (\<exists>h hs. memory_handlers s 0xfec = h # hs \<and> ioapic_handler h) \<and> a20_mask s = -1"

lemma init_mapped:
  assumes "memory_handlers s 0xfec = []" "\<not> ioapic_enabled (BX_MEM_C.more s)" "a20_mask s = -1"
  shows "ioapic_mapped (ioapic_init s)"
    "BX_MEM_C.more (ioapic_init s) = (BX_MEM_C.more s)\<lparr>ioapic_base_addr := 0xfec00000, ioapic_enabled := True\<rparr>"
    "vector (ioapic_init s) = vector s"
  using assms
  by (simp_all add: ioapic_init_def set_enabled_def registerMemoryHandlers_def page_range_def ioapic_mapped_def ioapic_handler_def Let_def upt_rec)

lemma mmio_write:
  assumes "ioapic_mapped s" "a \<in> {0xfec00000, 0xfec00010}" "\<And>b n m. check_monitor env b n m = m"
  shows "writePhysicalPage (ioapic_env env) cpu a (le_bytes 4 v) s = s\<lparr>BX_MEM_C.more := ioapic_write_aligned a v (BX_MEM_C.more s)\<rparr>"
proof -
  obtain h hs where h: "memory_handlers s 0xfec = h # hs" "ioapic_handler h" "a20_mask s = -1"
    using assms(1) by (auto simp: ioapic_mapped_def)
  have len: "length (le_bytes 4 v) = 4" by (simp add: le_bytes_def)
  have a: "A20ADDR a s = a" "page_check a 4 s = s" "\<not> smram_access cpu a s" "unat (drop_bit 20 a) = 0xfec" "a AND 0xf = 0"
    "0xfec00000 \<le> a" "a \<le> 0xfec00fff"
    using assms(2) h(3) by (auto simp: A20ADDR_def page_check_def smram_access_def split: option.splits)
  have call: "call_write (ioapic_env env) ioapic_write_fn p a (le_bytes 4 v) m = (True, ioapic_write_aligned a v m)" for p m
    using a(5) len by (simp add: ioapic_env_def ioapic_write_def le_word_bytes)
  have mon: "check_monitor (ioapic_env env) b n m = m" for b n m by (simp add: ioapic_env_def assms(3))
  have "write_handlers (ioapic_env env) (h # hs) a (le_bytes 4 v) s = (True, s\<lparr>BX_MEM_C.more := ioapic_write_aligned a v (BX_MEM_C.more s)\<rparr>)"
    using h(2) a(6,7) call by (simp add: ioapic_handler_def)
  then show ?thesis using a(1-4) h(1) len mon by (simp add: writePhysicalPage_def Let_def)
qed

lemma mmio_read:
  assumes "ioapic_mapped s" "ioapic_read_aligned 0xfec00010 (BX_MEM_C.more s) = (v, BX_MEM_C.more s)"
  shows "readPhysicalPage (ioapic_env env) cpu 0xfec00010 [0, 0, 0, 0] s = (le_bytes 4 v, s)"
proof -
  obtain h hs where h: "memory_handlers s 0xfec = h # hs" "ioapic_handler h" "a20_mask s = -1"
    using assms(1) by (auto simp: ioapic_mapped_def)
  have a: "A20ADDR 0xfec00010 s = 0xfec00010" "page_check 0xfec00010 (Suc (Suc (Suc (Suc 0)))) s = s" "\<not> smram_access cpu 0xfec00010 s"
    using h(3) by (auto simp: A20ADDR_def page_check_def smram_access_def split: option.splits)
  have "read_handlers (ioapic_env env) (h # hs) 0xfec00010 [0, 0, 0, 0] s = ((True, le_bytes 4 v), s)"
    using h(2) assms(2) by (simp add: ioapic_handler_def ioapic_env_def ioapic_read_def)
  then show ?thesis using a h(1) by (simp add: readPhysicalPage_def Let_def del: read_handlers.simps)
qed

lemma aligned_offset: "ioapic_write_aligned 0xfec00010 = ioapic_write_aligned 0x10" "ioapic_read_aligned 0xfec00010 = ioapic_read_aligned 0x10"
  "ioapic_write_aligned 0xfec00000 r m = m\<lparr>ioregsel := r\<rparr>"
  by (simp_all add: ioapic_write_aligned_def ioapic_read_aligned_def fun_eq_iff)

text \<open>A register written and read the way a driver does it, by way of the select register.\<close>

definition io_write :: "bx_ioapic_c mem_env \<Rightarrow> cpu_arg \<Rightarrow> Bit32u \<Rightarrow> Bit32u \<Rightarrow> bx_ioapic_c BX_MEM_C_scheme \<Rightarrow> bx_ioapic_c BX_MEM_C_scheme" where
  "io_write env cpu r v s = writePhysicalPage (ioapic_env env) cpu 0xfec00010 (le_bytes 4 v)
     (writePhysicalPage (ioapic_env env) cpu 0xfec00000 (le_bytes 4 r) s)"

definition io_read :: "bx_ioapic_c mem_env \<Rightarrow> cpu_arg \<Rightarrow> Bit32u \<Rightarrow> bx_ioapic_c BX_MEM_C_scheme \<Rightarrow> Bit32u" where
  "io_read env cpu r s = le_word (fst (readPhysicalPage (ioapic_env env) cpu 0xfec00010 [0, 0, 0, 0]
     (writePhysicalPage (ioapic_env env) cpu 0xfec00000 (le_bytes 4 r) s)))"

lemma mapped_more [simp]: "ioapic_mapped (s\<lparr>BX_MEM_C.more := m\<rparr>) = ioapic_mapped s"
  by (simp add: ioapic_mapped_def)

lemma io_write_mapped:
  assumes "ioapic_mapped s" "\<And>b n m. check_monitor env b n m = m"
  shows "io_write env cpu r v s = s\<lparr>BX_MEM_C.more := ioapic_write_aligned 0x10 v ((BX_MEM_C.more s)\<lparr>ioregsel := r\<rparr>)\<rparr>"
  using assms by (simp add: io_write_def mmio_write aligned_offset)

lemma io_read_mapped:
  assumes "ioapic_mapped s" "\<And>b n m. check_monitor env b n m = m"
    "ioapic_read_aligned 0x10 ((BX_MEM_C.more s)\<lparr>ioregsel := r\<rparr>) = (v, (BX_MEM_C.more s)\<lparr>ioregsel := r\<rparr>)"
  shows "io_read env cpu r s = v"
  using assms by (simp add: io_read_def mmio_write aligned_offset mmio_read le_word_bytes)

text \<open>
  C15: Once the I/O APIC has registered its window with the memory, where no other handler has its megabyte, and with A20 open
  and no monitored address there, a driver that writes both halves of a redirection entry through physical
  memory reads them back, less the two read-only bits; as no pin is requesting, the other entries and the CPUs
  are untouched, and so is the RAM.
\<close>

theorem redirection_through_memory:
  assumes "memory_handlers s 0xfec = []" "\<not> ioapic_enabled (BX_MEM_C.more s)" "a20_mask s = -1" "ioapic_irr (BX_MEM_C.more s) = 0"
    "\<And>b n m. check_monitor env b n m = m" "k < 0x18"
    "t = io_write env cpu (0x10 + 2 * of_nat k) l (io_write env cpu (0x11 + 2 * of_nat k) h (ioapic_init s))"
  shows "io_read env cpu (0x10 + 2 * of_nat k) t = l AND 0xffffafff \<and> io_read env cpu (0x11 + 2 * of_nat k) t = h
    \<and> (\<forall>i. i \<noteq> k \<longrightarrow> ioredtbl (BX_MEM_C.more t) i = ioredtbl (BX_MEM_C.more s) i)
    \<and> cpus (BX_MEM_C.more t) = cpus (BX_MEM_C.more s) \<and> vector t = vector s"
proof -
  note i = init_mapped [OF assms(1-3)]
  let ?m = "BX_MEM_C.more (ioapic_init s)"
  have irr: "ioapic_irr ?m = 0" using i(2) assms(4) by simp
  let ?h = "upd_entry k (set_hi_part h) (?m\<lparr>ioregsel := 0x11 + 2 * of_nat k\<rparr>)"
  have 1: "io_write env cpu (0x11 + 2 * of_nat k) h (ioapic_init s) = (ioapic_init s)\<lparr>BX_MEM_C.more := ?h\<rparr>"
    using io_write_mapped [OF i(1) assms(5)] write_hi [OF assms(6)] irr by (simp add: service_idle upd_entry_def)
  let ?l = "upd_entry k (set_lo_part l) (?h\<lparr>ioregsel := 0x10 + 2 * of_nat k\<rparr>)"
  have 2: "t = (ioapic_init s)\<lparr>BX_MEM_C.more := ?l\<rparr>"
    unfolding assms(7) 1 using io_write_mapped [of "(ioapic_init s)\<lparr>BX_MEM_C.more := ?h\<rparr>" env, OF _ assms(5)] i(1)
      write_lo [OF assms(6)] irr by (simp add: service_idle upd_entry_def)
  have t: "ioapic_mapped t" unfolding 2 using i(1) by simp
  have "io_read env cpu (0x10 + 2 * of_nat k) t = l AND 0xffffafff"
    by (rule io_read_mapped [OF t assms(5)]) (simp add: read_lo [OF assms(6)] 2 upd_entry_def set_lo_part_def)
  moreover have "io_read env cpu (0x11 + 2 * of_nat k) t = h"
    by (rule io_read_mapped [OF t assms(5)]) (simp add: read_hi [OF assms(6)] 2 upd_entry_def set_lo_part_def set_hi_part_def)
  ultimately show ?thesis using i(2,3) by (simp add: 2 upd_entry_def)
qed

section \<open>The invariant of the local APICs\<close>

lemma pin_all:
  assumes "lok.all_ok s" shows "lok.all_ok (service_pin b s)"
proof -
  have pic: "lok.all_ok (s\<lparr>thePic := p\<rparr>)" for p using assms by (simp add: lok.all_ok_def)
  have "lok.all_ok t" if "apic_bus_deliver_interrupt v d dm lg lv tm s' = (x, t)" "lok.all_ok s'" for v d dm lg lv tm x t and s' :: bx_ioapic_c
    using lok.message_all [OF that(2), of v d dm lg lv tm] that(1) by simp
  moreover have "lok.all_ok (upd_entry i f t) = lok.all_ok t" "lok.all_ok (t\<lparr>ioapic_irr := r\<rparr>) = lok.all_ok t"
    "lok.all_ok (t\<lparr>stuck := n\<rparr>) = lok.all_ok t" for i f r n t
    by (simp_all add: lok.all_ok_def upd_entry_def)
  ultimately show ?thesis using assms pic by (auto simp: service_pin_def Let_def split: prod.splits if_splits)
qed

lemma ioapic_keeps_invariant:
  assumes "lok.all_ok s"
  shows "lok.all_ok (service_ioapic s)" "lok.all_ok (set_irq_level n lv s)" "lok.all_ok (ioapic_write_aligned a v s)"
proof -
  have serve: "lok.all_ok (service_ioapic t)" if "lok.all_ok t" for t
    unfolding service_ioapic_def by (rule fold_ok [where P = lok.all_ok]) (simp_all add: pin_all that)
  have frame: "lok.all_ok (s\<lparr>intin := x, ioapic_irr := y\<rparr>)" "lok.all_ok (s\<lparr>intin := x\<rparr>)" "lok.all_ok (s\<lparr>ioregsel := z\<rparr>)"
    "lok.all_ok (panic_ioapic s)" "lok.all_ok (upd_entry i f s)" "lok.all_ok (upd_entry i f (panic_ioapic s))"
    "lok.all_ok (set_id j s)" "lok.all_ok (set_id j (panic_ioapic s))" "lok.all_ok (panic_ioapic (panic_ioapic s))" for x y z i f j
    using assms by (simp_all add: lok.all_ok_def panic_ioapic_def upd_entry_def set_id_def)
  show "lok.all_ok (service_ioapic s)" by (rule serve [OF assms])
  show "lok.all_ok (set_irq_level n lv s)" using assms frame serve by (simp add: set_irq_level_def Let_def)
  show "lok.all_ok (ioapic_write_aligned a v s)" using assms frame serve by (simp add: ioapic_write_aligned_def Let_def)
qed

section \<open>What the code does otherwise\<close>

text \<open>
  An edge on a masked pin is not remembered: the request bit is not set, so nothing is delivered when the pin is
  unmasked.
\<close>

lemma masked_edge_forgotten:
  "is_masked (ioredtbl s (pin_of n)) \<Longrightarrow> trigger_mode (ioredtbl s (pin_of n)) = 0 \<Longrightarrow>
    ioapic_irr (set_irq_level n True s) = ioapic_irr s"
  by (cases "n = 0") (simp_all add: set_irq_level_def Let_def pin_of_def)

text \<open>
  A level-triggered request stays set when it has been delivered, until the line is lowered, and each service of the
  table delivers it again.
\<close>

lemma level_stays_requested:
  assumes "irq_no < 0x18" "irq_no \<noteq> 2" "ioapic_present (thePic s)" "\<not> bit (intin s) (pin_of irq_no)" "ioapic_irr s = 0"
    "routed (ioredtbl s (pin_of irq_no)) j s" "trigger_mode (ioredtbl s (pin_of irq_no)) \<noteq> 0"
  shows "bit (ioapic_irr (board_raise_irq irq_no s)) (pin_of irq_no)"
  using raise_routed [OF assms(1-6)] assms(7) by (simp add: bit_exp_iff)

text \<open>The end of a level-triggered interrupt, sent by the local APIC, changes nothing.\<close>

lemma eoi_ignored: "service_ioapic (receive_eoi v s) = service_ioapic s \<and> receive_eoi v s = s"
  by (simp add: receive_eoi_def)

section \<open>Witnesses\<close>

text \<open>Two CPUs, and the timer line routed to the second as vector 0x31, edge-triggered.\<close>

definition board_sample :: bx_ioapic_c where
  "board_sample = \<lparr>bx_cpu_count = 2, apic_id_mask = 0xff, cpus = cpus apic_sample, ioapic_enabled = False, ioapic_base_addr = 0,
     ioapic_id = 2, ioregsel = 0, intin = 0, ioapic_irr = 0,
     ioredtbl = (\<lambda>i. if i = 2 then \<lparr>hi = 0x01000000, lo = 0x31\<rparr> else \<lparr>hi = 0, lo = 0x10000\<rparr>), stuck = 0, thePic = pic_init True,
     ioapic_panics = 0\<rparr>"

lemma board_fields:
  "bx_cpu_count board_sample = 2" "apic_id_mask board_sample = 0xff" "cpus board_sample = cpus apic_sample" "intin board_sample = 0"
  "ioapic_irr board_sample = 0" "ioredtbl board_sample 2 = \<lparr>hi = 0x01000000, lo = 0x31\<rparr>" "ioapic_present (thePic board_sample)"
  "ioapic_enabled board_sample = False" "i \<noteq> 2 \<Longrightarrow> ioredtbl board_sample i = \<lparr>hi = 0, lo = 0x10000\<rparr>"
  by (simp_all add: board_sample_def pic_init_def)

lemma entry_sample:
  "is_masked \<lparr>hi = 0x01000000, lo = 0x31\<rparr> = False" "delivery_mode \<lparr>hi = 0x01000000, lo = 0x31\<rparr> = 0" "destination_mode \<lparr>hi = 0x01000000, lo = 0x31\<rparr> = 0"
  "destination \<lparr>hi = 0x01000000, lo = 0x31\<rparr> = 1" "entry_vector \<lparr>hi = 0x01000000, lo = 0x31\<rparr> = 0x31" "trigger_mode \<lparr>hi = 0x01000000, lo = 0x31\<rparr> = 0"
  "is_masked \<lparr>hi = 0, lo = 0x10000\<rparr>"
  by (simp_all add: is_masked_def delivery_mode_def destination_mode_def destination_def entry_vector_def trigger_mode_def)

lemma routed_sample: "routed (ioredtbl board_sample 2) 1 board_sample"
  by (auto simp: routed_def board_fields entry_sample sample_cpu distinct_ids_def inj_on_def less_2_cases_iff)

theorem line_interrupts_cpu_witness: "fst (acknowledge_int (cpus (board_raise_irq 0 board_sample) 1)) = 0x31"
  using line_interrupts_cpu [of 0 board_sample 1 "0x31"] routed_sample lapic_sample_ok [of 1]
  by (simp add: pin_of_def board_fields entry_sample sample_cpu)

theorem masked_pins_are_silent_witness: "cpus (set_irq_level 5 True board_sample) = cpus board_sample"
  using masked_pins_are_silent [of board_sample 5 True 0 0] by (simp add: pin_of_def board_fields entry_sample)

theorem redirection_through_memory_witness:
  "io_read quiet_env None 0x10 (io_write quiet_env None 0x10 0x1f831 (io_write quiet_env None 0x11 0x01000000
    (ioapic_init (mem_sample board_sample)))) = 0x1a831"
proof -
  have m: "memory_handlers (mem_sample board_sample) 0xfec = []" "\<not> ioapic_enabled (BX_MEM_C.more (mem_sample board_sample))"
    "a20_mask (mem_sample board_sample) = -1" "ioapic_irr (BX_MEM_C.more (mem_sample board_sample)) = 0"
    by (simp_all add: sample_defs board_fields)
  have "check_monitor quiet_env b n m = m" for b n and m :: bx_ioapic_c by (simp add: quiet_env_def)
  from redirection_through_memory [OF m this, of 0 _ None "0x1f831" "0x01000000"] show ?thesis by simp
qed

end
