(* ===== verification/Spec2Isabelle.thy ===== *)
theory Spec2Isabelle
  imports Arith Logical Shift Bcd Mult Pic Pit_Props Pit_Device Mem_Blocks Dma_Props Ioapic_Props
begin

text \<open>
  \<^bold>\<open>A verification development for Bochs\<close>, the x86 emulator under \<^verbatim>\<open>src/bochs/\<close> (built here
  as a level 6 CPU with 64-bit mode, APIC and SMP, see \<^verbatim>\<open>config.h\<close>).

  \<^bold>\<open>The program.\<close> A CPU object decodes an instruction into a \<open>bxInstruction_c\<close> and calls the handler of
  its opcode, which reads and writes general registers, lazily evaluated flags and memory. Between
  instructions the PC system counts ticks and calls timer handlers; the devices program timers, raise
  interrupt lines and are programmed through ports. The 8254 timer chip is one such device: the PIT
  device gives it virtual time, and its outputs drive an input of the interrupt controllers, which
  interrupt the CPU. On a board with several CPUs the lines also go to the I/O APIC, whose redirection table
  turns them into messages on the APIC bus; the local APIC of each CPU that is addressed queues the vector,
  interrupts its CPU by priority, and has timers of its own. The DMA controllers ask the PC system for the
  bus and move bytes between a device and physical memory, which serves RAM, ROM, flash and the devices that
  map their registers.

  \<^bold>\<open>Theories and sources.\<close>
  \<^item> \<^theory_text>\<open>Bochs_Prelude\<close>: the integer types, bit lemmas, carry and borrow chains, collections of facts.
  \<^item> \<^theory_text>\<open>Lazy_Flags\<close> (\<^verbatim>\<open>cpu/lazy_flags.h\<close>): the entry of result and auxiliary bits, every accessor and macro.
    \<open>lf_flags\<close> reads the six flags an entry stands for; the locale \<open>sized_flags\<close> is what an operand size
    promises, interpreted for 8, 16, 32 and 64 bits. Setting one flag leaves the five others.
  \<^item> \<^theory_text>\<open>Cpu_State\<close> (\<^verbatim>\<open>cpu/cpu.h\<close>, \<^verbatim>\<open>cpu/decoder/instr.h\<close>, \<^verbatim>\<open>cpu/flag_ctrl_pro.cc\<close>): general registers with their
    8, 16, 32 and 64-bit views, the decoded instruction, the arithmetic flags of EFLAGS.
  \<^item> \<^theory_text>\<open>Arith\<close>, \<^theory_text>\<open>Logical\<close>, \<^theory_text>\<open>Shift\<close>, \<^theory_text>\<open>Mult\<close>, \<^theory_text>\<open>Bcd\<close> (\<^verbatim>\<open>cpu/arith*.cc\<close>, \<^verbatim>\<open>cpu/logical*.cc\<close>, \<^verbatim>\<open>cpu/shift*.cc\<close>, \<^verbatim>\<open>cpu/mult*.cc\<close>,
    \<^verbatim>\<open>cpu/bcd.cc\<close>): one definition per handler, under its own name. \<open>acpu_of\<close> maps the CPU to an abstract
    machine with plain flags, and each handler refines a specification there: sums and differences of
    naturals and integers, iterated one-bit steps for shifts and rotates, exact products, quotients with
    the divide errors, decimal digits.
  \<^item> \<^theory_text>\<open>Wide_Int\<close> (\<^verbatim>\<open>cpu/wide_int.cc\<close>): 128-bit products and quotients, shown exact.
  \<^item> \<^theory_text>\<open>Pic\<close> (\<^verbatim>\<open>iodev/pic.cc\<close>): both interrupt controllers. Its invariant ties the INT output to the requests,
    the scan is shown to choose the best eligible request, and deliveries through the cascade are traced.
  \<^item> \<^theory_text>\<open>Pit82c54\<close>, \<^theory_text>\<open>Pit_Clock\<close>, \<^theory_text>\<open>Pit_Props\<close> (\<^verbatim>\<open>iodev/pit82c54.cc\<close>): the chip, the invariant of its six modes as an
    interpretation of the locale \<open>clock_invariant\<close>, from which skipping to the next event is shown equal to
    clocking one by one, and the properties of the modes, latches and ports.
  \<^item> \<^theory_text>\<open>Pit_Device\<close> (\<^verbatim>\<open>iodev/pit.cc\<close>): the device around the chip, composed with the interrupt controllers: no
    clock is lost to rounding, a timer interrupt reaches the CPU, and the virtual timer stays armed for the next
    output change the chip reports.
  \<^item> \<^theory_text>\<open>Pc_System\<close> (\<^verbatim>\<open>pc_system.cc\<close>): timers, tick accounting, A20 and hold request. The locales \<open>timer_callbacks\<close>
    and \<open>undisturbed_timer\<close> say what timer handlers keep; they are interpreted on the model's own calls.

  \<^item> \<^theory_text>\<open>Memory\<close>, \<^theory_text>\<open>Mem_Props\<close> (\<^verbatim>\<open>memory/memory.cc\<close>, \<^verbatim>\<open>memory/misc_mem.cc\<close>, \<^verbatim>\<open>memory/memory-bochs.h\<close>): physical reads and
    writes with A20, SMRAM, the areas below 1 MB, the BIOS and its flash, device handlers, direct pointers,
    DMA accesses and the stamps of cached code. A write is read back, direct accesses agree with the checked
    ones while the flash reads as an array, the ranges of the registered handlers stay disjoint.
  \<^item> \<^theory_text>\<open>Mem_Blocks\<close> (\<^verbatim>\<open>memory/misc_mem.cc\<close>): RAM in blocks that are swapped to a file. It implements the locale
    \<open>byte_store\<close>: swapping is invisible to reads and writes.
  \<^item> \<^theory_text>\<open>Dma\<close>, \<^theory_text>\<open>Dma_Props\<close> (\<^verbatim>\<open>iodev/dma.cc\<close>): both controllers on the memory model and the hold request. A channel
    reads back as programmed, a transfer stores the bytes of the device at the programmed address, and
    an expired count releases the acknowledge lines and the bus.
  \<^item> \<^theory_text>\<open>Cpu_Events\<close> (\<^verbatim>\<open>cpu/event.cc\<close>, \<^verbatim>\<open>cpu/mwait.cc\<close>, \<^verbatim>\<open>cpu/cpu.h\<close>, \<^verbatim>\<open>cpu/scalar_arith.h\<close>): pending and masked events of a CPU,
    start-up and INIT messages, the monitored line, counting leading zeros.
  \<^item> \<^theory_text>\<open>Lapic\<close> (\<^verbatim>\<open>cpu/apic.cc\<close>): the local APICs and the bus between them. \<^theory_text>\<open>Lapic_Props\<close> reads the request and service
    registers as sets of vectors and proves the invariant of one APIC; \<^theory_text>\<open>Apic_Bus\<close> lifts it to every run of the
    board by the locale \<open>lapic_invariant\<close>, interpreted for the pending line and for the ranges of the
    registers, and says which CPUs a message reaches; \<^theory_text>\<open>Lapic_Regs\<close> has acknowledge, timer and register
    properties.
  \<^item> \<^theory_text>\<open>Ioapic\<close>, \<^theory_text>\<open>Ioapic_Props\<close> (\<^verbatim>\<open>iodev/ioapic.cc\<close>): the redirection table and its delivery to the local APICs and the
    8259A; an edge on a line interrupts the CPU it is routed to with the programmed vector, masked pins are silent.

  \<^bold>\<open>Conventions.\<close> A C integer is a word of its width, a conversion is \<open>ucast\<close> or \<open>scast\<close>; the bool fields of the
  source are bool. A handler takes the state and returns the new one. \<open>BX_PANIC\<close>, which may be configured
  to go on, is recorded and execution goes on as the code does; a CPU exception is the \<open>Inl\<close> of a sum. Calls to
  another device are fields of the state that hold the line driven, or a log of the calls made; the handlers a
  device registers with another are arguments of the model. An assertion that fails is counted like a panic, and a
  fatal one, which ends the emulator, is \<open>None\<close>. The VM exit of a start-up message is logged and ends it. Log messages, the registration of the state for
  save and restore, and debugger output do not appear.

  \<^bold>\<open>Loops and bounds.\<close> The priority scans run over 8 levels, the division of a 128-bit number over 128 digits,
  both structural recursions over the counter the code has. The loop that reduces the totals of the PIT
  device and the one that clocks the chip are functions with termination proofs. \<open>tickn\<close>, whose loop runs
  timer handlers, is a partial function into \<open>option\<close>, and it is shown to return. The search for a block of RAM to
  replace has as many rounds as there are blocks, and is shown to find one when some other block is
  resident and unused by the TLBs; transfers over several pages and the count of leading zeros are functions with termination
  proofs. The invariant of the local APICs is that of CPUs without the extended xAPIC registers, where
  every vector is enabled. Elapsed virtual time of the PIT device is bounded by 3000 seconds between two
  readings, where its 64-bit products cannot wrap.

  \<^bold>\<open>Not modelled.\<close> The memory forms of the instructions, which load an operand and run the computation of the
  register form, and with them segment checks and paging; the instruction decoder, whose result the
  handlers take as an argument; floating point and vector instructions, which are an adapted copy of
  SoftFloat and rest on it; the dispatch of events between instructions; other devices; display, sound, disk image and network back ends (host I/O);
  configuration, the internal debugger; the sample kernels under \<^verbatim>\<open>x86osdev/\<close>, which are guests of the emulator.
  The conversion between microseconds and ticks in the PC system is floating point and a parameter.
\<close>

end
